(* ===== verification/Prelude.thy ===== *)
theory Prelude
  imports Complex_Main "HOL-Library.Word" "HOL-Library.Char_ord" "HOL-Library.List_Lexorder" "HOL-Library.Multiset"
begin

text \<open>
  Shared vocabulary of the development: the types that stand for JavaScript's values
  (bytes, strings, milliseconds, insertion-ordered maps), the string operations the code
  uses, and the lemma collections and generic lemmas that the component theories rest on.

  Strings are lists of characters below U+0100; a character stands for one UTF-16 code unit.
  Time is an integer number of milliseconds, as \<open>Date.now()\<close> returns it.
\<close>

unbundle bit_operations_syntax

named_theorems wf_intros \<open>well-formedness of the results of operations\<close>
named_theorems jsmap_simps \<open>insertion-ordered maps\<close>

type_synonym byte = "8 word"
type_synonym bytes = "byte list"
type_synonym millis = int

section \<open>Options and lists\<close>

text \<open>\<open>a ?? b\<close>, where the left operand may be null or undefined.\<close>

definition nullish :: "'a option \<Rightarrow> 'a \<Rightarrow> 'a" where
  "nullish x d = (case x of None \<Rightarrow> d | Some v \<Rightarrow> v)"

lemma nullish_simps [simp]: "nullish None d = d" "nullish (Some v) d = v"
  by (simp_all add: nullish_def)

text \<open>\<open>xs[i]\<close>: reading past the end gives undefined.\<close>

definition item_at :: "'a list \<Rightarrow> nat \<Rightarrow> 'a option" where
  "item_at xs i = (if i < length xs then Some (xs ! i) else None)"

lemma item_at_Some_iff: "item_at xs i = Some x \<longleftrightarrow> i < length xs \<and> xs ! i = x"
  by (auto simp: item_at_def)

lemma item_at_Nil [simp]: "item_at [] i = None"
  by (simp add: item_at_def)

lemma item_at_Cons_0 [simp]: "item_at (x # xs) 0 = Some x"
  by (simp add: item_at_def)

lemma item_at_Cons_Suc [simp]: "item_at (x # xs) (Suc i) = item_at xs i"
  by (simp add: item_at_def)

lemma item_at_Cons_numeral [simp]: "item_at (x # xs) (numeral k) = item_at xs (numeral k - 1)"
  by (simp add: item_at_def nth_Cons')

lemma item_at_append_left [simp]: "i < length xs \<Longrightarrow> item_at (xs @ ys) i = item_at xs i"
  by (simp add: item_at_def nth_append)

lemma item_at_append_length [simp]: "item_at (xs @ ys) (length xs) = item_at ys 0"
  by (simp add: item_at_def nth_append)

lemma item_at_append_right: "length xs \<le> i \<Longrightarrow> item_at (xs @ ys) i = item_at ys (i - length xs)"
  by (auto simp: item_at_def nth_append)

text \<open>\<open>slice(a, b)\<close> with \<open>0 \<le> a\<close>: the end is clipped to the length.\<close>

definition slice :: "'a list \<Rightarrow> nat \<Rightarrow> nat \<Rightarrow> 'a list" where
  "slice xs a b = take (b - a) (drop a xs)"

lemma length_slice [simp]: "length (slice xs a b) = min (b - a) (length xs - a)"
  by (simp add: slice_def)

lemma slice_append_middle [simp]:
  "slice (xs @ ys @ zs) (length xs) (length xs + length ys) = ys"
  by (simp add: slice_def)

lemma filter_neq_length_less: "x \<in> set xs \<Longrightarrow> \<not> P x \<Longrightarrow> length (filter P xs) < length xs"
  by (rule length_filter_less)

lemma distinct_map_filter_keys: "distinct (map f xs) \<Longrightarrow> distinct (map f (filter P xs))"
  by (induction xs) auto

lemma find_key_in: "find (\<lambda>d. f d = k) xs = Some d \<Longrightarrow> d \<in> set xs \<and> f d = k"
  by (induction xs) (auto split: if_splits)

lemma find_key_None_iff: "find (\<lambda>d. f d = k) xs = None \<longleftrightarrow> k \<notin> f ` set xs"
  by (induction xs) auto

lemma find_key_map_update:
  assumes "\<And>d. f (g d) = f d"
  shows "map f (map g xs) = map f xs"
  using assms by simp

section \<open>Strings\<close>

text \<open>\<open>s.split(c)\<close> for a one-character separator.\<close>

fun split_on :: "'a \<Rightarrow> 'a list \<Rightarrow> 'a list list" where
  "split_on c [] = [[]]"
| "split_on c (x # xs) =
     (if x = c then [] # split_on c xs
      else (case split_on c xs of [] \<Rightarrow> [[x]] | p # ps \<Rightarrow> (x # p) # ps))"

fun join_with :: "'a list \<Rightarrow> 'a list list \<Rightarrow> 'a list" where
  "join_with sep [] = []"
| "join_with sep [p] = p"
| "join_with sep (p # q # ps) = p @ sep @ join_with sep (q # ps)"

lemma split_on_nonempty [simp]: "split_on c xs \<noteq> []"
  by (induction xs) (auto split: list.splits)

lemma split_on_no_sep: "p \<in> set (split_on c xs) \<Longrightarrow> c \<notin> set p"
proof (induction xs arbitrary: p)
  case (Cons x xs)
  then show ?case by (cases "split_on c xs") (auto split: if_splits)
qed simp

lemma split_on_not_in: "c \<notin> set xs \<Longrightarrow> split_on c xs = [xs]"
  by (induction xs) auto

lemma split_on_append: "c \<notin> set xs \<Longrightarrow> split_on c (xs @ c # ys) = xs # split_on c ys"
  by (induction xs) auto

lemma join_with_Cons: "ps \<noteq> [] \<Longrightarrow> join_with sep (p # ps) = p @ sep @ join_with sep ps"
  by (cases ps) auto

lemma join_split_on: "join_with [c] (split_on c xs) = xs"
proof (induction xs)
  case (Cons x xs)
  then show ?case
    by (cases "split_on c xs") (auto simp: join_with_Cons dest: join_with_Cons, 
        metis append_Cons join_with.simps(2) join_with_Cons)
qed simp

lemma split_join_on:
  "ps \<noteq> [] \<Longrightarrow> \<forall>p \<in> set ps. c \<notin> set p \<Longrightarrow> split_on c (join_with [c] ps) = ps"
proof (induction ps rule: list_nonempty_induct)
  case (cons p ps)
  then show ?case by (simp add: join_with_Cons split_on_append)
qed (simp add: split_on_not_in)

text \<open>\<open>s.indexOf(c)\<close>, with \<open>None\<close> for \<open>-1\<close>.\<close>

fun index_of :: "'a \<Rightarrow> 'a list \<Rightarrow> nat option" where
  "index_of c [] = None"
| "index_of c (x # xs) = (if x = c then Some 0 else map_option Suc (index_of c xs))"

lemma index_of_not_in: "c \<notin> set xs \<Longrightarrow> index_of c xs = None"
  by (induction xs) auto

lemma index_of_append: "c \<notin> set xs \<Longrightarrow> index_of c (xs @ c # ys) = Some (length xs)"
  by (induction xs) auto

lemma index_of_Some: "index_of c xs = Some i \<Longrightarrow> i < length xs \<and> xs ! i = c"
  by (induction xs arbitrary: i) (auto split: if_splits)

definition starts_with :: "'a list \<Rightarrow> 'a list \<Rightarrow> bool" where
  "starts_with s p \<longleftrightarrow> take (length p) s = p"

lemma starts_with_append [simp]: "starts_with (p @ s) p"
  by (simp add: starts_with_def)

lemma starts_with_iff: "starts_with s p \<longleftrightarrow> (\<exists>r. s = p @ r)"
  unfolding starts_with_def by (metis append_eq_conv_conj append_take_drop_id)

text \<open>\<open>s.includes(p)\<close>.\<close>

fun contains :: "'a list \<Rightarrow> 'a list \<Rightarrow> bool" where
  "contains [] p = (p = [])"
| "contains (x # xs) p = (starts_with (x # xs) p \<or> contains xs p)"

definition is_digit_char :: "char \<Rightarrow> bool" where
  "is_digit_char c \<longleftrightarrow> CHR ''0'' \<le> c \<and> c \<le> CHR ''9''"

definition is_ascii :: "string \<Rightarrow> bool" where
  "is_ascii s \<longleftrightarrow> list_all (\<lambda>c. of_char c < (128 :: nat)) s"

text \<open>Decimal digits, as template literals and \<open>String(n)\<close> print a number.\<close>

definition digit_char :: "nat \<Rightarrow> char" where
  "digit_char d = char_of (48 + d)"

fun show_nat :: "nat \<Rightarrow> string" where
  "show_nat n = (if n < 10 then [digit_char n] else show_nat (n div 10) @ [digit_char (n mod 10)])"

declare show_nat.simps [simp del]

definition show_int :: "int \<Rightarrow> string" where
  "show_int i = (if i < 0 then CHR ''-'' # show_nat (nat (- i)) else show_nat (nat i))"

definition digit_val :: "char \<Rightarrow> nat" where
  "digit_val c = of_char c - 48"

definition read_nat :: "string \<Rightarrow> nat" where
  "read_nat s = foldl (\<lambda>n c. 10 * n + digit_val c) 0 s"

lemma of_char_digit_char [simp]: "d < 10 \<Longrightarrow> of_char (digit_char d) = 48 + d"
  by (simp add: digit_char_def)

lemma digit_val_digit_char [simp]: "d < 10 \<Longrightarrow> digit_val (digit_char d) = d"
  by (simp add: digit_val_def)

lemma is_digit_char_iff: "is_digit_char c \<longleftrightarrow> 48 \<le> (of_char c :: nat) \<and> of_char c \<le> (57 :: nat)"
  by (simp add: is_digit_char_def less_eq_char_def)

lemma is_digit_digit_char [simp]: "d < 10 \<Longrightarrow> is_digit_char (digit_char d)"
  by (simp add: is_digit_char_iff)

lemma show_nat_digits: "list_all is_digit_char (show_nat n)"
proof (induction n rule: show_nat.induct)
  case (1 n)
  then show ?case by (subst show_nat.simps) auto
qed

lemma show_nat_nonempty [simp]: "show_nat n \<noteq> []"
  by (subst show_nat.simps) simp

lemma read_nat_append: "read_nat (xs @ [c]) = 10 * read_nat xs + digit_val c"
  by (simp add: read_nat_def)

lemma read_show_nat [simp]: "read_nat (show_nat n) = n"
proof (induction n rule: show_nat.induct)
  case (1 n)
  show ?case
  proof (cases "n < 10")
    case True
    then show ?thesis by (subst show_nat.simps) (simp add: read_nat_def)
  next
    case False
    then have "read_nat (show_nat (n div 10)) = n div 10" using 1 by simp
    then show ?thesis
      using False by (subst show_nat.simps) (simp add: read_nat_append)
  qed
qed

lemma show_nat_inject [simp]: "show_nat m = show_nat n \<longleftrightarrow> m = n"
  by (metis read_show_nat)

section \<open>Bytes and characters\<close>

lemma unat_byte_less [simp]: "unat (b :: byte) < 256"
  using unsigned_less [of b] by simp

lemma unat_byte_of_nat: "m < 256 \<Longrightarrow> unat (word_of_nat m :: byte) = m"
  by (simp add: unat_of_nat)

lemma byte_eq_iff: "(a :: byte) = b \<longleftrightarrow> unat a = unat b"
  by (rule word_unat_eq_iff)

lemma char_eq_iff: "c = d \<longleftrightarrow> (of_char c :: nat) = of_char d"
  by simp

lemma of_char_char_of_small: "n < 256 \<Longrightarrow> (of_char (char_of n) :: nat) = n"
  by simp

text \<open>
  \<open>target.set(source, offset)\<close> on a \<open>Uint8Array\<close>: it throws when the source does not fit.
\<close>

definition ta_set :: "bytes \<Rightarrow> bytes \<Rightarrow> nat \<Rightarrow> bytes option" where
  "ta_set target source offset =
     (if offset + length source \<le> length target
      then Some (take offset target @ source @ drop (offset + length source) target)
      else None)"

lemma ta_set_zeros:
  "length bs \<le> n \<Longrightarrow>
     ta_set (w @ replicate n 0) bs (length w) = Some (w @ bs @ replicate (n - length bs) 0)"
  by (simp add: ta_set_def)

section \<open>Insertion-ordered maps\<close>

text \<open>
  A JavaScript \<open>Map\<close> iterates its entries in insertion order; setting a present key keeps
  its place. It is an association list with distinct keys.
\<close>

declare map_of_eq_Some_iff [simp del]

type_synonym ('k, 'v) jsmap = "('k \<times> 'v) list"

abbreviation jsmap_get :: "('k, 'v) jsmap \<Rightarrow> 'k \<Rightarrow> 'v option" where
  "jsmap_get \<equiv> map_of"

fun jsmap_set :: "'k \<Rightarrow> 'v \<Rightarrow> ('k, 'v) jsmap \<Rightarrow> ('k, 'v) jsmap" where
  "jsmap_set k v [] = [(k, v)]"
| "jsmap_set k v (p # ps) = (if fst p = k then (k, v) # ps else p # jsmap_set k v ps)"

definition jsmap_delete :: "'k \<Rightarrow> ('k, 'v) jsmap \<Rightarrow> ('k, 'v) jsmap" where
  "jsmap_delete k m = filter (\<lambda>p. fst p \<noteq> k) m"

definition jsmap_has :: "('k, 'v) jsmap \<Rightarrow> 'k \<Rightarrow> bool" where
  "jsmap_has m k \<longleftrightarrow> map_of m k \<noteq> None"

abbreviation jsmap_wf :: "('k, 'v) jsmap \<Rightarrow> bool" where
  "jsmap_wf m \<equiv> distinct (map fst m)"

lemma get_jsmap_set [simp, jsmap_simps]: "map_of (jsmap_set k v m) = (map_of m)(k \<mapsto> v)"
  by (induction m) (auto simp: fun_eq_iff)

lemma get_jsmap_delete [simp, jsmap_simps]: "map_of (jsmap_delete k m) = (map_of m)(k := None)"
  by (induction m) (auto simp: jsmap_delete_def fun_eq_iff)

lemma keys_jsmap_set [jsmap_simps]:
  "map fst (jsmap_set k v m) = (if k \<in> fst ` set m then map fst m else map fst m @ [k])"
  by (induction m) auto

lemma jsmap_wf_set [wf_intros]: "jsmap_wf m \<Longrightarrow> jsmap_wf (jsmap_set k v m)"
  by (simp add: keys_jsmap_set)

lemma jsmap_wf_delete [wf_intros]: "jsmap_wf m \<Longrightarrow> jsmap_wf (jsmap_delete k m)"
  by (simp add: jsmap_delete_def distinct_map_filter_keys)

lemma jsmap_wf_filter [wf_intros]: "jsmap_wf m \<Longrightarrow> jsmap_wf (filter P m)"
  by (rule distinct_map_filter_keys)

lemma length_jsmap_set_le: "length (jsmap_set k v m) \<le> Suc (length m)"
  by (induction m) auto

lemma length_jsmap_delete_le: "length (jsmap_delete k m) \<le> length m"
  by (simp add: jsmap_delete_def)

lemma map_of_filter_keys:
  "jsmap_wf m \<Longrightarrow> map_of (filter P m) k =
     (case map_of m k of None \<Rightarrow> None | Some v \<Rightarrow> if P (k, v) then Some v else None)"
proof (induction m)
  case (Cons p ps)
  obtain a b where p: "p = (a, b)" by (cases p)
  have "a \<notin> fst ` set ps" using Cons.prems p by simp
  then have "map_of ps a = None" by (simp add: map_of_eq_None_iff)
  then show ?case using Cons p by auto
qed simp

text \<open>
  The contract of a map that the components below rely on: what a lookup returns after each
  update, and the well-formedness that every update keeps.
\<close>

locale finite_map_ops =
  fixes get :: "'m \<Rightarrow> 'k \<Rightarrow> 'v option"
    and put :: "'k \<Rightarrow> 'v \<Rightarrow> 'm \<Rightarrow> 'm"
    and del :: "'k \<Rightarrow> 'm \<Rightarrow> 'm"
    and wf :: "'m \<Rightarrow> bool"
  assumes get_put: "wf m \<Longrightarrow> get (put k v m) = (get m)(k \<mapsto> v)"
    and get_del: "wf m \<Longrightarrow> get (del k m) = (get m)(k := None)"
    and wf_put: "wf m \<Longrightarrow> wf (put k v m)"
    and wf_del: "wf m \<Longrightarrow> wf (del k m)"
begin

lemma put_put_same: "wf m \<Longrightarrow> get (put k w (put k v m)) = get (put k w m)"
  by (simp add: get_put wf_put)

lemma del_put_same: "wf m \<Longrightarrow> get (del k (put k v m)) = get (del k m)"
  by (simp add: get_put get_del wf_put)

lemma put_other: "wf m \<Longrightarrow> j \<noteq> k \<Longrightarrow> get (put k v m) j = get m j"
  by (simp add: get_put)

lemma del_other: "wf m \<Longrightarrow> j \<noteq> k \<Longrightarrow> get (del k m) j = get m j"
  by (simp add: get_del)

end

interpretation jsm: finite_map_ops map_of jsmap_set jsmap_delete jsmap_wf
  by unfold_locales (auto intro: wf_intros)

text \<open>A component driven by events: an invariant that every admissible event keeps holds after any run, and
  what no admissible event changes under the invariant is the same after the run.\<close>

locale event_system =
  fixes exec :: "'e \<Rightarrow> 's \<Rightarrow> 's"
    and admissible :: "'e \<Rightarrow> bool"
    and inv :: "'s \<Rightarrow> bool"
  assumes inv_exec: "inv s \<Longrightarrow> admissible e \<Longrightarrow> inv (exec e s)"
begin

lemma inv_run: "inv s \<Longrightarrow> list_all admissible es \<Longrightarrow> inv (fold exec es s)"
  by (induction es arbitrary: s) (auto intro: inv_exec)

end

locale observed_events = event_system +
  fixes obs :: "'s \<Rightarrow> 'o"
  assumes obs_exec: "inv s \<Longrightarrow> admissible e \<Longrightarrow> obs (exec e s) = obs s"
begin

lemma obs_run: "inv s \<Longrightarrow> list_all admissible es \<Longrightarrow> obs (fold exec es s) = obs s"
  by (induction es arbitrary: s) (simp_all add: obs_exec inv_exec)

end

end
