(* ===== verification/Codec.thy ===== *)
theory Codec
  imports Prelude
begin

text \<open>
  Byte and text encodings: hexadecimal, UTF-8 (\<open>TextEncoder\<close>, \<open>TextDecoder\<close>), base64
  (\<open>btoa\<close>, \<open>atob\<close>) and the code of \<open>lib/asyncUtils.ts\<close> and
  \<open>lib/attestation/base64url.ts\<close> on top of them.
\<close>

section \<open>Hexadecimal\<close>

definition hex_digit :: "nat \<Rightarrow> char" where
  "hex_digit d = (if d < 10 then char_of (48 + d) else char_of (87 + d))"

text \<open>\<open>b.toString(16).padStart(2, '0')\<close>\<close>

definition byte_hex :: "byte \<Rightarrow> string" where
  "byte_hex b = [hex_digit (unat b div 16), hex_digit (unat b mod 16)]"

definition to_hex :: "bytes \<Rightarrow> string" where
  "to_hex bs = concat (map byte_hex bs)"

lemma of_char_hex_digit:
  "d < 16 \<Longrightarrow> (of_char (hex_digit d) :: nat) = (if d < 10 then 48 + d else 87 + d)"
  by (simp add: hex_digit_def)

lemma hex_digit_inject:
  assumes "m < 16" "n < 16"
  shows "hex_digit m = hex_digit n \<longleftrightarrow> m = n"
proof
  assume "hex_digit m = hex_digit n"
  then have "(of_char (hex_digit m) :: nat) = of_char (hex_digit n)" by simp
  then show "m = n"
    using assms by (simp only: of_char_hex_digit) (simp split: if_splits)
qed simp

lemma byte_hex_inject [simp]: "byte_hex a = byte_hex b \<longleftrightarrow> a = b"
proof
  assume "byte_hex a = byte_hex b"
  then have "unat a div 16 = unat b div 16" "unat a mod 16 = unat b mod 16"
    using hex_digit_inject [of "unat a div 16" "unat b div 16"]
      hex_digit_inject [of "unat a mod 16" "unat b mod 16"]
      unat_byte_less [of a] unat_byte_less [of b]
    by (auto simp: byte_hex_def)
  then have "unat a = unat b" by (metis div_mult_mod_eq)
  then show "a = b" by (simp only: byte_eq_iff)
qed simp

lemma length_byte_hex [simp]: "length (byte_hex b) = 2"
  by (simp add: byte_hex_def)

lemma length_to_hex [simp]: "length (to_hex bs) = 2 * length bs"
  by (induction bs) (auto simp: to_hex_def)

lemma to_hex_inject [simp]: "to_hex as = to_hex bs \<longleftrightarrow> as = bs"
proof
  show "to_hex as = to_hex bs \<Longrightarrow> as = bs"
  proof (induction as arbitrary: bs)
    case Nil
    then have "length (to_hex bs) = length (to_hex [])" by simp
    then show ?case by simp
  next
    case (Cons a as)
    then obtain b bs' where bs: "bs = b # bs'"
      using length_to_hex [of "a # as"] length_to_hex [of bs] by (cases bs) auto
    with Cons.prems have "byte_hex a @ to_hex as = byte_hex b @ to_hex bs'"
      by (simp add: to_hex_def)
    then have "byte_hex a = byte_hex b" "to_hex as = to_hex bs'"
      by (auto simp: append_eq_append_conv)
    with bs Cons.IH show ?case by simp
  qed
qed simp

section \<open>UTF-8\<close>

text \<open>
  Characters are code units below 256, so \<open>TextEncoder\<close> emits one or two bytes for each.
  \<open>TextDecoder\<close> reads back exactly those; the character 26 stands for every decoded
  character the model has no name for (the replacement character and the characters from
  U+0100 on).
\<close>

definition utf8_char :: "char \<Rightarrow> bytes" where
  "utf8_char c = (let n = of_char c :: nat in
     if n < 128 then [word_of_nat n] else [word_of_nat (192 + n div 64), word_of_nat (128 + n mod 64)])"

definition utf8_encode :: "string \<Rightarrow> bytes" where
  "utf8_encode s = concat (map utf8_char s)"

fun utf8_decode :: "bytes \<Rightarrow> string" where
  "utf8_decode [] = []"
| "utf8_decode [b] = [if unat b < 128 then char_of (unat b) else CHR 0x1A]"
| "utf8_decode (b # c # bs) =
     (if unat b < 128 then char_of (unat b) # utf8_decode (c # bs)
      else if (unat b = 194 \<or> unat b = 195) \<and> 128 \<le> unat c \<and> unat c < 192
        then char_of ((unat b - 192) * 64 + (unat c - 128)) # utf8_decode bs
      else CHR 0x1A # utf8_decode (c # bs))"

lemma utf8_decode_ascii_Cons:
  "unat b < 128 \<Longrightarrow> utf8_decode (b # bs) = char_of (unat b) # utf8_decode bs"
  by (cases bs) auto

lemma utf8_decode_char: "utf8_decode (utf8_char c @ bs) = c # utf8_decode bs"
proof (cases "(of_char c :: nat) < 128")
  case True
  then have "unat (word_of_nat (of_char c) :: byte) = of_char c"
    by (simp only: unat_byte_of_nat)
  with True show ?thesis
    by (simp add: utf8_char_def utf8_decode_ascii_Cons)
next
  case False
  define n where "n = (of_char c :: nat)"
  have n: "128 \<le> n" "n < 256" using False by (auto simp: n_def not_less)
  then have d: "n div 64 = 2 \<or> n div 64 = 3" "n mod 64 < 64" by auto
  then have hi: "unat (word_of_nat (192 + n div 64) :: byte) = 192 + n div 64"
    and lo: "unat (word_of_nat (128 + n mod 64) :: byte) = 128 + n mod 64"
    by (intro unat_byte_of_nat; linarith)+
  have "utf8_char c = [word_of_nat (192 + n div 64), word_of_nat (128 + n mod 64)]"
    using n by (simp add: utf8_char_def n_def Let_def)
  then have "utf8_decode (utf8_char c @ bs)
      = char_of (n div 64 * 64 + n mod 64) # utf8_decode bs"
    using d by (auto simp: hi lo simp del: div_mult_mod_eq of_nat_add)
  then show ?thesis by (simp add: n_def)
qed

lemma utf8_decode_encode_append: "utf8_decode (utf8_encode s @ bs) = s @ utf8_decode bs"
  by (induction s) (simp_all add: utf8_encode_def utf8_decode_char)

lemma utf8_decode_encode [simp]: "utf8_decode (utf8_encode s) = s"
  using utf8_decode_encode_append [of s "[]"] by simp

lemma utf8_encode_inject [simp]: "utf8_encode s = utf8_encode t \<longleftrightarrow> s = t"
  by (metis utf8_decode_encode)

lemma length_utf8_encode_ascii: "is_ascii s \<Longrightarrow> length (utf8_encode s) = length s"
  by (induction s) (auto simp: is_ascii_def utf8_encode_def utf8_char_def)

lemma length_utf8_encode_ge: "length s \<le> length (utf8_encode s)"
  by (induction s) (auto simp: utf8_encode_def utf8_char_def Let_def)

section \<open>Base64\<close>

text \<open>The alphabet \<open>A-Z a-z 0-9 + /\<close> and its inverse.\<close>

definition b64_char :: "nat \<Rightarrow> char" where
  "b64_char n = char_of (if n < 26 then n + 65 else if n < 52 then n + 71
     else if n < 62 then n - 4 else if n = 62 then 43 else 47)"

definition b64_val :: "char \<Rightarrow> nat option" where
  "b64_val c = (let n = of_char c in
     if 65 \<le> n \<and> n \<le> 90 then Some (n - 65)
     else if 97 \<le> n \<and> n \<le> 122 then Some (n - 71)
     else if 48 \<le> n \<and> n \<le> 57 then Some (n + 4)
     else if n = 43 then Some 62
     else if n = 47 then Some 63
     else None)"

fun to_sextets :: "bytes \<Rightarrow> nat list" where
  "to_sextets [] = []"
| "to_sextets [a] = [unat a div 4, unat a mod 4 * 16]"
| "to_sextets [a, b] = [unat a div 4, unat a mod 4 * 16 + unat b div 16, unat b mod 16 * 4]"
| "to_sextets (a # b # c # r) =
     [unat a div 4, unat a mod 4 * 16 + unat b div 16, unat b mod 16 * 4 + unat c div 64, unat c mod 64]
     @ to_sextets r"

text \<open>A single left-over sextet is the failure of the forgiving-base64 algorithm.\<close>

fun of_sextets :: "nat list \<Rightarrow> bytes option" where
  "of_sextets [] = Some []"
| "of_sextets [x] = None"
| "of_sextets [x, y] = Some [word_of_nat (x * 4 + y div 16)]"
| "of_sextets [x, y, z] =
     Some [word_of_nat (x * 4 + y div 16), word_of_nat (y mod 16 * 16 + z div 4)]"
| "of_sextets (x # y # z # w # r) =
     map_option (\<lambda>bs. word_of_nat (x * 4 + y div 16) # word_of_nat (y mod 16 * 16 + z div 4)
       # word_of_nat (z mod 4 * 64 + w) # bs) (of_sextets r)"

definition is_b64_space :: "char \<Rightarrow> bool" where
  "is_b64_space c \<longleftrightarrow> (of_char c :: nat) \<in> {9, 10, 12, 13, 32}"

definition strip_padding :: "string \<Rightarrow> string" where
  "strip_padding s =
     (if length s mod 4 = 0 then
        (if length s \<ge> 2 \<and> drop (length s - 2) s = ''=='' then take (length s - 2) s
         else if length s \<ge> 1 \<and> drop (length s - 1) s = ''='' then take (length s - 1) s
         else s)
      else s)"

definition btoa :: "bytes \<Rightarrow> string" where
  "btoa bs = map b64_char (to_sextets bs) @ replicate ((3 - length bs mod 3) mod 3) (CHR ''='')"

definition atob :: "string \<Rightarrow> bytes option" where
  "atob s = (let t = strip_padding (filter (\<lambda>c. \<not> is_b64_space c) s) in
     if list_all (\<lambda>c. b64_val c \<noteq> None) t then of_sextets (map (\<lambda>c. the (b64_val c)) t) else None)"

lemma unat_byte_div [simp]: "unat (b :: byte) div 4 < 64" "unat b div 16 < 16" "unat b div 64 < 4"
  using unat_byte_less [of b] by linarith+

lemma sextet_sum_less:
  "unat (b :: byte) mod 4 * 16 + unat (c :: byte) div 16 < 64"
  "unat b mod 16 * 4 + unat c div 64 < 64" "unat b mod 4 * 16 < 64" "unat b mod 16 * 4 < 64"
  using unat_byte_div [of c] mod_less_divisor [of 4 "unat b"] mod_less_divisor [of 16 "unat b"]
  by linarith+

lemma to_sextets_less: "x \<in> set (to_sextets bs) \<Longrightarrow> x < 64"
  by (induction bs rule: to_sextets.induct) (auto simp: sextet_sum_less)

lemma b64_regroup1: "(b :: nat) < 256 \<Longrightarrow> a div 4 * 4 + (a mod 4 * 16 + b div 16) div 16 = a"
  by simp

lemma b64_regroup2:
  assumes "(b :: nat) < 256" "c < 256"
  shows "(a mod 4 * 16 + b div 16) mod 16 * 16 + (b mod 16 * 4 + c div 64) div 4 = b"
proof -
  have "(a mod 4 * 16 + b div 16) mod 16 = b div 16"
    using assms(1) by (simp add: mod_less)
  moreover have "(b mod 16 * 4 + c div 64) div 4 = b mod 16"
    using assms(2) by simp
  ultimately show ?thesis by simp
qed

lemma b64_regroup3: "(c :: nat) < 256 \<Longrightarrow> (b mod 16 * 4 + c div 64) mod 4 * 64 + c mod 64 = c"
  by (simp add: mod_less)

lemmas b64_regroup = b64_regroup1 b64_regroup2 b64_regroup3

lemma of_to_sextets [simp]: "of_sextets (to_sextets bs) = Some bs"
proof (induction bs rule: to_sextets.induct)
  case (2 a)
  then show ?case using b64_regroup1 [of 0 "unat a"] by simp
next
  case (3 a b)
  then show ?case
    using b64_regroup1 [of "unat b" "unat a"] b64_regroup2 [of "unat b" 0 "unat a"] by simp
next
  case (4 a b c r)
  then show ?case
    using b64_regroup1 [of "unat b" "unat a"] b64_regroup2 [of "unat b" "unat c" "unat a"]
      b64_regroup3 [of "unat c" "unat b"] by simp
qed simp

lemma length_to_sextets: "length (to_sextets bs) = (4 * length bs + 2) div 3"
  by (induction bs rule: to_sextets.induct) auto

lemma of_char_b64_char: "n < 64 \<Longrightarrow> of_char (b64_char n) =
    (if n < 26 then n + 65 else if n < 52 then n + 71 else if n < 62 then n - 4 else if n = 62 then 43 else 47)"
  by (simp add: b64_char_def)

lemma b64_val_char [simp]: "n < 64 \<Longrightarrow> b64_val (b64_char n) = Some n"
  by (simp add: b64_val_def Let_def of_char_b64_char) auto

lemma b64_char_plain:
  assumes "n < 64"
  shows "\<not> is_b64_space (b64_char n)" "b64_char n \<notin> set ''=-_;''"
  using assms by (auto simp: is_b64_space_def of_char_b64_char char_eq_iff split: if_splits)

lemma strip_padding_pad:
  assumes "(length s + k) mod 4 = 0" "k \<le> 2" "CHR ''='' \<notin> set s"
  shows "strip_padding (s @ replicate k (CHR ''='')) = s"
proof -
  have nl: "s \<noteq> [] \<Longrightarrow> last s \<noteq> CHR ''=''" using assms(3) last_in_set by metis
  consider "k = 0" | "k = 1" | "k = 2" using assms(2) by linarith
  then show ?thesis
  proof cases
    case 1
    have "drop (length s - 1) s \<noteq> ''=''" "drop (length s - 2) s \<noteq> ''==''"
      using assms(3) by (metis in_set_dropD list.set_intros(1))+
    with 1 show ?thesis by (simp add: strip_padding_def)
  next
    case 2
    have "drop (Suc (length s) - 2) (s @ ''='') \<noteq> ''==''"
    proof
      assume a: "drop (Suc (length s) - 2) (s @ ''='') = ''==''"
      then have "s \<noteq> []" by auto
      with a have "drop (length s - 1) s @ ''='' = ''==''"
        by (cases s rule: rev_cases) auto
      then show False using \<open>s \<noteq> []\<close> nl by (cases s rule: rev_cases) auto
    qed
    with 2 assms(1) show ?thesis by (simp add: strip_padding_def)
  next
    case 3
    then show ?thesis using assms(1) by (simp add: strip_padding_def numeral_2_eq_2)
  qed
qed

lemma atob_sextets:
  assumes "(length (to_sextets bs) + k) mod 4 = 0" "k \<le> 2"
  shows "atob (map b64_char (to_sextets bs) @ replicate k (CHR ''='')) = Some bs"
proof -
  let ?s = "map b64_char (to_sextets bs)"
  have plain: "\<And>c. c \<in> set ?s \<Longrightarrow> \<not> is_b64_space c \<and> c \<noteq> CHR ''=''"
    using to_sextets_less b64_char_plain by fastforce
  have "filter (\<lambda>c. \<not> is_b64_space c) (?s @ replicate k (CHR ''='')) = ?s @ replicate k (CHR ''='')"
    by (rule filter_True) (use plain in \<open>auto simp: is_b64_space_def\<close>)
  moreover have "strip_padding (?s @ replicate k (CHR ''='')) = ?s"
    using assms plain by (intro strip_padding_pad) auto
  moreover have "map (\<lambda>c. the (b64_val c)) ?s = to_sextets bs"
    using to_sextets_less by (induction "to_sextets bs") (auto simp: map_idI)
  moreover have "list_all (\<lambda>c. b64_val c \<noteq> None) ?s"
    using to_sextets_less by (auto simp: list_all_iff)
  ultimately show ?thesis by (simp add: atob_def Let_def)
qed

lemma sextet_count:
  "length (to_sextets bs) = 4 * (length bs div 3) + (if length bs mod 3 = 0 then 0 else length bs mod 3 + 1)"
proof -
  define q r where "q = length bs div 3" and "r = length bs mod 3"
  then have n: "length bs = 3 * q + r" and r: "r < 3" by simp_all
  have "(4 * (3 * q + r) + 2) div 3 = 4 * q + (4 * r + 2) div 3" by simp
  moreover have "(4 * r + 2) div 3 = (if r = 0 then 0 else r + 1)"
    using r by (cases "r = 0"; cases "r = 1"; cases "r = 2") auto
  ultimately show ?thesis unfolding length_to_sextets by (simp add: n [symmetric] r_def q_def)
qed

lemma padding_length:
  "(length (to_sextets bs) + (3 - length bs mod 3) mod 3) mod 4 = 0"
proof -
  consider "length bs mod 3 = 0" | "length bs mod 3 = 1" | "length bs mod 3 = 2"
    using mod_less_divisor [of 3 "length bs"] by linarith
  then show ?thesis by cases (simp_all add: sextet_count)
qed

lemma sextet_count_mod4: "length (to_sextets bs) mod 4 \<in> {0, 2, 3}"
proof -
  consider "length bs mod 3 = 0" | "length bs mod 3 = 1" | "length bs mod 3 = 2"
    using mod_less_divisor [of 3 "length bs"] by linarith
  then show ?thesis by cases (simp_all add: sextet_count, presburger)
qed

lemma atob_btoa [simp]: "atob (btoa bs) = Some bs"
proof -
  have "(3 - length bs mod 3) mod 3 \<le> 2"
    using mod_less_divisor [of 3 "3 - length bs mod 3"] by linarith
  then show ?thesis unfolding btoa_def by (rule atob_sextets [OF padding_length])
qed

subsection \<open>lib/asyncUtils.ts\<close>

lemma btoa_nonempty: "bs \<noteq> [] \<Longrightarrow> btoa bs \<noteq> []"
proof
  assume "bs \<noteq> []" "btoa bs = []"
  then have "Some bs = atob []" using atob_btoa [of bs] by simp
  moreover have "atob [] = Some []" using atob_btoa [of "[]"] by (simp add: btoa_def)
  ultimately show False using \<open>bs \<noteq> []\<close> by simp
qed

definition bufferToBase64 :: "bytes \<Rightarrow> string" where
  "bufferToBase64 buffer = btoa buffer"

text \<open>\<open>None\<close> is the exception \<open>atob\<close> throws.\<close>

definition base64ToBuffer :: "string \<Rightarrow> bytes option" where
  "base64ToBuffer base64 = atob base64"

text \<open>A typed-array view is a buffer with an offset and a length; the copy is the bytes it shows.\<close>

definition uint8ArrayToArrayBuffer :: "bytes \<Rightarrow> nat \<Rightarrow> nat \<Rightarrow> bytes" where
  "uint8ArrayToArrayBuffer buffer byteOffset byteLength = slice buffer byteOffset (byteOffset + byteLength)"

subsection \<open>lib/attestation/base64url.ts\<close>

definition url_char :: "char \<Rightarrow> char" where
  "url_char c = (if c = CHR ''+'' then CHR ''-'' else if c = CHR ''/'' then CHR ''_'' else c)"

definition unurl_char :: "char \<Rightarrow> char" where
  "unurl_char c = (if c = CHR ''-'' then CHR ''+'' else if c = CHR ''_'' then CHR ''/'' else c)"

text \<open>\<open>replace(/=+$/, '')\<close>\<close>

definition strip_eqs :: "string \<Rightarrow> string" where
  "strip_eqs s = rev (dropWhile (\<lambda>c. c = CHR ''='') (rev s))"

definition base64urlDecode :: "string \<Rightarrow> bytes option" where
  "base64urlDecode input =
     (let base64 = map unurl_char input;
          remainder = length base64 mod 4;
          padLen = (if remainder = 0 then 0 else 4 - remainder);
          padded = (if padLen > 0 then base64 @ replicate padLen (CHR ''='') else base64)
      in atob padded)"

definition base64urlEncode :: "bytes \<Rightarrow> string" where
  "base64urlEncode data = strip_eqs (map url_char (btoa data))"

lemma strip_eqs_pad: "CHR ''='' \<notin> set s \<Longrightarrow> strip_eqs (s @ replicate k (CHR ''='')) = s"
proof -
  assume a: "CHR ''='' \<notin> set s"
  have d: "dropWhile (\<lambda>c. c = CHR ''='') (rev s) = rev s"
    using a by (cases "rev s") (auto simp: in_set_conv_decomp dest: arg_cong [of _ _ set])
  have "dropWhile (\<lambda>c. c = CHR ''='') (replicate k (CHR ''='') @ rev s) = rev s"
    by (subst dropWhile_append2) (auto simp: d)
  then show ?thesis by (simp add: strip_eqs_def)
qed

lemma base64urlEncode_eq: "base64urlEncode bs = map (url_char \<circ> b64_char) (to_sextets bs)"
proof -
  have "url_char (CHR ''='') = CHR ''=''" by (simp add: url_char_def)
  moreover have "CHR ''='' \<notin> set (map (url_char \<circ> b64_char) (to_sextets bs))"
    using to_sextets_less b64_char_plain by (fastforce simp: url_char_def)
  ultimately show ?thesis
    by (simp add: base64urlEncode_def btoa_def strip_eqs_pad)
qed

lemma pad_to_multiple: "0 < m \<Longrightarrow> (n + (if n mod m = 0 then 0 else m - n mod m)) mod m = (0 :: nat)"
proof -
  assume m: "0 < m"
  have "(n mod m + (m - n mod m)) mod m = 0" using mod_less_divisor [OF m, of n] by simp
  then show ?thesis by (simp add: mod_add_left_eq)
qed

lemma base64url_roundtrip: "base64urlDecode (base64urlEncode bs) = Some bs"
proof -
  let ?s = "map b64_char (to_sextets bs)"
  have unurl: "map unurl_char (base64urlEncode bs) = ?s"
    using to_sextets_less b64_char_plain
    by (fastforce simp: base64urlEncode_eq url_char_def unurl_char_def)
  have len: "length ?s mod 4 \<in> {0, 2, 3}" using sextet_count_mod4 by simp
  define k where "k = (if length ?s mod 4 = 0 then 0 else 4 - length ?s mod 4)"
  have "k \<le> 2" using len unfolding k_def by auto
  moreover have "(length (to_sextets bs) + k) mod 4 = 0"
    unfolding k_def length_map by (rule pad_to_multiple) simp
  ultimately have "atob (?s @ replicate k (CHR ''='')) = Some bs"
    by (intro atob_sextets)
  moreover have "base64urlDecode (base64urlEncode bs) = atob (?s @ replicate k (CHR ''=''))"
    unfolding base64urlDecode_def Let_def unurl k_def by simp
  ultimately show ?thesis by simp
qed

lemma base64urlEncode_alphabet:
  assumes "c \<in> set (base64urlEncode bs)"
  shows "c \<notin> set ''+/=;''"
proof -
  from assms obtain n where "n < 64" "c = url_char (b64_char n)"
    using to_sextets_less by (auto simp: base64urlEncode_eq)
  then show ?thesis
    using b64_char_plain [of n] by (auto simp: url_char_def split: if_splits)
qed

text \<open>
  The contract of a byte-to-text encoding, and the fact its clients use: what is encoded
  determines the bytes.
\<close>

locale text_codec =
  fixes enc :: "bytes \<Rightarrow> string"
    and dec :: "string \<Rightarrow> bytes option"
  assumes dec_enc: "dec (enc bs) = Some bs"
begin

lemma enc_inject: "enc as = enc bs \<longleftrightarrow> as = bs"
  by (metis dec_enc option.inject)

end

interpretation b64: text_codec bufferToBase64 base64ToBuffer
  by unfold_locales (simp add: bufferToBase64_def base64ToBuffer_def)

interpretation b64url: text_codec base64urlEncode base64urlDecode
  by unfold_locales (rule base64url_roundtrip)

text \<open>
  Base64 as the extension uses it is lossless: every byte string is recovered from its base64url
  and from its base64 text, and the base64url text needs no escaping in a URL or in the
  semicolon-separated attestation header.
\<close>

theorem base64_lossless:
  "base64urlDecode (base64urlEncode bs) = Some bs \<and> base64ToBuffer (bufferToBase64 bs) = Some bs
   \<and> set (base64urlEncode bs) \<inter> set ''+/=;'' = {}"
  using b64url.dec_enc b64.dec_enc base64urlEncode_alphabet by blast

end
