(* ===== verification/Challenge.thy ===== *)
theory Challenge
  imports Codec
begin

text \<open>
  The challenge of a challenge-bound assertion, \<open>lib/webauthn/challengeDerivation.ts\<close>: the
  TLV serialization that the extension hashes and the phone parses. The serializer writes into a
  zeroed buffer at running offsets, as the code does; \<open>serialize_layout\<close> shows the byte string
  this produces. SHA-256 is the parameter \<open>sha256\<close>.
\<close>

record challenge_input =
  ci_tlsBinding :: bytes
  ci_origin :: string
  ci_controlCode :: string
  ci_sessionNonce :: bytes

record challenge_components =
  cc_version :: nat
  cc_tlsBinding :: bytes
  cc_origin :: string
  cc_controlCode :: string
  cc_sessionNonce :: bytes

datatype challenge_error =
    TlsBindingTooLong
  | ControlCodeNotFour
  | NonceNotThirtyTwo
  | RangeError
  | MissingVersion
  | UnsupportedVersion nat
  | MissingTlsBindingLength
  | TruncatedTlsBinding
  | MissingOriginLength
  | TruncatedOrigin
  | InvalidControlCodeLength
  | TruncatedControlCode
  | TruncatedNonce

definition VERSION :: byte where "VERSION = 2"
definition CONTROL_CODE_LENGTH :: byte where "CONTROL_CODE_LENGTH = 4"
definition NONCE_LENGTH :: nat where "NONCE_LENGTH = 32"
definition MAX_TLS_BINDING_LENGTH :: nat where "MAX_TLS_BINDING_LENGTH = 4096"
definition PADDING_BLOCK :: nat where "PADDING_BLOCK = 32"

definition computePaddingLength :: "nat \<Rightarrow> nat" where
  "computePaddingLength currentLength =
     (let remainder = currentLength mod PADDING_BLOCK in
      if remainder = 0 then 0 else PADDING_BLOCK - remainder)"

text \<open>\<open>(n >> 8) & 0xff\<close> and \<open>n & 0xff\<close>; a byte keeps the low eight bits of what is stored.\<close>

definition u16_bytes :: "nat \<Rightarrow> bytes" where
  "u16_bytes n = [word_of_nat (n div 256), word_of_nat n]"

definition serializeChallengeComponents :: "challenge_input \<Rightarrow> challenge_error + bytes" where
  "serializeChallengeComponents input =
     (let originBytes = utf8_encode (ci_origin input);
          proofBytes = ci_tlsBinding input;
          controlCodeBytes = utf8_encode (ci_controlCode input);
          nonce = ci_sessionNonce input
      in
      if length proofBytes > MAX_TLS_BINDING_LENGTH then Inl TlsBindingTooLong
      else if length controlCodeBytes \<noteq> 4 then Inl ControlCodeNotFour
      else if length nonce \<noteq> NONCE_LENGTH then Inl NonceNotThirtyTwo
      else
       (let headerSize = 1 + 2 + 2 + 1 + NONCE_LENGTH;
            variableSize = length proofBytes + length originBytes + length controlCodeBytes;
            prePaddingSize = headerSize + variableSize;
            paddingLength = computePaddingLength prePaddingSize;
            totalSize = prePaddingSize + paddingLength;
            o1 = 1;
            o2 = o1 + 2;
            o3 = o2 + length proofBytes;
            o4 = o3 + 2;
            o5 = o4 + length originBytes;
            o6 = o5 + 1;
            o7 = o6 + length controlCodeBytes;
            o8 = o7 + NONCE_LENGTH
        in
        case
          Option.bind (ta_set (replicate totalSize 0) [VERSION] 0) (\<lambda>b.
          Option.bind (ta_set b (u16_bytes (length proofBytes)) o1) (\<lambda>b.
          Option.bind (ta_set b proofBytes o2) (\<lambda>b.
          Option.bind (ta_set b (u16_bytes (length originBytes)) o3) (\<lambda>b.
          Option.bind (ta_set b originBytes o4) (\<lambda>b.
          Option.bind (ta_set b [CONTROL_CODE_LENGTH] o5) (\<lambda>b.
          Option.bind (ta_set b controlCodeBytes o6) (\<lambda>b.
          Option.bind (ta_set b nonce o7) (\<lambda>b.
          ta_set b (replicate paddingLength 0) o8))))))))
        of None \<Rightarrow> Inl RangeError
         | Some serialized \<Rightarrow> Inr serialized))"

text \<open>\<open>(b[i] << 8) | b[i + 1]\<close>\<close>

definition u16_at :: "bytes \<Rightarrow> nat \<Rightarrow> nat" where
  "u16_at bs i = unat (bs ! i) * 256 + unat (bs ! (i + 1))"

definition parseChallengeComponents :: "bytes \<Rightarrow> challenge_error + challenge_components" where
  "parseChallengeComponents serialized =
     (case item_at serialized 0 of
        None \<Rightarrow> Inl MissingVersion
      | Some version \<Rightarrow>
          if version \<noteq> 1 \<and> version \<noteq> 2 then Inl (UnsupportedVersion (unat version))
          else if 1 + 2 > length serialized then Inl MissingTlsBindingLength
          else
           (let proofLength = u16_at serialized 1; o1 = 3 in
            if o1 + proofLength > length serialized then Inl TruncatedTlsBinding
            else
             (let tlsBinding = slice serialized o1 (o1 + proofLength); o2 = o1 + proofLength in
              if o2 + 2 > length serialized then Inl MissingOriginLength
              else
               (let originLength = u16_at serialized o2; o3 = o2 + 2 in
                if o3 + originLength > length serialized then Inl TruncatedOrigin
                else
                 (let origin = utf8_decode (slice serialized o3 (o3 + originLength));
                      o4 = o3 + originLength
                  in
                  case item_at serialized o4 of
                    None \<Rightarrow> Inl InvalidControlCodeLength
                  | Some controlCodeLength \<Rightarrow>
                      if controlCodeLength \<noteq> 4 then Inl InvalidControlCodeLength
                      else
                       (let o5 = o4 + 1 in
                        if o5 + 4 > length serialized then Inl TruncatedControlCode
                        else
                         (let controlCode = utf8_decode (slice serialized o5 (o5 + 4)); o6 = o5 + 4 in
                          if o6 + NONCE_LENGTH > length serialized then Inl TruncatedNonce
                          else
                            Inr \<lparr>cc_version = unat version, cc_tlsBinding = tlsBinding, cc_origin = origin,
                                 cc_controlCode = controlCode,
                                 cc_sessionNonce = slice serialized o6 (o6 + NONCE_LENGTH)\<rparr>)))))))"

definition deriveChallenge :: "(bytes \<Rightarrow> bytes) \<Rightarrow> challenge_input \<Rightarrow> challenge_error + bytes" where
  "deriveChallenge sha256 input =
     (case serializeChallengeComponents input of
        Inl e \<Rightarrow> Inl e
      | Inr serialized \<Rightarrow> Inr (sha256 (uint8ArrayToArrayBuffer serialized 0 (length serialized))))"

text \<open>\<open>getRandomValues\<close> fills a buffer; the bytes it draws are the argument.\<close>

definition generateSessionNonce :: "(nat \<Rightarrow> bytes) \<Rightarrow> bytes" where
  "generateSessionNonce getRandomValues = getRandomValues NONCE_LENGTH"

section \<open>The layout\<close>

lemmas challenge_consts =
  VERSION_def CONTROL_CODE_LENGTH_def NONCE_LENGTH_def MAX_TLS_BINDING_LENGTH_def PADDING_BLOCK_def

text \<open>The inputs that the guards of the serializer let through.\<close>

definition input_ok :: "challenge_input \<Rightarrow> bool" where
  "input_ok i \<longleftrightarrow> length (ci_tlsBinding i) \<le> MAX_TLS_BINDING_LENGTH
     \<and> length (utf8_encode (ci_controlCode i)) = 4 \<and> length (ci_sessionNonce i) = NONCE_LENGTH"

definition tlv_body :: "challenge_input \<Rightarrow> bytes" where
  "tlv_body i = [VERSION] @ u16_bytes (length (ci_tlsBinding i)) @ ci_tlsBinding i
     @ u16_bytes (length (utf8_encode (ci_origin i))) @ utf8_encode (ci_origin i)
     @ [CONTROL_CODE_LENGTH] @ utf8_encode (ci_controlCode i) @ ci_sessionNonce i"

lemma length_u16_bytes [simp]: "length (u16_bytes n) = 2"
  by (simp add: u16_bytes_def)

lemma length_tlv_body:
  "input_ok i \<Longrightarrow> length (tlv_body i) = 42 + length (ci_tlsBinding i) + length (utf8_encode (ci_origin i))"
  by (simp add: tlv_body_def input_ok_def challenge_consts)

text \<open>The buffer between two writes: what has been written, then zeros.\<close>

definition zbuf :: "bytes \<Rightarrow> nat \<Rightarrow> bytes" where
  "zbuf w n = w @ replicate n 0"

lemma zbuf_init: "replicate n 0 = zbuf [] n"
  by (simp add: zbuf_def)

lemma ta_set_zbuf:
  "off = length w \<Longrightarrow> length bs \<le> n \<Longrightarrow> ta_set (zbuf w n) bs off = Some (zbuf (w @ bs) (n - length bs))"
  by (simp add: zbuf_def ta_set_zeros)

lemma serialize_layout:
  assumes "input_ok i"
  shows "serializeChallengeComponents i =
    Inr (tlv_body i @ replicate (computePaddingLength (length (tlv_body i))) 0)"
proof -
  define p where "p = ci_tlsBinding i"
  define og where "og = utf8_encode (ci_origin i)"
  define c where "c = utf8_encode (ci_controlCode i)"
  define n where "n = ci_sessionNonce i"
  define k where "k = computePaddingLength (length (tlv_body i))"
  have len: "length c = 4" "length n = 32" "length p \<le> 4096"
    using assms by (simp_all add: input_ok_def c_def n_def p_def challenge_consts)
  have size: "1 + 2 + 2 + 1 + NONCE_LENGTH + (length p + length og + length c) = length (tlv_body i)"
    using length_tlv_body [OF assms] len by (simp add: p_def og_def challenge_consts)
  have total: "length (tlv_body i) + k = 42 + length p + length og + k"
    using length_tlv_body [OF assms] by (simp add: p_def og_def)
  have "serializeChallengeComponents i = Inr (zbuf (tlv_body i @ replicate k 0) 0)"
    unfolding serializeChallengeComponents_def Let_def p_def [symmetric] og_def [symmetric]
      c_def [symmetric] n_def [symmetric] size k_def [symmetric] total zbuf_init [of "42 + length p + length og + k"]
    using len
    by (simp add: ta_set_zbuf challenge_consts tlv_body_def p_def [symmetric] og_def [symmetric]
        c_def [symmetric] n_def [symmetric])
  then show ?thesis by (simp add: zbuf_def k_def)
qed

lemma serialize_Inr_iff: "(\<exists>s. serializeChallengeComponents i = Inr s) \<longleftrightarrow> input_ok i"
proof
  assume "\<exists>s. serializeChallengeComponents i = Inr s"
  then show "input_ok i"
    by (auto simp: serializeChallengeComponents_def input_ok_def Let_def split: if_splits)
qed (auto simp: serialize_layout)

lemma computePaddingLength_mod: "(n + computePaddingLength n) mod 32 = 0"
  unfolding computePaddingLength_def PADDING_BLOCK_def Let_def by (rule pad_to_multiple) simp

lemma computePaddingLength_less: "computePaddingLength n < 32"
  by (simp add: computePaddingLength_def PADDING_BLOCK_def Let_def)

section \<open>Parsing what was serialized\<close>

lemma u16_at_append:
  assumes "n < 65536"
  shows "u16_at (w @ u16_bytes n @ r) (length w) = n"
proof -
  have "unat (word_of_nat (n div 256) :: byte) = n div 256"
    using assms by (intro unat_byte_of_nat) auto
  moreover have "unat (word_of_nat n :: byte) = n mod 256"
    by (simp add: unat_of_nat)
  ultimately show ?thesis
    by (simp add: u16_at_def u16_bytes_def nth_append)
qed

text \<open>The parser, run on any text of the serializer's shape, whatever follows it.\<close>

lemma parse_tlv:
  assumes "length p < 65536" "length og < 65536" "length c = 4" "length n = 32"
  shows "parseChallengeComponents
      ([2] @ u16_bytes (length p) @ p @ u16_bytes (length og) @ og @ [4] @ c @ n @ pad)
    = Inr \<lparr>cc_version = 2, cc_tlsBinding = p, cc_origin = utf8_decode og,
           cc_controlCode = utf8_decode c, cc_sessionNonce = n\<rparr>" (is "parseChallengeComponents ?s = _")
proof -
  define w1 where "w1 = [2 :: byte]"
  define w2 where "w2 = w1 @ u16_bytes (length p)"
  define w3 where "w3 = w2 @ p"
  define w4 where "w4 = w3 @ u16_bytes (length og)"
  define w5 where "w5 = w4 @ og"
  define w6 where "w6 = w5 @ [4 :: byte]"
  define w7 where "w7 = w6 @ c"
  note ws = w7_def w6_def w5_def w4_def w3_def w2_def w1_def
  have lens: "length w1 = 1" "length w2 = 3" "length w3 = 3 + length p"
    "length w4 = 5 + length p" "length w5 = 5 + length p + length og"
    "length w6 = 6 + length p + length og" "length w7 = 10 + length p + length og"
    using assms by (simp_all add: ws)
  have total: "length ?s = 42 + length p + length og + length pad"
    using assms by simp
  let ?o2 = "3 + length p"
  let ?o3 = "?o2 + 2"
  let ?o4 = "?o3 + length og"
  let ?o5 = "?o4 + 1"
  let ?o6 = "?o5 + 4"
  have v: "item_at ?s 0 = Some 2" by simp
  have n1: "u16_at ?s 1 = length p"
    using u16_at_append [OF assms(1), of w1 "p @ u16_bytes (length og) @ og @ [4] @ c @ n @ pad"]
    by (simp add: ws eval_nat_numeral)
  have s1: "slice ?s 3 (3 + length p) = p"
    using slice_append_middle [of w2 p "u16_bytes (length og) @ og @ [4] @ c @ n @ pad"] lens by (simp add: ws eval_nat_numeral)
  have n2: "u16_at ?s ?o2 = length og"
    using u16_at_append [OF assms(2), of w3 "og @ [4] @ c @ n @ pad"] lens
    by (simp add: ws eval_nat_numeral)
  have s2: "slice ?s ?o3 (?o3 + length og) = og"
    using slice_append_middle [of w4 og "[4] @ c @ n @ pad"] lens by (simp add: ws eval_nat_numeral)
  have l3: "item_at ?s ?o4 = Some 4"
    using item_at_append_length [of w5 "[4] @ c @ n @ pad"] lens by (simp add: ws eval_nat_numeral)
  have s3: "slice ?s ?o5 (?o5 + 4) = c"
    using slice_append_middle [of w6 c "n @ pad"] lens assms(3) by (simp add: ws eval_nat_numeral)
  have s4: "slice ?s ?o6 (?o6 + NONCE_LENGTH) = n"
    using slice_append_middle [of w7 n pad] lens assms(4) by (simp add: ws NONCE_LENGTH_def eval_nat_numeral)
  have guards: "\<not> 1 + 2 > length ?s" "\<not> 3 + length p > length ?s" "\<not> ?o2 + 2 > length ?s"
    "\<not> ?o3 + length og > length ?s" "\<not> ?o5 + 4 > length ?s" "\<not> ?o6 + NONCE_LENGTH > length ?s"
    unfolding total NONCE_LENGTH_def by linarith+
  show ?thesis
    unfolding parseChallengeComponents_def v option.case Let_def n1 n2 s1 s2 l3 s3 s4
    by (simp only: guards if_False) simp
qed

lemma serialize_Inr_eq:
  "serializeChallengeComponents i = Inr s \<Longrightarrow>
     input_ok i \<and> s = tlv_body i @ replicate (computePaddingLength (length (tlv_body i))) 0"
  by (metis Inr_inject serialize_Inr_iff serialize_layout)

lemma parse_serialized:
  assumes "serializeChallengeComponents i = Inr s" "length (utf8_encode (ci_origin i)) < 65536"
  shows "parseChallengeComponents s = Inr \<lparr>cc_version = 2, cc_tlsBinding = ci_tlsBinding i,
     cc_origin = ci_origin i, cc_controlCode = ci_controlCode i, cc_sessionNonce = ci_sessionNonce i\<rparr>"
proof -
  have ok: "input_ok i" and s: "s = tlv_body i @ replicate (computePaddingLength (length (tlv_body i))) 0"
    using serialize_Inr_eq [OF assms(1)] by auto
  have "length (ci_tlsBinding i) < 65536" "length (utf8_encode (ci_controlCode i)) = 4"
    "length (ci_sessionNonce i) = 32"
    using ok by (auto simp: input_ok_def challenge_consts)
  from parse_tlv [OF this(1) assms(2) this(2,3)] show ?thesis
    by (simp add: s tlv_body_def challenge_consts)
qed

section \<open>Properties\<close>


definition sample_input :: challenge_input where
  "sample_input = \<lparr>ci_tlsBinding = [7, 9], ci_origin = ''https://lhv.ee'', ci_controlCode = ''4711'',
     ci_sessionNonce = replicate 32 5\<rparr>"

lemma sample_input_ok: "input_ok sample_input" "length (utf8_encode (ci_origin sample_input)) < 65536"
proof -
  have "is_ascii ''4711''" "is_ascii ''https://lhv.ee''" by (simp_all add: is_ascii_def)
  then show "input_ok sample_input" "length (utf8_encode (ci_origin sample_input)) < 65536"
    by (simp_all add: input_ok_def sample_input_def challenge_consts length_utf8_encode_ascii)
qed




text \<open>Every outcome of the serializer. The three guards are tested in the order of the code,
  no write ever falls outside the buffer, and an accepted input gives its version-2 layout padded
  with fewer than 32 zeros to a multiple of 32 bytes.\<close>

theorem serialize_outcomes:
  "serializeChallengeComponents i =
     (if length (ci_tlsBinding i) > 4096 then Inl TlsBindingTooLong
      else if length (utf8_encode (ci_controlCode i)) \<noteq> 4 then Inl ControlCodeNotFour
      else if length (ci_sessionNonce i) \<noteq> 32 then Inl NonceNotThirtyTwo
      else Inr (tlv_body i @ replicate (computePaddingLength (length (tlv_body i))) 0))
   \<and> (length (tlv_body i) + computePaddingLength (length (tlv_body i))) mod 32 = 0
   \<and> computePaddingLength (length (tlv_body i)) < 32"
proof -
  have "input_ok i \<longleftrightarrow> \<not> length (ci_tlsBinding i) > 4096 \<and> length (utf8_encode (ci_controlCode i)) = 4
    \<and> length (ci_sessionNonce i) = 32"
    by (auto simp: input_ok_def challenge_consts)
  then show ?thesis
    using serialize_layout [of i] computePaddingLength_mod computePaddingLength_less
    by (auto simp: serializeChallengeComponents_def Let_def challenge_consts)
qed

text \<open>The origin length has no guard. An accepted input whose origin is 65536 bytes long writes
  the length 0, and the parser rejects the serializer's own output.\<close>

theorem long_origin_not_parsed:
  assumes "input_ok i" and "length (utf8_encode (ci_origin i)) = 65536" and "hd (utf8_encode (ci_origin i)) \<noteq> 4"
  shows "\<exists>s. serializeChallengeComponents i = Inr s \<and> parseChallengeComponents s = Inl InvalidControlCodeLength"
proof -
  define p where "p = ci_tlsBinding i"
  obtain og where og: "utf8_encode (ci_origin i) = og" "length og = 65536" "hd og \<noteq> 4" using assms by auto
  then obtain b r where b: "og = b # r" "b \<noteq> 4" by (cases og) auto
  define pad where "pad = replicate (computePaddingLength (length (tlv_body i))) (0 :: byte)"
  define s where "s = tlv_body i @ pad"
  have ser: "serializeChallengeComponents i = Inr s"
    using serialize_layout [OF assms(1)] by (simp add: s_def pad_def)
  define rest where "rest = utf8_encode (ci_controlCode i) @ ci_sessionNonce i @ pad"
  have "u16_bytes (65536 :: nat) = [0, 0]" by (simp add: u16_bytes_def)
  then have shape: "s = [2] @ u16_bytes (length p) @ p @ [0, 0] @ b # r @ [4] @ rest"
    using og b by (simp add: s_def tlv_body_def p_def rest_def challenge_consts)
  have v0: "item_at s 0 = Some 2" by (simp add: shape)
  have lp: "length p < 65536" using assms(1) by (simp add: p_def input_ok_def challenge_consts)
  have lr: "length r = 65535" using og b by simp
  have n1: "u16_at s 1 = length p"
    using u16_at_append [OF lp, of "[2]" "p @ [0, 0] @ b # r @ [4] @ rest"] by (simp add: shape)
  have n2: "u16_at s (3 + length p) = 0"
    using u16_at_append [of 0 "[2] @ u16_bytes (length p) @ p" "b # r @ [4] @ rest"]
    by (simp add: shape u16_bytes_def numeral_3_eq_3)
  define w where "w = [2] @ u16_bytes (length p) @ p @ [0, 0]"
  have "s = w @ b # r @ [4] @ rest" "length w = 5 + length p" by (simp_all add: shape w_def)
  then have l3: "item_at s (5 + length p) = Some b"
    using item_at_append_length [of w "b # r @ [4] @ rest"] by simp
  have tot: "length s = 65542 + length p + length rest" using lr by (simp add: shape)
  have "parseChallengeComponents s = Inl InvalidControlCodeLength"
    unfolding parseChallengeComponents_def Let_def n1
    using n2 l3 b tot v0 by simp
  with ser show ?thesis by blast
qed

definition long_origin_input :: "nat \<Rightarrow> challenge_input" where
  "long_origin_input n = sample_input\<lparr>ci_origin := replicate n (CHR ''a'')\<rparr>"

lemma long_origin_bytes: "utf8_encode (ci_origin (long_origin_input n)) = replicate n 97"
  by (induction n) (simp_all add: utf8_encode_def utf8_char_def long_origin_input_def)

lemma long_origin_ok: "input_ok (long_origin_input n)"
  using sample_input_ok(1) by (simp add: long_origin_input_def input_ok_def)

theorem long_origin_not_parsed_witness:
  "\<exists>s. serializeChallengeComponents (long_origin_input 65536) = Inr s
     \<and> parseChallengeComponents s = Inl InvalidControlCodeLength"
proof (rule long_origin_not_parsed [OF long_origin_ok])
  show "length (utf8_encode (ci_origin (long_origin_input 65536))) = 65536"
    unfolding long_origin_bytes by (rule length_replicate)
  have "hd (replicate n (97 :: byte)) \<noteq> 4" if "0 < n" for n using that by (cases n) auto
  from this [of 65536] show "hd (utf8_encode (ci_origin (long_origin_input 65536))) \<noteq> 4"
    unfolding long_origin_bytes by linarith
qed

end
