(* ===== verification/Json.thy ===== *)
theory Json
  imports Codec
begin

text \<open>
  JSON values, \<open>JSON.stringify\<close> and \<open>JSON.parse\<close>, and the canonical form of
  \<open>lib/attestation/base64url.ts\<close>. Objects are association lists in insertion order; a property
  whose value is undefined is absent, as \<open>JSON.stringify\<close> leaves it out.
  Numbers are integers: every number the extension writes is one (timestamps, sequence numbers,
  versions, bytes), and a text with a fraction or an exponent is outside the model.
\<close>

datatype json =
    JNull
  | JBool bool
  | JNum int
  | JStr string
  | JArr "json list"
  | JObj "(string \<times> json) list"

section \<open>Property access\<close>

text \<open>\<open>v.k\<close>: undefined on a missing property and on values without properties. Reading a
  property of \<open>null\<close> throws; the readers below test for it where the code reaches that case.\<close>

fun jget :: "json \<Rightarrow> string \<Rightarrow> json option" where
  "jget (JObj ps) k = map_of ps k"
| "jget _ k = None"

fun jnum :: "json option \<Rightarrow> int option" where
  "jnum (Some (JNum n)) = Some n"
| "jnum _ = None"

fun jstr :: "json option \<Rightarrow> string option" where
  "jstr (Some (JStr s)) = Some s"
| "jstr _ = None"

fun jarr :: "json option \<Rightarrow> json list option" where
  "jarr (Some (JArr xs)) = Some xs"
| "jarr _ = None"

fun truthy :: "json option \<Rightarrow> bool" where
  "truthy None = False"
| "truthy (Some JNull) = False"
| "truthy (Some (JBool b)) = b"
| "truthy (Some (JNum n)) = (n \<noteq> 0)"
| "truthy (Some (JStr s)) = (s \<noteq> [])"
| "truthy (Some _) = True"

definition opt_prop :: "string \<Rightarrow> json option \<Rightarrow> (string \<times> json) list" where
  "opt_prop k v = (case v of None \<Rightarrow> [] | Some x \<Rightarrow> [(k, x)])"

section \<open>Printing\<close>

definition esc_char :: "char \<Rightarrow> string" where
  "esc_char c = (let n = of_char c :: nat in
     if n = 34 then [CHR 0x5C, CHR 0x22]
     else if n = 92 then [CHR 0x5C, CHR 0x5C]
     else if n = 8 then [CHR 0x5C, CHR ''b'']
     else if n = 12 then [CHR 0x5C, CHR ''f'']
     else if n = 10 then [CHR 0x5C, CHR ''n'']
     else if n = 13 then [CHR 0x5C, CHR ''r'']
     else if n = 9 then [CHR 0x5C, CHR ''t'']
     else if n < 32 then [CHR 0x5C, CHR ''u'', CHR ''0'', CHR ''0'', hex_digit (n div 16), hex_digit (n mod 16)]
     else [c])"

definition quote :: "string \<Rightarrow> string" where
  "quote s = CHR 0x22 # concat (map esc_char s) @ [CHR 0x22]"

fun stringify :: "json \<Rightarrow> string" where
  "stringify JNull = ''null''"
| "stringify (JBool b) = (if b then ''true'' else ''false'')"
| "stringify (JNum n) = show_int n"
| "stringify (JStr s) = quote s"
| "stringify (JArr xs) = CHR ''['' # join_with '','' (map stringify xs) @ '']''"
| "stringify (JObj ps) =
     CHR ''{'' # join_with '','' (map (\<lambda>p. quote (fst p) @ '':'' @ stringify (snd p)) ps) @ ''}''"

section \<open>Parsing\<close>

definition is_json_space :: "char \<Rightarrow> bool" where
  "is_json_space c \<longleftrightarrow> (of_char c :: nat) \<in> {9, 10, 13, 32}"

definition skip_ws :: "string \<Rightarrow> string" where
  "skip_ws s = dropWhile is_json_space s"

definition hex_value :: "char \<Rightarrow> nat option" where
  "hex_value c = (let n = of_char c in
     if 48 \<le> n \<and> n \<le> 57 then Some (n - 48)
     else if 97 \<le> n \<and> n \<le> 102 then Some (n - 87)
     else if 65 \<le> n \<and> n \<le> 70 then Some (n - 55)
     else None)"

definition unesc_char :: "char \<Rightarrow> char option" where
  "unesc_char c = (let n = of_char c :: nat in
     if n = 34 \<or> n = 92 \<or> n = 47 then Some c
     else if n = 98 then Some (CHR 0x08)
     else if n = 102 then Some (CHR 0x0C)
     else if n = 110 then Some (CHR 0x0A)
     else if n = 114 then Some (CHR 0x0D)
     else if n = 116 then Some (CHR 0x09)
     else None)"

definition unicode_char :: "char \<Rightarrow> char \<Rightarrow> char \<Rightarrow> char \<Rightarrow> char option" where
  "unicode_char a b c d =
     (case (hex_value a, hex_value b, hex_value c, hex_value d) of
        (Some w, Some x, Some y, Some z) \<Rightarrow>
          Some (if w = 0 \<and> x = 0 then char_of (y * 16 + z) else CHR 0x1A)
      | _ \<Rightarrow> None)"

text \<open>The characters of a string literal after its opening quote.\<close>

fun parse_str :: "string \<Rightarrow> (string \<times> string) option" where
  "parse_str [] = None"
| "parse_str (c # r) =
     (if of_char c = (34 :: nat) then Some ([], r)
      else if of_char c < (32 :: nat) then None
      else if of_char c = (92 :: nat) then
        (case r of
           [] \<Rightarrow> None
         | e # r' \<Rightarrow>
             if of_char e = (117 :: nat) then
               (case r' of
                  h1 # h2 # h3 # h4 # r'' \<Rightarrow>
                    (case unicode_char h1 h2 h3 h4 of
                       None \<Rightarrow> None
                     | Some x \<Rightarrow> map_option (\<lambda>p. (x # fst p, snd p)) (parse_str r''))
                | _ \<Rightarrow> None)
             else
               (case unesc_char e of
                  None \<Rightarrow> None
                | Some x \<Rightarrow> map_option (\<lambda>p. (x # fst p, snd p)) (parse_str r')))
      else map_option (\<lambda>p. (c # fst p, snd p)) (parse_str r))"

text \<open>An integer literal: no leading zero, and neither a fraction nor an exponent follows.\<close>

definition parse_digits :: "string \<Rightarrow> (nat \<times> string) option" where
  "parse_digits s = (let ds = takeWhile is_digit_char s; r = dropWhile is_digit_char s in
     if ds = [] \<or> (length ds > 1 \<and> hd ds = CHR ''0'') \<or> (r \<noteq> [] \<and> hd r \<in> set ''.eE'') then None
     else Some (read_nat ds, r))"

definition parse_num :: "string \<Rightarrow> (json \<times> string) option" where
  "parse_num s = (case s of
     [] \<Rightarrow> None
   | c # r \<Rightarrow> if c = CHR ''-'' then map_option (\<lambda>p. (JNum (- int (fst p)), snd p)) (parse_digits r)
             else map_option (\<lambda>p. (JNum (int (fst p)), snd p)) (parse_digits s))"

definition parse_word :: "string \<Rightarrow> (json \<times> string) option" where
  "parse_word s =
     (if starts_with s ''null'' then Some (JNull, drop 4 s)
      else if starts_with s ''true'' then Some (JBool True, drop 4 s)
      else if starts_with s ''false'' then Some (JBool False, drop 5 s)
      else parse_num s)"

fun parse_value :: "nat \<Rightarrow> string \<Rightarrow> (json \<times> string) option"
  and parse_elems :: "nat \<Rightarrow> string \<Rightarrow> (json list \<times> string) option"
  and parse_members :: "nat \<Rightarrow> (string \<times> json) list \<Rightarrow> string \<Rightarrow> ((string \<times> json) list \<times> string) option" where
  "parse_value 0 s = None"
| "parse_value (Suc f) s =
     (case skip_ws s of
        [] \<Rightarrow> None
      | c # r \<Rightarrow>
          if c = CHR 0x22 then map_option (\<lambda>p. (JStr (fst p), snd p)) (parse_str r)
          else if c = CHR ''['' then
            (case skip_ws r of
               [] \<Rightarrow> None
             | d # r' \<Rightarrow> if d = CHR '']'' then Some (JArr [], r')
                        else map_option (\<lambda>p. (JArr (fst p), snd p)) (parse_elems f (d # r')))
          else if c = CHR ''{'' then
            (case skip_ws r of
               [] \<Rightarrow> None
             | d # r' \<Rightarrow> if d = CHR ''}'' then Some (JObj [], r')
                        else map_option (\<lambda>p. (JObj (fst p), snd p)) (parse_members f [] (d # r')))
          else parse_word (c # r))"
| "parse_elems 0 s = None"
| "parse_elems (Suc f) s =
     (case parse_value f s of
        None \<Rightarrow> None
      | Some (v, r) \<Rightarrow>
          (case skip_ws r of
             [] \<Rightarrow> None
           | d # r' \<Rightarrow>
               if d = CHR '','' then map_option (\<lambda>p. (v # fst p, snd p)) (parse_elems f r')
               else if d = CHR '']'' then Some ([v], r')
               else None))"
| "parse_members 0 acc s = None"
| "parse_members (Suc f) acc s =
     (case skip_ws s of
        [] \<Rightarrow> None
      | q # r \<Rightarrow>
          if q \<noteq> CHR 0x22 then None
          else
            (case parse_str r of
               None \<Rightarrow> None
             | Some (k, r1) \<Rightarrow>
                 (case skip_ws r1 of
                    [] \<Rightarrow> None
                  | d # r2 \<Rightarrow>
                      if d \<noteq> CHR '':'' then None
                      else
                        (case parse_value f r2 of
                           None \<Rightarrow> None
                         | Some (v, r3) \<Rightarrow>
                             (case skip_ws r3 of
                                [] \<Rightarrow> None
                              | e # r4 \<Rightarrow>
                                  if e = CHR '','' then parse_members f (jsmap_set k v acc) r4
                                  else if e = CHR ''}'' then Some (jsmap_set k v acc, r4)
                                  else None)))))"

text \<open>
  Every nested value and every further element spends fuel and at least half a character of
  the text, so twice its length is enough fuel (\<open>parse_stringify\<close> below).
\<close>

definition json_parse :: "string \<Rightarrow> json option" where
  "json_parse s = (case parse_value (2 * length s + 2) s of
     None \<Rightarrow> None
   | Some (v, r) \<Rightarrow> if skip_ws r = [] then Some v else None)"

section \<open>Canonical form (\<open>sortObjectKeys\<close>, \<open>sortedJsonStringify\<close>)\<close>

fun sortObjectKeys :: "json \<Rightarrow> json" where
  "sortObjectKeys (JArr xs) = JArr (map sortObjectKeys xs)"
| "sortObjectKeys (JObj ps) = JObj (map (\<lambda>p. (fst p, sortObjectKeys (snd p))) (sort_key fst ps))"
| "sortObjectKeys v = v"

definition sortedJsonStringify :: "json \<Rightarrow> string" where
  "sortedJsonStringify obj = stringify (sortObjectKeys obj)"

section \<open>Printing and parsing agree\<close>

fun jwf :: "json \<Rightarrow> bool" where
  "jwf (JArr xs) = (\<forall>x \<in> set xs. jwf x)"
| "jwf (JObj ps) = (distinct (map fst ps) \<and> (\<forall>p \<in> set ps. jwf (snd p)))"
| "jwf _ = True"

fun jfuel :: "json \<Rightarrow> nat" where
  "jfuel (JArr xs) = Suc (sum_list (map (\<lambda>x. Suc (jfuel x)) xs))"
| "jfuel (JObj ps) = Suc (sum_list (map (\<lambda>p. Suc (jfuel (snd p))) ps))"
| "jfuel _ = Suc 0"

lemma hex_value_hex_digit [simp]: "d < 16 \<Longrightarrow> hex_value (hex_digit d) = Some d"
  by (simp add: hex_value_def Let_def of_char_hex_digit)

lemma parse_str_esc:
  "parse_str (esc_char c @ r) = map_option (\<lambda>p. (c # fst p, snd p)) (parse_str r)"
proof -
  define n where "n = (of_char c :: nat)"
  have c: "c = char_of n" by (simp add: n_def)
  have lit: "n = 34 \<Longrightarrow> c = CHR 0x22" "n = 92 \<Longrightarrow> c = CHR 0x5C" "n = 8 \<Longrightarrow> c = CHR 0x08"
    "n = 12 \<Longrightarrow> c = CHR 0x0C" "n = 10 \<Longrightarrow> c = CHR 0x0A" "n = 13 \<Longrightarrow> c = CHR 0x0D" "n = 9 \<Longrightarrow> c = CHR 0x09"
    by (rule of_char_eqI [where 'a = nat]; simp add: n_def)+
  consider "n = 34" | "n = 92" | "n = 8" | "n = 12" | "n = 10" | "n = 13" | "n = 9"
    | "n < 32" "n \<notin> {8, 9, 10, 12, 13}" | "n \<ge> 32" "n \<noteq> 34" "n \<noteq> 92"
    by fastforce
  then show ?thesis
  proof cases
    case 8
    have "n div 16 < 16" "n mod 16 < 16" using 8 by auto
    then have "unicode_char (CHR ''0'') (CHR ''0'') (hex_digit (n div 16)) (hex_digit (n mod 16)) = Some c"
      using c by (simp add: unicode_char_def hex_value_def [of "CHR ''0''"])
    then show ?thesis using 8 by (simp add: esc_char_def n_def [symmetric] Let_def)
  next
    case 9
    then show ?thesis by (simp add: esc_char_def n_def [symmetric] Let_def)
  qed (simp_all add: lit esc_char_def unesc_char_def)
qed

lemma parse_str_quote: "parse_str (concat (map esc_char s) @ CHR 0x22 # r) = Some (s, r)"
  by (induction s) (simp_all add: parse_str_esc)

definition json_follow :: "string \<Rightarrow> bool" where
  "json_follow r \<longleftrightarrow> r = [] \<or> hd r \<in> {CHR '','', CHR '']'', CHR ''}''}"

lemma json_follow_Cons [simp]:
  "json_follow []" "json_follow (CHR '','' # r)" "json_follow (CHR '']'' # r)" "json_follow (CHR ''}'' # r)"
  by (simp_all add: json_follow_def)

lemma json_follow_no_digit: "json_follow r \<Longrightarrow> takeWhile is_digit_char r = [] \<and> dropWhile is_digit_char r = r"
  by (cases r) (auto simp: json_follow_def is_digit_char_iff)

lemma show_nat_hd: "n \<noteq> 0 \<Longrightarrow> hd (show_nat n) \<noteq> CHR ''0''"
proof (induction n rule: show_nat.induct)
  case (1 n)
  show ?case
  proof (cases "n < 10")
    case True
    then have "of_char (hd (show_nat n)) = 48 + n" by (subst show_nat.simps) simp
    with "1.prems" show ?thesis by (auto simp: char_eq_iff)
  next
    case False
    then show ?thesis using 1 by (subst show_nat.simps) (simp add: hd_append)
  qed
qed

lemma show_nat_leading: "length (show_nat n) > 1 \<Longrightarrow> hd (show_nat n) \<noteq> CHR ''0''"
  by (cases "n = 0") (simp add: show_nat.simps [of 0], simp add: show_nat_hd)

lemma parse_digits_show_nat:
  assumes "json_follow r"
  shows "parse_digits (show_nat n @ r) = Some (n, r)"
proof -
  have d: "\<forall>c \<in> set (show_nat n). is_digit_char c" using show_nat_digits by (simp add: list_all_iff)
  then have "takeWhile is_digit_char (show_nat n @ r) = show_nat n"
    "dropWhile is_digit_char (show_nat n @ r) = r"
    using json_follow_no_digit [OF assms] by (simp_all add: takeWhile_append dropWhile_append)
  moreover have "r = [] \<or> hd r \<notin> set ''.eE''" using assms by (auto simp: json_follow_def)
  ultimately show ?thesis
    using show_nat_leading [of n] by (auto simp: parse_digits_def Let_def)
qed

lemma hd_show_nat_digit: "is_digit_char (hd (show_nat n))"
  using show_nat_digits [of n] by (cases "show_nat n") auto

lemma show_int_hd: "hd (show_int n) = CHR ''-'' \<or> is_digit_char (hd (show_int n))"
  using hd_show_nat_digit by (simp add: show_int_def)

lemma show_int_nonempty [simp]: "show_int n \<noteq> []"
  by (simp add: show_int_def)

lemma parse_num_show_int:
  assumes "json_follow r"
  shows "parse_num (show_int n @ r) = Some (JNum n, r)"
proof (cases "n < 0")
  case True
  then show ?thesis
    by (simp add: parse_num_def show_int_def parse_digits_show_nat [OF assms])
next
  case False
  obtain c cs where s: "show_nat (nat n) = c # cs" by (cases "show_nat (nat n)") auto
  have "is_digit_char c" using hd_show_nat_digit [of "nat n"] s by simp
  then have "c \<noteq> CHR ''-''" by (auto simp: is_digit_char_iff)
  then show ?thesis
    using False parse_digits_show_nat [OF assms, of "nat n"] s
    by (simp add: parse_num_def show_int_def)
qed

lemma skip_ws_id: "s \<noteq> [] \<Longrightarrow> \<not> is_json_space (hd s) \<Longrightarrow> skip_ws s = s"
  by (cases s) (auto simp: skip_ws_def)

lemma skip_ws_Cons [simp]: "\<not> is_json_space c \<Longrightarrow> skip_ws (c # s) = c # s"
  by (simp add: skip_ws_def)

lemma skip_ws_Nil [simp]: "skip_ws [] = []"
  by (simp add: skip_ws_def)

lemma json_space_punct [simp]:
  "\<not> is_json_space (CHR '','')" "\<not> is_json_space (CHR '']'')" "\<not> is_json_space (CHR ''}'')"
  "\<not> is_json_space (CHR '':'')" "\<not> is_json_space (CHR 0x22)" "\<not> is_json_space (CHR ''['')"
  "\<not> is_json_space (CHR ''{'')" "\<not> is_json_space (CHR ''n'')" "\<not> is_json_space (CHR ''t'')"
  "\<not> is_json_space (CHR ''f'')" "\<not> is_json_space (CHR ''-'')"
  by (simp_all add: is_json_space_def)

lemma digit_not_special:
  assumes "is_digit_char c \<or> c = CHR ''-''"
  shows "\<not> is_json_space c" "c \<notin> {CHR 0x22, CHR ''['', CHR '']'', CHR ''{'', CHR ''}'', CHR ''n'', CHR ''t'', CHR ''f''}"
  using assms by (auto simp: is_digit_char_iff is_json_space_def)

text \<open>The first character of a printed value is none that would end an array or be skipped.\<close>

lemma stringify_hd:
  "stringify v \<noteq> [] \<and> \<not> is_json_space (hd (stringify v)) \<and> hd (stringify v) \<noteq> CHR '']'' \<and> hd (stringify v) \<noteq> CHR ''}''"
proof (cases v)
  case (JNum n)
  then show ?thesis using show_int_hd [of n] digit_not_special [of "hd (show_int n)"] by auto
qed (auto simp: quote_def)


lemma parse_word_stringify:
  assumes "json_follow r" "v = JNull \<or> (\<exists>b. v = JBool b) \<or> (\<exists>n. v = JNum n)"
  shows "parse_word (stringify v @ r) = Some (v, r)"
proof (cases v)
  case (JNum n)
  obtain c cs where s: "show_int n = c # cs" by (cases "show_int n") auto
  then have "c \<notin> {CHR ''n'', CHR ''t'', CHR ''f''}"
    using digit_not_special [of c] show_int_hd [of n] by auto
  then have "\<not> starts_with (show_int n @ r) ''null''" "\<not> starts_with (show_int n @ r) ''true''"
    "\<not> starts_with (show_int n @ r) ''false''"
    using s by (auto simp: starts_with_def)
  then show ?thesis using JNum parse_num_show_int [OF assms(1)] by (simp add: parse_word_def)
qed (use assms in \<open>auto simp: parse_word_def starts_with_def\<close>)

text \<open>The printed text of a value, of the elements of an array and of the members of an object.\<close>

definition elems_text :: "json list \<Rightarrow> string" where
  "elems_text xs = join_with '','' (map stringify xs)"

definition members_text :: "(string \<times> json) list \<Rightarrow> string" where
  "members_text ps = join_with '','' (map (\<lambda>p. quote (fst p) @ '':'' @ stringify (snd p)) ps)"

lemma elems_text_Cons:
  "elems_text (x # xs) @ r = stringify x @ (if xs = [] then r else CHR '','' # elems_text xs @ r)"
  by (cases xs) (simp_all add: elems_text_def)

lemma members_text_Cons:
  "members_text ((k, v) # ps) @ r =
     quote k @ CHR '':'' # stringify v @ (if ps = [] then r else CHR '','' # members_text ps @ r)"
  by (cases ps) (simp_all add: members_text_def)

definition parses :: "json \<Rightarrow> bool" where
  "parses v \<longleftrightarrow> (\<forall>f r. jfuel v \<le> f \<longrightarrow> json_follow r \<longrightarrow> parse_value f (stringify v @ r) = Some (v, r))"

lemma parses_elems:
  assumes "\<forall>x \<in> set xs. parses x" "xs \<noteq> []" "sum_list (map (\<lambda>x. Suc (jfuel x)) xs) \<le> f"
  shows "parse_elems f (elems_text xs @ CHR '']'' # r) = Some (xs, r)"
  using assms
proof (induction xs arbitrary: f)
  case (Cons x xs)
  then obtain g where f: "f = Suc g" by (cases f) auto
  have x: "\<And>r. json_follow r \<Longrightarrow> parse_value g (stringify x @ r) = Some (x, r)"
    using Cons.prems f by (auto simp: parses_def)
  show ?case
  proof (cases "xs = []")
    case True
    then show ?thesis by (simp add: f elems_text_Cons x)
  next
    case False
    then have "parse_elems g (elems_text xs @ CHR '']'' # r) = Some (xs, r)"
      using Cons f by auto
    with False show ?thesis by (simp add: f elems_text_Cons x)
  qed
qed simp

lemma jsmap_set_fresh: "k \<notin> fst ` set m \<Longrightarrow> jsmap_set k v m = m @ [(k, v)]"
  by (induction m) auto

lemma parses_members:
  assumes "\<forall>p \<in> set ps. parses (snd p)" "ps \<noteq> []" "distinct (map fst (acc @ ps))"
    "sum_list (map (\<lambda>p. Suc (jfuel (snd p))) ps) \<le> f"
  shows "parse_members f acc (members_text ps @ CHR ''}'' # r) = Some (acc @ ps, r)"
  using assms
proof (induction ps arbitrary: f acc)
  case (Cons p ps)
  obtain k v where p: "p = (k, v)" by (cases p)
  obtain g where f: "f = Suc g" using Cons.prems by (cases f) auto
  have v: "\<And>r. json_follow r \<Longrightarrow> parse_value g (stringify v @ r) = Some (v, r)"
    using Cons.prems f p by (auto simp: parses_def)
  have fresh: "jsmap_set k v acc = acc @ [(k, v)]"
    using Cons.prems p by (intro jsmap_set_fresh) auto
  have q: "\<And>r. quote k @ r = CHR 0x22 # concat (map esc_char k) @ CHR 0x22 # r"
    by (simp add: quote_def)
  show ?case
  proof (cases "ps = []")
    case True
    then show ?thesis by (simp add: f p members_text_Cons q parse_str_quote v fresh)
  next
    case False
    have "parse_members g (acc @ [(k, v)]) (members_text ps @ CHR ''}'' # r) = Some ((acc @ [(k, v)]) @ ps, r)"
      by (rule Cons.IH) (use Cons.prems False f p in auto)
    with False show ?thesis by (simp add: f p members_text_Cons q parse_str_quote v fresh)
  qed
qed simp

lemma hd_elems_text: "xs \<noteq> [] \<Longrightarrow> \<exists>c s. elems_text xs = c # s \<and> \<not> is_json_space c \<and> c \<noteq> CHR '']''"
  using stringify_hd [of "hd xs"] elems_text_Cons [of "hd xs" "tl xs" "[]"]
  by (cases "stringify (hd xs)") auto

lemma hd_members_text: "ps \<noteq> [] \<Longrightarrow> \<exists>s. members_text ps = CHR 0x22 # s"
  using members_text_Cons [of "fst (hd ps)" "snd (hd ps)" "tl ps" "[]"]
  by (cases ps) (auto simp: quote_def)

lemma parses_array:
  assumes "\<forall>x \<in> set xs. parses x"
  shows "parses (JArr xs)"
  unfolding parses_def
proof (intro allI impI)
  fix f r assume f: "jfuel (JArr xs) \<le> f"
  then obtain g where g: "f = Suc g" by (cases f) auto
  have t: "stringify (JArr xs) @ r = CHR ''['' # elems_text xs @ CHR '']'' # r"
    by (simp add: elems_text_def)
  show "parse_value f (stringify (JArr xs) @ r) = Some (JArr xs, r)"
  proof (cases "xs = []")
    case True
    then show ?thesis unfolding t g by (simp add: elems_text_def)
  next
    case False
    then obtain c s where c: "elems_text xs = c # s" "\<not> is_json_space c" "c \<noteq> CHR '']''"
      using hd_elems_text by blast
    have "parse_elems g (elems_text xs @ CHR '']'' # r) = Some (xs, r)"
      by (rule parses_elems) (use assms False f g in auto)
    then show ?thesis unfolding t g using c by simp
  qed
qed

lemma parses_object:
  assumes "\<forall>p \<in> set ps. parses (snd p)" "distinct (map fst ps)"
  shows "parses (JObj ps)"
  unfolding parses_def
proof (intro allI impI)
  fix f r assume f: "jfuel (JObj ps) \<le> f"
  then obtain g where g: "f = Suc g" by (cases f) auto
  have t: "stringify (JObj ps) @ r = CHR ''{'' # members_text ps @ CHR ''}'' # r"
    by (simp add: members_text_def)
  show "parse_value f (stringify (JObj ps) @ r) = Some (JObj ps, r)"
  proof (cases "ps = []")
    case True
    then show ?thesis unfolding t g by (simp add: members_text_def)
  next
    case False
    then obtain s where c: "members_text ps = CHR 0x22 # s"
      using hd_members_text by blast
    have "parse_members g [] (members_text ps @ CHR ''}'' # r) = Some ([] @ ps, r)"
      by (rule parses_members) (use assms False f g in auto)
    then show ?thesis unfolding t g using c by simp
  qed
qed

lemma parses_scalar:
  assumes "v = JNull \<or> (\<exists>b. v = JBool b) \<or> (\<exists>n. v = JNum n)"
  shows "parses v"
  unfolding parses_def
proof (intro allI impI)
  fix f r assume f: "jfuel v \<le> f" and r: "json_follow r"
  obtain g where g: "f = Suc g" using f by (cases f) (auto split: json.splits, cases v, auto)
  obtain c s where s: "stringify v = c # s" "\<not> is_json_space c"
    using stringify_hd [of v] by (cases "stringify v") auto
  have "c \<notin> {CHR 0x22, CHR ''['', CHR ''{''}"
  proof (cases v)
    case (JNum n)
    then have "c = hd (show_int n)" using s by (cases "show_int n") auto
    then show ?thesis using digit_not_special [of c] show_int_hd [of n] by auto
  qed (use assms s in \<open>auto split: if_splits\<close>)
  then show "parse_value f (stringify v @ r) = Some (v, r)"
    using parse_word_stringify [OF r assms] s by (simp add: g)
qed

lemma parses_string: "parses (JStr s)"
  unfolding parses_def
proof (intro allI impI)
  fix f r assume "jfuel (JStr s) \<le> f"
  then obtain g where "f = Suc g" by (cases f) auto
  then show "parse_value f (stringify (JStr s) @ r) = Some (JStr s, r)"
    by (simp add: quote_def parse_str_quote)
qed

lemma jwf_parses: "jwf v \<Longrightarrow> parses v"
proof (induction v)
  case (JArr xs)
  then show ?case by (intro parses_array) auto
next
  case (JObj ps)
  then show ?case by (intro parses_object) (auto simp: prod_set_defs)
qed (auto intro: parses_scalar parses_string)

text \<open>The fuel that \<open>json_parse\<close> takes covers every printed value.\<close>

lemma sum_list_le_twice:
  "(\<And>x. x \<in> set xs \<Longrightarrow> f x \<le> 2 * length (g x)) \<Longrightarrow> xs \<noteq> [] \<Longrightarrow>
     sum_list (map (\<lambda>x. Suc (f x)) xs) \<le> 2 * length (join_with [c] (map g xs)) + 1"
proof (induction xs)
  case (Cons x xs)
  show ?case
  proof (cases "xs = []")
    case True
    then show ?thesis using Cons.prems(1) [of x] by simp
  next
    case False
    then have "sum_list (map (\<lambda>x. Suc (f x)) xs) \<le> 2 * length (join_with [c] (map g xs)) + 1"
      using Cons by auto
    then show ?thesis using Cons.prems(1) [of x] False by (simp add: join_with_Cons)
  qed
qed simp

lemma jfuel_le: "jfuel v \<le> 2 * length (stringify v)"
proof (induction v)
  case (JNum n)
  then show ?case by (cases "show_int n") auto
next
  case (JArr xs)
  then show ?case using sum_list_le_twice [of xs jfuel stringify "CHR '',''"] by (cases "xs = []") auto
next
  case (JObj ps)
  have "jfuel (snd p) \<le> 2 * length (quote (fst p) @ '':'' @ stringify (snd p))" if "p \<in> set ps" for p
  proof -
    have "jfuel (snd p) \<le> 2 * length (stringify (snd p))"
      using JObj that by (cases p) (auto simp: prod_set_defs)
    then show ?thesis by simp
  qed
  then show ?case
    using sum_list_le_twice [of ps "\<lambda>p. jfuel (snd p)" "\<lambda>p. quote (fst p) @ '':'' @ stringify (snd p)" "CHR '',''"]
    by (cases "ps = []") auto
qed (auto simp: quote_def)

lemma parse_stringify: "jwf v \<Longrightarrow> json_parse (stringify v) = Some v"
proof -
  assume "jwf v"
  then have "parses v" by (rule jwf_parses)
  moreover have "jfuel v \<le> 2 * length (stringify v) + 2" using jfuel_le [of v] by simp
  ultimately have "parse_value (2 * length (stringify v) + 2) (stringify v @ []) = Some (v, [])"
    unfolding parses_def using json_follow_Cons(1) by blast
  then show ?thesis by (simp add: json_parse_def del: parse_value.simps)
qed

lemma stringify_inject: "jwf v \<Longrightarrow> jwf w \<Longrightarrow> stringify v = stringify w \<Longrightarrow> v = w"
  by (metis option.inject parse_stringify)

section \<open>Canonical form\<close>

lemma jwf_sortObjectKeys: "jwf v \<Longrightarrow> jwf (sortObjectKeys v)"
proof (induction v)
  case (JObj ps)
  have "distinct (map fst (sort_key fst ps))"
    using JObj.prems by (metis distinct_map distinct_sort jwf.simps(2) set_sort)
  then show ?case using JObj by (auto simp: comp_def prod_set_defs)
qed auto

text \<open>The order in which the keys of an object were written does not matter.\<close>

lemma sort_key_fst_unique:
  assumes "distinct (map fst ps)" "mset ps = mset qs"
  shows "sort_key fst ps = sort_key (fst :: (string \<times> json) \<Rightarrow> string) qs"
proof (rule properties_for_sort_key)
  show "mset (sort_key fst qs) = mset ps" using assms(2) by simp
  show "sorted (map fst (sort_key fst qs))" by simp
  fix k assume "k \<in> set (sort_key fst qs)"
  have d: "distinct ps" "distinct qs" "set ps = set qs"
    using assms by (auto simp: distinct_map dest: mset_eq_setD mset_eq_imp_distinct_iff)
  have inj: "inj_on fst (set qs)" using assms d by (simp add: distinct_map)
  have "filter (\<lambda>x. fst k = fst x) xs = [k]" if "distinct xs" "k \<in> set xs" "inj_on fst (set xs)" for xs
    using that by (induction xs) (auto simp: filter_empty_conv inj_on_def)
  then show "filter (\<lambda>x. fst k = fst x) (sort_key fst qs) = filter (\<lambda>x. fst k = fst x) ps"
    using \<open>k \<in> set (sort_key fst qs)\<close> d inj by simp
qed

lemma sortedJsonStringify_perm:
  assumes "distinct (map fst ps)" "mset ps = mset qs"
  shows "sortedJsonStringify (JObj ps) = sortedJsonStringify (JObj qs)"
  using sort_key_fst_unique [OF assms] by (simp add: sortedJsonStringify_def)



end
