(* ===== verification/Attestation.thy ===== *)
theory Attestation
  imports Json
begin

text \<open>
  Relying-party attestation, \<open>lib/attestation/\<close>: the key store, the header parser, the
  verifier, the manifest refresh, the audit log and the demo signer. Web Crypto is a parameter:
  \<open>importKey\<close> and \<open>verify\<close> (ECDSA P-256 with SHA-256), \<open>sign\<close>, and \<open>sha256\<close>.
\<close>

section \<open>Dates\<close>

text \<open>\<open>new Date(s)\<close> for the form \<open>YYYY-MM-DDThh:mm:ssZ\<close> that the keys use, in
  milliseconds since 1970; any other text is the invalid date.\<close>

definition days_from_civil :: "int \<Rightarrow> int \<Rightarrow> int \<Rightarrow> int" where
  "days_from_civil y m d =
     (let y' = (if m \<le> 2 then y - 1 else y);
          era = y' div 400;
          yoe = y' - era * 400;
          doy = (153 * (m + (if m > 2 then - 3 else 9)) + 2) div 5 + d - 1;
          doe = yoe * 365 + yoe div 4 - yoe div 100 + doy
      in era * 146097 + doe - 719468)"

definition date_ms :: "string \<Rightarrow> millis option" where
  "date_ms s =
     (let num = (\<lambda>a b. int (read_nat (slice s a b))) in
      if length s = 20
         \<and> list_all is_digit_char (slice s 0 4 @ slice s 5 7 @ slice s 8 10 @ slice s 11 13 @ slice s 14 16 @ slice s 17 19)
         \<and> item_at s 4 = Some (CHR ''-'') \<and> item_at s 7 = Some (CHR ''-'') \<and> item_at s 10 = Some (CHR ''T'')
         \<and> item_at s 13 = Some (CHR '':'') \<and> item_at s 16 = Some (CHR '':'') \<and> item_at s 19 = Some (CHR ''Z'')
         \<and> 1 \<le> num 5 7 \<and> num 5 7 \<le> 12 \<and> 1 \<le> num 8 10 \<and> num 8 10 \<le> 31
         \<and> num 11 13 \<le> 23 \<and> num 14 16 \<le> 59 \<and> num 17 19 \<le> 59
      then Some (1000 * (86400 * days_from_civil (num 0 4) (num 5 7) (num 8 10)
             + 3600 * num 11 13 + 60 * num 14 16 + num 17 19))
      else None)"

section \<open>Data (types.ts)\<close>

record signing_key =
  sk_domain :: string
  sk_keyId :: string
  sk_publicKeyHex :: string
  sk_notBefore :: string
  sk_notAfter :: string

record manifest =
  mf_version :: "int option"
  mf_keys :: "signing_key list"
  mf_manifestSignature :: string

record attested_code =
  ac_controlCode :: string
  ac_rpDomain :: string
  ac_keyId :: string
  ac_signature :: string
  ac_sessionId :: "json option"
  ac_timestamp :: int

datatype attestation_status =
    Verified attested_code
  | DomOnly
  | RatDetected attested_code string
  | NotApplicable

datatype audit_event_type =
    AttestationVerified
  | AttestationFailed
  | ControlCodeMatch
  | ControlCodeMismatch
  | DomOnlyFallback
  | ManifestRefreshed
  | ManifestRejected

section \<open>The key store (keyStore.ts)\<close>

definition WHITELISTED_RP_DOMAINS :: "string list" where
  "WHITELISTED_RP_DOMAINS = [''lhv.ee'', ''swedbank.ee'', ''seb.ee'', ''tara.ria.ee'']"

text \<open>\<open>'ck\<close> is the type of imported \<open>CryptoKey\<close>s.\<close>

record 'ck key_store =
  ks_keys :: "(string, signing_key) jsmap"
  ks_importedKeys :: "(string, 'ck) jsmap"
  ks_manifestVersion :: "int option"

definition key_id :: "string \<Rightarrow> string \<Rightarrow> string" where
  "key_id domain keyId = domain @ '':'' @ keyId"

definition addKey :: "signing_key \<Rightarrow> 'ck key_store \<Rightarrow> 'ck key_store" where
  "addKey key ks =
     (let id = key_id (sk_domain key) (sk_keyId key) in
      ks\<lparr>ks_keys := jsmap_set id key (ks_keys ks),
         ks_importedKeys := jsmap_delete id (ks_importedKeys ks)\<rparr>)"

definition new_KeyStore :: "signing_key list \<Rightarrow> 'ck key_store" where
  "new_KeyStore initialKeys =
     fold addKey initialKeys \<lparr>ks_keys = [], ks_importedKeys = [], ks_manifestVersion = Some 0\<rparr>"

definition isKeyActive :: "millis \<Rightarrow> signing_key \<Rightarrow> bool" where
  "isKeyActive now key =
     (case (date_ms (sk_notBefore key), date_ms (sk_notAfter key)) of
        (Some notBefore, Some notAfter) \<Rightarrow> now \<ge> notBefore \<and> now \<le> notAfter
      | _ \<Rightarrow> False)"

definition getKey :: "millis \<Rightarrow> string \<Rightarrow> string \<Rightarrow> 'ck key_store \<Rightarrow> signing_key option" where
  "getKey now domain keyId ks =
     (if domain \<notin> set WHITELISTED_RP_DOMAINS then None
      else case jsmap_get (ks_keys ks) (key_id domain keyId) of
        None \<Rightarrow> None
      | Some key \<Rightarrow> if \<not> isKeyActive now key then None else Some key)"

definition getAllKeysForDomain :: "millis \<Rightarrow> string \<Rightarrow> 'ck key_store \<Rightarrow> signing_key list" where
  "getAllKeysForDomain now domain ks =
     filter (\<lambda>key. sk_domain key = domain \<and> isKeyActive now key) (map snd (ks_keys ks))"

definition is_hex_char :: "char \<Rightarrow> bool" where
  "is_hex_char c \<longleftrightarrow> hex_value c \<noteq> None"

fun hex_pairs :: "string \<Rightarrow> bytes" where
  "hex_pairs (a # b # r) = word_of_nat (the (hex_value a) * 16 + the (hex_value b)) # hex_pairs r"
| "hex_pairs _ = []"

text \<open>\<open>None\<close> is the error it throws.\<close>

definition hexToBytes :: "string \<Rightarrow> bytes option" where
  "hexToBytes hex =
     (if length hex mod 2 \<noteq> 0 \<or> \<not> (hex \<noteq> [] \<and> list_all is_hex_char hex) then None
      else Some (hex_pairs hex))"

definition getImportedKey ::
  "(bytes \<Rightarrow> 'ck option) \<Rightarrow> millis \<Rightarrow> string \<Rightarrow> string \<Rightarrow> 'ck key_store \<Rightarrow> 'ck option \<times> 'ck key_store" where
  "getImportedKey importKey now domain keyId ks =
     (let id = key_id domain keyId in
      case jsmap_get (ks_importedKeys ks) id of
        Some cached \<Rightarrow> (Some cached, ks)
      | None \<Rightarrow>
          (case getKey now domain keyId ks of
             None \<Rightarrow> (None, ks)
           | Some key \<Rightarrow>
               (case Option.bind (hexToBytes (sk_publicKeyHex key)) importKey of
                  None \<Rightarrow> (None, ks)
                | Some cryptoKey \<Rightarrow>
                    (Some cryptoKey, ks\<lparr>ks_importedKeys := jsmap_set id cryptoKey (ks_importedKeys ks)\<rparr>))))"

text \<open>\<open>a <= b\<close> is false when a side is undefined.\<close>

definition js_le :: "int option \<Rightarrow> int option \<Rightarrow> bool" where
  "js_le a b = (case (a, b) of (Some x, Some y) \<Rightarrow> x \<le> y | _ \<Rightarrow> False)"

definition updateManifest :: "manifest \<Rightarrow> 'ck key_store \<Rightarrow> bool \<times> 'ck key_store" where
  "updateManifest manifest ks =
     (if mf_manifestSignature manifest = [] then (False, ks)
      else if js_le (mf_version manifest) (ks_manifestVersion ks) then (False, ks)
      else (True, (fold addKey (mf_keys manifest) ks)\<lparr>ks_manifestVersion := mf_version manifest\<rparr>))"

definition keyCount :: "'ck key_store \<Rightarrow> nat" where
  "keyCount ks = length (ks_keys ks)"

section \<open>The header (headerParser.ts)\<close>

record parsed_header =
  ph_version :: string
  ph_payload :: json
  ph_code :: string
  ph_ts :: int
  ph_signature :: bytes
  ph_signatureB64 :: string
  ph_keyId :: string

definition parseAttestationHeader :: "string \<Rightarrow> parsed_header option" where
  "parseAttestationHeader rawHeader =
     (case split_on (CHR '';'') rawHeader of
        [version, payloadB64, sigB64, keyId] \<Rightarrow>
          if version \<noteq> ''v1'' then None
          else
           (case base64urlDecode payloadB64 of
              None \<Rightarrow> None
            | Some payloadBytes \<Rightarrow>
                (case json_parse (utf8_decode payloadBytes) of
                   None \<Rightarrow> None
                 | Some payload \<Rightarrow>
                     (case jstr (jget payload ''code'') of
                        None \<Rightarrow> None
                      | Some code \<Rightarrow>
                          if code = [] then None
                          else
                           (case jnum (jget payload ''ts'') of
                              None \<Rightarrow> None
                            | Some ts \<Rightarrow>
                                (case base64urlDecode sigB64 of
                                   None \<Rightarrow> None
                                 | Some signature \<Rightarrow>
                                     Some \<lparr>ph_version = version, ph_payload = payload, ph_code = code,
                                           ph_ts = ts, ph_signature = signature, ph_signatureB64 = sigB64,
                                           ph_keyId = keyId\<rparr>)))))
      | _ \<Rightarrow> None)"

section \<open>The verifier (verifier.ts)\<close>

definition TIMESTAMP_TOLERANCE_SECONDS :: int where "TIMESTAMP_TOLERANCE_SECONDS = 30"

definition validateTimestamp :: "millis \<Rightarrow> int \<Rightarrow> bool" where
  "validateTimestamp now ts \<longleftrightarrow> \<bar>now div 1000 - ts\<bar> \<le> TIMESTAMP_TOLERANCE_SECONDS"

definition verifyHeader ::
  "(bytes \<Rightarrow> 'ck option) \<Rightarrow> ('ck \<Rightarrow> bytes \<Rightarrow> bytes \<Rightarrow> bool) \<Rightarrow> millis \<Rightarrow> string \<Rightarrow> string
     \<Rightarrow> 'ck key_store \<Rightarrow> attested_code option \<times> 'ck key_store" where
  "verifyHeader importKey verify now rawHeader rpDomain ks =
     (case parseAttestationHeader rawHeader of
        None \<Rightarrow> (None, ks)
      | Some parsed \<Rightarrow>
          if \<not> validateTimestamp now (ph_ts parsed) then (None, ks)
          else
           (case getImportedKey importKey now rpDomain (ph_keyId parsed) ks of
              (None, ks') \<Rightarrow> (None, ks')
            | (Some cryptoKey, ks') \<Rightarrow>
                (let payloadBytes = utf8_encode (sortedJsonStringify (ph_payload parsed)) in
                 if \<not> verify cryptoKey (ph_signature parsed) payloadBytes then (None, ks')
                 else
                   (Some \<lparr>ac_controlCode = ph_code parsed, ac_rpDomain = rpDomain, ac_keyId = ph_keyId parsed,
                          ac_signature = ph_signatureB64 parsed, ac_sessionId = jget (ph_payload parsed) ''session'',
                          ac_timestamp = ph_ts parsed\<rparr>, ks'))))"

text \<open>A null or empty DOM code is falsy.\<close>

definition verifyControlCode :: "attested_code option \<Rightarrow> string option \<Rightarrow> attestation_status" where
  "verifyControlCode attestedCode domCode =
     (case attestedCode of
        None \<Rightarrow> if nullish domCode [] \<noteq> [] then DomOnly else NotApplicable
      | Some ac \<Rightarrow>
          if nullish domCode [] = [] then Verified ac
          else if ac_controlCode ac = nullish domCode [] then Verified ac
          else RatDetected ac (nullish domCode []))"

definition redactControlCode :: "string \<Rightarrow> string" where
  "redactControlCode code = (if length code \<le> 4 then take 2 code @ ''**'' else take 4 code @ ''****'')"

section \<open>Manifest refresh (manifest.ts)\<close>

definition MANIFEST_SIGNING_KEY_HEX :: string where
  "MANIFEST_SIGNING_KEY_HEX =
     ''0453c0135f5c4ce30d89ae2e256f954ff42967e63213a0e79f05af5e7420a31a2384cfc5714fa86acb60f27bedb8b79dd2f62a594d99074f9033b33350df0a40ae''"

text \<open>What fetching the manifest gives: a rejected fetch or an unreadable body (with its message), or a
  status and a body.\<close>

datatype fetch_result =
    FetchError string
  | FetchResponse nat json

datatype refresh_error =
    HttpStatus nat
  | InvalidManifestFormat
  | ManifestSignatureMissing
  | SigningKeyUnavailable
  | ManifestSignatureInvalid
  | VersionRollback
  | RefreshException string

definition response_ok :: "nat \<Rightarrow> bool" where
  "response_ok status \<longleftrightarrow> 200 \<le> status \<and> status \<le> 299"

text \<open>The fields of the manifest as the code casts them; a version that is not a number counts as
  undefined.\<close>

definition field_str :: "json \<Rightarrow> string \<Rightarrow> string" where
  "field_str j k = nullish (jstr (jget j k)) ''undefined''"

definition key_of_json :: "json \<Rightarrow> signing_key" where
  "key_of_json j = \<lparr>sk_domain = field_str j ''domain'', sk_keyId = field_str j ''keyId'',
     sk_publicKeyHex = field_str j ''publicKeyHex'', sk_notBefore = field_str j ''notBefore'',
     sk_notAfter = field_str j ''notAfter''\<rparr>"

definition getManifestSigningKey ::
  "(bytes \<Rightarrow> 'ck option) \<Rightarrow> 'ck option \<Rightarrow> 'ck option \<times> 'ck option" where
  "getManifestSigningKey importKey manifestSigningKey =
     (case manifestSigningKey of
        Some k \<Rightarrow> (Some k, Some k)
      | None \<Rightarrow>
          (case Option.bind (hexToBytes MANIFEST_SIGNING_KEY_HEX) importKey of
             None \<Rightarrow> (None, None)
           | Some k \<Rightarrow> (Some k, Some k)))"

definition last_version_key :: "string \<Rightarrow> string" where
  "last_version_key keyId = ''attestation:lastVersion:'' @ keyId"

definition persistLastSeenVersions :: "manifest \<Rightarrow> (string \<rightharpoonup> int) \<Rightarrow> (string \<rightharpoonup> int)" where
  "persistLastSeenVersions manifest local =
     (case mf_version manifest of
        None \<Rightarrow> local
      | Some v \<Rightarrow> fold (\<lambda>key m. m(last_version_key (sk_keyId key) \<mapsto> v)) (mf_keys manifest) local)"

text \<open>The state the refresh works on: the key store, the cached signing key and the versions in
  local storage. \<open>storeErr\<close> is the message of a storage write that fails.\<close>

record 'ck refresh_state =
  rs_keyStore :: "'ck key_store"
  rs_signingKey :: "'ck option"
  rs_lastVersions :: "string \<rightharpoonup> int"

definition refreshKeyManifest ::
  "(bytes \<Rightarrow> 'ck option) \<Rightarrow> ('ck \<Rightarrow> bytes \<Rightarrow> bytes \<Rightarrow> bool) \<Rightarrow> fetch_result \<Rightarrow> string option
     \<Rightarrow> 'ck refresh_state \<Rightarrow> (refresh_error option) \<times> 'ck refresh_state" where
  "refreshKeyManifest importKey verify fetched storeErr st =
     (case fetched of
        FetchError msg \<Rightarrow> (Some (RefreshException msg), st)
      | FetchResponse status body \<Rightarrow>
          if \<not> response_ok status then (Some (HttpStatus status), st)
          else
           (case jarr (jget body ''keys'') of
              None \<Rightarrow> (Some InvalidManifestFormat, st)
            | Some keys \<Rightarrow>
                (case jstr (jget body ''manifestSignature'') of
                   None \<Rightarrow> (Some ManifestSignatureMissing, st)
                 | Some sig \<Rightarrow>
                     if sig = [] then (Some ManifestSignatureMissing, st)
                     else
                      (case getManifestSigningKey importKey (rs_signingKey st) of
                         (None, k) \<Rightarrow> (Some SigningKeyUnavailable, st\<lparr>rs_signingKey := k\<rparr>)
                       | (Some signingKey, k) \<Rightarrow>
                           (let st1 = st\<lparr>rs_signingKey := k\<rparr>;
                                version = jget body ''version'';
                                payloadBytes = utf8_encode (sortedJsonStringify
                                  (JObj (opt_prop ''version'' version @ [(''keys'', JArr keys)])))
                            in
                            case base64urlDecode sig of
                              None \<Rightarrow> (Some (RefreshException ''InvalidCharacterError''), st1)
                            | Some sigBytes \<Rightarrow>
                                if \<not> verify signingKey sigBytes payloadBytes
                                then (Some ManifestSignatureInvalid, st1)
                                else
                                 (let manifest = \<lparr>mf_version = jnum version,
                                        mf_keys = map key_of_json keys, mf_manifestSignature = sig\<rparr>
                                  in
                                  case updateManifest manifest (rs_keyStore st1) of
                                    (False, ks) \<Rightarrow> (Some VersionRollback, st1\<lparr>rs_keyStore := ks\<rparr>)
                                  | (True, ks) \<Rightarrow>
                                      (let st2 = st1\<lparr>rs_keyStore := ks\<rparr> in
                                       case storeErr of
                                         Some msg \<Rightarrow> (Some (RefreshException msg), st2)
                                       | None \<Rightarrow>
                                           (None, st2\<lparr>rs_lastVersions :=
                                              persistLastSeenVersions manifest (rs_lastVersions st2)\<rparr>))))))))"

section \<open>The audit log (audit.ts)\<close>

record audit_entry =
  ae_eventType :: audit_event_type
  ae_timestamp :: millis
  ae_details :: "(string \<times> json) list"

definition MAX_AUDIT_LOG :: nat where "MAX_AUDIT_LOG = 100"

text \<open>\<open>String(v)\<close>\<close>

fun js_string :: "json \<Rightarrow> string" where
  "js_string JNull = ''null''"
| "js_string (JBool b) = (if b then ''true'' else ''false'')"
| "js_string (JNum n) = show_int n"
| "js_string (JStr s) = s"
| "js_string (JArr xs) = join_with '','' (map (\<lambda>x. if x = JNull then [] else js_string x) xs)"
| "js_string (JObj _) = ''[object Object]''"

definition sha256_hex :: "(bytes \<Rightarrow> bytes) \<Rightarrow> string \<Rightarrow> string" where
  "sha256_hex sha256 message = to_hex (sha256 (utf8_encode message))"

definition hash_prop :: "(bytes \<Rightarrow> bytes) \<Rightarrow> string \<Rightarrow> json option \<Rightarrow> (string \<times> json) list" where
  "hash_prop sha256 name v =
     (if truthy v then [(name, JStr (sha256_hex sha256 (js_string (the v))))] else [])"

definition sanitizeDetails :: "(bytes \<Rightarrow> bytes) \<Rightarrow> (string \<times> json) list \<Rightarrow> (string \<times> json) list" where
  "sanitizeDetails sha256 details =
     fold (\<lambda>p. jsmap_set (fst p) (snd p))
       (hash_prop sha256 ''codeHash'' (map_of details ''code'')
        @ hash_prop sha256 ''domCodeHash'' (map_of details ''domCode''))
       (filter (\<lambda>p. fst p \<noteq> ''code'' \<and> fst p \<noteq> ''domCode'') details)"

text \<open>\<open>storageOk\<close> says whether both storage calls succeed; a failure is swallowed.\<close>

definition logAuditEvent ::
  "(bytes \<Rightarrow> bytes) \<Rightarrow> millis \<Rightarrow> bool \<Rightarrow> audit_event_type \<Rightarrow> (string \<times> json) list
     \<Rightarrow> audit_entry list option \<Rightarrow> audit_entry list option" where
  "logAuditEvent sha256 now storageOk eventType details stored =
     (if \<not> storageOk then stored
      else
       (let auditLog = nullish stored [] @ [\<lparr>ae_eventType = eventType, ae_timestamp = now,
              ae_details = sanitizeDetails sha256 details\<rparr>];
            trimmed = drop (length auditLog - MAX_AUDIT_LOG) auditLog
        in Some trimmed))"

definition getAuditLog :: "audit_entry list option \<Rightarrow> audit_entry list" where
  "getAuditLog stored = nullish stored []"

section \<open>The demo signer (demoAttestation.ts)\<close>

record jwk =
  jwk_kty :: string
  jwk_x :: string
  jwk_y :: string
  jwk_crv :: string
  jwk_d :: string
  jwk_extractable :: bool

definition DEMO_PRIVATE_KEYS :: "(string \<times> jwk) list" where
  "DEMO_PRIVATE_KEYS =
     [(''lhv-2026q1'', \<lparr>jwk_kty = ''EC'', jwk_x = ''MOpYVpggPsIkJwYgAFEXZY9KVnQ4qELTNrft8IIbhgI'', jwk_y = ''oDefQj0jKqAVjubIwG8YxqCDpQe-MaIbE98qKvhr0Ds'', jwk_crv = ''P-256'',
        jwk_d = ''Jzp-nEuXfrLkKoAolgvlP3KC5iP6106-EYbfW-mFPEQ'', jwk_extractable = False\<rparr>),
      (''lhv-2026q2'', \<lparr>jwk_kty = ''EC'', jwk_x = ''uO1G9qTZkGpFYYm2yQUVztGUTfipwQyg5V0DFZJFpVw'', jwk_y = ''zPZMJJSGsH1PnOef3NOextm1cvOIahRBZ5e6-ySbQ2c'', jwk_crv = ''P-256'',
        jwk_d = ''ETsowaLz3o62oUc2cKhaEHNL42GKTPIXWgxP5pENPN0'', jwk_extractable = False\<rparr>),
      (''swed-2026q1'', \<lparr>jwk_kty = ''EC'', jwk_x = ''NTdXRUDUkrH0xkgVqfRK0U89xmA_FrCJjFq5KsblnHk'', jwk_y = ''kzqhVLE1vsxm-QprSocZYc2-VpYqISoqdanhixcz9YM'', jwk_crv = ''P-256'',
        jwk_d = ''6-GafLfG41xLVlcWJxV-PTs0uULOeAmI6yEeWQ5f6Mw'', jwk_extractable = False\<rparr>),
      (''swed-2026q2'', \<lparr>jwk_kty = ''EC'', jwk_x = ''IZt-fwTmWUGlqqC0sCLxyr9V8f1XWQLx7BivkgcX7pI'', jwk_y = ''oPpyuAeKZKY_-9u6ZrxMOTm8ubt-LlHkggY4AhsV3cI'', jwk_crv = ''P-256'',
        jwk_d = ''V2r8cV-PDQ42PE54oVwNus8bj0bTwLGq3zjQfR8AIe8'', jwk_extractable = False\<rparr>),
      (''seb-2026q1'', \<lparr>jwk_kty = ''EC'', jwk_x = ''GqFNH5Y70SY2gagC3j-eQTDKgDPKvXT_WpUirrfO30c'', jwk_y = ''SfxoEKN1xS61yP1jAW_-K2oiJtuSMNXezPwgpVWm3F0'', jwk_crv = ''P-256'',
        jwk_d = ''0_7z8t4WNjyJuY53IGzOJ4LnxiWwRiZ-f_1fq-hD5AI'', jwk_extractable = False\<rparr>),
      (''seb-2026q2'', \<lparr>jwk_kty = ''EC'', jwk_x = ''EiHRug4eSUGo2nlSUSPnYXcnNgezZBMZyz3iBrCCbHY'', jwk_y = ''QyHPthz8dMTn-lWH97INCq61-qW2gLJ3KE9hjka3mw0'', jwk_crv = ''P-256'',
        jwk_d = ''a98TYPF14J4yOJgnvNcJW6MWATaw8zb6GUsxsjLfLBA'', jwk_extractable = False\<rparr>),
      (''tara-2026q1'', \<lparr>jwk_kty = ''EC'', jwk_x = ''2KOSIusV1kU5WMvET1jQL9K36iznbl7dQrx4gZXwt2w'', jwk_y = ''FtK6PvQWqUlyiCLbcPfIibMb6Tc4W-0LzQyPZShAmeY'', jwk_crv = ''P-256'',
        jwk_d = ''pcHX_28m8gaaCJ9UwsvBeQWQPXtch0vCf5K8b8GAzWY'', jwk_extractable = False\<rparr>),
      (''tara-2026q2'', \<lparr>jwk_kty = ''EC'', jwk_x = ''dajMTd-C_z-EGQHyGURKZvJCxP_Domxo_jHcPUSbZ0Q'', jwk_y = ''Eifs6SvgY8Hpq1xtWGAxNUs8e5p-PiyDB7lSq3hg_70'', jwk_crv = ''P-256'',
        jwk_d = ''AlxBsTEDu2xWh_q8MO6yGGQW0O9YqloF6U7Lbxw-Tls'', jwk_extractable = False\<rparr>)]"

text \<open>\<open>importJwk\<close> fails (\<open>None\<close>) where the import throws; the cache of imported keys is threaded.\<close>

definition getDemoPrivateKey ::
  "(jwk \<Rightarrow> 'sk option) \<Rightarrow> string \<Rightarrow> (string, 'sk) jsmap \<Rightarrow> 'sk option \<times> (string, 'sk) jsmap" where
  "getDemoPrivateKey importJwk keyId cache =
     (case jsmap_get cache keyId of
        Some cached \<Rightarrow> (Some cached, cache)
      | None \<Rightarrow>
          (case map_of DEMO_PRIVATE_KEYS keyId of
             None \<Rightarrow> (None, cache)
           | Some jwk \<Rightarrow>
               (case importJwk jwk of
                  None \<Rightarrow> (None, cache)
                | Some cryptoKey \<Rightarrow> (Some cryptoKey, jsmap_set keyId cryptoKey cache))))"

definition demo_payload :: "millis \<Rightarrow> string \<Rightarrow> string option \<Rightarrow> json" where
  "demo_payload now controlCode sessionId =
     JObj ([(''code'', JStr controlCode), (''ts'', JNum (now div 1000))]
       @ (if nullish sessionId [] \<noteq> [] then [(''session'', JStr (nullish sessionId []))] else []))"

definition createDemoAttestationHeader ::
  "bool \<Rightarrow> (jwk \<Rightarrow> 'sk option) \<Rightarrow> ('sk \<Rightarrow> bytes \<Rightarrow> bytes option) \<Rightarrow> millis \<Rightarrow> string \<Rightarrow> string \<Rightarrow> string
     \<Rightarrow> string option \<Rightarrow> (string, 'sk) jsmap \<Rightarrow> string option \<times> (string, 'sk) jsmap" where
  "createDemoAttestationHeader isDemoMode importJwk sign now controlCode rpDomain keyId sessionId cache =
     (if \<not> isDemoMode then (None, cache)
      else if rpDomain \<notin> set WHITELISTED_RP_DOMAINS then (None, cache)
      else
       (case getDemoPrivateKey importJwk keyId cache of
          (None, cache') \<Rightarrow> (None, cache')
        | (Some privateKey, cache') \<Rightarrow>
            (let payloadBytes = utf8_encode (sortedJsonStringify (demo_payload now controlCode sessionId)) in
             case sign privateKey payloadBytes of
               None \<Rightarrow> (None, cache')
             | Some signature \<Rightarrow>
                 (let payloadB64 = base64urlEncode payloadBytes; sigB64 = base64urlEncode signature in
                  (Some (''v1;'' @ payloadB64 @ '';'' @ sigB64 @ '';'' @ keyId), cache')))))"

section \<open>The key store invariant\<close>

text \<open>Every imported key is the import of the key that the store holds now under the same id.\<close>

definition ks_inv :: "(bytes \<Rightarrow> 'ck option) \<Rightarrow> 'ck key_store \<Rightarrow> bool" where
  "ks_inv importKey ks \<longleftrightarrow> jsmap_wf (ks_keys ks) \<and> jsmap_wf (ks_importedKeys ks)
     \<and> (\<forall>id ck. map_of (ks_importedKeys ks) id = Some ck \<longrightarrow>
          (\<exists>key. map_of (ks_keys ks) id = Some key
             \<and> Option.bind (hexToBytes (sk_publicKeyHex key)) importKey = Some ck))"

lemma ks_inv_addKey [wf_intros]: "ks_inv importKey ks \<Longrightarrow> ks_inv importKey (addKey key ks)"
  by (auto simp: ks_inv_def addKey_def Let_def intro: jsmap_wf_set jsmap_wf_delete)

lemma ks_inv_fold_addKey [wf_intros]: "ks_inv importKey ks \<Longrightarrow> ks_inv importKey (fold addKey keys ks)"
  by (induction keys arbitrary: ks) (auto intro: wf_intros)

lemma ks_inv_new [wf_intros]: "ks_inv importKey (new_KeyStore keys)"
  unfolding new_KeyStore_def by (rule ks_inv_fold_addKey) (simp add: ks_inv_def)

lemma ks_inv_version [simp]: "ks_inv importKey (ks\<lparr>ks_manifestVersion := v\<rparr>) = ks_inv importKey ks"
  by (simp add: ks_inv_def)

lemma ks_inv_updateManifest [wf_intros]:
  "ks_inv importKey ks \<Longrightarrow> ks_inv importKey (snd (updateManifest m ks))"
  by (simp add: updateManifest_def ks_inv_fold_addKey)

lemma getKey_Some:
  "getKey now d k ks = Some key \<Longrightarrow>
     d \<in> set WHITELISTED_RP_DOMAINS \<and> map_of (ks_keys ks) (key_id d k) = Some key \<and> isKeyActive now key"
  by (auto simp: getKey_def split: if_splits option.splits)

lemma ks_inv_getImportedKey [wf_intros]:
  "ks_inv importKey ks \<Longrightarrow> ks_inv importKey (snd (getImportedKey importKey now d k ks))"
  by (auto simp: getImportedKey_def ks_inv_def Let_def intro: jsmap_wf_set
      split: option.splits dest!: getKey_Some)

lemma getImportedKey_current:
  assumes "ks_inv importKey ks" "getImportedKey importKey now d k ks = (Some ck, ks')"
  shows "\<exists>key. map_of (ks_keys ks) (key_id d k) = Some key
     \<and> Option.bind (hexToBytes (sk_publicKeyHex key)) importKey = Some ck"
  using assms
  by (fastforce simp: getImportedKey_def ks_inv_def Let_def split: option.splits dest!: getKey_Some)

lemma getImportedKey_keys:
  "ks_keys (snd (getImportedKey importKey now d k ks)) = ks_keys ks
   \<and> ks_manifestVersion (snd (getImportedKey importKey now d k ks)) = ks_manifestVersion ks"
  by (auto simp: getImportedKey_def Let_def split: option.splits)

section \<open>The header format\<close>

lemma split_header:
  "split_on (CHR '';'') s = [a, b, c, d] \<Longrightarrow> s = a @ '';'' @ b @ '';'' @ c @ '';'' @ d"
  using join_split_on [of "CHR '';''" s] by simp

lemma parseAttestationHeader_Some:
  assumes "parseAttestationHeader raw = Some p"
  shows "\<exists>payloadB64 bs. raw = ''v1;'' @ payloadB64 @ '';'' @ ph_signatureB64 p @ '';'' @ ph_keyId p
     \<and> base64urlDecode payloadB64 = Some bs \<and> json_parse (utf8_decode bs) = Some (ph_payload p)
     \<and> base64urlDecode (ph_signatureB64 p) = Some (ph_signature p)
     \<and> jget (ph_payload p) ''code'' = Some (JStr (ph_code p)) \<and> ph_code p \<noteq> []
     \<and> jget (ph_payload p) ''ts'' = Some (JNum (ph_ts p))"
proof -
  have str: "jstr v = Some x \<Longrightarrow> v = Some (JStr x)" for v x by (cases v rule: jstr.cases) auto
  have num: "jnum v = Some x \<Longrightarrow> v = Some (JNum x)" for v x by (cases v rule: jnum.cases) auto
  obtain a b c d where s: "split_on (CHR '';'') raw = [a, b, c, d]"
    using assms by (auto simp: parseAttestationHeader_def split: list.splits)
  show ?thesis
    using assms [unfolded parseAttestationHeader_def s, simplified] split_header [OF s]
    by (auto split: if_splits option.splits dest!: str num)
qed

text \<open>A header assembled from its parts is read back, part by part.\<close>

lemma parseAttestationHeader_build:
  assumes "jwf payload" "jget payload ''code'' = Some (JStr code)" "code \<noteq> []"
    "jget payload ''ts'' = Some (JNum ts)" "CHR '';'' \<notin> set keyId"
  shows "parseAttestationHeader (''v1;'' @ base64urlEncode (utf8_encode (stringify payload)) @ '';''
      @ base64urlEncode sig @ '';'' @ keyId)
    = Some \<lparr>ph_version = ''v1'', ph_payload = payload, ph_code = code, ph_ts = ts, ph_signature = sig,
        ph_signatureB64 = base64urlEncode sig, ph_keyId = keyId\<rparr>"
proof -
  have ns: "CHR '';'' \<notin> set (base64urlEncode bs)" for bs
    using base64urlEncode_alphabet [of "CHR '';''" bs] by auto
  have "split_on (CHR '';'') (''v1'' @ CHR '';'' # base64urlEncode (utf8_encode (stringify payload)) @ CHR '';''
      # base64urlEncode sig @ CHR '';'' # keyId)
    = [''v1'', base64urlEncode (utf8_encode (stringify payload)), base64urlEncode sig, keyId]"
    using ns assms(5) by (simp add: split_on_append split_on_not_in)
  then show ?thesis
    using assms by (simp add: parseAttestationHeader_def base64url_roundtrip parse_stringify)
qed

section \<open>Properties\<close>

text \<open>Everything an accepted header rests on.\<close>

lemma verifyHeader_accepts:
  assumes "ks_inv importKey ks" and "verifyHeader importKey verify now raw rpDomain ks = (Some ac, ks')"
  shows "\<exists>payloadB64 bs payload sig key ck.
     raw = ''v1;'' @ payloadB64 @ '';'' @ ac_signature ac @ '';'' @ ac_keyId ac
     \<and> base64urlDecode payloadB64 = Some bs \<and> json_parse (utf8_decode bs) = Some payload
     \<and> jget payload ''code'' = Some (JStr (ac_controlCode ac)) \<and> ac_controlCode ac \<noteq> []
     \<and> jget payload ''ts'' = Some (JNum (ac_timestamp ac)) \<and> \<bar>now div 1000 - ac_timestamp ac\<bar> \<le> 30
     \<and> base64urlDecode (ac_signature ac) = Some sig
     \<and> map_of (ks_keys ks) (key_id rpDomain (ac_keyId ac)) = Some key
     \<and> Option.bind (hexToBytes (sk_publicKeyHex key)) importKey = Some ck
     \<and> verify ck sig (utf8_encode (sortedJsonStringify payload))
     \<and> ac_rpDomain ac = rpDomain \<and> ks_inv importKey ks'"
proof -
  obtain p where p: "parseAttestationHeader raw = Some p"
    using assms(2) by (auto simp: verifyHeader_def split: option.splits)
  have ts: "validateTimestamp now (ph_ts p)"
    using assms(2) p by (auto simp: verifyHeader_def split: if_splits)
  obtain ck where ck: "getImportedKey importKey now rpDomain (ph_keyId p) ks = (Some ck, ks')"
    and v: "verify ck (ph_signature p) (utf8_encode (sortedJsonStringify (ph_payload p)))"
    and ac: "ac = \<lparr>ac_controlCode = ph_code p, ac_rpDomain = rpDomain, ac_keyId = ph_keyId p,
      ac_signature = ph_signatureB64 p, ac_sessionId = jget (ph_payload p) ''session'', ac_timestamp = ph_ts p\<rparr>"
    using assms(2) p ts
    by (auto simp: verifyHeader_def Let_def split: if_splits option.splits prod.splits)
  have "ks_inv importKey ks'"
    using ks_inv_getImportedKey [OF assms(1), of now rpDomain "ph_keyId p"] ck by simp
  then show ?thesis
    using parseAttestationHeader_Some [OF p] getImportedKey_current [OF assms(1) ck] v ts
    by (simp add: ac validateTimestamp_def TIMESTAMP_TOLERANCE_SECONDS_def) blast
qed

text \<open>C1: What an attested code rests on. If the verifier accepts a header, the header is
  \<open>v1;payload;signature;keyId\<close>, its timestamp is within 30 seconds of the clock, the store holds a
  key under the domain and key id, and the signature checks under that key, as it stands in the store
  now, over the canonical JSON of the payload that the code was read from.\<close>

theorem verifyHeader_sound:
  assumes "ks_inv importKey ks" and "verifyHeader importKey verify now raw rpDomain ks = (Some ac, ks')"
  shows "\<exists>payloadB64 bs payload sig key ck.
     raw = ''v1;'' @ payloadB64 @ '';'' @ ac_signature ac @ '';'' @ ac_keyId ac
     \<and> base64urlDecode payloadB64 = Some bs \<and> json_parse (utf8_decode bs) = Some payload
     \<and> jget payload ''code'' = Some (JStr (ac_controlCode ac)) \<and> ac_controlCode ac \<noteq> []
     \<and> jget payload ''ts'' = Some (JNum (ac_timestamp ac)) \<and> \<bar>now div 1000 - ac_timestamp ac\<bar> \<le> 30
     \<and> base64urlDecode (ac_signature ac) = Some sig
     \<and> map_of (ks_keys ks) (key_id rpDomain (ac_keyId ac)) = Some key
     \<and> Option.bind (hexToBytes (sk_publicKeyHex key)) importKey = Some ck
     \<and> verify ck sig (utf8_encode (sortedJsonStringify payload))
     \<and> ac_rpDomain ac = rpDomain \<and> ks_inv importKey ks'"
  by (rule verifyHeader_accepts [OF assms])

text \<open>A toy signature scheme for witnesses: the signature of a message is the message itself.\<close>

definition demo_key :: signing_key where
  "demo_key = \<lparr>sk_domain = ''lhv.ee'', sk_keyId = ''lhv-2026q1'', sk_publicKeyHex = ''04ab'',
     sk_notBefore = ''2025-06-01T00:00:00Z'', sk_notAfter = ''2027-01-01T00:00:00Z''\<rparr>"

definition demo_store :: "bytes key_store" where
  "demo_store = new_KeyStore [demo_key]"

definition demo_now :: millis where "demo_now = 1767225600000"

lemma demo_key_dates:
  "date_ms ''2025-06-01T00:00:00Z'' = Some 1748736000000" "date_ms ''2027-01-01T00:00:00Z'' = Some 1798761600000"
  by code_simp+

lemma demo_getKey: "getKey demo_now ''lhv.ee'' ''lhv-2026q1'' demo_store = Some demo_key"
  by (simp add: getKey_def WHITELISTED_RP_DOMAINS_def demo_store_def new_KeyStore_def addKey_def key_id_def
      demo_key_def isKeyActive_def demo_key_dates demo_now_def Let_def)

lemma demo_hex: "hexToBytes ''04ab'' = Some [4, 171]"
  by (simp add: hexToBytes_def is_hex_char_def hex_value_def)

lemma demo_imported: "ks_importedKeys demo_store = []"
  by (simp add: demo_store_def new_KeyStore_def addKey_def jsmap_delete_def Let_def)

definition echo_verify :: "bytes \<Rightarrow> bytes \<Rightarrow> bytes \<Rightarrow> bool" where
  "echo_verify ck sig msg \<longleftrightarrow> sig = msg"

definition demo_ck :: bytes where "demo_ck = [4, 171]"

definition demo_store' :: "bytes key_store" where
  "demo_store' = demo_store\<lparr>ks_importedKeys := [(''lhv.ee:lhv-2026q1'', demo_ck)]\<rparr>"

lemma demo_import:
  "getImportedKey Some demo_now ''lhv.ee'' ''lhv-2026q1'' demo_store = (Some demo_ck, demo_store')"
  by (simp add: getImportedKey_def Let_def demo_getKey demo_imported demo_store'_def demo_key_def demo_hex
      demo_ck_def key_id_def)

definition demo_payload_json :: json where
  "demo_payload_json = JObj [(''code'', JStr ''4711''), (''ts'', JNum 1767225600)]"

definition demo_raw :: string where
  "demo_raw = ''v1;'' @ base64urlEncode (utf8_encode (stringify demo_payload_json)) @ '';''
     @ base64urlEncode (utf8_encode (stringify demo_payload_json)) @ '';'' @ ''lhv-2026q1''"

lemma demo_accepts: "\<exists>ac. verifyHeader Some echo_verify demo_now demo_raw ''lhv.ee'' demo_store = (Some ac, demo_store')"
proof -
  have "parseAttestationHeader demo_raw = Some \<lparr>ph_version = ''v1'', ph_payload = demo_payload_json,
      ph_code = ''4711'', ph_ts = 1767225600, ph_signature = utf8_encode (stringify demo_payload_json),
      ph_signatureB64 = base64urlEncode (utf8_encode (stringify demo_payload_json)), ph_keyId = ''lhv-2026q1''\<rparr>"
    unfolding demo_raw_def by (rule parseAttestationHeader_build) (simp_all add: demo_payload_json_def)
  moreover have "sortObjectKeys demo_payload_json = demo_payload_json"
    by (simp add: demo_payload_json_def)
  ultimately show ?thesis
    by (simp add: verifyHeader_def validateTimestamp_def TIMESTAMP_TOLERANCE_SECONDS_def demo_import
        echo_verify_def sortedJsonStringify_def demo_now_def [symmetric])
      (simp add: demo_now_def)
qed

theorem verifyHeader_sound_witness:
  "\<exists>(ac :: attested_code) payloadB64 bs payload sig key ck.
     demo_raw = ''v1;'' @ payloadB64 @ '';'' @ ac_signature ac @ '';'' @ ac_keyId ac
     \<and> base64urlDecode payloadB64 = Some bs \<and> json_parse (utf8_decode bs) = Some payload
     \<and> jget payload ''code'' = Some (JStr (ac_controlCode ac)) \<and> ac_controlCode ac \<noteq> []
     \<and> jget payload ''ts'' = Some (JNum (ac_timestamp ac)) \<and> \<bar>demo_now div 1000 - ac_timestamp ac\<bar> \<le> 30
     \<and> base64urlDecode (ac_signature ac) = Some sig
     \<and> map_of (ks_keys demo_store) (key_id ''lhv.ee'' (ac_keyId ac)) = Some key
     \<and> Option.bind (hexToBytes (sk_publicKeyHex key)) Some = Some ck
     \<and> echo_verify ck sig (utf8_encode (sortedJsonStringify payload))
     \<and> ac_rpDomain ac = ''lhv.ee'' \<and> ks_inv Some demo_store'"
proof -
  have inv: "ks_inv Some demo_store" unfolding demo_store_def by (rule ks_inv_new)
  from demo_accepts obtain ac where "verifyHeader Some echo_verify demo_now demo_raw ''lhv.ee'' demo_store = (Some ac, demo_store')"
    by blast
  from verifyHeader_sound [OF inv this] show ?thesis by (rule exI [of _ ac])
qed

text \<open>What the demo signer writes, the verifier reads.\<close>

lemma demo_header_accepted:
  assumes "fst (createDemoAttestationHeader isDemoMode importJwk sign now code rpDomain keyId sessionId cache) = Some header"
    and "code \<noteq> []" and "CHR '';'' \<notin> set keyId" and "\<bar>later div 1000 - now div 1000\<bar> \<le> 30"
    and "getImportedKey importKey later rpDomain keyId ks = (Some ck, ks')"
    and "\<And>sk m sig. fst (getDemoPrivateKey importJwk keyId cache) = Some sk \<Longrightarrow> sign sk m = Some sig \<Longrightarrow> verify ck sig m"
  shows "\<exists>ac. verifyHeader importKey verify later header rpDomain ks = (Some ac, ks')
     \<and> ac_controlCode ac = code \<and> ac_rpDomain ac = rpDomain \<and> ac_keyId ac = keyId \<and> ac_timestamp ac = now div 1000"
proof -
  define payload where "payload = sortObjectKeys (demo_payload now code sessionId)"
  have sorted: "payload = JObj ([(''code'', JStr code)]
      @ (if nullish sessionId [] \<noteq> [] then [(''session'', JStr (nullish sessionId []))] else [])
      @ [(''ts'', JNum (now div 1000))])"
    by (simp add: payload_def demo_payload_def sort_key_def insort_key.simps)
  have twice: "sortObjectKeys payload = payload"
    by (simp add: sorted sort_key_def)
  obtain sk cache' sig where sk: "getDemoPrivateKey importJwk keyId cache = (Some sk, cache')"
    and sig: "sign sk (utf8_encode (stringify payload)) = Some sig"
    and h: "header = ''v1;'' @ base64urlEncode (utf8_encode (stringify payload)) @ '';''
      @ base64urlEncode sig @ '';'' @ keyId"
    using assms(1)
    by (auto simp: createDemoAttestationHeader_def sortedJsonStringify_def payload_def Let_def
        split: if_splits option.splits prod.splits)
  have parsed: "parseAttestationHeader header = Some \<lparr>ph_version = ''v1'', ph_payload = payload, ph_code = code,
      ph_ts = now div 1000, ph_signature = sig, ph_signatureB64 = base64urlEncode sig, ph_keyId = keyId\<rparr>"
    unfolding h using assms(2,3) by (intro parseAttestationHeader_build) (simp_all add: sorted)
  have "verify ck sig (utf8_encode (sortedJsonStringify payload))"
    using assms(6) [of sk] sk sig by (simp add: sortedJsonStringify_def twice)
  then show ?thesis
    using parsed assms(4,5)
    by (simp add: verifyHeader_def validateTimestamp_def TIMESTAMP_TOLERANCE_SECONDS_def)
qed

text \<open>Headers of the demo signer verify. Within 30 seconds of signing, a header that
  \<open>createDemoAttestationHeader\<close> builds is accepted by a verifier whose store yields a key that
  checks the signer's signatures, and the verifier reads back the code, the domain and the key id.\<close>

theorem demo_header_verifies:
  assumes "fst (createDemoAttestationHeader isDemoMode importJwk sign now code rpDomain keyId sessionId cache) = Some header"
    and "code \<noteq> []" and "CHR '';'' \<notin> set keyId" and "\<bar>later div 1000 - now div 1000\<bar> \<le> 30"
    and "getImportedKey importKey later rpDomain keyId ks = (Some ck, ks')"
    and "\<And>sk m sig. fst (getDemoPrivateKey importJwk keyId cache) = Some sk \<Longrightarrow> sign sk m = Some sig \<Longrightarrow> verify ck sig m"
  shows "\<exists>ac. verifyHeader importKey verify later header rpDomain ks = (Some ac, ks')
     \<and> ac_controlCode ac = code \<and> ac_rpDomain ac = rpDomain \<and> ac_keyId ac = keyId \<and> ac_timestamp ac = now div 1000"
  by (rule demo_header_accepted [OF assms(1-5)]) (rule assms(6))

theorem demo_header_verifies_witness:
  "\<exists>header ac.
     fst (createDemoAttestationHeader True (\<lambda>_. Some ()) (\<lambda>_ m. Some m) demo_now ''4711'' ''lhv.ee'' ''lhv-2026q1'' None [])
       = Some header
     \<and> verifyHeader Some echo_verify demo_now header ''lhv.ee'' demo_store = (Some ac, demo_store')
     \<and> ac_controlCode ac = ''4711'' \<and> ac_rpDomain ac = ''lhv.ee'' \<and> ac_keyId ac = ''lhv-2026q1''
     \<and> ac_timestamp ac = demo_now div 1000"
proof -
  have key: "getDemoPrivateKey (\<lambda>_. Some ()) ''lhv-2026q1'' [] = (Some (), [(''lhv-2026q1'', ())])"
    by (simp add: getDemoPrivateKey_def DEMO_PRIVATE_KEYS_def)
  obtain header where h: "fst (createDemoAttestationHeader True (\<lambda>_. Some ()) (\<lambda>_ m. Some m) demo_now ''4711''
      ''lhv.ee'' ''lhv-2026q1'' None []) = Some header"
    by (simp add: createDemoAttestationHeader_def key WHITELISTED_RP_DOMAINS_def Let_def)
  have "\<exists>ac. verifyHeader Some echo_verify demo_now header ''lhv.ee'' demo_store = (Some ac, demo_store')
     \<and> ac_controlCode ac = ''4711'' \<and> ac_rpDomain ac = ''lhv.ee'' \<and> ac_keyId ac = ''lhv-2026q1''
     \<and> ac_timestamp ac = demo_now div 1000"
    by (rule demo_header_verifies [OF h _ _ _ demo_import]) (simp_all add: echo_verify_def)
  with h show ?thesis by blast
qed

text \<open>Key expiry is not enforced on a key that has been imported. Once a lookup has imported
  a key, every later lookup returns it, at any time, although \<open>getKey\<close> rejects the key when
  its validity has ended.\<close>

theorem imported_key_outlives_expiry:
  assumes "getImportedKey importKey now domain keyId ks = (Some ck, ks')"
  shows "getImportedKey importKey later domain keyId ks' = (Some ck, ks')
     \<and> (\<forall>key notAfter. map_of (ks_keys ks') (key_id domain keyId) = Some key \<longrightarrow>
           date_ms (sk_notAfter key) = Some notAfter \<longrightarrow> notAfter < later \<longrightarrow>
           getKey later domain keyId ks' = None)"
proof -
  have "map_of (ks_importedKeys ks') (key_id domain keyId) = Some ck"
    using assms by (auto simp: getImportedKey_def Let_def split: option.splits)
  then show ?thesis
    by (auto simp: getImportedKey_def getKey_def isKeyActive_def split: option.splits)
qed

theorem imported_key_outlives_expiry_witness:
  "getImportedKey Some 1800000000000 ''lhv.ee'' ''lhv-2026q1'' demo_store' = (Some demo_ck, demo_store')
   \<and> getKey 1800000000000 ''lhv.ee'' ''lhv-2026q1'' demo_store' = None"
proof -
  have k: "map_of (ks_keys demo_store') (key_id ''lhv.ee'' ''lhv-2026q1'') = Some demo_key"
    using getKey_Some [OF demo_getKey] by (simp add: demo_store'_def)
  have d: "date_ms (sk_notAfter demo_key) = Some 1798761600000"
    by (simp add: demo_key_def demo_key_dates)
  from imported_key_outlives_expiry [OF demo_import, of 1800000000000] k d show ?thesis by auto
qed

lemma map_of_fold_addKey:
  "map_of (ks_keys (fold addKey keys ks)) kid =
     (case find (\<lambda>k. key_id (sk_domain k) (sk_keyId k) = kid) (rev keys) of
        None \<Rightarrow> map_of (ks_keys ks) kid | Some k \<Rightarrow> Some k)"
proof (induction keys arbitrary: ks)
  case (Cons k keys)
  have find_append: "find P (xs @ ys) = (case find P xs of None \<Rightarrow> find P ys | Some x \<Rightarrow> Some x)" for P and xs ys :: "signing_key list"
    by (induction xs) auto
  show ?case
    using Cons.IH [of "addKey k ks"]
    by (auto simp: find_append addKey_def Let_def split: option.splits)
qed simp


definition demo_manifest :: manifest where
  "demo_manifest = \<lparr>mf_version = Some 2, mf_keys = [demo_key], mf_manifestSignature = ''sig''\<rparr>"


text \<open>The verdict on the control code. A remote-access attack is reported exactly when an
  attested code and a non-empty page code are both present and differ; without a page code the attested
  code is accepted, and without an attested code the result never says verified.\<close>

theorem verifyControlCode_verdict:
  "(verifyControlCode a d = RatDetected ac dc \<longleftrightarrow> a = Some ac \<and> d = Some dc \<and> dc \<noteq> [] \<and> ac_controlCode ac \<noteq> dc)
   \<and> (verifyControlCode a d = Verified ac \<longleftrightarrow>
        a = Some ac \<and> (d = None \<or> d = Some [] \<or> d = Some (ac_controlCode ac)))
   \<and> (verifyControlCode a d = DomOnly \<longleftrightarrow> a = None \<and> (\<exists>c. d = Some c \<and> c \<noteq> []))"
  by (cases a; cases d) (auto simp: verifyControlCode_def)

definition audit_clean :: "audit_entry list \<Rightarrow> bool" where
  "audit_clean es \<longleftrightarrow> length es \<le> 100 \<and>
     (\<forall>e \<in> set es. ''code'' \<notin> fst ` set (ae_details e) \<and> ''domCode'' \<notin> fst ` set (ae_details e))"

lemma keys_fold_jsmap_set:
  "fst ` set (fold (\<lambda>p. jsmap_set (fst p) (snd p)) ps m) = fst ` set ps \<union> fst ` set m"
proof (induction ps arbitrary: m)
  case (Cons p ps)
  have "fst ` set (jsmap_set k v n) = insert k (fst ` set n)" for k v and n :: "('a \<times> 'b) list"
    using keys_jsmap_set [of k v n] by (metis Un_insert_right append_Nil2 insert_absorb list.set(1) list.simps(15) set_append set_map)
  then show ?case using Cons by auto
qed simp

lemma sanitizeDetails_keys:
  "''code'' \<notin> fst ` set (sanitizeDetails h ds)" "''domCode'' \<notin> fst ` set (sanitizeDetails h ds)"
  by (auto simp: sanitizeDetails_def keys_fold_jsmap_set hash_prop_def split: if_splits)

text \<open>Logging keeps the log clean.\<close>

lemma audit_clean_log:
  assumes "audit_clean (getAuditLog stored)"
  shows "audit_clean (getAuditLog (logAuditEvent sha256 now ok ev details stored))
     \<and> (ok \<longrightarrow> last (getAuditLog (logAuditEvent sha256 now ok ev details stored)) =
            \<lparr>ae_eventType = ev, ae_timestamp = now, ae_details = sanitizeDetails sha256 details\<rparr>)"
  using assms sanitizeDetails_keys [of sha256 details]
  by (auto simp: audit_clean_def getAuditLog_def logAuditEvent_def MAX_AUDIT_LOG_def Let_def
      dest: in_set_dropD)

text \<open>The audit log holds no control code. Starting from a log without the keys \<open>code\<close>
  and \<open>domCode\<close> in its entries and with at most 100 entries, logging any event keeps both facts, and
  the event is the last entry whenever storage works.\<close>

theorem audit_log_private:
  assumes "audit_clean (getAuditLog stored)"
  shows "audit_clean (getAuditLog (logAuditEvent sha256 now ok ev details stored))
     \<and> (ok \<longrightarrow> last (getAuditLog (logAuditEvent sha256 now ok ev details stored)) =
            \<lparr>ae_eventType = ev, ae_timestamp = now, ae_details = sanitizeDetails sha256 details\<rparr>)"
  by (rule audit_clean_log [OF assms])

theorem audit_log_private_witness:
  "audit_clean (getAuditLog None) \<and>
   audit_clean (getAuditLog (logAuditEvent id 5 True AttestationVerified [(''code'', JStr ''4711'')] None))"
proof -
  have h: "audit_clean (getAuditLog None)" by (simp add: audit_clean_def getAuditLog_def)
  from h audit_log_private [OF h, of id 5 True AttestationVerified "[(''code'', JStr ''4711'')]"]
  show ?thesis by simp
qed

end
