(* ===== verification/RateLimit.thy ===== *)
theory RateLimit
  imports Codec
begin

text \<open>
  The three guards against abuse: the limiters of \<open>lib/rateLimit/slidingWindow.ts\<close>, the
  content-script limiter of \<open>entrypoints/content/rateLimiter.ts\<close> and the replay cache of
  \<open>lib/replayProtection.ts\<close>. Each call takes the value of \<open>Date.now()\<close> as an argument; a
  run is a list of calls with their times.
\<close>

section \<open>The sliding-window limiter\<close>

text \<open>The \<open>while\<close> loop shifts entries off the front as long as they are too old.\<close>

definition sw_prune :: "millis \<Rightarrow> millis \<Rightarrow> millis list \<Rightarrow> millis list" where
  "sw_prune windowMs now entries = dropWhile (\<lambda>e. now - e \<ge> windowMs) entries"

definition sw_allow :: "millis \<Rightarrow> nat \<Rightarrow> millis \<Rightarrow> millis list \<Rightarrow> bool \<times> millis list" where
  "sw_allow windowMs maxHits now entries =
     (let entries' = sw_prune windowMs now entries in
      if length entries' \<ge> maxHits then (False, entries') else (True, entries' @ [now]))"

text \<open>The times at which a run of calls was allowed.\<close>

fun sw_run :: "millis \<Rightarrow> nat \<Rightarrow> millis list \<Rightarrow> millis list \<Rightarrow> millis list" where
  "sw_run w m es [] = []"
| "sw_run w m es (t # ts) =
     (case sw_allow w m t es of
        (True, es') \<Rightarrow> t # sw_run w m es' ts
      | (False, es') \<Rightarrow> sw_run w m es' ts)"

section \<open>The per-domain limiter\<close>

text \<open>A stored time of 0 is falsy. After an allowed call every entry older than two windows goes.\<close>

definition dr_allow :: "millis \<Rightarrow> millis \<Rightarrow> string \<Rightarrow> (string, millis) jsmap \<Rightarrow> bool \<times> (string, millis) jsmap" where
  "dr_allow windowMs now domain entries =
     (case jsmap_get entries domain of
        Some prev \<Rightarrow>
          if prev \<noteq> 0 \<and> now - prev < windowMs then (False, entries)
          else (True, filter (\<lambda>p. \<not> now - snd p > windowMs * 2) (jsmap_set domain now entries))
      | None \<Rightarrow> (True, filter (\<lambda>p. \<not> now - snd p > windowMs * 2) (jsmap_set domain now entries)))"

section \<open>The content-script limiter\<close>

record rate_entry =
  re_count :: nat
  re_firstRequest :: millis
  re_backoffUntil :: millis

datatype rate_result = Allowed | RateLimited | Backoff

definition MAX_REQUESTS :: nat where "MAX_REQUESTS = 10"
definition WINDOW_MS :: millis where "WINDOW_MS = 60 * 1000"
definition BACKOFF_BASE_MS :: millis where "BACKOFF_BASE_MS = 30 * 1000"
definition BACKOFF_MAX_MS :: millis where "BACKOFF_MAX_MS = 5 * 60 * 1000"
definition BACKOFF_MULTIPLIER :: int where "BACKOFF_MULTIPLIER = 2"

lemmas limit_consts =
  MAX_REQUESTS_def WINDOW_MS_def BACKOFF_BASE_MS_def BACKOFF_MAX_MS_def BACKOFF_MULTIPLIER_def

definition checkRateLimit :: "millis \<Rightarrow> rate_entry option \<Rightarrow> rate_result \<times> rate_entry option" where
  "checkRateLimit now requestEntry =
     (case requestEntry of
        None \<Rightarrow> (Allowed, Some \<lparr>re_count = 1, re_firstRequest = now, re_backoffUntil = 0\<rparr>)
      | Some e \<Rightarrow>
          if re_backoffUntil e > now then (Backoff, Some e)
          else if now - re_firstRequest e > WINDOW_MS then
            (Allowed, Some \<lparr>re_count = 1, re_firstRequest = now, re_backoffUntil = 0\<rparr>)
          else
           (let e1 = e\<lparr>re_count := re_count e + 1\<rparr> in
            if re_count e1 > MAX_REQUESTS then
             (let backoffMs = min (BACKOFF_BASE_MS * BACKOFF_MULTIPLIER ^ (re_count e1 - MAX_REQUESTS)) BACKOFF_MAX_MS
              in (RateLimited, Some (e1\<lparr>re_backoffUntil := now + backoffMs\<rparr>)))
            else (Allowed, Some e1)))"

record rate_status =
  rs_remaining :: int
  rs_backoffMs :: millis
  rs_resetIn :: millis

definition getRateLimitStatus :: "millis \<Rightarrow> rate_entry option \<Rightarrow> rate_status" where
  "getRateLimitStatus now requestEntry =
     (case requestEntry of
        None \<Rightarrow> \<lparr>rs_remaining = int MAX_REQUESTS, rs_backoffMs = 0, rs_resetIn = 0\<rparr>
      | Some e \<Rightarrow>
          \<lparr>rs_remaining = max 0 (int MAX_REQUESTS - int (re_count e)),
           rs_backoffMs = max 0 (re_backoffUntil e - now),
           rs_resetIn = max 0 (WINDOW_MS - (now - re_firstRequest e))\<rparr>)"

definition clearRateLimit :: "rate_entry option \<Rightarrow> rate_entry option" where
  "clearRateLimit requestEntry = None"

text \<open>What the cleanup interval does at each tick, and the handle that guards starting it twice.\<close>

definition cleanup_tick :: "millis \<Rightarrow> rate_entry option \<Rightarrow> rate_entry option" where
  "cleanup_tick now requestEntry =
     (case requestEntry of
        None \<Rightarrow> None
      | Some e \<Rightarrow> if now - re_firstRequest e > WINDOW_MS * 2 then None else Some e)"

definition startCleanupInterval :: "nat \<Rightarrow> nat option \<Rightarrow> nat option" where
  "startCleanupInterval newHandle cleanupIntervalId =
     (case cleanupIntervalId of Some h \<Rightarrow> Some h | None \<Rightarrow> Some newHandle)"

definition stopCleanupInterval :: "nat option \<Rightarrow> nat option" where
  "stopCleanupInterval cleanupIntervalId = None"

fun rl_run :: "rate_entry option \<Rightarrow> millis list \<Rightarrow> rate_result list" where
  "rl_run e [] = []"
| "rl_run e (t # ts) = fst (checkRateLimit t e) # rl_run (snd (checkRateLimit t e)) ts"

section \<open>The replay cache\<close>

definition REPLAY_WINDOW_MS :: millis where "REPLAY_WINDOW_MS = 5 * 60 * 1000"
definition MAX_CACHE_SIZE :: nat where "MAX_CACHE_SIZE = 1000"

definition deriveKey :: "(bytes \<Rightarrow> bytes) \<Rightarrow> string \<Rightarrow> string" where
  "deriveKey sha256 tuple = to_hex (take 16 (sha256 (utf8_encode tuple)))"

definition cleanupExpired :: "millis \<Rightarrow> (string, millis) jsmap \<Rightarrow> (string, millis) jsmap" where
  "cleanupExpired now replayCache =
     (let cutoff = now - REPLAY_WINDOW_MS in filter (\<lambda>p. \<not> snd p < cutoff) replayCache)"

text \<open>The first key of the iteration order is deleted until the size fits.\<close>

definition trimCache :: "(string, millis) jsmap \<Rightarrow> (string, millis) jsmap" where
  "trimCache replayCache = drop (length replayCache - MAX_CACHE_SIZE) replayCache"

text \<open>The part after \<open>await deriveKey\<close>: no other task runs between the lookup and the insertion.\<close>

definition reserveKey :: "millis \<Rightarrow> string \<Rightarrow> (string, millis) jsmap \<Rightarrow> bool \<times> (string, millis) jsmap" where
  "reserveKey now key replayCache =
     (case jsmap_get replayCache key of
        Some ts \<Rightarrow>
          if ts \<noteq> 0 \<and> now - ts < REPLAY_WINDOW_MS then (True, replayCache)
          else (let c = jsmap_set key now replayCache in
                (False, if length c > MAX_CACHE_SIZE then trimCache c else c))
      | None \<Rightarrow>
          (let c = jsmap_set key now replayCache in
           (False, if length c > MAX_CACHE_SIZE then trimCache c else c)))"

definition checkAndReserveAssertion ::
  "(bytes \<Rightarrow> bytes) \<Rightarrow> millis \<Rightarrow> string \<Rightarrow> (string, millis) jsmap \<Rightarrow> bool \<times> (string, millis) jsmap" where
  "checkAndReserveAssertion sha256 now tuple replayCache =
     reserveKey now (deriveKey sha256 tuple) (cleanupExpired now replayCache)"

definition getReplayStats :: "(string, millis) jsmap \<Rightarrow> nat" where
  "getReplayStats replayCache = length replayCache"

section \<open>The gate of the mfa-assertion handler\<close>

text \<open>
  The handler asks the sliding-window limiter first and the replay cache second; an assertion that
  passes both activates the session.
\<close>

datatype gate_verdict = GatePass | GateRateLimited | GateReplay

definition MFA_RATE_LIMIT_WINDOW_MS :: millis where "MFA_RATE_LIMIT_WINDOW_MS = 60000"
definition MFA_RATE_LIMIT_MAX :: nat where "MFA_RATE_LIMIT_MAX = 3"

lemmas gate_consts = MFA_RATE_LIMIT_WINDOW_MS_def MFA_RATE_LIMIT_MAX_def REPLAY_WINDOW_MS_def MAX_CACHE_SIZE_def

type_synonym gate_state = "millis list \<times> (string, millis) jsmap"

definition mfa_gate :: "(bytes \<Rightarrow> bytes) \<Rightarrow> millis \<Rightarrow> string \<Rightarrow> gate_state \<Rightarrow> gate_verdict \<times> gate_state" where
  "mfa_gate sha256 now assertionTuple st =
     (case sw_allow MFA_RATE_LIMIT_WINDOW_MS MFA_RATE_LIMIT_MAX now (fst st) of
        (False, entries) \<Rightarrow> (GateRateLimited, (entries, snd st))
      | (True, entries) \<Rightarrow>
          (case checkAndReserveAssertion sha256 now assertionTuple (snd st) of
             (True, cache) \<Rightarrow> (GateReplay, (entries, cache))
           | (False, cache) \<Rightarrow> (GatePass, (entries, cache))))"

text \<open>The assertions that pass the gate in a run, with their times.\<close>

definition gate_step :: "(bytes \<Rightarrow> bytes) \<Rightarrow> millis \<Rightarrow> string \<Rightarrow> gate_state \<Rightarrow> bool \<times> gate_state" where
  "gate_step sha256 now assertionTuple st =
     (case mfa_gate sha256 now assertionTuple st of (v, st') \<Rightarrow> (v = GatePass, st'))"

section \<open>Sliding window: lemmas\<close>

lemma dropWhile_sorted_filter:
  "sorted (xs :: int list) \<Longrightarrow> dropWhile (\<lambda>e. now - e \<ge> w) xs = filter (\<lambda>e. now - e < w) xs"
proof (induction xs)
  case (Cons x xs)
  have keep: "filter (\<lambda>e. now - e < w) xs = xs" if "now - x < w"
    using Cons.prems that by (intro filter_True) auto
  show ?case using Cons keep by (cases "now - x < w") auto
qed simp

lemma sw_prune_sorted: "sorted es \<Longrightarrow> sw_prune w now es = filter (\<lambda>e. now - e < w) es"
  by (simp add: sw_prune_def dropWhile_sorted_filter)

text \<open>The number of times in the half-open window that starts at \<open>a\<close>.\<close>

definition hits :: "millis \<Rightarrow> millis \<Rightarrow> millis list \<Rightarrow> nat" where
  "hits a w ts = length (filter (\<lambda>x. a \<le> x \<and> x < a + w) ts)"

lemma hits_append: "hits a w (xs @ ys) = hits a w xs + hits a w ys"
  by (simp add: hits_def)

text \<open>
  The history \<open>h\<close> of allowed times is sorted, respects the limit in every window, and the
  entries kept are those of it that were in the window at time \<open>t0\<close>.
\<close>

definition sw_inv :: "millis \<Rightarrow> nat \<Rightarrow> millis \<Rightarrow> millis list \<Rightarrow> millis list \<Rightarrow> bool" where
  "sw_inv w m t0 h es \<longleftrightarrow> sorted h \<and> (\<forall>x \<in> set h. x \<le> t0) \<and> es = filter (\<lambda>x. t0 - x < w) h
     \<and> (\<forall>a. hits a w h \<le> m)"

lemma sw_inv_prune:
  assumes "sw_inv w m t0 h es" "t0 \<le> t"
  shows "sw_prune w t es = filter (\<lambda>x. t - x < w) h"
proof -
  have "sorted es" "es = filter (\<lambda>x. t0 - x < w) h" using assms by (auto simp: sw_inv_def intro: sorted_filter [of id, simplified])
  then have "sw_prune w t es = filter (\<lambda>x. t0 - x < w \<and> t - x < w) h"
    by (simp add: sw_prune_sorted)
  also have "\<dots> = filter (\<lambda>x. t - x < w) h"
    using assms(2) by (intro filter_cong) auto
  finally show ?thesis .
qed

lemma sw_inv_reject:
  assumes "sw_inv w m t0 h es" "t0 \<le> t" "sw_allow w m t es = (False, es')"
  shows "sw_inv w m t h es'"
  using assms sw_inv_prune [OF assms(1,2)]
  by (auto simp: sw_inv_def sw_allow_def Let_def split: if_splits)

lemma sw_inv_accept:
  assumes inv: "sw_inv w m t0 h es" and t: "t0 \<le> t" and w: "0 < w" and acc: "sw_allow w m t es = (True, es')"
  shows "sw_inv w m t (h @ [t]) es'"
proof -
  have p: "sw_prune w t es = filter (\<lambda>x. t - x < w) h" by (rule sw_inv_prune [OF inv t])
  have lt: "length (filter (\<lambda>x. t - x < w) h) < m" and es': "es' = filter (\<lambda>x. t - x < w) h @ [t]"
    using acc by (auto simp: sw_allow_def Let_def p split: if_splits)
  have le: "\<forall>x \<in> set h. x \<le> t" using inv t by (auto simp: sw_inv_def)
  have "hits a w (h @ [t]) \<le> m" for a
  proof (cases "a \<le> t \<and> t < a + w")
    case True
    have "length (filter (\<lambda>x. a \<le> x \<and> x < a + w) h) \<le> length (filter (\<lambda>x. t - x < w) h)"
      using True by (induction h) auto
    with lt True show ?thesis by (simp add: hits_def)
  next
    case False
    then have "hits a w (h @ [t]) = hits a w h" by (auto simp: hits_def)
    then show ?thesis using inv by (simp add: sw_inv_def)
  qed
  then show ?thesis
    using inv le w es' by (auto simp: sw_inv_def sorted_append)
qed

lemma sw_run_hits:
  assumes "sw_inv w m t0 h es" "0 < w" "sorted ts" "\<forall>t \<in> set ts. t0 \<le> t"
  shows "hits a w (h @ sw_run w m es ts) \<le> m"
  using assms
proof (induction ts arbitrary: t0 h es)
  case Nil
  then show ?case by (simp add: sw_inv_def)
next
  case (Cons t ts)
  have t: "t0 \<le> t" "sorted ts" "\<forall>u \<in> set ts. t \<le> u" using Cons.prems by auto
  show ?case
  proof (cases "sw_allow w m t es")
    case (Pair ok es')
    show ?thesis
    proof (cases ok)
      case True
      then have "sw_inv w m t (h @ [t]) es'" using sw_inv_accept Cons.prems t(1) Pair by auto
      then have "hits a w ((h @ [t]) @ sw_run w m es' ts) \<le> m"
        using Cons.IH Cons.prems(2) t(2,3) by blast
      then show ?thesis using Pair True by simp
    next
      case False
      then have "sw_inv w m t h es'" using sw_inv_reject Cons.prems t(1) Pair by auto
      then have "hits a w (h @ sw_run w m es' ts) \<le> m"
        using Cons.IH Cons.prems(2) t(2,3) by blast
      then show ?thesis using Pair False by simp
    qed
  qed
qed

text \<open>Windows compose: over \<open>k\<close> windows the limit grows \<open>k\<close>-fold.\<close>

lemma hits_multiple:
  assumes "\<And>a. hits a w xs \<le> m" "0 \<le> w"
  shows "hits a (int k * w) xs \<le> k * m"
proof (induction k)
  case 0
  then show ?case by (simp add: hits_def)
next
  case (Suc k)
  have kw: "0 \<le> int k * w" using assms(2) by simp
  have split: "hits a (u + v) xs = hits a u xs + hits (a + u) v xs" if "0 \<le> u" "0 \<le> v" for u v
    using that by (induction xs) (auto simp: hits_def)
  have e: "int (Suc k) * w = int k * w + w" by (simp add: algebra_simps)
  have "hits a (int (Suc k) * w) xs = hits a (int k * w) xs + hits (a + int k * w) w xs"
    unfolding e by (rule split [OF kw assms(2)])
  then show ?case using Suc assms(1) [of "a + int k * w"] by simp
qed

section \<open>Limiters that space the calls of one key\<close>

text \<open>\<open>lastOf h k\<close> is the time at which the key \<open>k\<close> was last accepted in the history \<open>h\<close>.\<close>

definition lastOf :: "('k \<times> millis) list \<Rightarrow> 'k \<Rightarrow> millis option" where
  "lastOf h d = map_of (rev h) d"

lemma lastOf_snoc: "lastOf (h @ [(e, t)]) d = (if d = e then Some t else lastOf h d)"
  by (simp add: lastOf_def)

lemma lastOf_Nil [simp]: "lastOf [] d = None"
  by (simp add: lastOf_def)

text \<open>The accepted calls of a run, with their times.\<close>

fun kl_run :: "(millis \<Rightarrow> 'k \<Rightarrow> 's \<Rightarrow> bool \<times> 's) \<Rightarrow> 's \<Rightarrow> ('k \<times> millis) list \<Rightarrow> ('k \<times> millis) list" where
  "kl_run step s [] = []"
| "kl_run step s ((k, t) # cs) =
     (case step t k s of
        (True, s') \<Rightarrow> (k, t) # kl_run step s' cs
      | (False, s') \<Rightarrow> kl_run step s' cs)"

text \<open>Every accepted call of a key is a window after the previous one of that key, if that was not at time 0.\<close>

fun spaced :: "millis \<Rightarrow> ('k \<times> millis) list \<Rightarrow> ('k \<times> millis) list \<Rightarrow> bool" where
  "spaced w h [] = True"
| "spaced w h ((d, t) # cs) =
     ((\<forall>s. lastOf h d = Some s \<longrightarrow> s \<noteq> 0 \<longrightarrow> w \<le> t - s) \<and> spaced w (h @ [(d, t)]) cs)"

lemma kl_run_subset: "c \<in> set (kl_run step s cs) \<Longrightarrow> c \<in> set cs"
proof (induction cs arbitrary: s)
  case (Cons d cs)
  obtain k t where d: "d = (k, t)" by (cases d)
  obtain ok s' where a: "step t k s = (ok, s')" by (cases "step t k s")
  show ?case using Cons d a by (cases ok) auto
qed simp

lemma kl_run_sorted: "sorted (map snd cs) \<Longrightarrow> sorted (map snd (kl_run step s cs))"
proof (induction cs arbitrary: s)
  case (Cons d cs)
  obtain k t where d: "d = (k, t)" by (cases d)
  obtain ok s' where a: "step t k s = (ok, s')" by (cases "step t k s")
  show ?case using Cons d a kl_run_subset [of _ step s' cs] by (cases ok) fastforce+
qed simp

lemma spaced_append: "spaced w h (xs @ ys) \<longleftrightarrow> spaced w h xs \<and> spaced w (h @ xs) ys"
  by (induction xs arbitrary: h) auto

lemma lastOf_ge:
  assumes "(k, t) \<in> set h" "sorted (map snd h)"
  obtains u where "lastOf h k = Some u" "t \<le> u"
proof -
  have "\<exists>u. lastOf h k = Some u \<and> t \<le> u"
    using assms
  proof (induction h rule: rev_induct)
    case (snoc c h)
    obtain e s where c: "c = (e, s)" by (cases c)
    have "t \<le> s" using snoc.prems c by (auto simp: sorted_append)
    then show ?case using snoc c by (auto simp: lastOf_snoc sorted_append)
  qed simp
  then show thesis using that by blast
qed

lemma spaced_pairs:
  assumes "spaced w [] (xs @ (k, s) # ys @ (k, t) # zs)" "sorted (map snd (xs @ (k, s) # ys @ (k, t) # zs))" "0 < s"
  shows "w \<le> t - s"
proof -
  let ?h = "xs @ (k, s) # ys"
  have sp: "spaced w ?h ((k, t) # zs)"
    using assms(1) spaced_append [of w "[]" ?h "(k, t) # zs"] by simp
  obtain u where u: "lastOf ?h k = Some u" "s \<le> u"
    using lastOf_ge [of k s ?h] assms(2) by (auto simp: sorted_append)
  then show ?thesis using sp assms(3) by auto
qed

text \<open>
  What such a limiter promises, over the history of what it has accepted: an accepted call is a
  window after the last one, and each outcome keeps the invariant. The spacing of whole runs
  follows once for every limiter.
\<close>

locale keyed_limiter =
  fixes step :: "millis \<Rightarrow> 'k \<Rightarrow> 's \<Rightarrow> bool \<times> 's"
    and inv :: "millis \<Rightarrow> ('k \<times> millis) list \<Rightarrow> 's \<Rightarrow> bool"
    and w :: millis
  assumes accept_inv: "inv t0 h s \<Longrightarrow> t0 \<le> t \<Longrightarrow> step t k s = (True, s') \<Longrightarrow> inv t (h @ [(k, t)]) s'"
    and accept_spaced: "inv t0 h s \<Longrightarrow> t0 \<le> t \<Longrightarrow> step t k s = (True, s') \<Longrightarrow>
      lastOf h k = Some u \<Longrightarrow> u \<noteq> 0 \<Longrightarrow> w \<le> t - u"
    and reject_inv: "inv t0 h s \<Longrightarrow> t0 \<le> t \<Longrightarrow> step t k s = (False, s') \<Longrightarrow> inv t h s'"
begin

lemma run_spaced:
  assumes "inv t0 h s" "sorted (map snd cs)" "\<forall>c \<in> set cs. t0 \<le> snd c"
  shows "spaced w h (kl_run step s cs)"
  using assms
proof (induction cs arbitrary: t0 h s)
  case (Cons c cs)
  obtain k t where c: "c = (k, t)" by (cases c)
  have t: "t0 \<le> t" "sorted (map snd cs)" "\<forall>c \<in> set cs. t \<le> snd c" using Cons.prems c by auto
  obtain ok s' where a: "step t k s = (ok, s')" by (cases "step t k s")
  show ?case
  proof (cases ok)
    case True
    with a have acc: "step t k s = (True, s')" by simp
    have "spaced w (h @ [(k, t)]) (kl_run step s' cs)"
      using Cons.IH [OF accept_inv [OF Cons.prems(1) t(1) acc]] t by blast
    then show ?thesis using acc c accept_spaced [OF Cons.prems(1) t(1) acc] by auto
  next
    case False
    with a have rej: "step t k s = (False, s')" by simp
    have "spaced w h (kl_run step s' cs)"
      using Cons.IH [OF reject_inv [OF Cons.prems(1) t(1) rej]] t by blast
    then show ?thesis using c rej by simp
  qed
qed simp

lemma run_pairs:
  assumes "inv t0 [] s" "sorted (map snd cs)" "\<forall>c \<in> set cs. t0 \<le> snd c"
    and "kl_run step s cs = xs @ (k, u) # ys @ (k, v) # zs" "0 < u"
  shows "w \<le> v - u"
proof (rule spaced_pairs)
  show "spaced w [] (xs @ (k, u) # ys @ (k, v) # zs)" using run_spaced [OF assms(1-3)] assms(4) by simp
  show "sorted (map snd (xs @ (k, u) # ys @ (k, v) # zs))"
    using kl_run_sorted [OF assms(2), of step s] assms(4) by simp
qed (rule assms(5))

end

section \<open>Per-domain limiter: lemmas\<close>

text \<open>A domain's last accepted time is in the map until two windows have passed.\<close>

definition dr_inv :: "millis \<Rightarrow> millis \<Rightarrow> (string \<times> millis) list \<Rightarrow> (string, millis) jsmap \<Rightarrow> bool" where
  "dr_inv w t0 h es \<longleftrightarrow> jsmap_wf es
     \<and> (\<forall>d t. lastOf h d = Some t \<longrightarrow> t \<le> t0 \<and> (map_of es d = Some t \<or> w < t0 - t))
     \<and> (\<forall>d t. map_of es d = Some t \<longrightarrow> lastOf h d = Some t)"

lemma dr_allow_accept:
  "dr_allow w t d es = (True, es') \<Longrightarrow>
     es' = filter (\<lambda>p. \<not> t - snd p > w * 2) (jsmap_set d t es)
     \<and> (\<forall>s. map_of es d = Some s \<longrightarrow> s = 0 \<or> w \<le> t - s)"
  by (auto simp: dr_allow_def split: option.splits if_splits)

lemma dr_allow_reject: "dr_allow w t d es = (False, es') \<Longrightarrow> es' = es"
  by (auto simp: dr_allow_def split: option.splits if_splits)

lemma dr_inv_later: "dr_inv w t0 h es \<Longrightarrow> t0 \<le> t \<Longrightarrow> dr_inv w t h es"
  unfolding dr_inv_def by (smt (verit))

lemma dr_inv_accept:
  assumes inv: "dr_inv w t0 h es" and t: "t0 \<le> t" and w: "0 \<le> w" and acc: "dr_allow w t d es = (True, es')"
  shows "dr_inv w t (h @ [(d, t)]) es'"
proof -
  have es': "es' = filter (\<lambda>p. \<not> t - snd p > w * 2) (jsmap_set d t es)"
    using dr_allow_accept [OF acc] by simp
  have wf: "jsmap_wf (jsmap_set d t es)" using inv by (auto simp: dr_inv_def intro: jsmap_wf_set)
  have get: "map_of es' e = (case ((map_of es)(d \<mapsto> t)) e of None \<Rightarrow> None
      | Some s \<Rightarrow> if t - s > w * 2 then None else Some s)" for e
    unfolding es' by (subst map_of_filter_keys [OF wf]) (simp split: option.splits)
  have "jsmap_wf es'" unfolding es' using wf by (rule jsmap_wf_filter)
  moreover have "s \<le> t \<and> (map_of es' e = Some s \<or> w < t - s)" if "lastOf (h @ [(d, t)]) e = Some s" for e s
  proof (cases "e = d")
    case True
    then show ?thesis using that w by (simp add: lastOf_snoc get)
  next
    case False
    then have l: "lastOf h e = Some s" using that by (simp add: lastOf_snoc)
    then have "s \<le> t0" "map_of es e = Some s \<or> w < t0 - s" using inv unfolding dr_inv_def by blast+
    then show ?thesis using False t w by (auto simp: get split: option.splits)
  qed
  moreover have "lastOf (h @ [(d, t)]) e = Some s" if "map_of es' e = Some s" for e s
    using that inv by (auto simp: get lastOf_snoc dr_inv_def simp del: map_of_eq_Some_iff split: option.splits if_splits)
  ultimately show ?thesis by (simp add: dr_inv_def)
qed

interpretation drl: keyed_limiter "dr_allow w" "\<lambda>t h es. 0 \<le> w \<and> dr_inv w t h es" w
proof
  fix t0 h es t d es' u
  assume inv: "0 \<le> w \<and> dr_inv w t0 h es" and t: "t0 \<le> t" and acc: "dr_allow w t d es = (True, es')"
  show "0 \<le> w \<and> dr_inv w t (h @ [(d, t)]) es'" using dr_inv_accept inv t acc by blast
  assume u: "lastOf h d = Some u" "u \<noteq> 0"
  have "map_of es d = Some u \<or> w < t0 - u" using u inv unfolding dr_inv_def by blast
  then show "w \<le> t - u" using dr_allow_accept [OF acc] t u by auto
next
  fix t0 h es t d es'
  assume "0 \<le> w \<and> dr_inv w t0 h es" "t0 \<le> t" "dr_allow w t d es = (False, es')"
  then show "0 \<le> w \<and> dr_inv w t h es'" using dr_inv_later dr_allow_reject by blast
qed

lemma dr_inv_init: "dr_inv w t [] []"
  by (simp add: dr_inv_def)

section \<open>Content-script limiter: lemmas\<close>

lemma rl_run_over_limit:
  "i < length ts \<Longrightarrow> re_count e > 10 \<Longrightarrow> \<forall>t \<in> set ts. t - re_firstRequest e \<le> 60000 \<Longrightarrow>
     rl_run (Some e) ts ! i \<noteq> Allowed"
proof (induction ts arbitrary: e i)
  case (Cons t ts)
  define r where "r = checkRateLimit t (Some e)"
  have "fst r \<noteq> Allowed \<and> (\<exists>e'. snd r = Some e' \<and> re_count e' > 10 \<and> re_firstRequest e' = re_firstRequest e)"
    using Cons.prems by (simp add: r_def checkRateLimit_def limit_consts Let_def)
  then obtain e' where r: "fst r \<noteq> Allowed" "snd r = Some e'" "re_count e' > 10" "re_firstRequest e' = re_firstRequest e"
    by blast
  have "rl_run (Some e) (t # ts) = fst r # rl_run (Some e') ts" using r(2) by (simp add: r_def)
  then show ?case using Cons r by (cases i) auto
qed simp

lemma rl_run_in_window:
  "i < length ts \<Longrightarrow> re_count e \<le> 10 \<Longrightarrow> re_backoffUntil e = 0 \<Longrightarrow>
     \<forall>t \<in> set ts. 0 \<le> t \<and> t - re_firstRequest e \<le> 60000 \<Longrightarrow>
     rl_run (Some e) ts ! i = Allowed \<longleftrightarrow> i + re_count e < 10"
proof (induction ts arbitrary: e i)
  case (Cons t ts)
  show ?case
  proof (cases "re_count e = 10")
    case True
    define e' where "e' = e\<lparr>re_count := 11, re_backoffUntil := t + 60000\<rparr>"
    have "rl_run (Some e) (t # ts) = RateLimited # rl_run (Some e') ts"
      using True Cons.prems by (simp add: e'_def checkRateLimit_def limit_consts Let_def)
    then show ?thesis using rl_run_over_limit [of "i - 1" ts e'] Cons.prems True
      by (cases i) (auto simp: e'_def)
  next
    case False
    define e' where "e' = e\<lparr>re_count := Suc (re_count e)\<rparr>"
    have "rl_run (Some e) (t # ts) = Allowed # rl_run (Some e') ts"
      using False Cons.prems by (simp add: e'_def checkRateLimit_def limit_consts Let_def)
    then show ?thesis using Cons.IH [of "i - 1" e'] Cons.prems False by (cases i) (auto simp: e'_def)
  qed
qed simp

section \<open>Replay cache: lemmas\<close>

lemma length_reserveKey: "length c \<le> MAX_CACHE_SIZE \<Longrightarrow> length (snd (reserveKey now k c)) \<le> MAX_CACHE_SIZE"
  by (auto simp: reserveKey_def trimCache_def Let_def split: option.splits)

lemma length_cleanupExpired: "length (cleanupExpired now c) \<le> length c"
  by (simp add: cleanupExpired_def Let_def)

lemma cleanupExpired_keeps:
  "jsmap_wf c \<Longrightarrow> map_of c k = Some ts \<Longrightarrow> now - ts \<le> REPLAY_WINDOW_MS \<Longrightarrow>
     map_of (cleanupExpired now c) k = Some ts"
  by (simp add: cleanupExpired_def Let_def map_of_filter_keys)

lemma jsmap_wf_reserveKey [wf_intros]: "jsmap_wf c \<Longrightarrow> jsmap_wf (snd (reserveKey now k c))"
  by (auto simp: reserveKey_def trimCache_def Let_def drop_map [symmetric] keys_jsmap_set
      split: option.splits intro: jsmap_wf_set distinct_drop)

lemma jsmap_wf_cleanupExpired [wf_intros]: "jsmap_wf c \<Longrightarrow> jsmap_wf (cleanupExpired now c)"
  by (simp add: cleanupExpired_def Let_def jsmap_wf_filter)

text \<open>Below capacity, a reservation keeps every other entry.\<close>

lemma reserveKey_keeps:
  "length c < MAX_CACHE_SIZE \<Longrightarrow> j \<noteq> k \<Longrightarrow> map_of (snd (reserveKey now k c)) j = map_of c j"
  using length_jsmap_set_le [of k now c]
  by (auto simp: reserveKey_def Let_def split: option.splits)

lemma reserveKey_rejects:
  "map_of c k = Some ts \<Longrightarrow> ts \<noteq> 0 \<Longrightarrow> now - ts < REPLAY_WINDOW_MS \<Longrightarrow> reserveKey now k c = (True, c)"
  by (simp add: reserveKey_def)

lemma reserveKey_accepts:
  "length c < MAX_CACHE_SIZE \<Longrightarrow> reserveKey now k c = (False, c') \<Longrightarrow> c' = jsmap_set k now c"
  using length_jsmap_set_le [of k now c]
  by (auto simp: reserveKey_def Let_def split: option.splits if_splits)

lemma mset_jsmap_set: "mset (map snd (jsmap_set k v m)) \<subseteq># add_mset v (mset (map snd m))"
  by (induction m) (auto simp: subset_mset.add_mono add_mset_commute intro: mset_subset_eq_add_right)

lemma mset_filter_vals: "mset (map snd (filter P m)) \<subseteq># mset (map snd m)"
  by (induction m) (auto intro: subset_mset.order_trans)

section \<open>The gate: lemmas\<close>

text \<open>
  \<open>h\<close> holds the times the limiter allowed, \<open>A\<close> the assertions that passed, by derived key. The
  cache holds at most what the limiter allowed, so it stays far below its capacity, and the last
  time of every key is in it for the replay window.
\<close>

definition gate_inv :: "millis \<Rightarrow> (string \<times> millis) list \<Rightarrow> gate_state \<Rightarrow> bool" where
  "gate_inv t0 A st \<longleftrightarrow> jsmap_wf (snd st)
     \<and> (\<exists>h. sw_inv 60000 3 t0 h (fst st) \<and> mset (map snd (snd st)) \<subseteq># mset h)
     \<and> (\<forall>k u. lastOf A k = Some u \<longrightarrow> u \<le> t0 \<and> (map_of (snd st) k = Some u \<or> 300000 < t0 - u))"

lemma cleaned_cache_small:
  assumes "sw_inv 60000 3 t0 h es" "t0 \<le> t" "mset (map snd c) \<subseteq># mset h"
  shows "length (cleanupExpired t c) \<le> 18"
proof -
  let ?P = "\<lambda>x. t - 300000 \<le> x"
  have "mset (map snd (cleanupExpired t c)) = filter_mset ?P (mset (map snd c))"
    by (induction c) (auto simp: cleanupExpired_def REPLAY_WINDOW_MS_def)
  then have "mset (map snd (cleanupExpired t c)) \<subseteq># filter_mset ?P (mset h)"
    using assms(3) by (simp add: multiset_filter_mono)
  then have "size (mset (map snd (cleanupExpired t c))) \<le> size (filter_mset ?P (mset h))"
    by (rule size_mset_mono)
  then have "length (cleanupExpired t c) \<le> length (filter ?P h)"
    by (metis length_map mset_filter size_mset)
  also have "filter ?P h = filter (\<lambda>x. t - 300000 \<le> x \<and> x < (t - 300000) + int 6 * 60000) h"
    using assms(1,2) by (intro filter_cong) (auto simp: sw_inv_def)
  also have "length \<dots> \<le> 6 * 3"
    using hits_multiple [of 60000 h 3 "t - 300000" 6] assms(1) by (simp add: hits_def sw_inv_def)
  finally show ?thesis by simp
qed

lemma gate_inv_limited:
  assumes "gate_inv t0 A (es, c)" "t0 \<le> t" "sw_allow 60000 3 t es = (False, es')"
  shows "gate_inv t A (es', c)"
proof -
  obtain h where h: "sw_inv 60000 3 t0 h es" "mset (map snd c) \<subseteq># mset h"
    using assms(1) unfolding gate_inv_def by auto
  have "sw_inv 60000 3 t h es'" by (rule sw_inv_reject [OF h(1) assms(2,3)])
  moreover have "u \<le> t \<and> (map_of c k = Some u \<or> 300000 < t - u)" if "lastOf A k = Some u" for k u
    using that assms(1,2) unfolding gate_inv_def by fastforce
  ultimately show ?thesis using assms(1) h(2) unfolding gate_inv_def by auto
qed

lemma lookup_cleanupExpired:
  assumes "gate_inv t0 A (es, c)" "t0 \<le> t" "lastOf A k = Some u"
  shows "u \<le> t" "map_of (cleanupExpired t c) k = Some u \<or> 300000 < t - u"
proof -
  have l: "u \<le> t0" "map_of c k = Some u \<or> 300000 < t0 - u" and wf: "jsmap_wf c"
    using assms(1,3) unfolding gate_inv_def by auto
  then show "u \<le> t" using assms(2) by simp
  show "map_of (cleanupExpired t c) k = Some u \<or> 300000 < t - u"
    using l assms(2) cleanupExpired_keeps [OF wf, of k u t]
    by (cases "300000 < t - u") (auto simp: REPLAY_WINDOW_MS_def)
qed

lemma gate_inv_allowed:
  assumes inv: "gate_inv t0 A (es, c)" and t: "t0 \<le> t" and al: "sw_allow 60000 3 t es = (True, es')"
    and r: "reserveKey t k (cleanupExpired t c) = (replay, c')"
  shows "gate_inv t (if replay then A else A @ [(k, t)]) (es', c')"
proof -
  obtain h where h: "sw_inv 60000 3 t0 h es" "mset (map snd c) \<subseteq># mset h"
    using inv unfolding gate_inv_def by auto
  let ?c = "cleanupExpired t c"
  have wf: "jsmap_wf c" using inv by (simp add: gate_inv_def)
  have "sw_inv 60000 3 t (h @ [t]) es'" by (rule sw_inv_accept [OF h(1) t _ al]) simp
  moreover have wf': "jsmap_wf c'" using jsmap_wf_reserveKey [OF jsmap_wf_cleanupExpired [OF wf], of t k t] r by simp
  moreover have lt: "length ?c < MAX_CACHE_SIZE"
    using cleaned_cache_small [OF h(1) t h(2)] by (simp add: MAX_CACHE_SIZE_def)
  have c': "c' = (if replay then ?c else jsmap_set k t ?c)"
    using r reserveKey_accepts [OF lt, of t k c'] by (cases replay) (auto simp: reserveKey_def Let_def split: option.splits if_splits)
  have sub: "mset (map snd ?c) \<subseteq># mset h"
    using mset_filter_vals [of _ c] h(2) unfolding cleanupExpired_def Let_def by (rule subset_mset.order_trans)
  have "mset (map snd c') \<subseteq># add_mset t (mset (map snd ?c))"
    using mset_jsmap_set [of k t ?c] by (simp add: c')
  then have "mset (map snd c') \<subseteq># mset (h @ [t])"
    using sub by (simp add: subset_mset.order_trans)
  moreover have "u \<le> t \<and> (map_of c' j = Some u \<or> 300000 < t - u)"
    if "lastOf (if replay then A else A @ [(k, t)]) j = Some u" for j u
    using that lookup_cleanupExpired [OF inv t, of j u]
    by (auto simp: c' lastOf_snoc split: if_splits)
  ultimately show ?thesis unfolding gate_inv_def by auto
qed

text \<open>The gate seen from the derived key of an assertion.\<close>

definition gate_key_step :: "millis \<Rightarrow> string \<Rightarrow> gate_state \<Rightarrow> bool \<times> gate_state" where
  "gate_key_step t k st =
     (case sw_allow 60000 3 t (fst st) of
        (False, es) \<Rightarrow> (False, (es, snd st))
      | (True, es) \<Rightarrow> (case reserveKey t k (cleanupExpired t (snd st)) of (replay, c) \<Rightarrow> (\<not> replay, (es, c))))"

lemma gate_step_key: "gate_step sha t a st = gate_key_step t (deriveKey sha a) st"
  by (auto simp: gate_step_def mfa_gate_def gate_key_step_def checkAndReserveAssertion_def gate_consts
      split: prod.splits bool.splits)

lemma kl_run_map:
  "map (map_prod f id) (kl_run (\<lambda>t k. step t (f k)) s cs) = kl_run step s (map (map_prod f id) cs)"
proof (induction cs arbitrary: s)
  case (Cons c cs)
  obtain k t where c: "c = (k, t)" by (cases c)
  obtain ok s' where a: "step t (f k) s = (ok, s')" by (cases "step t (f k) s")
  show ?case using Cons [of s'] c a by (cases ok) auto
qed simp

interpretation gate: keyed_limiter gate_key_step gate_inv 300000
proof
  fix t0 A st t k st' u
  assume inv: "gate_inv t0 A st" and t: "t0 \<le> t" and acc: "gate_key_step t k st = (True, st')"
  obtain es c where st: "st = (es, c)" by (cases st)
  obtain es' c' where al: "sw_allow 60000 3 t es = (True, es')" and st': "st' = (es', c')"
    and r: "reserveKey t k (cleanupExpired t c) = (False, c')"
    using acc by (auto simp: gate_key_step_def st split: prod.splits bool.splits)
  show "gate_inv t (A @ [(k, t)]) st'"
    using gate_inv_allowed [OF inv [unfolded st] t al r] by (simp add: st')
  assume u: "lastOf A k = Some u" "u \<noteq> 0"
  show "300000 \<le> t - u"
  proof (rule ccontr)
    assume "\<not> 300000 \<le> t - u"
    then have "map_of (cleanupExpired t c) k = Some u"
      using lookup_cleanupExpired [OF inv [unfolded st] t u(1)] by auto
    then show False
      using reserveKey_rejects [of _ k u t] u(2) r \<open>\<not> 300000 \<le> t - u\<close> by (simp add: REPLAY_WINDOW_MS_def)
  qed
next
  fix t0 A st t k st'
  assume inv: "gate_inv t0 A st" and t: "t0 \<le> t" and rej: "gate_key_step t k st = (False, st')"
  obtain es c where st: "st = (es, c)" by (cases st)
  show "gate_inv t A st'"
  proof (cases "sw_allow 60000 3 t es")
    case (Pair ok es')
    show ?thesis
    proof (cases ok)
      case True
      then obtain c' where r: "reserveKey t k (cleanupExpired t c) = (True, c')" and st': "st' = (es', c')"
        using rej Pair by (auto simp: gate_key_step_def st split: prod.splits)
      show ?thesis using gate_inv_allowed [OF inv [unfolded st] t _ r, of es'] Pair True by (simp add: st')
    next
      case False
      then have "st' = (es', c)" using rej Pair by (simp add: gate_key_step_def st)
      then show ?thesis using gate_inv_limited [OF inv [unfolded st] t, of es'] Pair False by simp
    qed
  qed
qed

lemma gate_inv_init: "gate_inv t0 [] ([], [])"
  by (auto simp: gate_inv_def sw_inv_def hits_def intro: exI [of _ "[]"])

section \<open>Properties\<close>

text \<open>
  The reference for the sliding window: a call is allowed exactly when fewer than \<open>m\<close> of the calls
  allowed so far are less than a window old.
\<close>

fun sw_spec :: "millis \<Rightarrow> nat \<Rightarrow> millis list \<Rightarrow> millis list \<Rightarrow> millis list" where
  "sw_spec w m h [] = []"
| "sw_spec w m h (t # ts) =
     (if length (filter (\<lambda>x. t - x < w) h) < m then t # sw_spec w m (h @ [t]) ts else sw_spec w m h ts)"

lemma sw_run_spec:
  assumes "sw_inv w m t0 h es" "0 < w" "sorted ts" "\<forall>t \<in> set ts. t0 \<le> t"
  shows "sw_run w m es ts = sw_spec w m h ts"
  using assms
proof (induction ts arbitrary: t0 h es)
  case (Cons t ts)
  have t: "t0 \<le> t" "sorted ts" "\<forall>u \<in> set ts. t \<le> u" using Cons.prems by auto
  note p = sw_inv_prune [OF Cons.prems(1) t(1)]
  obtain ok es' where a: "sw_allow w m t es = (ok, es')" by (cases "sw_allow w m t es")
  have ok: "ok \<longleftrightarrow> length (filter (\<lambda>x. t - x < w) h) < m"
    using a by (auto simp: sw_allow_def p Let_def split: if_splits)
  have "sw_inv w m t (if ok then h @ [t] else h) es'"
    using sw_inv_accept [OF Cons.prems(1) t(1) Cons.prems(2)] sw_inv_reject [OF Cons.prems(1) t(1)] a
    by (cases ok) auto
  from Cons.IH [OF this Cons.prems(2) t(2,3)] show ?case using a ok by auto
qed simp

lemma sw_inv_init: "sw_inv w m t [] []"
  by (simp add: sw_inv_def hits_def)

text \<open>
  C28: For calls in the order of time, the sliding-window limiter allows exactly the calls its
  reference allows (fewer than \<open>maxHits\<close> allowed ones less than a window old), and no window of
  \<open>windowMs\<close> milliseconds, wherever it starts, has more than \<open>maxHits\<close> allowed calls.
\<close>

theorem sliding_window_limits:
  assumes "0 < windowMs" "sorted ts"
  shows "sw_run windowMs maxHits [] ts = sw_spec windowMs maxHits [] ts
         \<and> hits a windowMs (sw_run windowMs maxHits [] ts) \<le> maxHits"
proof (cases ts)
  case Nil
  then show ?thesis by (simp add: hits_def)
next
  case (Cons t us)
  then have le: "\<forall>u \<in> set ts. t \<le> u" using assms(2) by auto
  show ?thesis
    using sw_run_hits [OF sw_inv_init assms le, where m = maxHits and a = a] sw_run_spec [OF sw_inv_init assms le, where m = maxHits]
    by simp
qed

theorem sliding_window_limits_witness:
  "sw_run 60000 3 [] [1, 2, 3, 4, 60001, 60002] = [1, 2, 3, 60001, 60002]
   \<and> hits 2 60000 (sw_run 60000 3 [] [1, 2, 3, 4, 60001, 60002]) \<le> 3"
proof
  have "sw_spec 60000 3 [] [1, 2, 3, 4, 60001, 60002] = [1, 2, 3, 60001, 60002]" by simp
  then show "sw_run 60000 3 [] [1, 2, 3, 4, 60001, 60002] = [1, 2, 3, 60001, 60002]"
    using sliding_window_limits [of 60000 "[1, 2, 3, 4, 60001, 60002]" 3] by (simp del: sw_run.simps)
  show "hits 2 60000 (sw_run 60000 3 [] [1, 2, 3, 4, 60001, 60002]) \<le> 3"
    by (rule sliding_window_limits [THEN conjunct2]) simp_all
qed

text \<open>
  The content-script limiter allows exactly the first ten requests of a window: counting from
  the first request, the request number \<open>i\<close> of those made within a minute of it is answered
  \<open>Allowed\<close> if and only if \<open>i < 10\<close>; the others are told they are rate limited or backing off.
\<close>

theorem content_limiter_window:
  assumes "0 \<le> t0" "\<forall>t \<in> set ts. 0 \<le> t \<and> t - t0 \<le> WINDOW_MS" "i \<le> length ts"
  shows "rl_run None (t0 # ts) ! i = Allowed \<longleftrightarrow> i < MAX_REQUESTS"
  using rl_run_in_window [of "i - 1" ts "\<lparr>re_count = 1, re_firstRequest = t0, re_backoffUntil = 0\<rparr>"] assms
  by (cases i) (auto simp: checkRateLimit_def limit_consts)

theorem content_limiter_window_witness:
  "rl_run None (5 # map (\<lambda>i. 100 * i) [1..12]) ! 9 = Allowed
   \<and> rl_run None (5 # map (\<lambda>i. 100 * i) [1..12]) ! 10 \<noteq> Allowed"
  using content_limiter_window [of 5 "map (\<lambda>i. 100 * i) [1..12]" 9]
    content_limiter_window [of 5 "map (\<lambda>i. 100 * i) [1..12]" 10]
  by (simp add: limit_consts del: rl_run.simps)

text \<open>
  The per-domain limiter spaces the requests of a domain: of any two allowed calls for the same
  domain, the earlier at a positive time, the later is at least \<open>windowMs\<close> after it, whatever
  other domains are called in between and although old entries are dropped from the map.
\<close>

theorem domain_requests_spaced:
  assumes "0 \<le> windowMs" "sorted (map snd cs)"
    and "kl_run (dr_allow windowMs) [] cs = xs @ (domain, u) # ys @ (domain, v) # zs" "0 < u"
  shows "windowMs \<le> v - u"
proof (rule drl.run_pairs)
  show "0 \<le> windowMs \<and> dr_inv windowMs (snd (hd cs)) [] []" using assms(1) dr_inv_init by blast
  show "\<forall>c \<in> set cs. snd (hd cs) \<le> snd c" using assms(2) by (cases cs) auto
qed (use assms in auto)

theorem domain_requests_spaced_witness:
  "kl_run (dr_allow 30000) [] [(''a'', 7), (''b'', 8), (''a'', 9), (''a'', 30007)]
     = [(''a'', 7), (''b'', 8), (''a'', 30007)] \<and> (30000 :: int) \<le> 30007 - 7"
proof
  show run: "kl_run (dr_allow 30000) [] [(''a'', 7), (''b'', 8), (''a'', 9), (''a'', 30007)]
    = [(''a'', 7), (''b'', 8), (''a'', 30007)]"
    by (simp add: dr_allow_def)
  show "(30000 :: int) \<le> 30007 - 7"
    by (rule domain_requests_spaced [of 30000 "[(''a'', 7), (''b'', 8), (''a'', 9), (''a'', 30007)]"
          "[]" "''a''" 7 "[(''b'', 8)]" 30007 "[]"]) (simp_all add: run del: kl_run.simps)
qed

text \<open>
  C4: No assertion passes twice within the replay window. In any run of \<open>mfa-assertion\<close> messages
  through the gate (the limiter of three per minute, then the replay cache), in the order of time,
  two passes of the same assertion tuple, the first at a positive time, are at least five minutes
  apart: the limiter keeps the cache below its capacity, so no entry is evicted early.
\<close>

theorem no_assertion_replay:
  assumes "sorted (map snd cs)"
    and "kl_run (gate_step sha256) ([], []) cs = xs @ (tuple, u) # ys @ (tuple, v) # zs" "0 < u"
  shows "REPLAY_WINDOW_MS \<le> v - u"
proof -
  let ?f = "map_prod (deriveKey sha256) id :: string \<times> millis \<Rightarrow> string \<times> millis"
  have "gate_step sha256 = (\<lambda>t a. gate_key_step t (deriveKey sha256 a))"
    by (intro ext) (rule gate_step_key)
  then have run: "kl_run gate_key_step ([], []) (map ?f cs)
      = map ?f xs @ (deriveKey sha256 tuple, u) # map ?f ys @ (deriveKey sha256 tuple, v) # map ?f zs"
    using kl_run_map [of "deriveKey sha256" gate_key_step "([], [])" cs] assms(2) by simp
  have times: "map snd (map ?f cs) = map snd cs" by simp
  have le: "\<forall>c \<in> set (map ?f cs). snd (hd cs) \<le> snd c" using assms(1) by (cases cs) auto
  from gate.run_pairs [OF gate_inv_init _ le run assms(3)] show ?thesis
    using assms(1) by (simp add: times REPLAY_WINDOW_MS_def)
qed

lemma gate_example:
  "kl_run (gate_step (\<lambda>x. x)) ([], []) [(''a'', 1), (''b'', 2), (''a'', 3), (''a'', 300001)]
    = [(''a'', 1), (''b'', 2), (''a'', 300001)]"
  by (simp add: gate_step_def mfa_gate_def sw_allow_def sw_prune_def gate_consts Let_def
      checkAndReserveAssertion_def reserveKey_def cleanupExpired_def deriveKey_def) code_simp

theorem no_assertion_replay_witness:
  "kl_run (gate_step (\<lambda>x. x)) ([], []) [(''a'', 1), (''b'', 2), (''a'', 3), (''a'', 300001)]
    = [(''a'', 1), (''b'', 2), (''a'', 300001)] \<and> REPLAY_WINDOW_MS \<le> 300001 - 1"
proof
  show "REPLAY_WINDOW_MS \<le> 300001 - 1"
    by (rule no_assertion_replay [of "[(''a'', 1), (''b'', 2), (''a'', 3), (''a'', 300001)]" "\<lambda>x. x"
          "[]" "''a''" 1 "[(''b'', 2)]" 300001 "[]"]) (simp_all add: gate_example del: kl_run.simps)
qed (rule gate_example)

end
