(* ===== verification/Rtt.thy ===== *)
theory Rtt
  imports Prelude
begin

text \<open>
  The round-trip estimator of \<open>lib/channel/rttEstimator.ts\<close>. Its constants are dyadic fractions,
  so the model computes with rational numbers; the rounding of long runs of floating-point updates
  is not modelled. A sample that is not a finite number is \<open>None\<close>.
\<close>

record rtt_estimator =
  rttAvg :: rat
  rttVar :: rat

definition new_RttEstimator :: rtt_estimator where
  "new_RttEstimator = \<lparr>rttAvg = 200, rttVar = 100\<rparr>"

definition rtt_alpha :: rat where "rtt_alpha = 1 / 8"
definition rtt_beta :: rat where "rtt_beta = 1 / 4"

definition updateRtt :: "rat option \<Rightarrow> rtt_estimator \<Rightarrow> rtt_estimator" where
  "updateRtt sample r =
     (case sample of
        None \<Rightarrow> r
      | Some s \<Rightarrow>
          if s < 0 then r
          else \<lparr>rttAvg = (1 - rtt_alpha) * rttAvg r + rtt_alpha * s,
                rttVar = (1 - rtt_beta) * rttVar r + rtt_beta * \<bar>s - rttAvg r\<bar>\<rparr>)"

definition getRto :: "rtt_estimator \<Rightarrow> rat" where
  "getRto r = max (rttAvg r + 4 * rttVar r) 1000"

definition rtt_run :: "rat option list \<Rightarrow> rtt_estimator \<Rightarrow> rtt_estimator" where
  "rtt_run samples r = fold updateRtt samples r"

text \<open>With samples below \<open>B\<close>, the average and the deviation stay between 0 and \<open>B\<close>.\<close>

definition rtt_within :: "rat \<Rightarrow> rtt_estimator \<Rightarrow> bool" where
  "rtt_within B r \<longleftrightarrow> 0 \<le> rttAvg r \<and> rttAvg r \<le> B \<and> 0 \<le> rttVar r \<and> rttVar r \<le> B"

lemma rtt_within_update:
  assumes "rtt_within B r" "\<forall>s. sample = Some s \<longrightarrow> s \<le> B"
  shows "rtt_within B (updateRtt sample r)"
proof (cases sample)
  case (Some s)
  have "\<bar>s - rttAvg r\<bar> \<le> B" if "0 \<le> s" using that assms Some by (auto simp: rtt_within_def)
  then show ?thesis
    using assms Some by (auto simp: updateRtt_def rtt_within_def rtt_alpha_def rtt_beta_def field_simps)
qed (use assms in \<open>simp add: updateRtt_def\<close>)

lemma rtt_within_run:
  "rtt_within B r \<Longrightarrow> \<forall>s. Some s \<in> set samples \<longrightarrow> s \<le> B \<Longrightarrow> rtt_within B (rtt_run samples r)"
proof (induction samples arbitrary: r)
  case (Cons x xs)
  have "rtt_within B (updateRtt x r)" using Cons.prems by (intro rtt_within_update) auto
  then show ?case using Cons by (simp add: rtt_run_def)
qed (simp add: rtt_run_def)

lemma getRto_ge: "1000 \<le> getRto r"
  by (simp add: getRto_def)

lemma rtt_avg_constant:
  "0 \<le> s \<Longrightarrow> rttAvg (rtt_run (replicate n (Some s)) r) - s = (7 / 8) ^ n * (rttAvg r - s)"
proof (induction n arbitrary: r)
  case (Suc n)
  have "rttAvg (updateRtt (Some s) r) - s = 7 / 8 * (rttAvg r - s)"
    using Suc.prems by (simp add: updateRtt_def rtt_alpha_def field_simps)
  then show ?case using Suc by (simp add: rtt_run_def)
qed (simp add: rtt_run_def)

text \<open>
  C40: Whatever samples arrive, if they are at most \<open>B\<close> milliseconds (and \<open>B\<close> is at least the
  initial estimate of 200), the retransmission timeout stays between one second and \<open>5 B\<close> (one
  second at least); samples that are negative or not finite are ignored. Under a constant sample
  the distance of the average from it shrinks by the factor 7/8 with every update.
\<close>

theorem rto_bounds:
  assumes "200 \<le> B" "\<forall>s. Some s \<in> set samples \<longrightarrow> s \<le> B"
  shows "1000 \<le> getRto (rtt_run samples new_RttEstimator)
         \<and> getRto (rtt_run samples new_RttEstimator) \<le> max (5 * B) 1000
         \<and> rtt_run (None # samples) new_RttEstimator = rtt_run samples new_RttEstimator
         \<and> (0 \<le> s \<longrightarrow> \<bar>rttAvg (rtt_run (replicate n (Some s)) new_RttEstimator) - s\<bar> = (7 / 8) ^ n * \<bar>200 - s\<bar>)"
proof -
  have "rtt_within B new_RttEstimator" using assms(1) by (simp add: rtt_within_def new_RttEstimator_def)
  then have "rtt_within B (rtt_run samples new_RttEstimator)" using assms(2) by (rule rtt_within_run)
  then show ?thesis
    using rtt_avg_constant [of s n new_RttEstimator]
    by (auto simp: rtt_within_def getRto_def rtt_run_def updateRtt_def abs_mult new_RttEstimator_def)
qed

theorem rto_bounds_witness:
  "1000 \<le> getRto (rtt_run [Some 300, None, Some (- 5), Some 4000] new_RttEstimator)
   \<and> getRto (rtt_run [Some 300, None, Some (- 5), Some 4000] new_RttEstimator) \<le> 20000
   \<and> \<bar>rttAvg (rtt_run (replicate 2 (Some 1000)) new_RttEstimator) - 1000\<bar> = 612.5"
  using rto_bounds [of 4000 "[Some 300, None, Some (- 5), Some 4000]" 1000 2] by (simp add: power2_eq_square)

end
