(* ===== verification/Backpressure.thy ===== *)
theory Backpressure
  imports Rtt
begin

text \<open>
  The send queue of \<open>lib/channel/backpressureQueue.ts\<close>. Every call of \<open>send\<close> has a number, which
  stands for the promise it returns; settling a promise is an entry of a log. The data channel is
  a parameter: \<open>dc_try\<close> says whether its \<open>send\<close> throws, and its buffered amount and state change
  by events of their own. A drain runs without interruption up to its next \<open>await\<close>, so a
  suspended drain is just its generation, and the world is a step relation over the events that
  can happen between two runs.
\<close>

section \<open>The queue and its operations\<close>

datatype settlement = Resolved | Rejected string

record bq_config =
  HIGH_WATER_MARK :: nat
  DRAIN_THRESHOLD :: nat
  DRAIN_TIMEOUT :: rat
  bq_rttEstimator :: "rtt_estimator option"

definition default_config :: bq_config where
  "default_config = \<lparr>HIGH_WATER_MARK = 64 * 1024, DRAIN_THRESHOLD = 32 * 1024, DRAIN_TIMEOUT = 100, bq_rttEstimator = None\<rparr>"

type_synonym queued_item = "nat \<times> bytes"

record bq =
  bq_queue :: "queued_item list"
  bq_pendingBytes :: int
  bq_draining :: bool
  bq_drainGeneration :: nat

definition new_BackpressureQueue :: bq where
  "new_BackpressureQueue = \<lparr>bq_queue = [], bq_pendingBytes = 0, bq_draining = False, bq_drainGeneration = 0\<rparr>"

text \<open>The channel as the queue sees it, with the log of what was handed to it.\<close>

record data_channel =
  dc_open :: bool
  dc_bufferedAmount :: nat
  dc_sent :: "queued_item list"

text \<open>
  One \<open>dc.send\<close>. The parameter \<open>dc_try\<close> is the browser's verdict on a channel and a payload:
  \<open>Some\<close> of a message when the call throws.
\<close>

definition dc_send :: "(data_channel \<Rightarrow> bytes \<Rightarrow> string option) \<Rightarrow> queued_item \<Rightarrow> data_channel \<Rightarrow> string option \<times> data_channel" where
  "dc_send dc_try item dc =
     (case dc_try dc (snd item) of
        Some err \<Rightarrow> (Some err, dc)
      | None \<Rightarrow> (None, dc\<lparr>dc_bufferedAmount := dc_bufferedAmount dc + length (snd item), dc_sent := dc_sent dc @ [item]\<rparr>))"

text \<open>
  The loop of \<open>drain\<close>, from a point where it runs: it ends when the queue is empty or the
  generation has moved on (\<open>None\<close>), or suspends in \<open>waitForDrainEvent\<close> (\<open>Some gen\<close>).
\<close>

function drain_loop ::
  "(data_channel \<Rightarrow> bytes \<Rightarrow> string option) \<Rightarrow> nat \<Rightarrow> nat \<Rightarrow> bq \<Rightarrow> data_channel
   \<Rightarrow> bq \<times> data_channel \<times> (nat \<times> settlement) list \<times> nat option" where
  "drain_loop dc_try threshold gen q dc =
     (case bq_queue q of
        [] \<Rightarrow> (if gen = bq_drainGeneration q then q\<lparr>bq_draining := False\<rparr> else q, dc, [], None)
      | item # rest \<Rightarrow>
          if gen \<noteq> bq_drainGeneration q then (q, dc, [], None)
          else if dc_bufferedAmount dc \<le> threshold then
           (let q1 = q\<lparr>bq_queue := rest, bq_pendingBytes := bq_pendingBytes q - int (length (snd item))\<rparr>;
                (thrown, dc1) = dc_send dc_try item dc;
                outcome = (case thrown of None \<Rightarrow> Resolved | Some _ \<Rightarrow> Rejected ''SEND_FAILED'');
                (q2, dc2, lg, susp) = drain_loop dc_try threshold gen q1 dc1
            in (q2, dc2, (fst item, outcome) # lg, susp))
          else (q, dc, [], Some gen))"
  by pat_completeness auto

termination by (relation "measure (\<lambda>(_, _, _, q, _). length (bq_queue q))") auto

declare drain_loop.simps [simp del]

definition drain ::
  "(data_channel \<Rightarrow> bytes \<Rightarrow> string option) \<Rightarrow> nat \<Rightarrow> bq \<Rightarrow> data_channel
   \<Rightarrow> bq \<times> data_channel \<times> (nat \<times> settlement) list \<times> nat option" where
  "drain dc_try threshold q dc =
     (let gen = bq_drainGeneration q + 1
      in drain_loop dc_try threshold gen (q\<lparr>bq_drainGeneration := gen\<rparr>) dc)"

definition bq_send ::
  "(data_channel \<Rightarrow> bytes \<Rightarrow> string option) \<Rightarrow> bq_config \<Rightarrow> nat \<Rightarrow> bytes \<Rightarrow> bq \<Rightarrow> data_channel
   \<Rightarrow> bq \<times> data_channel \<times> (nat \<times> settlement) list \<times> nat option" where
  "bq_send dc_try cfg n payload q dc =
     (if \<not> dc_open dc then (q, dc, [(n, Rejected ''DC_NOT_OPEN'')], None)
      else
       (let totalPending = int (dc_bufferedAmount dc) + bq_pendingBytes q + int (length payload) in
        if bq_queue q \<noteq> [] \<or> totalPending > int (HIGH_WATER_MARK cfg) then
         (let q1 = q\<lparr>bq_queue := bq_queue q @ [(n, payload)], bq_pendingBytes := bq_pendingBytes q + int (length payload)\<rparr>
          in if \<not> bq_draining q1 then drain dc_try (DRAIN_THRESHOLD cfg) (q1\<lparr>bq_draining := True\<rparr>) dc
             else (q1, dc, [], None))
        else
         (case dc_send dc_try (n, payload) dc of
            (None, dc1) \<Rightarrow> (q, dc1, [(n, Resolved)], None)
          | (Some _, dc1) \<Rightarrow> (q, dc1, [(n, Rejected ''SEND_FAILED'')], None))))"

definition getQueueLength :: "bq \<Rightarrow> nat" where
  "getQueueLength q = length (bq_queue q)"

definition isDraining :: "bq \<Rightarrow> bool" where
  "isDraining q = bq_draining q"

definition bq_clear :: "bq \<Rightarrow> bq \<times> (nat \<times> settlement) list" where
  "bq_clear q =
     (q\<lparr>bq_queue := [], bq_pendingBytes := 0, bq_drainGeneration := bq_drainGeneration q + 1, bq_draining := False\<rparr>,
      map (\<lambda>item. (fst item, Rejected ''QUEUE_CLEARED'')) (bq_queue q))"

text \<open>The \<open>close\<close> listener a running drain has on the channel.\<close>

definition drain_onClose :: "bq \<Rightarrow> bq \<times> (nat \<times> settlement) list" where
  "drain_onClose q =
     (q\<lparr>bq_queue := [], bq_pendingBytes := 0\<rparr>, map (\<lambda>item. (fst item, Rejected ''DC_CLOSED'')) (bq_queue q))"

definition getDrainTimeout :: "bq_config \<Rightarrow> rat" where
  "getDrainTimeout cfg =
     (case bq_rttEstimator cfg of
        Some r \<Rightarrow> max (DRAIN_TIMEOUT cfg) (getRto r)
      | None \<Rightarrow> DRAIN_TIMEOUT cfg)"

section \<open>The world of one queue\<close>

record bq_world =
  w_q :: bq
  w_dc :: data_channel
  w_drains :: "nat list"
  w_next :: nat
  w_log :: "(nat \<times> settlement) list"

definition init_world :: "data_channel \<Rightarrow> bq_world" where
  "init_world dc = \<lparr>w_q = new_BackpressureQueue, w_dc = dc\<lparr>dc_sent := []\<rparr>, w_drains = [], w_next = 0, w_log = []\<rparr>"

datatype bq_event =
    EvSend bytes
  | EvClear
  | EvWake nat
  | EvBuffered nat
  | EvClose

text \<open>
  The events: a call of \<open>send\<close> or \<open>clear\<close>, the end of a drain's wait (the \<open>bufferedamountlow\<close>
  event or the timeout), a change of the buffered amount by the browser, and the channel closing,
  which runs the \<open>close\<close> listener if a drain is suspended.
\<close>

fun bq_exec :: "(data_channel \<Rightarrow> bytes \<Rightarrow> string option) \<Rightarrow> bq_config \<Rightarrow> bq_event \<Rightarrow> bq_world \<Rightarrow> bq_world" where
  "bq_exec dc_try cfg (EvSend payload) w =
     (case bq_send dc_try cfg (w_next w) payload (w_q w) (w_dc w) of
        (q, dc, lg, susp) \<Rightarrow>
          w\<lparr>w_q := q, w_dc := dc, w_drains := w_drains w @ (case susp of None \<Rightarrow> [] | Some g \<Rightarrow> [g]),
            w_next := w_next w + 1, w_log := w_log w @ lg\<rparr>)"
| "bq_exec dc_try cfg EvClear w =
     (case bq_clear (w_q w) of (q, lg) \<Rightarrow> w\<lparr>w_q := q, w_log := w_log w @ lg\<rparr>)"
| "bq_exec dc_try cfg (EvWake g) w =
     (if g \<in> set (w_drains w) then
       (case drain_loop dc_try (DRAIN_THRESHOLD cfg) g (w_q w) (w_dc w) of
          (q, dc, lg, susp) \<Rightarrow>
            w\<lparr>w_q := q, w_dc := dc, w_drains := (if susp = None then remove1 g (w_drains w) else w_drains w),
              w_log := w_log w @ lg\<rparr>)
      else w)"
| "bq_exec dc_try cfg (EvBuffered n) w = w\<lparr>w_dc := (w_dc w)\<lparr>dc_bufferedAmount := n\<rparr>\<rparr>"
| "bq_exec dc_try cfg EvClose w =
     (if w_drains w \<noteq> [] then
       (case drain_onClose (w_q w) of
          (q, lg) \<Rightarrow> w\<lparr>w_q := q, w_dc := (w_dc w)\<lparr>dc_open := False\<rparr>, w_log := w_log w @ lg\<rparr>)
      else w\<lparr>w_dc := (w_dc w)\<lparr>dc_open := False\<rparr>\<rparr>)"

definition bq_run :: "(data_channel \<Rightarrow> bytes \<Rightarrow> string option) \<Rightarrow> bq_config \<Rightarrow> bq_event list \<Rightarrow> bq_world \<Rightarrow> bq_world" where
  "bq_run dc_try cfg evs w = fold (bq_exec dc_try cfg) evs w"

inductive bq_reachable :: "(data_channel \<Rightarrow> bytes \<Rightarrow> string option) \<Rightarrow> bq_config \<Rightarrow> data_channel \<Rightarrow> bq_world \<Rightarrow> bool"
  for dc_try cfg dc where
  start: "bq_reachable dc_try cfg dc (init_world dc)"
| step: "bq_reachable dc_try cfg dc w \<Longrightarrow> bq_reachable dc_try cfg dc (bq_exec dc_try cfg ev w)"

lemma bq_reachable_run: "bq_reachable dc_try cfg dc w \<Longrightarrow> bq_reachable dc_try cfg dc (bq_run dc_try cfg evs w)"
  by (induction evs arbitrary: w) (auto simp: bq_run_def intro: bq_reachable.step)

section \<open>Invariants\<close>

definition queue_bytes :: "queued_item list \<Rightarrow> int" where
  "queue_bytes items = (\<Sum>item \<leftarrow> items. int (length (snd item)))"

text \<open>
  The bookkeeping: the byte counter is the size of the queue; a drain is marked running exactly
  when one of the current generation is suspended, and no generation is suspended twice; a
  queue with entries is being drained.
\<close>

definition bq_inv :: "bq \<Rightarrow> nat list \<Rightarrow> bool" where
  "bq_inv q drains \<longleftrightarrow>
     bq_pendingBytes q = queue_bytes (bq_queue q)
     \<and> distinct drains \<and> (\<forall>g \<in> set drains. g \<le> bq_drainGeneration q)
     \<and> (bq_draining q \<longleftrightarrow> bq_drainGeneration q \<in> set drains)
     \<and> (bq_queue q \<noteq> [] \<longrightarrow> bq_draining q)"

text \<open>
  The promises: numbers go out in the order of the calls, and every call made so far is either
  queued or settled, once.
\<close>

definition order_inv :: "bq \<Rightarrow> data_channel \<Rightarrow> nat \<Rightarrow> (nat \<times> settlement) list \<Rightarrow> bool" where
  "order_inv q dc n lg \<longleftrightarrow>
     sorted_wrt (<) (map fst (dc_sent dc @ bq_queue q))
     \<and> (\<forall>i \<in> set (map fst (dc_sent dc @ bq_queue q)). i < n)
     \<and> mset (map fst lg @ map fst (bq_queue q)) = mset [0..<n]
     \<and> filter (\<lambda>p. snd p = Resolved) lg = map (\<lambda>item. (fst item, Resolved)) (dc_sent dc)"

lemma queue_bytes_simps [simp]:
  "queue_bytes [] = 0" "queue_bytes (x # xs) = int (length (snd x)) + queue_bytes xs"
  "queue_bytes (xs @ ys) = queue_bytes xs + queue_bytes ys"
  by (simp_all add: queue_bytes_def)

lemma drain_loop_empty:
  "bq_queue q = [] \<Longrightarrow> drain_loop dc_try th g q dc =
     (if g = bq_drainGeneration q then q\<lparr>bq_draining := False\<rparr> else q, dc, [], None)"
  by (subst drain_loop.simps) simp

lemma drain_loop_stale:
  "g \<noteq> bq_drainGeneration q \<Longrightarrow> drain_loop dc_try th g q dc = (q, dc, [], None)"
  by (subst drain_loop.simps) (simp split: list.split)

lemma drain_loop_bookkeeping:
  assumes "drain_loop dc_try th g q dc = (q', dc', lg, susp)" "g = bq_drainGeneration q" "bq_draining q"
    "bq_pendingBytes q = queue_bytes (bq_queue q)"
  shows "bq_pendingBytes q' = queue_bytes (bq_queue q') \<and> bq_drainGeneration q' = g
     \<and> (if bq_draining q' then susp = Some g else susp = None \<and> bq_queue q' = [])"
  using assms
proof (induction dc_try th g q dc arbitrary: q' dc' lg susp rule: drain_loop.induct)
  case (1 dc_try th g q dc)
  show ?case
  proof (cases "bq_queue q")
    case Nil
    then show ?thesis using 1 by (auto simp: drain_loop_empty)
  next
    case (Cons item rest)
    show ?thesis
    proof (cases "dc_bufferedAmount dc \<le> th")
      case True
      define q1 where "q1 = q\<lparr>bq_queue := rest, bq_pendingBytes := bq_pendingBytes q - int (length (snd item))\<rparr>"
      obtain thrown dc1 where s: "dc_send dc_try item dc = (thrown, dc1)" by (cases "dc_send dc_try item dc")
      obtain lg' where r: "drain_loop dc_try th g q1 dc1 = (q', dc', lg', susp)"
        using "1.prems"(1,2) Cons True s
        by (subst (asm) drain_loop.simps) (auto simp: q1_def Let_def split: prod.splits)
      show ?thesis
        by (rule "1.IH" [OF Cons _ True refl s [symmetric] refl refl r [unfolded q1_def]])
          (use "1.prems" Cons in simp_all)
    next
      case False
      then show ?thesis using 1 Cons by (subst (asm) drain_loop.simps) auto
    qed
  qed
qed

lemma order_inv_fields:
  "order_inv q dc n lg \<Longrightarrow> bq_queue q' = bq_queue q \<Longrightarrow> dc_sent dc' = dc_sent dc \<Longrightarrow> order_inv q' dc' n lg"
  by (simp add: order_inv_def)

lemma order_inv_shift:
  assumes "order_inv q dc n lg" "bq_queue q = item # rest" "dc_send dc_try item dc = (thrown, dc1)"
    and "bq_queue q1 = rest" "out = (case thrown of None \<Rightarrow> Resolved | Some _ \<Rightarrow> Rejected e)"
  shows "order_inv q1 dc1 n (lg @ [(fst item, out)])"
proof (cases "dc_try dc (snd item)")
  case None
  then have "out = Resolved" "dc_sent dc1 = dc_sent dc @ [item]" using assms(3,5) by (auto simp: dc_send_def)
  then show ?thesis using assms(1,2,4) by (simp add: order_inv_def ball_Un)
next
  case (Some x)
  then have "out = Rejected e" "dc_sent dc1 = dc_sent dc" using assms(3,5) by (auto simp: dc_send_def split: option.splits)
  then show ?thesis using assms(1,2,4) by (simp add: order_inv_def ball_Un sorted_wrt_append)
qed

lemma drain_loop_halts:
  assumes "drain_loop dc_try th g q dc = (q', dc', lg', susp)"
    and "bq_queue q = [] \<or> g \<noteq> bq_drainGeneration q \<or> \<not> dc_bufferedAmount dc \<le> th"
  shows "lg' = [] \<and> dc' = dc \<and> bq_queue q' = bq_queue q"
  using assms
  by (subst (asm) drain_loop.simps) (auto split: list.splits if_splits)

lemma drain_loop_order:
  assumes "drain_loop dc_try th g q dc = (q', dc', lg', susp)" "order_inv q dc n lg"
  shows "order_inv q' dc' n (lg @ lg')"
  using assms
proof (induction dc_try th g q dc arbitrary: q' dc' lg lg' susp rule: drain_loop.induct)
  case (1 dc_try th g q dc)
  consider (halt) "bq_queue q = [] \<or> g \<noteq> bq_drainGeneration q \<or> \<not> dc_bufferedAmount dc \<le> th"
    | (go) item rest where "bq_queue q = item # rest" "g = bq_drainGeneration q" "dc_bufferedAmount dc \<le> th"
    by (cases "bq_queue q") auto
  then show ?case
  proof cases
    case halt
    then show ?thesis using drain_loop_halts [OF "1.prems"(1)] "1.prems"(2) order_inv_fields by fastforce
  next
    case go
    define q1 where "q1 = q\<lparr>bq_queue := rest, bq_pendingBytes := bq_pendingBytes q - int (length (snd item))\<rparr>"
    obtain thrown dc1 where s: "dc_send dc_try item dc = (thrown, dc1)" by (cases "dc_send dc_try item dc")
    define out where "out = (case thrown of None \<Rightarrow> Resolved | Some _ \<Rightarrow> Rejected ''SEND_FAILED'')"
    obtain l where r: "drain_loop dc_try th g q1 dc1 = (q', dc', l, susp)" and lg': "lg' = (fst item, out) # l"
      using "1.prems"(1) go s
      by (subst (asm) drain_loop.simps) (auto simp: q1_def out_def Let_def split: prod.splits)
    have "order_inv q1 dc1 n (lg @ [(fst item, out)])"
      using order_inv_shift [OF "1.prems"(2) go(1) s, of q1 out] by (simp add: q1_def out_def)
    from "1.IH" [OF go(1) _ go(3) refl s [symmetric] refl refl r [unfolded q1_def] this [unfolded q1_def]]
    show ?thesis using go(2) lg' by simp
  qed
qed

lemma order_inv_reject_new:
  "order_inv q dc n lg \<Longrightarrow> order_inv q dc (Suc n) (lg @ [(n, Rejected e)])"
  by (simp add: order_inv_def ball_Un less_Suc_eq)

lemma order_inv_push:
  "order_inv q dc n lg \<Longrightarrow> bq_queue q' = bq_queue q @ [(n, p)] \<Longrightarrow> order_inv q' dc (Suc n) lg"
  by (simp add: order_inv_def ball_Un less_Suc_eq sorted_wrt_append)

lemma order_inv_flush:
  assumes "order_inv q dc n lg" "bq_queue q' = []" "dc_sent dc' = dc_sent dc"
  shows "order_inv q' dc' n (lg @ map (\<lambda>item. (fst item, Rejected e)) (bq_queue q))"
proof -
  have "map fst (map (\<lambda>item. (fst item, Rejected e)) (bq_queue q)) = map fst (bq_queue q)" by simp
  then show ?thesis using assms by (simp add: order_inv_def ball_Un sorted_wrt_append filter_empty_conv comp_def)
qed

definition pushed :: "nat \<Rightarrow> bytes \<Rightarrow> bq \<Rightarrow> bq" where
  "pushed n p q = q\<lparr>bq_queue := bq_queue q @ [(n, p)], bq_pendingBytes := bq_pendingBytes q + int (length p)\<rparr>"

lemma bq_send_cases:
  assumes "bq_send dc_try cfg n p q dc = (q', dc', lg', susp)"
  obtains (refused) e where "q' = q" "dc' = dc" "lg' = [(n, Rejected e)]" "susp = None"
  | (direct) "bq_queue q = []" "q' = q" "dc_sent dc' = dc_sent dc @ [(n, p)]" "lg' = [(n, Resolved)]" "susp = None"
  | (queued) "bq_draining q" "q' = pushed n p q" "dc' = dc" "lg' = []" "susp = None"
  | (drains) "\<not> bq_draining q"
      "drain dc_try (DRAIN_THRESHOLD cfg) ((pushed n p q)\<lparr>bq_draining := True\<rparr>) dc = (q', dc', lg', susp)"
proof (cases "dc_open dc")
  case False
  then show thesis using assms refused by (auto simp: bq_send_def)
next
  case True
  let ?full = "bq_queue q \<noteq> [] \<or> int (dc_bufferedAmount dc) + bq_pendingBytes q + int (length p) > int (HIGH_WATER_MARK cfg)"
  show thesis
  proof (cases ?full)
    case full: True
    show thesis
      using assms True full queued drains by (cases "bq_draining q") (simp_all add: bq_send_def pushed_def)
  next
    case False
    show thesis
      using assms True False refused direct
      by (cases "dc_try dc p") (auto simp: bq_send_def dc_send_def)
  qed
qed

lemma order_inv_send:
  assumes "order_inv q dc n lg" "bq_send dc_try cfg n p q dc = (q', dc', lg', susp)"
  shows "order_inv q' dc' (Suc n) (lg @ lg')"
  using assms(2)
proof (cases rule: bq_send_cases)
  case refused
  then show ?thesis using assms(1) order_inv_reject_new by simp
next
  case direct
  then show ?thesis using assms(1) by (simp add: order_inv_def ball_Un less_Suc_eq sorted_wrt_append)
next
  case queued
  then show ?thesis using order_inv_push [OF assms(1), of q' p] by (simp add: pushed_def)
next
  case drains
  have "order_inv ((pushed n p q)\<lparr>bq_draining := True, bq_drainGeneration := bq_drainGeneration q + 1\<rparr>) dc (Suc n) lg"
    by (rule order_inv_push [OF assms(1)]) (simp add: pushed_def)
  from drain_loop_order [OF _ this] show ?thesis using drains by (simp add: drain_def Let_def pushed_def)
qed

text \<open>Bookkeeping: a drain that ran keeps or ends its own suspension; the others are stale.\<close>

lemma bq_inv_send:
  assumes inv: "bq_inv q drains" and send: "bq_send dc_try cfg n p q dc = (q', dc', lg', susp)"
  shows "bq_inv q' (drains @ (case susp of None \<Rightarrow> [] | Some g \<Rightarrow> [g]))"
  using send
proof (cases rule: bq_send_cases)
  case queued
  then show ?thesis using inv by (simp add: bq_inv_def pushed_def)
next
  case drains
  let ?q = "(pushed n p q)\<lparr>bq_draining := True, bq_drainGeneration := Suc (bq_drainGeneration q)\<rparr>"
  have r: "drain_loop dc_try (DRAIN_THRESHOLD cfg) (Suc (bq_drainGeneration q)) ?q dc = (q', dc', lg', susp)"
    using drains(2) by (simp add: drain_def Let_def pushed_def)
  have "bq_pendingBytes ?q = queue_bytes (bq_queue ?q)" using inv by (simp add: bq_inv_def pushed_def)
  note b = drain_loop_bookkeeping [OF r _ _ this, simplified]
  have fresh: "Suc (bq_drainGeneration q) \<notin> set drains" using inv by (auto simp: bq_inv_def)
  show ?thesis
    using b inv fresh by (cases "bq_draining q'") (auto simp: bq_inv_def)
qed (use inv in simp_all)

lemma bq_inv_wake:
  assumes inv: "bq_inv q drains" and g: "g \<in> set drains"
    and r: "drain_loop dc_try th g q dc = (q', dc', lg', susp)"
  shows "bq_inv q' (if susp = None then remove1 g drains else drains)"
proof (cases "g = bq_drainGeneration q")
  case True
  then have "bq_draining q" "bq_pendingBytes q = queue_bytes (bq_queue q)" using inv g by (auto simp: bq_inv_def)
  note b = drain_loop_bookkeeping [OF r True this]
  show ?thesis using b inv True g by (cases "bq_draining q'") (auto simp: bq_inv_def)
next
  case False
  then have "q' = q" "susp = None" using drain_loop_stale [OF False] r by auto
  then show ?thesis using inv False by (auto simp: bq_inv_def)
qed

lemma bq_inv_clear: "bq_inv q drains \<Longrightarrow> bq_inv (fst (bq_clear q)) drains"
  by (auto simp: bq_inv_def bq_clear_def)

lemma bq_inv_onClose: "bq_inv q drains \<Longrightarrow> bq_inv (fst (drain_onClose q)) drains"
  by (auto simp: bq_inv_def drain_onClose_def)

definition world_inv :: "bq_world \<Rightarrow> bool" where
  "world_inv w \<longleftrightarrow> bq_inv (w_q w) (w_drains w) \<and> order_inv (w_q w) (w_dc w) (w_next w) (w_log w)"

lemma world_inv_init: "world_inv (init_world dc)"
  by (simp add: world_inv_def init_world_def new_BackpressureQueue_def bq_inv_def order_inv_def)

lemma world_inv_exec:
  assumes "world_inv w"
  shows "world_inv (bq_exec dc_try cfg ev w)"
proof (cases ev)
  case (EvSend p)
  then show ?thesis
    using assms bq_inv_send order_inv_send
    by (cases "bq_send dc_try cfg (w_next w) p (w_q w) (w_dc w)") (fastforce simp: world_inv_def)
next
  case EvClear
  then show ?thesis
    using assms bq_inv_clear [of "w_q w"] order_inv_flush [of "w_q w" "w_dc w"]
    by (simp add: world_inv_def bq_clear_def)
next
  case (EvWake g)
  then show ?thesis
    using assms bq_inv_wake drain_loop_order
    by (cases "drain_loop dc_try (DRAIN_THRESHOLD cfg) g (w_q w) (w_dc w)") (fastforce simp: world_inv_def)
next
  case (EvBuffered n)
  then show ?thesis using assms order_inv_fields by (fastforce simp: world_inv_def)
next
  case EvClose
  show ?thesis
  proof (cases "w_drains w = []")
    case True
    then show ?thesis using EvClose assms order_inv_fields by (fastforce simp: world_inv_def)
  next
    case False
    have "order_inv ((w_q w)\<lparr>bq_queue := [], bq_pendingBytes := 0\<rparr>) ((w_dc w)\<lparr>dc_open := False\<rparr>) (w_next w)
        (w_log w @ map (\<lambda>item. (fst item, Rejected ''DC_CLOSED'')) (bq_queue (w_q w)))"
      using assms by (intro order_inv_flush) (simp_all add: world_inv_def)
    then show ?thesis
      using EvClose False assms bq_inv_onClose [of "w_q w"] by (simp add: world_inv_def drain_onClose_def)
  qed
qed

lemma world_inv_reachable: "bq_reachable dc_try cfg dc w \<Longrightarrow> world_inv w"
  by (induction rule: bq_reachable.induct) (auto intro: world_inv_init world_inv_exec)

lemma bq_reachable_run_init: "bq_reachable dc_try cfg dc (bq_run dc_try cfg evs (init_world dc))"
  by (intro bq_reachable_run bq_reachable.start)

section \<open>Properties\<close>

text \<open>
  C19: In every reachable state of the queue the byte counter is the size of what is queued, and no
  payload is stranded: if anything is queued, a drain is marked running and exactly one drain of the
  current generation is suspended to go on with it; a drain left over from before a \<open>clear\<close> changes
  nothing when it wakes.
\<close>

theorem queue_never_stranded:
  assumes "bq_reachable dc_try cfg dc w"
  shows "bq_pendingBytes (w_q w) = (\<Sum>item \<leftarrow> bq_queue (w_q w). int (length (snd item)))
         \<and> (bq_queue (w_q w) \<noteq> [] \<longrightarrow>
              bq_draining (w_q w) \<and> length (filter (\<lambda>g. g = bq_drainGeneration (w_q w)) (w_drains w)) = 1)
         \<and> (g \<noteq> bq_drainGeneration (w_q w) \<longrightarrow>
              w_q (bq_exec dc_try cfg (EvWake g) w) = w_q w \<and> w_dc (bq_exec dc_try cfg (EvWake g) w) = w_dc w)"
proof -
  have inv: "bq_inv (w_q w) (w_drains w)" using world_inv_reachable [OF assms] by (simp add: world_inv_def)
  have one: "length (filter (\<lambda>h. h = g) (w_drains w)) = 1" if "g \<in> set (w_drains w)" for g
    using inv that by (simp add: bq_inv_def distinct_length_filter)
  show ?thesis
    using inv one [of "bq_drainGeneration (w_q w)"] by (auto simp: bq_inv_def queue_bytes_def drain_loop_stale)
qed

text \<open>
  C7: The queue keeps order and loses no promise. In every reachable state the payloads handed to
  the channel, followed by those still queued, are in the order of the calls of \<open>send\<close>; every call
  made is either queued or settled exactly once; and a promise is resolved exactly when its payload
  was handed to the channel, in that order.
\<close>

theorem queue_fifo_settled_once:
  assumes "bq_reachable dc_try cfg dc w"
  shows "sorted_wrt (<) (map fst (dc_sent (w_dc w) @ bq_queue (w_q w)))
         \<and> mset (map fst (w_log w) @ map fst (bq_queue (w_q w))) = mset [0..<w_next w]
         \<and> map fst (filter (\<lambda>p. snd p = Resolved) (w_log w)) = map fst (dc_sent (w_dc w))"
  using world_inv_reachable [OF assms] by (simp add: world_inv_def order_inv_def comp_def)

text \<open>A run in which a payload goes out, two are queued behind a full buffer, one is drained and the rest cleared.\<close>

definition example_config :: bq_config where
  "example_config = \<lparr>HIGH_WATER_MARK = 4, DRAIN_THRESHOLD = 2, DRAIN_TIMEOUT = 100, bq_rttEstimator = None\<rparr>"

definition example_events :: "bq_event list" where
  "example_events = [EvSend [1, 2, 3], EvSend [4, 5], EvSend [6, 7, 8], EvSend [9], EvBuffered 1, EvWake 1, EvBuffered 9]"

definition example_world :: bq_world where
  "example_world = bq_run (\<lambda>_ _. None) example_config example_events (init_world \<lparr>dc_open = True, dc_bufferedAmount = 0, dc_sent = []\<rparr>)"

lemma example_world_reachable:
  "bq_reachable (\<lambda>_ _. None) example_config \<lparr>dc_open = True, dc_bufferedAmount = 0, dc_sent = []\<rparr> example_world"
  unfolding example_world_def by (rule bq_reachable_run_init)

lemma example_world_value:
  "map fst (dc_sent (w_dc example_world)) = [0, 1] \<and> map fst (bq_queue (w_q example_world)) = [2, 3]
   \<and> w_log example_world = [(0, Resolved), (1, Resolved)] \<and> w_next example_world = 4
   \<and> w_drains example_world = [1]"
  by (simp add: example_world_def example_events_def bq_run_def example_config_def init_world_def
      new_BackpressureQueue_def bq_send_def dc_send_def drain_def drain_loop.simps)

theorem queue_never_stranded_witness:
  "bq_queue (w_q example_world) \<noteq> [] \<and> bq_draining (w_q example_world)
   \<and> bq_pendingBytes (w_q example_world) = (\<Sum>item \<leftarrow> bq_queue (w_q example_world). int (length (snd item)))"
  using queue_never_stranded [OF example_world_reachable] example_world_value by (metis list.simps(3,8))

theorem queue_fifo_settled_once_witness:
  "sorted_wrt (<) (map fst (dc_sent (w_dc example_world) @ bq_queue (w_q example_world)))
   \<and> map fst (filter (\<lambda>p. snd p = Resolved) (w_log example_world)) = [0, 1]"
  using queue_fifo_settled_once [OF example_world_reachable] example_world_value by simp

end
