(* ===== verification/Noise.thy ===== *)
theory Noise
  imports Json
begin

text \<open>
  The parts of \<open>lib/channel/noise.ts\<close> and \<open>lib/channel/noiseTypes.ts\<close> that are the extension's
  own: the stored form of key pairs and pairings, and the negotiation of capabilities. The Noise
  protocol itself is the package salty-crypto; where the model needs it, it is a parameter.
\<close>

section \<open>Keys and cached pairings\<close>

text \<open>A JSON array of numbers, and the bytes \<open>new Uint8Array\<close> makes of it (modulo 256).\<close>

type_synonym numbers = "int list"

definition Array_from :: "bytes \<Rightarrow> numbers" where
  "Array_from bs = map uint bs"

definition new_Uint8Array :: "numbers \<Rightarrow> bytes" where
  "new_Uint8Array ns = map word_of_int ns"

lemma new_Uint8Array_Array_from [simp]: "new_Uint8Array (Array_from bs) = bs"
  by (simp add: new_Uint8Array_def Array_from_def comp_def)

lemma Array_from_range: "n \<in> set (Array_from bs) \<Longrightarrow> 0 \<le> n \<and> n < 256"
  using uint_bounded [where 'a = 8] by (auto simp: Array_from_def)

lemma length_Array_from [simp]: "length (Array_from bs) = length bs"
  by (simp add: Array_from_def)

lemma Array_from_Nil_iff [simp]: "Array_from bs = [] \<longleftrightarrow> bs = []"
  by (simp add: Array_from_def)

record noise_keypair =
  publicKey :: bytes
  secretKey :: bytes

datatype handshake_pattern = XX | IK

record capabilities =
  cap_version :: int
  cap_features :: "json list"
  cap_supportedTransports :: "json list"

record cached_pairing =
  cp_localStaticKey :: numbers
  cp_remoteStaticPublicKey :: numbers
  cp_handshakePattern :: handshake_pattern
  cp_pairedAt :: millis

definition keyToBytes :: "noise_keypair \<Rightarrow> numbers" where
  "keyToBytes kp = Array_from (publicKey kp) @ Array_from (secretKey kp)"

text \<open>\<open>dhlen\<close> is the key length of the package's Diffie-Hellman group (32 for X25519).\<close>

definition keyFromBytes :: "nat \<Rightarrow> numbers \<Rightarrow> noise_keypair" where
  "keyFromBytes dhlen bs =
     \<lparr>publicKey = new_Uint8Array (slice bs 0 dhlen), secretKey = new_Uint8Array (slice bs dhlen (dhlen * 2))\<rparr>"

definition serializeKeyPair :: "noise_keypair \<Rightarrow> numbers" where
  "serializeKeyPair kp = keyToBytes kp"

definition deserializeKeyPair :: "nat \<Rightarrow> numbers \<Rightarrow> noise_keypair" where
  "deserializeKeyPair dhlen bs = keyFromBytes dhlen bs"

definition toCachedPairing :: "millis \<Rightarrow> noise_keypair \<Rightarrow> bytes \<Rightarrow> handshake_pattern \<Rightarrow> cached_pairing" where
  "toCachedPairing now localKey remotePublicKey pattern =
     \<lparr>cp_localStaticKey = keyToBytes localKey, cp_remoteStaticPublicKey = Array_from remotePublicKey,
      cp_handshakePattern = pattern, cp_pairedAt = now\<rparr>"

definition fromCachedPairing :: "nat \<Rightarrow> cached_pairing \<Rightarrow> noise_keypair \<times> bytes" where
  "fromCachedPairing dhlen cached =
     (keyFromBytes dhlen (cp_localStaticKey cached), new_Uint8Array (cp_remoteStaticPublicKey cached))"

definition keypair_len :: "nat \<Rightarrow> noise_keypair \<Rightarrow> bool" where
  "keypair_len dhlen kp \<longleftrightarrow> length (publicKey kp) = dhlen \<and> length (secretKey kp) = dhlen"

lemma keyFromBytes_keyToBytes:
  assumes "keypair_len dhlen kp"
  shows "keyFromBytes dhlen (keyToBytes kp) = kp"
proof -
  have "slice (keyToBytes kp) 0 dhlen = Array_from (publicKey kp)"
    and "slice (keyToBytes kp) dhlen (dhlen * 2) = Array_from (secretKey kp)"
    using assms by (simp_all add: keypair_len_def keyToBytes_def slice_def)
  then show ?thesis by (simp add: keyFromBytes_def)
qed

section \<open>Capabilities\<close>

definition CURRENT_PROTOCOL_VERSION :: int where "CURRENT_PROTOCOL_VERSION = 2"

definition SUPPORTED_FEATURES :: "string list" where
  "SUPPORTED_FEATURES = [''prf'', ''challenge-bound-v1'', ''credential-provision'', ''session-resume-ik'']"

definition SUPPORTED_TRANSPORTS :: "string list" where
  "SUPPORTED_TRANSPORTS = [''webrtc'', ''usb'']"

definition localCaps :: capabilities where
  "localCaps = \<lparr>cap_version = CURRENT_PROTOCOL_VERSION, cap_features = map JStr SUPPORTED_FEATURES,
     cap_supportedTransports = map JStr SUPPORTED_TRANSPORTS\<rparr>"

definition caps_json :: "capabilities \<Rightarrow> json" where
  "caps_json c = JObj [(''version'', JNum (cap_version c)), (''features'', JArr (cap_features c)),
     (''supportedTransports'', JArr (cap_supportedTransports c))]"

definition encodeCapabilities :: bytes where
  "encodeCapabilities = utf8_encode (stringify (caps_json localCaps))"

text \<open>Null and the values that are no object have no properties, so they fail the checks.\<close>

definition decodeCapabilities :: "bytes \<Rightarrow> capabilities option" where
  "decodeCapabilities data =
     (case json_parse (utf8_decode data) of
        None \<Rightarrow> None
      | Some parsed \<Rightarrow>
          (case (jnum (jget parsed ''version''), jarr (jget parsed ''features''), jarr (jget parsed ''supportedTransports'')) of
             (Some v, Some fs, Some ts) \<Rightarrow> Some \<lparr>cap_version = v, cap_features = fs, cap_supportedTransports = ts\<rparr>
           | _ \<Rightarrow> None))"

definition intersectCapabilities :: "capabilities \<Rightarrow> capabilities \<Rightarrow> capabilities" where
  "intersectCapabilities loc remote =
     \<lparr>cap_version = min (cap_version loc) (cap_version remote),
      cap_features = filter (\<lambda>f. f \<in> set (cap_features remote)) (cap_features loc),
      cap_supportedTransports = filter (\<lambda>t. t \<in> set (cap_supportedTransports remote)) (cap_supportedTransports loc)\<rparr>"

definition caps_le :: "capabilities \<Rightarrow> capabilities \<Rightarrow> bool" where
  "caps_le a b \<longleftrightarrow> cap_version a \<le> cap_version b \<and> set (cap_features a) \<subseteq> set (cap_features b)
     \<and> set (cap_supportedTransports a) \<subseteq> set (cap_supportedTransports b)"

definition caps_wf :: "capabilities \<Rightarrow> bool" where
  "caps_wf c \<longleftrightarrow> (\<forall>j \<in> set (cap_features c) \<union> set (cap_supportedTransports c). jwf j)"

lemma decode_caps_json:
  assumes "caps_wf c"
  shows "decodeCapabilities (utf8_encode (stringify (caps_json c))) = Some c"
proof -
  have "jwf (caps_json c)" using assms by (auto simp: caps_json_def caps_wf_def)
  then have "json_parse (stringify (caps_json c)) = Some (caps_json c)" by (rule parse_stringify)
  then show ?thesis by (simp add: decodeCapabilities_def) (simp add: caps_json_def)
qed

lemma caps_wf_local: "caps_wf localCaps"
  by (auto simp: caps_wf_def localCaps_def)

section \<open>Properties\<close>

text \<open>
  Negotiation is a greatest lower bound: what the extension adopts after decoding the phone's
  announcement is at most what either side supports (version, features, transports), and any
  capabilities both sides have are at most it. The extension's own announcement decodes to its
  capabilities, and negotiating with a phone that announces the same changes nothing.
\<close>

theorem capability_negotiation:
  assumes "caps_wf remote" and "data = utf8_encode (stringify (caps_json remote))"
  shows "\<exists>r. decodeCapabilities data = Some r
     \<and> caps_le (intersectCapabilities localCaps r) localCaps \<and> caps_le (intersectCapabilities localCaps r) remote
     \<and> (\<forall>c. caps_le c localCaps \<and> caps_le c remote \<longrightarrow> caps_le c (intersectCapabilities localCaps r))
     \<and> decodeCapabilities encodeCapabilities = Some localCaps
     \<and> intersectCapabilities localCaps localCaps = localCaps"
proof -
  have "decodeCapabilities data = Some remote" using decode_caps_json assms by simp
  moreover have "decodeCapabilities encodeCapabilities = Some localCaps"
    unfolding encodeCapabilities_def by (rule decode_caps_json [OF caps_wf_local])
  moreover have "intersectCapabilities localCaps localCaps = localCaps"
    by (simp add: intersectCapabilities_def localCaps_def filter_True)
  ultimately show ?thesis by (auto simp: caps_le_def intersectCapabilities_def)
qed

theorem capability_negotiation_witness:
  "\<exists>r. decodeCapabilities (utf8_encode (stringify (caps_json \<lparr>cap_version = 1, cap_features = [JStr ''prf'', JStr ''new''],
         cap_supportedTransports = [JStr ''usb'']\<rparr>))) = Some r
     \<and> caps_le (intersectCapabilities localCaps r) localCaps"
  using capability_negotiation [OF _ refl, of "\<lparr>cap_version = 1, cap_features = [JStr ''prf'', JStr ''new''],
         cap_supportedTransports = [JStr ''usb'']\<rparr>"]
  by (auto simp: caps_wf_def)

text \<open>
  A pairing survives its trip through storage: when the keys have the length of the group, the
  key pair and the phone's key read back from the cached record are the ones stored, and the stored
  form is an array of numbers below 256, public key first.
\<close>

theorem cached_pairing_roundtrip:
  assumes "keypair_len dhlen kp"
  shows "fromCachedPairing dhlen (toCachedPairing now kp remote pattern) = (kp, remote)
     \<and> deserializeKeyPair dhlen (serializeKeyPair kp) = kp
     \<and> list_all (\<lambda>n. 0 \<le> n \<and> n < 256) (serializeKeyPair kp)
     \<and> new_Uint8Array (take dhlen (serializeKeyPair kp)) = publicKey kp"
  using keyFromBytes_keyToBytes [OF assms] assms
  by (auto simp: fromCachedPairing_def toCachedPairing_def deserializeKeyPair_def serializeKeyPair_def
      list_all_iff keyToBytes_def keypair_len_def dest: Array_from_range)

theorem cached_pairing_roundtrip_witness:
  "fromCachedPairing 2 (toCachedPairing 7 \<lparr>publicKey = [1, 255], secretKey = [3, 4]\<rparr> [9] XX)
     = (\<lparr>publicKey = [1, 255], secretKey = [3, 4]\<rparr>, [9])"
  using cached_pairing_roundtrip [of 2 "\<lparr>publicKey = [1, 255], secretKey = [3, 4]\<rparr>" 7 "[9]" XX]
  by (simp add: keypair_len_def)

end
