(* ===== verification/Storage.thy ===== *)
theory Storage
  imports Noise
begin

text \<open>
  The data the background script keeps in the browser's storage areas, with a field for every key
  it uses (an emoji is its code point): \<open>browser.storage.session\<close>, \<open>.local\<close> and \<open>.sync\<close>, and the two alarms. A key that is
  absent is \<open>None\<close>. Storage calls are taken to succeed.
\<close>

record device_record =
  deviceId :: string
  dev_name :: string
  phoneStaticKey :: bytes
  lastSeen :: millis
  pairedAt :: millis
  isPrimary :: bool

record device_json =
  dj_deviceId :: string
  dj_name :: string
  dj_phoneStaticKey :: numbers
  dj_lastSeen :: millis
  dj_pairedAt :: millis
  dj_isPrimary :: bool

record device_meta =
  dm_deviceId :: string
  dm_name :: string
  dm_lastSeen :: millis
  dm_pairedAt :: millis
  dm_isPrimary :: bool

record mfa_session =
  sessionToken :: string
  mfaVerifiedAt :: millis
  expiry :: millis
  sess_deviceName :: "string option"

record approved_domain =
  ad_domain :: string
  ad_registeredAt :: millis
  ad_scriptId :: string

record pending_domain =
  pd_domain :: string
  pd_url :: string
  pd_tabId :: int
  pd_usernameSelector :: string
  pd_passwordSelector :: string
  pd_timestamp :: millis

record tab_domain_state =
  td_tabId :: int
  td_domain :: string
  td_registrableDomain :: string
  td_url :: string
  td_timestamp :: millis
  td_isPublic :: bool

record message_response =
  mr_success :: bool
  mr_data :: "json option"
  mr_error :: "string option"

record pending_assertion =
  pa_derivedChallenge :: numbers
  pa_tlvComponents :: numbers
  pa_sessionNonce :: numbers
  pa_origin :: string
  pa_controlCode :: string
  pa_rpId :: string
  pa_secFetchSite :: string
  pa_contentHash :: string
  pa_amount :: "string option"
  pa_recipient :: "string option"

record storage =
  ss_devices :: "device_json list option"
  ss_activeDevice :: "string option"
  ss_pairing :: "cached_pairing option"
  ss_cmdClient :: bool
  ss_sequence :: "int option"
  ss_msgCount :: "int option"
  ss_mfaSession :: "mfa_session option"
  ss_prfSalt :: "string option"
  ss_prfAvailable :: bool
  ss_prfCredentialId :: "string option"
  ss_emojiSas :: "nat list option"
  ss_pendingDomains :: "pending_domain list option"
  ss_deniedDomains :: "string list option"
  ss_selectors :: "(int, string \<times> string) jsmap"
  ss_tabDomains :: "(int, tab_domain_state) jsmap"
  ss_pendingAssertion :: "pending_assertion option"
  ss_assertionResult :: "(string \<times> string option) option"
  ls_deviceMetadata :: "device_meta list option"
  ls_pendingRevocations :: "string list option"
  ls_mfaPersisted :: "mfa_session option"
  sy_approvedDomains :: "approved_domain list option"
  alarm_ttl :: "millis option"
  alarm_idle :: "millis option"

definition empty_storage :: storage where
  "empty_storage = \<lparr>ss_devices = None, ss_activeDevice = None, ss_pairing = None, ss_cmdClient = False,
     ss_sequence = None, ss_msgCount = None, ss_mfaSession = None, ss_prfSalt = None, ss_prfAvailable = False, ss_prfCredentialId = None,
     ss_emojiSas = None, ss_pendingDomains = None, ss_deniedDomains = None, ss_selectors = [], ss_tabDomains = [],
     ss_pendingAssertion = None, ss_assertionResult = None, ls_deviceMetadata = None, ls_pendingRevocations = None,
     ls_mfaPersisted = None, sy_approvedDomains = None, alarm_ttl = None, alarm_idle = None\<rparr>"

text \<open>Closing the browser clears the session area and keeps the others.\<close>

definition browser_restart :: "storage \<Rightarrow> storage" where
  "browser_restart s = empty_storage\<lparr>ls_deviceMetadata := ls_deviceMetadata s, ls_pendingRevocations := ls_pendingRevocations s,
     ls_mfaPersisted := ls_mfaPersisted s, sy_approvedDomains := sy_approvedDomains s\<rparr>"

end
