(* ===== verification/Locks.thy ===== *)
theory Locks
  imports Prelude
begin

text \<open>
  Concurrency of asynchronous tasks. JavaScript runs one piece of code at a time and switches only
  at an \<open>await\<close>, so a task is a list of segments, each a function on the shared state and the
  task's own variables. Two lock idioms of the repository are modelled on top: the promise chain
  (\<open>withRegistryLock\<close> of \<open>deviceRegistry.ts\<close>, \<open>messageCountLock\<close> of \<open>commandClient.ts\<close>), which
  serializes, and the mutex of \<open>attestationManager.ts\<close>, which does not.
\<close>

section \<open>Tasks and schedules\<close>

type_synonym ('s, 'l) segment = "'s \<times> 'l \<Rightarrow> 's \<times> 'l"
type_synonym ('s, 'l) task = "'l \<times> ('s, 'l) segment list"

definition run_segments :: "('s, 'l) segment list \<Rightarrow> 's \<times> 'l \<Rightarrow> 's \<times> 'l" where
  "run_segments segs p = fold (\<lambda>f p. f p) segs p"

lemma run_segments_simps [simp]:
  "run_segments [] p = p" "run_segments (f # fs) p = run_segments fs (f p)"
  by (simp_all add: run_segments_def)

text \<open>One task after the other: the final state and what each task ends with.\<close>

fun serial :: "('s, 'l) task list \<Rightarrow> 's \<Rightarrow> 's \<times> 'l list" where
  "serial [] s = (s, [])"
| "serial (t # ts) s =
     (case run_segments (snd t) (s, fst t) of (s', l') \<Rightarrow>
        (case serial ts s' of (s'', ls) \<Rightarrow> (s'', l' # ls)))"

lemma serial_append:
  "serial (ts @ us) s = (case serial ts s of (s', ls) \<Rightarrow> (case serial us s' of (s'', ms) \<Rightarrow> (s'', ls @ ms)))"
  by (induction ts arbitrary: s) (auto split: prod.splits)

text \<open>Tasks without a lock, under a schedule that names which task runs its next segment.\<close>

fun unlocked :: "nat list \<Rightarrow> 's \<Rightarrow> ('s, 'l) task list \<Rightarrow> 's \<times> ('s, 'l) task list" where
  "unlocked [] s ts = (s, ts)"
| "unlocked (i # is) s ts =
     (if i < length ts then
        (case snd (ts ! i) of
           [] \<Rightarrow> unlocked is s ts
         | f # fs \<Rightarrow> (case f (s, fst (ts ! i)) of (s', l') \<Rightarrow> unlocked is s' (ts[i := (l', fs)])))
      else unlocked is s ts)"

section \<open>The promise chain\<close>

text \<open>
  A call appends its task to the chain; the task starts when the one before it has settled, and
  whether that was fulfilled or rejected makes no difference.
\<close>

record ('s, 'l) chain =
  ch_state :: 's
  ch_local :: 'l
  ch_running :: "('s, 'l) segment list option"
  ch_waiting :: "('s, 'l) task list"
  ch_issued :: "('s, 'l) task list"
  ch_results :: "'l list"

definition new_chain :: "'s \<Rightarrow> 'l \<Rightarrow> ('s, 'l) chain" where
  "new_chain s l = \<lparr>ch_state = s, ch_local = l, ch_running = None, ch_waiting = [], ch_issued = [], ch_results = []\<rparr>"

inductive chain_step :: "('s, 'l) chain \<Rightarrow> ('s, 'l) chain \<Rightarrow> bool" where
  call: "chain_step c (c\<lparr>ch_waiting := ch_waiting c @ [t], ch_issued := ch_issued c @ [t]\<rparr>)"
| start: "ch_running c = None \<Longrightarrow> ch_waiting c = t # ts \<Longrightarrow>
    chain_step c (c\<lparr>ch_running := Some (snd t), ch_local := fst t, ch_waiting := ts\<rparr>)"
| segment: "ch_running c = Some (f # fs) \<Longrightarrow>
    chain_step c (c\<lparr>ch_running := Some fs, ch_state := fst (f (ch_state c, ch_local c)),
      ch_local := snd (f (ch_state c, ch_local c))\<rparr>)"
| settle: "ch_running c = Some [] \<Longrightarrow>
    chain_step c (c\<lparr>ch_running := None, ch_results := ch_results c @ [ch_local c]\<rparr>)"

inductive_cases chain_stepE: "chain_step c c'"

inductive chain_reachable :: "'s \<Rightarrow> 'l \<Rightarrow> ('s, 'l) chain \<Rightarrow> bool" for s l where
  chain_init: "chain_reachable s l (new_chain s l)"
| chain_next: "chain_reachable s l c \<Longrightarrow> chain_step c c' \<Longrightarrow> chain_reachable s l c'"

text \<open>What the chain will have done once it has run everything it holds.\<close>

definition completes :: "('s, 'l) chain \<Rightarrow> 's \<times> 'l list" where
  "completes c =
     (case (case ch_running c of
              None \<Rightarrow> (ch_state c, ch_results c)
            | Some segs \<Rightarrow> (case run_segments segs (ch_state c, ch_local c) of (s, l) \<Rightarrow> (s, ch_results c @ [l]))) of
        (s, ls) \<Rightarrow> (case serial (ch_waiting c) s of (s', ms) \<Rightarrow> (s', ls @ ms)))"

lemma completes_step:
  assumes "chain_step c c'" "completes c = serial (ch_issued c) s0"
  shows "completes c' = serial (ch_issued c') s0"
  using assms
proof cases
  case (call t)
  then show ?thesis using assms(2)
    by (auto simp: completes_def serial_append case_prod_beta split: option.splits dest: sym)
next
  case (segment f fs)
  then show ?thesis using assms(2) by (simp add: completes_def split: prod.splits)
qed (auto simp: completes_def split: prod.splits)

lemma completes_reachable: "chain_reachable s l c \<Longrightarrow> completes c = serial (ch_issued c) s"
proof (induction rule: chain_reachable.induct)
  case chain_init
  then show ?case by (simp add: completes_def new_chain_def)
qed (rule completes_step)

lemma chain_serial:
  assumes "chain_reachable s l c" "ch_running c = None" "ch_waiting c = []"
  shows "(ch_state c, ch_results c) = serial (ch_issued c) s"
  using completes_reachable [OF assms(1)] assms(2,3) by (simp add: completes_def)

text \<open>Left alone, the chain gets there: as long as something is left, a step is enabled that uses it up.\<close>

definition chain_work :: "('s, 'l) chain \<Rightarrow> nat" where
  "chain_work c = (case ch_running c of None \<Rightarrow> 0 | Some segs \<Rightarrow> 1 + length segs)
     + (\<Sum>t \<leftarrow> ch_waiting c. 2 + length (snd t))"

lemma chain_progress:
  assumes "ch_running c \<noteq> None \<or> ch_waiting c \<noteq> []"
  obtains c' where "chain_step c c'" "ch_issued c' = ch_issued c" "chain_work c' < chain_work c"
proof -
  consider (start) t ts where "ch_running c = None" "ch_waiting c = t # ts"
    | (seg) f fs where "ch_running c = Some (f # fs)" | (settle) "ch_running c = Some []"
    using assms by (metis list.exhaust option.exhaust)
  then show thesis
  proof cases
    case start
    from that [OF chain_step.start [OF start]] show thesis using start by (simp add: chain_work_def)
  next
    case seg
    from that [OF chain_step.segment [OF seg]] show thesis using seg by (simp add: chain_work_def)
  next
    case settle
    from that [OF chain_step.settle [OF settle]] show thesis using settle by (simp add: chain_work_def)
  qed
qed

lemma chain_drains:
  "chain_reachable s l c \<Longrightarrow>
     \<exists>c'. chain_reachable s l c' \<and> ch_running c' = None \<and> ch_waiting c' = [] \<and> ch_issued c' = ch_issued c"
proof (induction "chain_work c" arbitrary: c rule: less_induct)
  case less
  show ?case
  proof (cases "ch_running c = None \<and> ch_waiting c = []")
    case True
    then show ?thesis using less.prems by blast
  next
    case False
    then obtain c' where "chain_step c c'" "ch_issued c' = ch_issued c" "chain_work c' < chain_work c"
      using chain_progress [of c] by blast
    then show ?thesis using less chain_reachable.chain_next by metis
  qed
qed

lemma chain_issue: "\<exists>c. chain_reachable s l c \<and> ch_issued c = ts"
proof (induction ts rule: rev_induct)
  case Nil
  show ?case using chain_reachable.chain_init by (fastforce simp: new_chain_def)
next
  case (snoc t ts)
  then obtain c where "chain_reachable s l c" "ch_issued c = ts" by blast
  then show ?case using chain_reachable.chain_next [OF _ chain_step.call [of c t]] by fastforce
qed

text \<open>
  The contract a client needs of its tasks, and what the chain then gives it: an invariant that every
  task as a whole preserves holds whenever the chain is idle, although a task may break it halfway.
\<close>

locale locked_tasks =
  fixes ok_task :: "('s, 'l) task \<Rightarrow> bool"
    and I :: "'s \<Rightarrow> bool"
  assumes task_inv: "ok_task t \<Longrightarrow> I s \<Longrightarrow> I (fst (run_segments (snd t) (s, fst t)))"
begin

lemma serial_inv: "list_all ok_task ts \<Longrightarrow> I s \<Longrightarrow> I (fst (serial ts s))"
proof (induction ts arbitrary: s)
  case (Cons t ts)
  then have "I (fst (serial ts (fst (run_segments (snd t) (s, fst t)))))"
    using task_inv [of t s] by simp
  then show ?case by (simp add: case_prod_beta)
qed simp

lemma idle_inv:
  assumes "chain_reachable s l c" "ch_running c = None" "ch_waiting c = []" "list_all ok_task (ch_issued c)" "I s"
  shows "I (ch_state c)"
  using serial_inv [OF assms(4,5)] chain_serial [OF assms(1-3)] by (metis fst_conv)

end

section \<open>A mutex that does not exclude\<close>

text \<open>
  \<open>withAttestationLock\<close>: a call reads the current promise, waits for it, and only then installs its
  own. Promises are numbered; 0 is the resolved promise the module starts with and \<open>i + 1\<close> the one
  of call \<open>i\<close>.
\<close>

record attestation_lock =
  al_mutex :: nat
  al_resolved :: "nat list"
  al_waiting :: "(nat \<times> nat) list"
  al_running :: "nat list"

definition new_attestation_lock :: attestation_lock where
  "new_attestation_lock = \<lparr>al_mutex = 0, al_resolved = [0], al_waiting = [], al_running = []\<rparr>"

datatype lock_event = LockCall nat | LockAcquire nat | LockRelease nat

fun withAttestationLock :: "lock_event \<Rightarrow> attestation_lock \<Rightarrow> attestation_lock" where
  "withAttestationLock (LockCall i) m = m\<lparr>al_waiting := al_waiting m @ [(i, al_mutex m)]\<rparr>"
| "withAttestationLock (LockAcquire i) m =
     (case map_of (al_waiting m) i of
        Some p \<Rightarrow>
          if p \<in> set (al_resolved m) then
            m\<lparr>al_waiting := filter (\<lambda>w. fst w \<noteq> i) (al_waiting m), al_running := al_running m @ [i], al_mutex := i + 1\<rparr>
          else m
      | None \<Rightarrow> m)"
| "withAttestationLock (LockRelease i) m =
     (if i \<in> set (al_running m) then
        m\<lparr>al_running := removeAll i (al_running m), al_resolved := (i + 1) # al_resolved m\<rparr>
      else m)"

section \<open>Properties\<close>

text \<open>
  Every two calls that start to wait while the same holder has the attestation lock (or before
  anyone does) run at the same time: once the promise they wait for is resolved, both enter their
  critical sections, and neither waits for the other.
\<close>

theorem attestation_lock_not_exclusive:
  assumes "i \<noteq> j" "map_of (al_waiting m) i = Some p" "map_of (al_waiting m) j = Some p" "p \<in> set (al_resolved m)"
  shows "{i, j} \<subseteq> set (al_running (fold withAttestationLock [LockAcquire i, LockAcquire j] m))"
  using assms get_jsmap_delete [of i "al_waiting m"] by (simp add: jsmap_delete_def)

theorem attestation_lock_not_exclusive_witness:
  "{0, 1} \<subseteq> set (al_running (fold withAttestationLock [LockAcquire 0, LockAcquire 1]
     (fold withAttestationLock [LockCall 0, LockCall 1] new_attestation_lock)))"
  by (rule attestation_lock_not_exclusive [where p = 0]) (simp_all add: new_attestation_lock_def)

end
