(* ===== verification/DeviceRegistry.thy ===== *)
theory DeviceRegistry
  imports Storage Locks
begin

text \<open>
  The registry of paired phones, \<open>entrypoints/background/deviceRegistry.ts\<close>: an in-memory cache in
  front of session storage (with keys) and local storage (metadata only). The operations that write
  run under \<open>withRegistryLock\<close>; they are given both as whole functions and as the segments between
  their awaits.
\<close>

section \<open>Data\<close>

definition MAX_DEVICES :: nat where "MAX_DEVICES = 5"

definition MAX_DEVICE_LIMIT :: nat where "MAX_DEVICE_LIMIT = MAX_DEVICES"

record registry =
  cachedDevices :: "device_record list option"
  cachedActiveId :: "string option"
  reg_initialized :: bool
  reg_store :: storage

definition new_registry :: "storage \<Rightarrow> registry" where
  "new_registry s = \<lparr>cachedDevices = None, cachedActiveId = None, reg_initialized = False, reg_store = s\<rparr>"

definition deviceToSerializable :: "device_record \<Rightarrow> device_json" where
  "deviceToSerializable d = \<lparr>dj_deviceId = deviceId d, dj_name = dev_name d, dj_phoneStaticKey = Array_from (phoneStaticKey d),
     dj_lastSeen = lastSeen d, dj_pairedAt = pairedAt d, dj_isPrimary = isPrimary d\<rparr>"

definition deviceFromSerializable :: "device_json \<Rightarrow> device_record" where
  "deviceFromSerializable s = \<lparr>deviceId = dj_deviceId s, dev_name = dj_name s, phoneStaticKey = new_Uint8Array (dj_phoneStaticKey s),
     lastSeen = dj_lastSeen s, pairedAt = dj_pairedAt s, isPrimary = dj_isPrimary s\<rparr>"

definition toMeta :: "device_record \<Rightarrow> device_meta" where
  "toMeta d = \<lparr>dm_deviceId = deviceId d, dm_name = dev_name d, dm_lastSeen = lastSeen d, dm_pairedAt = pairedAt d,
     dm_isPrimary = isPrimary d\<rparr>"

definition fromMeta :: "device_meta \<Rightarrow> device_record" where
  "fromMeta m = \<lparr>deviceId = dm_deviceId m, dev_name = dm_name m, phoneStaticKey = [], lastSeen = dm_lastSeen m,
     pairedAt = dm_pairedAt m, isPrimary = dm_isPrimary m\<rparr>"

section \<open>Loading and persisting\<close>

definition loadFromStorage :: "registry \<Rightarrow> registry" where
  "loadFromStorage r =
     (case ss_devices (reg_store r) of
        Some (d # ds) \<Rightarrow>
          r\<lparr>cachedDevices := Some (map deviceFromSerializable (d # ds)), cachedActiveId := ss_activeDevice (reg_store r),
            reg_initialized := True\<rparr>
      | _ \<Rightarrow>
          (case ls_deviceMetadata (reg_store r) of
             Some (m # ms) \<Rightarrow>
               r\<lparr>cachedDevices := Some (map fromMeta (m # ms)), cachedActiveId := None, reg_initialized := True\<rparr>
           | _ \<Rightarrow> r\<lparr>cachedDevices := Some [], cachedActiveId := None, reg_initialized := True\<rparr>))"

definition ensureLoaded :: "registry \<Rightarrow> registry" where
  "ensureLoaded r = (if reg_initialized r then r else loadFromStorage r)"

text \<open>The devices after \<open>ensureLoaded\<close>, which the code reads as \<open>cachedDevices!\<close>.\<close>

definition devs :: "registry \<Rightarrow> device_record list" where
  "devs r = (case cachedDevices r of Some ds \<Rightarrow> ds | None \<Rightarrow> [])"

definition persist_session :: "device_record list \<Rightarrow> string option \<Rightarrow> registry \<Rightarrow> registry" where
  "persist_session devices activeId r =
     r\<lparr>reg_store := (reg_store r)\<lparr>ss_devices := Some (map deviceToSerializable devices), ss_activeDevice := activeId\<rparr>\<rparr>"

definition persist_local :: "device_record list \<Rightarrow> registry \<Rightarrow> registry" where
  "persist_local devices r = r\<lparr>reg_store := (reg_store r)\<lparr>ls_deviceMetadata := Some (map toMeta devices)\<rparr>\<rparr>"

definition persist :: "device_record list \<Rightarrow> string option \<Rightarrow> registry \<Rightarrow> registry" where
  "persist devices activeId r = persist_local devices (persist_session devices activeId r)"

section \<open>Operations\<close>

definition find_device :: "string \<Rightarrow> device_record list \<Rightarrow> device_record option" where
  "find_device devId ds = find (\<lambda>d. deviceId d = devId) ds"

text \<open>\<open>devices.map((d, i) => (i === existing ? record : d))\<close>, with \<open>existing\<close> the first match.\<close>

fun replace_first :: "device_record \<Rightarrow> device_record list \<Rightarrow> device_record list" where
  "replace_first rec [] = []"
| "replace_first rec (d # ds) = (if deviceId d = deviceId rec then rec # ds else d # replace_first rec ds)"

definition max_devices_error :: string where
  "max_devices_error = ''Maximum of 5 devices reached. Remove a device first.''"

definition not_found_error :: "string \<Rightarrow> string" where
  "not_found_error devId = ''Device '' @ devId @ '' not found''"

definition addDevice :: "device_record \<Rightarrow> registry \<Rightarrow> (string + unit) \<times> registry" where
  "addDevice rec r0 =
     (let r = ensureLoaded r0; devices = devs r in
      if length devices \<ge> MAX_DEVICES \<and> \<not> list_ex (\<lambda>d. deviceId d = deviceId rec) devices then (Inl max_devices_error, r)
      else
       (let newDevices = (if list_ex (\<lambda>d. deviceId d = deviceId rec) devices then replace_first rec devices else devices @ [rec])
        in (Inr (), (persist newDevices (cachedActiveId r) r)\<lparr>cachedDevices := Some newDevices\<rparr>)))"

definition next_active :: "string \<Rightarrow> device_record list \<Rightarrow> string option \<Rightarrow> string option" where
  "next_active devId newDevices active =
     (if active = Some devId then (case newDevices of [] \<Rightarrow> None | d # _ \<Rightarrow> Some (deviceId d)) else active)"

definition removeDevice :: "string \<Rightarrow> registry \<Rightarrow> (string + unit) \<times> registry" where
  "removeDevice devId r0 =
     (let r = ensureLoaded r0; devices = devs r in
      if \<not> list_ex (\<lambda>d. deviceId d = devId) devices then (Inl (not_found_error devId), r)
      else
       (let newDevices = filter (\<lambda>d. deviceId d \<noteq> devId) devices;
            newActiveId = next_active devId newDevices (cachedActiveId r)
        in (Inr (), (persist newDevices newActiveId r)\<lparr>cachedDevices := Some newDevices, cachedActiveId := newActiveId\<rparr>)))"

definition getDevice :: "string \<Rightarrow> registry \<Rightarrow> device_record option \<times> registry" where
  "getDevice devId r0 = (let r = ensureLoaded r0 in (find_device devId (devs r), r))"

definition listDevices :: "registry \<Rightarrow> device_record list \<times> registry" where
  "listDevices r0 = (let r = ensureLoaded r0 in (devs r, r))"

definition touch :: "string \<Rightarrow> millis \<Rightarrow> device_record list \<Rightarrow> device_record list" where
  "touch devId now devices = map (\<lambda>d. if deviceId d = devId then d\<lparr>lastSeen := now\<rparr> else d) devices"

definition setActiveDevice :: "millis \<Rightarrow> string \<Rightarrow> registry \<Rightarrow> (string + unit) \<times> registry" where
  "setActiveDevice now devId r0 =
     (let r = ensureLoaded r0; devices = devs r in
      case find_device devId devices of
        None \<Rightarrow> (Inl (not_found_error devId), r)
      | Some _ \<Rightarrow>
          (let newDevices = touch devId now devices
           in (Inr (), (persist newDevices (Some devId) r)\<lparr>cachedDevices := Some newDevices, cachedActiveId := Some devId\<rparr>)))"

definition getActiveDevice :: "registry \<Rightarrow> device_record option \<times> registry" where
  "getActiveDevice r0 =
     (let r = ensureLoaded r0 in
      (case cachedActiveId r of
         None \<Rightarrow> (None, r)
       | Some a \<Rightarrow> if a = [] then (None, r) else (find_device a (devs r), r)))"

definition getActiveDeviceId :: "registry \<Rightarrow> string option \<times> registry" where
  "getActiveDeviceId r0 = (let r = ensureLoaded r0 in (cachedActiveId r, r))"

definition updateDeviceLastSeen :: "millis \<Rightarrow> string \<Rightarrow> registry \<Rightarrow> registry" where
  "updateDeviceLastSeen now devId r0 =
     (let r = ensureLoaded r0; devices = devs r in
      case find_device devId devices of
        None \<Rightarrow> r
      | Some _ \<Rightarrow>
          (let newDevices = touch devId now devices
           in (persist newDevices (cachedActiveId r) r)\<lparr>cachedDevices := Some newDevices\<rparr>))"

definition reconcileDeviceRegistry :: "registry \<Rightarrow> registry" where
  "reconcileDeviceRegistry r = loadFromStorage (r\<lparr>reg_initialized := False, cachedDevices := None, cachedActiveId := None\<rparr>)"

definition getDeviceCount :: "registry \<Rightarrow> nat \<times> registry" where
  "getDeviceCount r0 = (let r = ensureLoaded r0 in (length (devs r), r))"

definition canAddDevice :: "registry \<Rightarrow> bool \<times> registry" where
  "canAddDevice r0 = (let r = ensureLoaded r0 in (length (devs r) < MAX_DEVICES, r))"

text \<open>
  Revocation replaces the stored pairing by a fresh local key and no phone key. The key pair is the
  one \<open>generateKeyPair\<close> returns.
\<close>

definition revokeDevice :: "noise_keypair \<Rightarrow> millis \<Rightarrow> string \<Rightarrow> registry \<Rightarrow> (string + unit) \<times> registry" where
  "revokeDevice newKeyPair now devId r0 =
     (let r = ensureLoaded r0; devices = devs r in
      case find_device devId devices of
        None \<Rightarrow> (Inl (not_found_error devId), r)
      | Some _ \<Rightarrow>
          (let r1 = r\<lparr>reg_store := (reg_store r)\<lparr>ss_pairing := Some \<lparr>cp_localStaticKey = serializeKeyPair newKeyPair,
                 cp_remoteStaticPublicKey = [], cp_handshakePattern = XX, cp_pairedAt = now\<rparr>\<rparr>\<rparr>;
               newDevices = filter (\<lambda>d. deviceId d \<noteq> devId) devices;
               newActiveId = next_active devId newDevices (cachedActiveId r);
               r2 = persist newDevices newActiveId r1;
               r3 = r2\<lparr>reg_store := (reg_store r2)\<lparr>ss_cmdClient := False\<rparr>\<rparr>
           in (Inr (), r3\<lparr>cachedDevices := Some newDevices, cachedActiveId := newActiveId\<rparr>)))"

text \<open>
  The broadcast: the signaling server if one is configured (\<open>post\<close> is whether its answer is ok,
  \<open>None\<close> when it cannot be reached), else the data channel. \<open>True\<close> when one of them took it,
  \<open>False\<close> when the function throws.
\<close>

definition broadcastRevocation ::
  "string option \<Rightarrow> (string \<Rightarrow> string \<Rightarrow> bool option) \<Rightarrow> (string \<Rightarrow> bool) \<Rightarrow> string \<Rightarrow> bool" where
  "broadcastRevocation signalingUrl post webrtcSend devId =
     (case signalingUrl of
        Some url \<Rightarrow> if url \<noteq> [] \<and> post (url @ ''/revoke'') devId = Some True then True else webrtcSend devId
      | None \<Rightarrow> webrtcSend devId)"

definition cacheRevocationForLater :: "string \<Rightarrow> storage \<Rightarrow> storage" where
  "cacheRevocationForLater devId s =
     (let pending = nullish (ls_pendingRevocations s) [] in
      if devId \<in> set pending then s else s\<lparr>ls_pendingRevocations := Some (pending @ [devId])\<rparr>)"

text \<open>What follows the revocation itself: the broadcast, cached for later if it fails.\<close>

definition announceRevocation :: "(string \<Rightarrow> bool) \<Rightarrow> string \<Rightarrow> storage \<Rightarrow> storage" where
  "announceRevocation broadcast devId s = (if broadcast devId then s else cacheRevocationForLater devId s)"

definition flushPendingRevocations :: "(string \<Rightarrow> bool) \<Rightarrow> storage \<Rightarrow> string list \<times> storage" where
  "flushPendingRevocations broadcast s =
     (let pending = nullish (ls_pendingRevocations s) [] in
      if pending = [] then ([], s)
      else
       (let succeeded = takeWhile broadcast pending in
        if succeeded = [] then ([], s)
        else (succeeded, s\<lparr>ls_pendingRevocations := Some (filter (\<lambda>i. i \<notin> set succeeded) pending)\<rparr>)))"

section \<open>Names\<close>

definition is_trim_space :: "char \<Rightarrow> bool" where
  "is_trim_space c \<longleftrightarrow> (of_char c :: nat) \<in> {9, 10, 11, 12, 13, 32, 160}"

definition js_trim :: "string \<Rightarrow> string" where
  "js_trim s = rev (dropWhile is_trim_space (rev (dropWhile is_trim_space s)))"

text \<open>The counting loops: \<open>while (names.has(pre + counter + suf)) counter++\<close>.\<close>

definition numbered :: "string \<Rightarrow> string \<Rightarrow> nat \<Rightarrow> string" where
  "numbered pre suf n = pre @ show_nat n @ suf"

lemma numbered_inject [simp]: "numbered pre suf m = numbered pre suf n \<longleftrightarrow> m = n"
  by (simp add: numbered_def)

lemma finite_numbered: "finite {k. numbered pre suf k \<in> set names}"
proof -
  have "inj (numbered pre suf)" by (simp add: inj_def)
  then show ?thesis using finite_vimageI [of "set names" "numbered pre suf"] by (simp add: vimage_def)
qed

function next_free :: "string \<Rightarrow> string \<Rightarrow> string list \<Rightarrow> nat \<Rightarrow> nat" where
  "next_free pre suf names counter =
     (if numbered pre suf counter \<in> set names then next_free pre suf names (counter + 1) else counter)"
  by pat_completeness auto

termination
proof (relation "measure (\<lambda>(pre, suf, names, c). card {k. c \<le> k \<and> numbered pre suf k \<in> set names})")
  fix pre suf names c
  assume c: "numbered pre suf c \<in> set names"
  let ?S = "\<lambda>c. {k. c \<le> k \<and> numbered pre suf k \<in> set names}"
  have "?S (c + 1) \<subseteq> ?S c" by (auto intro: Suc_leD)
  moreover have "c \<in> ?S c - ?S (c + 1)" using c by auto
  ultimately have "?S (c + 1) \<subset> ?S c" by blast
  moreover have "finite (?S c)" by (rule finite_subset [OF _ finite_numbered]) auto
  ultimately have "card (?S (c + 1)) < card (?S c)" by (rule psubset_card_mono [rotated])
  then show "((pre, suf, names, c + 1), pre, suf, names, c)
      \<in> measure (\<lambda>(pre, suf, names, c). card {k. c \<le> k \<and> numbered pre suf k \<in> set names})"
    by simp
qed simp

declare next_free.simps [simp del]

lemma next_free_fresh: "numbered pre suf (next_free pre suf names c) \<notin> set names"
  by (induction pre suf names c rule: next_free.induct) (subst next_free.simps, simp)

lemma next_free_least:
  "c \<le> next_free pre suf names c \<and> (\<forall>k. c \<le> k \<longrightarrow> k < next_free pre suf names c \<longrightarrow> numbered pre suf k \<in> set names)"
proof (induction pre suf names c rule: next_free.induct)
  case (1 pre suf names c)
  show ?case
  proof (cases "numbered pre suf c \<in> set names")
    case True
    then have e: "next_free pre suf names c = next_free pre suf names (c + 1)" by (subst next_free.simps) simp
    show ?thesis using 1 [OF True] True unfolding e by (metis Suc_eq_plus1 Suc_leD Suc_leI le_neq_implies_less)
  next
    case False
    then have "next_free pre suf names c = c" by (subst next_free.simps) simp
    then show ?thesis by simp
  qed
qed

definition resolveDeviceName :: "string option \<Rightarrow> registry \<Rightarrow> string \<times> registry" where
  "resolveDeviceName phoneName r0 =
     (let r = ensureLoaded r0; devices = devs r; names = map dev_name devices;
          numberedPhone = numbered ''Phone '' [] (next_free ''Phone '' [] names (length devices + 1)) in
      case phoneName of
        Some p \<Rightarrow>
          if js_trim p \<noteq> [] then
           (let trimmed = js_trim p in
            if trimmed \<notin> set names then (trimmed, r)
            else (numbered (trimmed @ '' ('') '')'' (next_free (trimmed @ '' ('') '')'' names 2), r))
          else (numberedPhone, r)
      | None \<Rightarrow> (numberedPhone, r))"

section \<open>The writing operations as one, and as segments\<close>

datatype reg_op =
    OpAdd device_record
  | OpRemove string
  | OpSetActive millis string
  | OpTouch millis string
  | OpRevoke noise_keypair millis string

fun reg_exec :: "reg_op \<Rightarrow> registry \<Rightarrow> (string + unit) \<times> registry" where
  "reg_exec (OpAdd rec) r = addDevice rec r"
| "reg_exec (OpRemove devId) r = removeDevice devId r"
| "reg_exec (OpSetActive now devId) r = setActiveDevice now devId r"
| "reg_exec (OpTouch now devId) r = (Inr (), updateDeviceLastSeen now devId r)"
| "reg_exec (OpRevoke kp now devId) r = revokeDevice kp now devId r"

text \<open>What an operation will write: \<open>Inl\<close> when it returns or throws before any write.\<close>

fun reg_plan :: "reg_op \<Rightarrow> registry \<Rightarrow> (string + unit) + (device_record list \<times> string option)" where
  "reg_plan (OpAdd rec) r =
     (if length (devs r) \<ge> MAX_DEVICES \<and> \<not> list_ex (\<lambda>d. deviceId d = deviceId rec) (devs r) then Inl (Inl max_devices_error)
      else Inr (if list_ex (\<lambda>d. deviceId d = deviceId rec) (devs r) then replace_first rec (devs r) else devs r @ [rec],
                cachedActiveId r))"
| "reg_plan (OpRemove devId) r =
     (if \<not> list_ex (\<lambda>d. deviceId d = devId) (devs r) then Inl (Inl (not_found_error devId))
      else let ds = filter (\<lambda>d. deviceId d \<noteq> devId) (devs r) in Inr (ds, next_active devId ds (cachedActiveId r)))"
| "reg_plan (OpSetActive now devId) r =
     (case find_device devId (devs r) of
        None \<Rightarrow> Inl (Inl (not_found_error devId)) | Some _ \<Rightarrow> Inr (touch devId now (devs r), Some devId))"
| "reg_plan (OpTouch now devId) r =
     (case find_device devId (devs r) of
        None \<Rightarrow> Inl (Inr ()) | Some _ \<Rightarrow> Inr (touch devId now (devs r), cachedActiveId r))"
| "reg_plan (OpRevoke kp now devId) r =
     (case find_device devId (devs r) of
        None \<Rightarrow> Inl (Inl (not_found_error devId))
      | Some _ \<Rightarrow> let ds = filter (\<lambda>d. deviceId d \<noteq> devId) (devs r) in Inr (ds, next_active devId ds (cachedActiveId r)))"

record reg_local =
  rl_plan :: "(device_record list \<times> string option) option"
  rl_result :: "(string + unit) option"

definition reg_local0 :: reg_local where
  "reg_local0 = \<lparr>rl_plan = None, rl_result = None\<rparr>"

text \<open>
  The segments: loading; deciding what to write, and for a revocation the new pairing; the write to
  session storage; the write to local storage; for a revocation the removal of the command client;
  and the assignment of the cache.
\<close>

definition when_planned :: "(device_record list \<times> string option \<Rightarrow> registry \<Rightarrow> registry) \<Rightarrow> (registry, reg_local) segment" where
  "when_planned f = (\<lambda>(r, l). (case rl_plan l of None \<Rightarrow> r | Some p \<Rightarrow> f p r, l))"

definition reg_segments :: "reg_op \<Rightarrow> (registry, reg_local) segment list" where
  "reg_segments op =
     [\<lambda>(r, l). (ensureLoaded r, l),
      \<lambda>(r, l). (case reg_plan op r of
          Inl res \<Rightarrow> (r, l\<lparr>rl_result := Some res\<rparr>)
        | Inr p \<Rightarrow>
            (case op of
               OpRevoke kp now devId \<Rightarrow> r\<lparr>reg_store := (reg_store r)\<lparr>ss_pairing := Some \<lparr>cp_localStaticKey = serializeKeyPair kp,
                 cp_remoteStaticPublicKey = [], cp_handshakePattern = XX, cp_pairedAt = now\<rparr>\<rparr>\<rparr>
             | _ \<Rightarrow> r, l\<lparr>rl_plan := Some p\<rparr>)),
      when_planned (\<lambda>p r. persist_session (fst p) (snd p) r),
      when_planned (\<lambda>p r. persist_local (fst p) r),
      when_planned (\<lambda>p r. case op of OpRevoke kp now devId \<Rightarrow> r\<lparr>reg_store := (reg_store r)\<lparr>ss_cmdClient := False\<rparr>\<rparr> | _ \<Rightarrow> r),
      \<lambda>(r, l). (case rl_plan l of
          None \<Rightarrow> (r, l)
        | Some p \<Rightarrow> (r\<lparr>cachedDevices := Some (fst p), cachedActiveId := snd p\<rparr>, l\<lparr>rl_result := Some (Inr ())\<rparr>))]"

lemma run_reg_segments:
  "case run_segments (reg_segments op) (r, reg_local0) of (r', l') \<Rightarrow> rl_result l' = Some (fst (reg_exec op r)) \<and> r' = snd (reg_exec op r)"
proof (cases op)
  case (OpAdd rec)
  then show ?thesis
    by (simp add: reg_segments_def reg_local0_def when_planned_def addDevice_def Let_def persist_def persist_session_def
        persist_local_def)
next
  case (OpRemove devId)
  then show ?thesis
    by (simp add: reg_segments_def reg_local0_def when_planned_def removeDevice_def Let_def persist_def persist_session_def
        persist_local_def)
next
  case (OpSetActive now devId)
  then show ?thesis
    by (simp add: reg_segments_def reg_local0_def when_planned_def setActiveDevice_def Let_def persist_def persist_session_def
        persist_local_def split: option.splits)
next
  case (OpTouch now devId)
  then show ?thesis
    by (simp add: reg_segments_def reg_local0_def when_planned_def updateDeviceLastSeen_def Let_def persist_def
        persist_session_def persist_local_def split: option.splits)
next
  case (OpRevoke kp now devId)
  then show ?thesis
    by (simp add: reg_segments_def reg_local0_def when_planned_def revokeDevice_def Let_def persist_def
        persist_session_def persist_local_def split: option.splits)
qed

section \<open>The abstract registry\<close>

text \<open>
  What the registry promises, without cache and storage: a list of devices with distinct identifiers,
  at most five, and the active one among them.
\<close>

type_synonym registry_spec = "device_record list \<times> string option"

definition spec_ok :: "registry_spec \<Rightarrow> bool" where
  "spec_ok p \<longleftrightarrow> length (fst p) \<le> MAX_DEVICES \<and> distinct (map deviceId (fst p))
     \<and> (\<forall>a. snd p = Some a \<longrightarrow> a \<in> deviceId ` set (fst p))"

definition spec_remove :: "string \<Rightarrow> registry_spec \<Rightarrow> (string + unit) \<times> registry_spec" where
  "spec_remove devId p =
     (if devId \<notin> deviceId ` set (fst p) then (Inl (not_found_error devId), p)
      else let ds = filter (\<lambda>d. deviceId d \<noteq> devId) (fst p)
           in (Inr (), (ds, if snd p = Some devId then map_option deviceId (item_at ds 0) else snd p)))"

fun spec_exec :: "reg_op \<Rightarrow> registry_spec \<Rightarrow> (string + unit) \<times> registry_spec" where
  "spec_exec (OpAdd rec) p =
     (if deviceId rec \<in> deviceId ` set (fst p) then
        (Inr (), (map (\<lambda>d. if deviceId d = deviceId rec then rec else d) (fst p), snd p))
      else if length (fst p) < MAX_DEVICES then (Inr (), (fst p @ [rec], snd p))
      else (Inl max_devices_error, p))"
| "spec_exec (OpRemove devId) p = spec_remove devId p"
| "spec_exec (OpSetActive now devId) p =
     (if devId \<in> deviceId ` set (fst p) then (Inr (), (touch devId now (fst p), Some devId))
      else (Inl (not_found_error devId), p))"
| "spec_exec (OpTouch now devId) p = (Inr (), (touch devId now (fst p), snd p))"
| "spec_exec (OpRevoke kp now devId) p = spec_remove devId p"

definition abs_registry :: "registry \<Rightarrow> registry_spec" where
  "abs_registry r = (devs (ensureLoaded r), cachedActiveId (ensureLoaded r))"

text \<open>Cache and storage agree: loading again would give the same, and the metadata is that of the devices.\<close>

definition coherent :: "registry \<Rightarrow> bool" where
  "coherent r \<longleftrightarrow> (reg_initialized r \<longrightarrow> cachedDevices r \<noteq> None \<and> devs (loadFromStorage r) = devs r
       \<and> cachedActiveId (loadFromStorage r) = cachedActiveId r)
     \<and> nullish (ls_deviceMetadata (reg_store r)) [] = map toMeta (fst (abs_registry r))"

section \<open>Lemmas\<close>

lemma device_serializable_roundtrip [simp]: "deviceFromSerializable (deviceToSerializable d) = d"
  by (simp add: deviceFromSerializable_def deviceToSerializable_def)

lemma deviceId_touch [simp]: "map deviceId (touch devId now ds) = map deviceId ds"
  by (simp add: touch_def)

lemma length_touch [simp]: "length (touch devId now ds) = length ds"
  by (simp add: touch_def)

lemma image_deviceId_touch [simp]: "deviceId ` set (touch devId now ds) = deviceId ` set ds"
  by (metis deviceId_touch list.set_map)

lemma touch_absent: "devId \<notin> deviceId ` set ds \<Longrightarrow> touch devId now ds = ds"
  unfolding touch_def by (induction ds) auto

lemma list_ex_deviceId: "list_ex (\<lambda>d. deviceId d = k) ds \<longleftrightarrow> k \<in> deviceId ` set ds"
  by (auto simp: list_ex_iff)

lemma find_device_None_iff: "find_device k ds = None \<longleftrightarrow> k \<notin> deviceId ` set ds"
  by (simp add: find_device_def find_key_None_iff)

lemma replace_first_map:
  "distinct (map deviceId ds) \<Longrightarrow> replace_first rec ds = map (\<lambda>d. if deviceId d = deviceId rec then rec else d) ds"
proof (induction ds)
  case (Cons d ds)
  have "map (\<lambda>d. if deviceId d = deviceId rec then rec else d) ds = ds" if "deviceId rec \<notin> deviceId ` set ds"
    using that by (induction ds) auto
  then show ?case using Cons by (cases "deviceId d = deviceId rec") auto
qed simp

lemma next_active_item: "next_active k ds a = (if a = Some k then map_option deviceId (item_at ds 0) else a)"
  by (cases ds) (simp_all add: next_active_def)

lemma ensureLoaded_initialized [simp]: "reg_initialized (ensureLoaded r)"
  by (auto simp: ensureLoaded_def loadFromStorage_def split: option.splits list.splits)

lemma loadFromStorage_initialized [simp]: "reg_initialized (loadFromStorage r)"
  by (auto simp: loadFromStorage_def split: option.splits list.splits)

lemma reg_store_ensureLoaded [simp]: "reg_store (ensureLoaded r) = reg_store r"
  by (auto simp: ensureLoaded_def loadFromStorage_def split: option.splits list.splits)

lemma cachedDevices_ensureLoaded: "\<not> reg_initialized r \<Longrightarrow> cachedDevices (ensureLoaded r) \<noteq> None"
  by (auto simp: ensureLoaded_def loadFromStorage_def split: option.splits list.splits)

lemma load_depends_on_store:
  "reg_store r = reg_store r' \<Longrightarrow> devs (loadFromStorage r) = devs (loadFromStorage r')
     \<and> cachedActiveId (loadFromStorage r) = cachedActiveId (loadFromStorage r')"
  by (auto simp: loadFromStorage_def devs_def split: option.splits list.splits)

lemma abs_of_initialized: "reg_initialized r \<Longrightarrow> abs_registry r = (devs r, cachedActiveId r)"
  by (simp add: abs_registry_def ensureLoaded_def)

text \<open>A coherent registry loads the same from its storage, whatever became of its memory.\<close>

lemma abs_from_store:
  assumes "coherent r" "\<not> reg_initialized r'" "reg_store r' = reg_store r"
  shows "abs_registry r' = abs_registry r"
  using assms load_depends_on_store [of r' r]
  by (cases "reg_initialized r") (auto simp: abs_registry_def ensureLoaded_def coherent_def)

text \<open>A written plan is what the registry then stands for, and it is coherent.\<close>

definition commit :: "device_record list \<times> string option \<Rightarrow> registry \<Rightarrow> registry" where
  "commit p r = (persist (fst p) (snd p) r)\<lparr>cachedDevices := Some (fst p), cachedActiveId := snd p\<rparr>"

lemma load_persisted:
  assumes "ss_devices (reg_store r) = Some (map deviceToSerializable ds)" "ss_activeDevice (reg_store r) = a"
    and "ls_deviceMetadata (reg_store r) = Some (map toMeta ds)" "ds = [] \<longrightarrow> a = None"
  shows "devs (loadFromStorage r) = ds \<and> cachedActiveId (loadFromStorage r) = a"
  using assms by (cases ds) (auto simp: loadFromStorage_def devs_def comp_def)

lemma commit_coherent:
  assumes "reg_initialized r" "spec_ok p"
    and "ss_devices (reg_store r') = ss_devices (reg_store (commit p r))"
    and "ss_activeDevice (reg_store r') = snd p" "ls_deviceMetadata (reg_store r') = Some (map toMeta (fst p))"
    and "cachedDevices r' = Some (fst p)" "cachedActiveId r' = snd p" "reg_initialized r'"
  shows "coherent r' \<and> abs_registry r' = p"
proof -
  have "fst p = [] \<longrightarrow> snd p = None" using assms(2) by (cases "snd p") (auto simp: spec_ok_def)
  moreover have "ss_devices (reg_store r') = Some (map deviceToSerializable (fst p))"
    using assms(3) by (simp add: commit_def persist_def persist_session_def persist_local_def)
  ultimately have "devs (loadFromStorage r') = fst p" "cachedActiveId (loadFromStorage r') = snd p"
    using load_persisted [of r' "fst p" "snd p"] assms by auto
  then show ?thesis using assms by (simp add: coherent_def abs_of_initialized devs_def)
qed

text \<open>Every operation either stops with the registry as loaded, or commits its plan (a revocation also touches the pairing keys).\<close>

definition after_plan :: "reg_op \<Rightarrow> registry \<Rightarrow> registry \<Rightarrow> bool" where
  "after_plan op r r' \<longleftrightarrow> (case reg_plan op r of
       Inl _ \<Rightarrow> r' = r
     | Inr p \<Rightarrow> ss_devices (reg_store r') = ss_devices (reg_store (commit p r)) \<and> ss_activeDevice (reg_store r') = snd p
         \<and> ls_deviceMetadata (reg_store r') = Some (map toMeta (fst p)) \<and> cachedDevices r' = Some (fst p)
         \<and> cachedActiveId r' = snd p \<and> reg_initialized r' = reg_initialized r)"

lemmas registry_writes = persist_def persist_session_def persist_local_def commit_def

lemma reg_exec_plan:
  "fst (reg_exec op r) = (case reg_plan op (ensureLoaded r) of Inl res \<Rightarrow> res | Inr _ \<Rightarrow> Inr ())
   \<and> after_plan op (ensureLoaded r) (snd (reg_exec op r))"
proof (cases op)
  case (OpAdd rec)
  then show ?thesis by (simp add: addDevice_def after_plan_def registry_writes Let_def)
next
  case (OpRemove devId)
  then show ?thesis by (simp add: removeDevice_def after_plan_def registry_writes Let_def)
next
  case (OpSetActive now devId)
  then show ?thesis by (simp add: setActiveDevice_def after_plan_def registry_writes Let_def split: option.splits)
next
  case (OpTouch now devId)
  then show ?thesis by (simp add: updateDeviceLastSeen_def after_plan_def registry_writes Let_def split: option.splits)
next
  case (OpRevoke kp now devId)
  then show ?thesis by (simp add: revokeDevice_def after_plan_def registry_writes Let_def split: option.splits)
qed

lemma spec_exec_plan:
  assumes "distinct (map deviceId (devs r))"
  shows "spec_exec op (devs r, cachedActiveId r) =
     (case reg_plan op r of Inl res \<Rightarrow> (res, (devs r, cachedActiveId r)) | Inr p \<Rightarrow> (Inr (), p))"
proof (cases op)
  case (OpAdd rec)
  then show ?thesis using replace_first_map [OF assms, of rec] by (auto simp: list_ex_deviceId)
next
  case (OpRemove devId)
  then show ?thesis by (simp add: list_ex_deviceId spec_remove_def next_active_item Let_def)
next
  case (OpSetActive now devId)
  then show ?thesis using find_device_None_iff [of devId "devs r"] by (cases "find_device devId (devs r)") auto
next
  case (OpTouch now devId)
  then show ?thesis using find_device_None_iff [of devId "devs r"] touch_absent [of devId "devs r" now]
    by (cases "find_device devId (devs r)") auto
next
  case (OpRevoke kp now devId)
  then show ?thesis using find_device_None_iff [of devId "devs r"]
    by (cases "find_device devId (devs r)") (auto simp: spec_remove_def next_active_item Let_def)
qed

lemma spec_ok_remove: "spec_ok p \<Longrightarrow> spec_ok (snd (spec_remove devId p))"
proof -
  assume ok: "spec_ok p"
  have "length (filter (\<lambda>d. deviceId d \<noteq> devId) (fst p)) \<le> MAX_DEVICES"
    using ok unfolding spec_ok_def by (meson length_filter_le order_trans)
  moreover have "distinct (map deviceId (filter (\<lambda>d. deviceId d \<noteq> devId) (fst p)))"
    using ok by (simp add: spec_ok_def distinct_map_filter_keys)
  moreover define ds where "ds = filter (\<lambda>d. deviceId d \<noteq> devId) (fst p)"
  moreover have "a \<in> deviceId ` set ds" if "map_option deviceId (item_at ds 0) = Some a" for a
    using that by (auto simp: item_at_Some_iff)
  moreover have "a \<in> deviceId ` set ds" if "snd p = Some a" "a \<noteq> devId" for a
    using that ok by (auto simp: spec_ok_def ds_def)
  ultimately show ?thesis
    using ok by (auto simp: spec_ok_def spec_remove_def Let_def)
qed

lemma spec_ok_exec: "spec_ok p \<Longrightarrow> spec_ok (snd (spec_exec op p))"
proof (cases op)
  case (OpAdd rec)
  assume ok: "spec_ok p"
  let ?ds = "map (\<lambda>d. if deviceId d = deviceId rec then rec else d) (fst p)"
  have "map deviceId ?ds = map deviceId (fst p)" by simp
  then have "distinct (map deviceId ?ds)" "deviceId ` set ?ds = deviceId ` set (fst p)"
    using ok unfolding spec_ok_def by (metis, metis list.set_map)
  then show ?thesis using ok OpAdd by (auto simp: spec_ok_def simp del: map_map)
qed (auto simp: spec_ok_remove, auto simp: spec_ok_def)

lemma registry_step:
  assumes "coherent r" "spec_ok (abs_registry r)"
  shows "spec_exec op (abs_registry r) = (fst (reg_exec op r), abs_registry (snd (reg_exec op r)))
    \<and> coherent (snd (reg_exec op r)) \<and> spec_ok (abs_registry (snd (reg_exec op r)))"
proof -
  define r1 where "r1 = ensureLoaded r"
  have init: "reg_initialized r1" and abs: "abs_registry r = (devs r1, cachedActiveId r1)"
    by (simp_all add: r1_def abs_registry_def)
  have abs1: "abs_registry r1 = abs_registry r" using init abs by (simp add: abs_of_initialized)
  have coh1: "coherent r1"
  proof (cases "reg_initialized r")
    case True
    then show ?thesis using assms(1) by (simp add: r1_def ensureLoaded_def)
  next
    case False
    then have "devs (loadFromStorage r1) = devs r1" "cachedActiveId (loadFromStorage r1) = cachedActiveId r1"
      using load_depends_on_store [of r1 r] by (auto simp: r1_def ensureLoaded_def loadFromStorage_def split: option.splits list.splits)
    then show ?thesis using assms(1) False cachedDevices_ensureLoaded [of r] abs1
      by (simp add: coherent_def) (simp add: r1_def)
  qed
  have d: "distinct (map deviceId (devs r1))" using assms(2) by (simp add: abs spec_ok_def)
  note plan = reg_exec_plan [of op r, folded r1_def] and spec = spec_exec_plan [OF d, of op]
  have ok: "spec_ok (snd (spec_exec op (abs_registry r)))" by (rule spec_ok_exec [OF assms(2)])
  show ?thesis
  proof (cases "reg_plan op r1")
    case (Inl res)
    then show ?thesis using plan spec coh1 abs1 assms(2) abs by (simp add: after_plan_def)
  next
    case (Inr p)
    then have "coherent (snd (reg_exec op r)) \<and> abs_registry (snd (reg_exec op r)) = p"
      using plan spec ok init abs by (intro commit_coherent [of r1 p]) (simp_all add: after_plan_def)
    then show ?thesis using plan spec ok Inr abs by simp
  qed
qed

text \<open>Restarting the browser keeps the list and loses the keys and the choice of the active device.\<close>

lemma abs_browser_restart:
  assumes "coherent r"
  shows "abs_registry (new_registry (browser_restart (reg_store r))) =
    (map (\<lambda>d. d\<lparr>phoneStaticKey := []\<rparr>) (fst (abs_registry r)), None)"
proof -
  define ds where "ds = fst (abs_registry r)"
  have "nullish (ls_deviceMetadata (reg_store r)) [] = map toMeta ds"
    using assms by (simp add: coherent_def ds_def)
  moreover have "fromMeta (toMeta d) = d\<lparr>phoneStaticKey := []\<rparr>" for d by (simp add: fromMeta_def toMeta_def)
  ultimately have "abs_registry (new_registry (browser_restart (reg_store r))) = (map (\<lambda>d. d\<lparr>phoneStaticKey := []\<rparr>) ds, None)"
    by (cases "ls_deviceMetadata (reg_store r)"; cases ds)
      (auto simp: abs_registry_def ensureLoaded_def loadFromStorage_def new_registry_def browser_restart_def empty_storage_def
        devs_def comp_def split: list.splits)
  then show ?thesis by (simp add: ds_def)
qed

lemma new_registry_ok: "coherent (new_registry empty_storage) \<and> spec_ok (abs_registry (new_registry empty_storage))"
  by (simp add: coherent_def spec_ok_def abs_registry_def ensureLoaded_def loadFromStorage_def new_registry_def
      empty_storage_def devs_def)

section \<open>The registry under its lock\<close>

definition reg_task :: "reg_op \<Rightarrow> (registry, reg_local) task" where
  "reg_task op = (reg_local0, reg_segments op)"

definition registry_good :: "registry \<Rightarrow> bool" where
  "registry_good r \<longleftrightarrow> coherent r \<and> spec_ok (abs_registry r)"

lemma run_reg_task: "fst (run_segments (snd (reg_task op)) (r, fst (reg_task op))) = snd (reg_exec op r)"
  using run_reg_segments [of op r] by (simp add: reg_task_def case_prod_beta)

interpretation registry_lock: locked_tasks "\<lambda>t. \<exists>op. t = reg_task op" registry_good
  by unfold_locales (auto simp: run_reg_task registry_good_def registry_step)

section \<open>Properties\<close>

text \<open>
  C3: The registry refines its abstract specification. From a coherent registry with at most five
  distinct devices, every writing operation (add, remove, activate, touch, revoke) returns what the
  specification returns, error messages included, and leaves a coherent registry that stands for the
  specified list and active device, again within the limit, with distinct identifiers and the active
  device among them. What it stands for is also what a restarted service worker loads from storage.
\<close>

theorem registry_refines_spec:
  assumes "coherent r" "spec_ok (abs_registry r)" "reg_exec op r = (res, r')"
  shows "spec_exec op (abs_registry r) = (res, abs_registry r') \<and> coherent r' \<and> spec_ok (abs_registry r')
    \<and> abs_registry (new_registry (reg_store r')) = abs_registry r'
    \<and> abs_registry (reconcileDeviceRegistry r') = abs_registry r'"
proof -
  have step: "spec_exec op (abs_registry r) = (res, abs_registry r') \<and> coherent r' \<and> spec_ok (abs_registry r')"
    using registry_step [OF assms(1,2), of op] assms(3) by simp
  have "abs_registry (reconcileDeviceRegistry r') = abs_registry (new_registry (reg_store r'))"
    using load_depends_on_store
      [of "r'\<lparr>reg_initialized := False, cachedDevices := None, cachedActiveId := None\<rparr>" "new_registry (reg_store r')"]
    by (simp add: reconcileDeviceRegistry_def abs_of_initialized) (simp add: abs_registry_def ensureLoaded_def new_registry_def)
  then show ?thesis using step abs_from_store [of r' "new_registry (reg_store r')"] by (simp add: new_registry_def)
qed

definition phone :: "nat \<Rightarrow> device_record" where
  "phone n = \<lparr>deviceId = show_nat n, dev_name = ''Phone'', phoneStaticKey = [1, 2], lastSeen = 0, pairedAt = 0, isPrimary = False\<rparr>"

theorem registry_refines_spec_witness:
  "spec_exec (OpAdd (phone 1)) (abs_registry (new_registry empty_storage))
     = (Inr (), abs_registry (snd (reg_exec (OpAdd (phone 1)) (new_registry empty_storage))))
   \<and> spec_ok (abs_registry (snd (reg_exec (OpAdd (phone 1)) (new_registry empty_storage))))"
proof -
  obtain res r' where e: "reg_exec (OpAdd (phone 1)) (new_registry empty_storage) = (res, r')"
    by (cases "reg_exec (OpAdd (phone 1)) (new_registry empty_storage)")
  have "res = Inr ()"
    using e by (auto simp: addDevice_def Let_def ensureLoaded_def loadFromStorage_def new_registry_def empty_storage_def
        devs_def MAX_DEVICES_def)
  then show ?thesis
    using registry_refines_spec [OF new_registry_ok [THEN conjunct1] new_registry_ok [THEN conjunct2] e] e by simp
qed



text \<open>
  Restarting the browser keeps the list of devices but neither their keys nor the active device:
  what loads from the storage that survives is the same devices, in the same order, with an empty
  static key each (so that a new handshake is required) and no active device.
\<close>

theorem registry_after_browser_restart:
  assumes "coherent r"
  shows "abs_registry (new_registry (browser_restart (reg_store r)))
    = (map (\<lambda>d. d\<lparr>phoneStaticKey := []\<rparr>) (fst (abs_registry r)), None)"
  by (rule abs_browser_restart [OF assms])

theorem registry_after_browser_restart_witness:
  "fst (abs_registry (new_registry (browser_restart (reg_store (snd (addDevice (phone 1) (new_registry empty_storage)))))))
     = [(phone 1)\<lparr>phoneStaticKey := []\<rparr>]"
proof -
  have "coherent (snd (addDevice (phone 1) (new_registry empty_storage)))"
    using registry_step [of "new_registry empty_storage" "OpAdd (phone 1)"] new_registry_ok by simp
  moreover have "fst (abs_registry (snd (addDevice (phone 1) (new_registry empty_storage)))) = [phone 1]"
    by (simp add: addDevice_def Let_def ensureLoaded_def loadFromStorage_def new_registry_def empty_storage_def
        devs_def MAX_DEVICES_def persist_def persist_session_def persist_local_def abs_registry_def)
  ultimately show ?thesis by (simp add: registry_after_browser_restart)
qed

text \<open>
  A name given to a phone is new: \<open>resolveDeviceName\<close> always returns, with a name no registered
  device has; it is the trimmed name of the phone if that is free, else that name with the smallest
  number from 2 that is free, and without a name \<open>Phone n\<close> with the smallest free \<open>n\<close> above the
  number of devices.
\<close>

theorem resolveDeviceName_fresh:
  "fst (resolveDeviceName phoneName r) \<notin> dev_name ` set (fst (abs_registry r))
   \<and> (\<forall>p. phoneName = Some p \<longrightarrow> js_trim p \<noteq> [] \<longrightarrow> js_trim p \<notin> dev_name ` set (fst (abs_registry r)) \<longrightarrow>
        fst (resolveDeviceName phoneName r) = js_trim p)
   \<and> (phoneName = None \<longrightarrow>
        (\<exists>n > length (fst (abs_registry r)). fst (resolveDeviceName phoneName r) = numbered ''Phone '' [] n
           \<and> (\<forall>k > length (fst (abs_registry r)). k < n \<longrightarrow> numbered ''Phone '' [] k \<in> dev_name ` set (fst (abs_registry r)))))"
proof -
  define ns where "ns = map dev_name (devs (ensureLoaded r))"
  let ?n = "next_free ''Phone '' [] ns (Suc (length ns))"
  have ns: "dev_name ` set (fst (abs_registry r)) = set ns" "length (fst (abs_registry r)) = length ns"
    by (simp_all add: ns_def abs_registry_def)
  have name: "fst (resolveDeviceName phoneName r) =
      (case phoneName of
         None \<Rightarrow> numbered ''Phone '' [] ?n
       | Some p \<Rightarrow>
           if js_trim p = [] then numbered ''Phone '' [] ?n
           else if js_trim p \<notin> set ns then js_trim p
           else numbered (js_trim p @ '' ('') '')'' (next_free (js_trim p @ '' ('') '')'' ns 2))"
    by (simp add: resolveDeviceName_def Let_def ns_def split: option.split)
  have "length ns < ?n" "\<forall>k > length ns. k < ?n \<longrightarrow> numbered ''Phone '' [] k \<in> set ns"
    using next_free_least [of "Suc (length ns)" "''Phone ''" "[]" ns] by auto
  then show ?thesis
    unfolding ns name using next_free_fresh [where names = ns] by (cases phoneName) auto
qed

theorem resolveDeviceName_fresh_witness:
  "fst (resolveDeviceName (Some '' Pixel '') (snd (addDevice (phone 1) (new_registry empty_storage)))) = ''Pixel''
   \<and> fst (resolveDeviceName (Some ''Phone'') (snd (addDevice (phone 1) (new_registry empty_storage)))) \<noteq> ''Phone''"
proof -
  let ?r = "snd (addDevice (phone 1) (new_registry empty_storage))"
  have "fst (abs_registry ?r) = [phone 1]"
    by (simp add: addDevice_def Let_def ensureLoaded_def loadFromStorage_def new_registry_def empty_storage_def
        devs_def MAX_DEVICES_def persist_def persist_session_def persist_local_def abs_registry_def)
  moreover have "js_trim '' Pixel '' = ''Pixel''" by (simp add: js_trim_def is_trim_space_def)
  ultimately show ?thesis
    using resolveDeviceName_fresh [of "Some '' Pixel ''" ?r] resolveDeviceName_fresh [of "Some ''Phone''" ?r]
    by (simp add: phone_def)
qed

text \<open>
  No pending revocation is lost or sent twice. Flushing the cached revocations announces a prefix
  of them, up to the first that cannot be sent; those announced are removed, the others stay in
  order, and caching a device twice keeps one entry.
\<close>

theorem revocations_flushed_in_order:
  assumes "ls_pendingRevocations s = Some pending" "distinct pending" "flushPendingRevocations broadcast s = (sent, s')"
  shows "pending = sent @ nullish (ls_pendingRevocations s') [] \<and> list_all broadcast sent
    \<and> (nullish (ls_pendingRevocations s') [] \<noteq> [] \<longrightarrow> \<not> broadcast (hd (nullish (ls_pendingRevocations s') [])))
    \<and> distinct (nullish (ls_pendingRevocations (cacheRevocationForLater devId s')) [])"
proof -
  let ?rest = "dropWhile broadcast pending"
  have split: "pending = takeWhile broadcast pending @ ?rest" by simp
  have "filter (\<lambda>i. i \<notin> set (takeWhile broadcast pending)) pending = ?rest"
  proof -
    have "distinct (takeWhile broadcast pending @ ?rest)" using assms(2) by simp
    then have "filter (\<lambda>i. i \<notin> set (takeWhile broadcast pending)) (takeWhile broadcast pending @ ?rest) = ?rest"
      unfolding filter_append distinct_append by (auto simp: filter_empty_conv intro!: filter_True)
    then show ?thesis by simp
  qed
  then have s': "sent = takeWhile broadcast pending" "nullish (ls_pendingRevocations s') [] = ?rest"
    using assms(1,3) by (cases "takeWhile broadcast pending = []"; auto simp: flushPendingRevocations_def Let_def split: if_splits)+
  moreover have "list_all broadcast (takeWhile broadcast pending)" by (auto simp: list_all_iff dest: set_takeWhileD)
  moreover have "\<not> broadcast (hd ?rest)" if "?rest \<noteq> []" using that by (rule hd_dropWhile)
  moreover have "distinct (nullish (ls_pendingRevocations (cacheRevocationForLater devId s')) [])"
    using s'(2) assms(2) by (auto simp: cacheRevocationForLater_def Let_def)
  ultimately show ?thesis using split by simp
qed

theorem revocations_flushed_in_order_witness:
  "fst (flushPendingRevocations (\<lambda>d. d \<noteq> ''b'') (empty_storage\<lparr>ls_pendingRevocations := Some [''a'', ''b'', ''c'']\<rparr>)) = [''a'']
   \<and> [''a'', ''b'', ''c''] = [''a''] @ nullish (ls_pendingRevocations
        (snd (flushPendingRevocations (\<lambda>d. d \<noteq> ''b'') (empty_storage\<lparr>ls_pendingRevocations := Some [''a'', ''b'', ''c'']\<rparr>)))) []"
proof -
  let ?s = "empty_storage\<lparr>ls_pendingRevocations := Some [''a'', ''b'', ''c'']\<rparr>"
  have "fst (flushPendingRevocations (\<lambda>d. d \<noteq> ''b'') ?s) = [''a'']" by (simp add: flushPendingRevocations_def)
  then show ?thesis
    using revocations_flushed_in_order [of ?s "[''a'', ''b'', ''c'']" "\<lambda>d. d \<noteq> ''b''"]
    by (cases "flushPendingRevocations (\<lambda>d. d \<noteq> ''b'') ?s") auto
qed

end
