(* ===== verification/Session.thy ===== *)
theory Session
  imports Storage
begin

text \<open>
  The MFA session of \<open>entrypoints/background/sessionManager.ts\<close>: activation, expiry by time, by the
  TTL alarm and by the idle alarm, persistence for browsers without the PRF extension, and silent
  re-authentication with it. Each operation takes the time \<open>now\<close> and, where it draws random bytes,
  those bytes. The WebAuthn assertion is a parameter.
\<close>

section \<open>Operations\<close>

definition SESSION_TTL_MS :: millis where "SESSION_TTL_MS = 5 * 60 * 1000"
definition IDLE_TIMEOUT_MS :: millis where "IDLE_TIMEOUT_MS = 2 * 60 * 1000"

lemmas session_consts = SESSION_TTL_MS_def IDLE_TIMEOUT_MS_def

definition generateSessionToken :: "bytes \<Rightarrow> string" where
  "generateSessionToken random32 = to_hex random32"

definition resetIdleTimeout :: "millis \<Rightarrow> storage \<Rightarrow> storage" where
  "resetIdleTimeout now s = s\<lparr>alarm_idle := Some (now + IDLE_TIMEOUT_MS)\<rparr>"

definition isPrfAvailable :: "storage \<Rightarrow> bool" where
  "isPrfAvailable s = ss_prfAvailable s"

definition activateSession :: "millis \<Rightarrow> bytes \<Rightarrow> string option \<Rightarrow> storage \<Rightarrow> mfa_session \<times> storage" where
  "activateSession now random32 name s =
     (let session = \<lparr>sessionToken = generateSessionToken random32, mfaVerifiedAt = now, expiry = now + SESSION_TTL_MS,
            sess_deviceName = name\<rparr>;
          s1 = s\<lparr>ss_mfaSession := Some session\<rparr>;
          s2 = (if \<not> isPrfAvailable s1 then s1\<lparr>ls_mfaPersisted := Some session\<rparr> else s1);
          s3 = s2\<lparr>alarm_ttl := Some (now + 5 * 60000)\<rparr>
      in (session, resetIdleTimeout now s3))"

definition clearSession :: "storage \<Rightarrow> storage" where
  "clearSession s = s\<lparr>ss_mfaSession := None, ls_mfaPersisted := None, alarm_ttl := None, alarm_idle := None\<rparr>"

definition getSession :: "millis \<Rightarrow> storage \<Rightarrow> mfa_session option \<times> storage" where
  "getSession now s =
     (case ss_mfaSession s of
        None \<Rightarrow> (None, s)
      | Some session \<Rightarrow> if now > expiry session then (None, clearSession s) else (Some session, s))"

text \<open>\<open>None\<close> is the thrown \<open>SessionExpiredError\<close>.\<close>

definition verifySession :: "millis \<Rightarrow> storage \<Rightarrow> mfa_session option \<times> storage" where
  "verifySession now s =
     (case getSession now s of
        (None, s') \<Rightarrow> (None, s')
      | (Some session, s') \<Rightarrow> (Some session, resetIdleTimeout now s'))"

definition onAlarm :: "string \<Rightarrow> storage \<Rightarrow> storage" where
  "onAlarm name s =
     (if name = ''session-ttl'' then clearSession s else if name = ''session-idle'' then clearSession s else s)"

definition setPrfSalt :: "bytes \<Rightarrow> storage \<Rightarrow> storage" where
  "setPrfSalt salt s = s\<lparr>ss_prfSalt := Some (btoa salt)\<rparr>"

text \<open>The outer option is a throw of \<open>atob\<close>; an empty stored text counts as absent.\<close>

definition getPrfSalt :: "storage \<Rightarrow> bytes option option" where
  "getPrfSalt s =
     (case ss_prfSalt s of
        None \<Rightarrow> Some None
      | Some t \<Rightarrow> if t = [] then Some None else (case atob t of None \<Rightarrow> None | Some bs \<Rightarrow> Some (Some bs)))"

definition setPrfAvailable :: "storage \<Rightarrow> storage" where
  "setPrfAvailable s = s\<lparr>ss_prfAvailable := True\<rparr>"

definition restoreSessionViaPrf :: "millis \<Rightarrow> bytes \<Rightarrow> storage \<Rightarrow> storage option" where
  "restoreSessionViaPrf now random32 s =
     (case ss_pairing s of
        None \<Rightarrow> None
      | Some cached \<Rightarrow>
          if cp_remoteStaticPublicKey cached = [] then None else Some (snd (activateSession now random32 None s)))"

text \<open>
  \<open>prfSupported\<close> is \<open>checkPrfSupport()\<close>, \<open>assertPrf\<close> the result of \<open>assertPrfCredential\<close> on a salt
  (\<open>None\<close> when it fails). A throw of \<open>getPrfSalt\<close> rejects the whole call, here the outer \<open>None\<close>.
\<close>

definition performSilentReauth :: "bool \<Rightarrow> (bytes \<Rightarrow> bytes option) \<Rightarrow> millis \<Rightarrow> bytes \<Rightarrow> storage \<Rightarrow> (bool \<times> storage) option" where
  "performSilentReauth prfSupported assertPrf now random32 s =
     (if \<not> prfSupported then Some (False, s)
      else if \<not> isPrfAvailable s then Some (False, s)
      else
       (case getPrfSalt s of
          None \<Rightarrow> None
        | Some None \<Rightarrow> Some (False, s)
        | Some (Some salt) \<Rightarrow>
            (case assertPrf salt of
               None \<Rightarrow> Some (False, s)
             | Some prfOutput \<Rightarrow>
                 (case restoreSessionViaPrf now random32 s of
                    None \<Rightarrow> Some (False, s)
                  | Some s' \<Rightarrow> Some (True, s')))))"

definition restorePersistedSession :: "millis \<Rightarrow> storage \<Rightarrow> storage" where
  "restorePersistedSession now s =
     (if isPrfAvailable s then s
      else
       (case ls_mfaPersisted s of
          None \<Rightarrow> s
        | Some persisted \<Rightarrow>
            if now > expiry persisted then clearSession s else s\<lparr>ss_mfaSession := Some persisted\<rparr>))"

definition onIdleStateChanged :: "millis \<Rightarrow> string \<Rightarrow> storage \<Rightarrow> storage" where
  "onIdleStateChanged now state s =
     (if state = ''active'' then
       (case getSession now s of (Some _, s') \<Rightarrow> resetIdleTimeout now s' | (None, s') \<Rightarrow> s')
      else s)"

lemma activateSession_session:
  "ss_mfaSession (snd (activateSession now rnd name s)) =
     Some \<lparr>sessionToken = generateSessionToken rnd, mfaVerifiedAt = now, expiry = now + SESSION_TTL_MS, sess_deviceName = name\<rparr>"
  by (simp add: activateSession_def Let_def resetIdleTimeout_def)

section \<open>Runs\<close>

text \<open>
  What can happen to the session over time. A run carries the clock, which never goes back, and the
  times at which a session was activated.
\<close>

datatype session_event =
    SActivate bytes "string option"
  | SClear
  | SGet
  | SVerify
  | SAlarm string
  | SReauth bool "bytes \<Rightarrow> bytes option" bytes
  | SRestore
  | SIdle string
  | SPrf bytes
  | SRestart

record session_world =
  sw_now :: millis
  sw_store :: storage
  sw_activations :: "millis list"

fun session_exec :: "session_event \<Rightarrow> millis \<Rightarrow> storage \<Rightarrow> storage" where
  "session_exec (SActivate rnd name) now s = snd (activateSession now rnd name s)"
| "session_exec SClear now s = clearSession s"
| "session_exec SGet now s = snd (getSession now s)"
| "session_exec SVerify now s = snd (verifySession now s)"
| "session_exec (SAlarm name) now s = onAlarm name s"
| "session_exec (SReauth supported assertPrf rnd) now s =
     (case performSilentReauth supported assertPrf now rnd s of None \<Rightarrow> s | Some (_, s') \<Rightarrow> s')"
| "session_exec SRestore now s = restorePersistedSession now s"
| "session_exec (SIdle state) now s = onIdleStateChanged now state s"
| "session_exec (SPrf salt) now s = setPrfAvailable (setPrfSalt salt s)"
| "session_exec SRestart now s = browser_restart s"

fun activates :: "session_event \<Rightarrow> millis \<Rightarrow> storage \<Rightarrow> bool" where
  "activates (SActivate rnd name) now s = True"
| "activates (SReauth supported assertPrf rnd) now s =
     (case performSilentReauth supported assertPrf now rnd s of Some (True, _) \<Rightarrow> True | _ \<Rightarrow> False)"
| "activates _ now s = False"

inductive session_step :: "session_world \<Rightarrow> session_world \<Rightarrow> bool" where
  tick: "sw_now w \<le> t \<Longrightarrow> session_step w (w\<lparr>sw_now := t\<rparr>)"
| event: "session_step w (w\<lparr>sw_store := session_exec ev (sw_now w) (sw_store w),
      sw_activations := (if activates ev (sw_now w) (sw_store w) then sw_now w # sw_activations w else sw_activations w)\<rparr>)"

inductive session_reachable :: "millis \<Rightarrow> session_world \<Rightarrow> bool" for t0 where
  fresh: "session_reachable t0 \<lparr>sw_now = t0, sw_store = empty_storage, sw_activations = []\<rparr>"
| further: "session_reachable t0 w \<Longrightarrow> session_step w w' \<Longrightarrow> session_reachable t0 w'"

inductive_cases session_stepE: "session_step w w'"

definition session_of :: "millis list \<Rightarrow> millis \<Rightarrow> mfa_session option \<Rightarrow> bool" where
  "session_of acts now so \<longleftrightarrow> (case so of None \<Rightarrow> True
     | Some x \<Rightarrow> expiry x = mfaVerifiedAt x + SESSION_TTL_MS \<and> mfaVerifiedAt x \<in> set acts \<and> mfaVerifiedAt x \<le> now)"

lemma session_of_None [simp]: "session_of acts now None"
  by (simp add: session_of_def)

lemma session_of_mono: "session_of acts now so \<Longrightarrow> now \<le> now' \<Longrightarrow> set acts \<subseteq> set acts' \<Longrightarrow> session_of acts' now' so"
  by (auto simp: session_of_def split: option.splits)

definition session_inv :: "session_world \<Rightarrow> bool" where
  "session_inv w \<longleftrightarrow> session_of (sw_activations w) (sw_now w) (ss_mfaSession (sw_store w))
     \<and> session_of (sw_activations w) (sw_now w) (ls_mfaPersisted (sw_store w))"

lemmas session_ops = clearSession_def getSession_def verifySession_def onAlarm_def restorePersistedSession_def
  onIdleStateChanged_def setPrfSalt_def setPrfAvailable_def resetIdleTimeout_def browser_restart_def empty_storage_def

text \<open>An event leaves both copies of the session as they were, removes them, copies the persisted one, or activates.\<close>

lemma session_exec_copies:
  assumes "\<not> activates ev now s"
  shows "ss_mfaSession (session_exec ev now s) \<in> {None, ss_mfaSession s, ls_mfaPersisted s}
    \<and> ls_mfaPersisted (session_exec ev now s) \<in> {None, ls_mfaPersisted s}"
  using assms
proof (cases ev)
  case (SReauth supported assertPrf rnd)
  then have "session_exec ev now s = s"
    using assms by (auto simp: performSilentReauth_def split: option.splits if_splits)
  then show ?thesis by simp
qed (auto simp: session_ops split: option.splits if_splits)

lemma session_exec_activates:
  assumes "activates ev now s"
  shows "\<exists>rnd name. session_exec ev now s = snd (activateSession now rnd name s)"
proof (cases ev)
  case (SReauth supported assertPrf rnd)
  then have "session_exec ev now s = snd (activateSession now rnd None s)"
    using assms by (auto simp: performSilentReauth_def restoreSessionViaPrf_def split: option.splits if_splits)
  then show ?thesis by blast
qed (use assms in auto)

lemma session_inv_event: "session_inv w \<Longrightarrow>
  session_inv (w\<lparr>sw_store := session_exec ev (sw_now w) (sw_store w),
      sw_activations := (if activates ev (sw_now w) (sw_store w) then sw_now w # sw_activations w else sw_activations w)\<rparr>)"
proof (cases "activates ev (sw_now w) (sw_store w)")
  case True
  assume inv: "session_inv w"
  obtain rnd name where e: "session_exec ev (sw_now w) (sw_store w) = snd (activateSession (sw_now w) rnd name (sw_store w))"
    using session_exec_activates [OF True] by blast
  have "session_of (sw_now w # sw_activations w) (sw_now w) (ls_mfaPersisted (sw_store w))"
    using inv unfolding session_inv_def by (elim conjE session_of_mono) auto
  then show ?thesis
    using True e by (auto simp: session_inv_def activateSession_def Let_def resetIdleTimeout_def session_of_def)
next
  case False
  assume "session_inv w"
  then show ?thesis using False session_exec_copies [OF False] by (auto simp: session_inv_def)
qed

lemma session_inv_reachable: "session_reachable t0 w \<Longrightarrow> session_inv w"
proof (induction rule: session_reachable.induct)
  case fresh
  then show ?case by (simp add: session_inv_def empty_storage_def)
next
  case (further w w')
  from further.hyps(2) further.IH show ?case
  proof cases
    case (tick t)
    then show ?thesis using further.IH session_of_mono by (fastforce simp: session_inv_def)
  qed (simp add: session_inv_event)
qed

lemma silent_reauth_outcome:
  assumes "performSilentReauth supported assertPrf now rnd s = Some (ok, s')"
  shows "if ok then (\<exists>cached. ss_pairing s = Some cached \<and> cp_remoteStaticPublicKey cached \<noteq> []) \<and> supported
       \<and> ss_prfAvailable s \<and> s' = snd (activateSession now rnd None s) else s' = s"
  using assms
  by (auto simp: performSilentReauth_def restoreSessionViaPrf_def isPrfAvailable_def split: if_splits option.splits)

section \<open>Properties\<close>

text \<open>
  C5: No session is honoured for more than five minutes. In every state that activations, alarms,
  idle events, restarts of the browser, restores from local storage and silent re-authentications
  can lead to, a session that \<open>verifySession\<close> accepts was activated at its \<open>mfaVerifiedAt\<close>, expires
  exactly five minutes after it, and has not expired yet.
\<close>

theorem session_ttl:
  assumes "session_reachable t0 w" "verifySession (sw_now w) (sw_store w) = (Some session, s')"
  shows "mfaVerifiedAt session \<in> set (sw_activations w) \<and> expiry session = mfaVerifiedAt session + SESSION_TTL_MS
    \<and> mfaVerifiedAt session \<le> sw_now w \<and> sw_now w \<le> mfaVerifiedAt session + SESSION_TTL_MS
    \<and> alarm_idle s' = Some (sw_now w + IDLE_TIMEOUT_MS)"
  using session_inv_reachable [OF assms(1)] assms(2)
  by (auto simp: session_inv_def session_of_def verifySession_def getSession_def resetIdleTimeout_def
      split: option.splits if_splits)

definition sample_session_world :: session_world where
  "sample_session_world = \<lparr>sw_now = 100, sw_store = snd (activateSession 100 [7] None empty_storage), sw_activations = [100]\<rparr>"

lemma sample_session_reachable: "session_reachable 100 (sample_session_world\<lparr>sw_now := 300100\<rparr>)"
proof -
  have "session_reachable 100 sample_session_world"
    using session_reachable.further [OF session_reachable.fresh session_step.event [where ev = "SActivate [7] None"], of 100]
    by (simp add: sample_session_world_def)
  then show ?thesis
    by (rule session_reachable.further) (rule session_step.tick, simp add: sample_session_world_def)
qed

theorem session_ttl_witness:
  "\<exists>session s'. verifySession 300100 (sw_store sample_session_world) = (Some session, s') \<and> mfaVerifiedAt session = 100
     \<and> verifySession 300101 (sw_store sample_session_world) = (None, clearSession (sw_store sample_session_world))"
proof -
  obtain session s' where v: "verifySession 300100 (sw_store sample_session_world) = (Some session, s')"
    by (simp add: sample_session_world_def activateSession_session verifySession_def getSession_def SESSION_TTL_MS_def)
  then have "mfaVerifiedAt session \<in> set (sw_activations (sample_session_world\<lparr>sw_now := 300100\<rparr>))"
    using session_ttl [OF sample_session_reachable] by simp
  moreover have "verifySession 300101 (sw_store sample_session_world) = (None, clearSession (sw_store sample_session_world))"
    by (simp add: sample_session_world_def activateSession_session verifySession_def getSession_def SESSION_TTL_MS_def)
  ultimately show ?thesis using v by (simp add: sample_session_world_def)
qed

text \<open>
  Clearing is complete and the alarms reach it: after \<open>clearSession\<close>, and after either of the
  two alarms, neither storage area holds a session, no alarm is left, and no later restore or
  \<open>getSession\<close> brings one back, whatever the time; all other stored data is untouched.
\<close>

theorem session_cleared_for_good:
  assumes "s' = clearSession s \<or> s' = onAlarm ''session-ttl'' s \<or> s' = onAlarm ''session-idle'' s"
  shows "fst (getSession now (restorePersistedSession later s')) = None \<and> fst (verifySession now s') = None
    \<and> alarm_ttl s' = None \<and> alarm_idle s' = None \<and> ss_mfaSession (browser_restart s') = None \<and> ls_mfaPersisted (browser_restart s') = None
    \<and> s'\<lparr>ss_mfaSession := ss_mfaSession s, ls_mfaPersisted := ls_mfaPersisted s, alarm_ttl := alarm_ttl s, alarm_idle := alarm_idle s\<rparr> = s"
  using assms by (auto simp: session_ops)

theorem session_cleared_for_good_witness:
  "fst (getSession 150 (restorePersistedSession 150 (onAlarm ''session-idle'' (sw_store sample_session_world)))) = None
   \<and> ls_mfaPersisted (sw_store sample_session_world) \<noteq> None"
proof
  show "fst (getSession 150 (restorePersistedSession 150 (onAlarm ''session-idle'' (sw_store sample_session_world)))) = None"
    using session_cleared_for_good [of "onAlarm ''session-idle'' (sw_store sample_session_world)" "sw_store sample_session_world" 150 150]
    by simp
  show "ls_mfaPersisted (sw_store sample_session_world) \<noteq> None"
    by (simp add: sample_session_world_def activateSession_def Let_def resetIdleTimeout_def isPrfAvailable_def empty_storage_def)
qed

text \<open>
  Silent re-authentication needs everything it names: it activates a session only in a browser
  with PRF support, with a PRF credential on record, a salt, a successful assertion on exactly that
  salt, and a cached pairing with a phone key; in every other case it changes nothing. With the PRF
  extension available nothing is written to local storage, and a salt that was stored is the one read.
\<close>

theorem silent_reauth_conditions:
  assumes "getPrfSalt s = Some salt"
  shows "performSilentReauth supported assertPrf now rnd s =
      (if supported \<and> ss_prfAvailable s \<and> (\<exists>x out. salt = Some x \<and> assertPrf x = Some out)
          \<and> (\<exists>cached. ss_pairing s = Some cached \<and> cp_remoteStaticPublicKey cached \<noteq> [])
       then Some (True, snd (activateSession now rnd None s)) else Some (False, s))
    \<and> (ss_prfAvailable s \<longrightarrow> ls_mfaPersisted (snd (activateSession now rnd None s)) = ls_mfaPersisted s)
    \<and> (bs \<noteq> [] \<longrightarrow> getPrfSalt (setPrfSalt bs s) = Some (Some bs))"
  using assms btoa_nonempty
  by (auto simp: performSilentReauth_def restoreSessionViaPrf_def isPrfAvailable_def activateSession_def Let_def
      resetIdleTimeout_def getPrfSalt_def setPrfSalt_def split: option.splits)

theorem silent_reauth_conditions_witness:
  "performSilentReauth True (\<lambda>_. Some [1]) 5 [2] empty_storage = Some (False, empty_storage)
   \<and> getPrfSalt (setPrfSalt [9] empty_storage) = Some (Some [9])"
  using silent_reauth_conditions [of empty_storage None True "\<lambda>_. Some [1]" 5 "[2]" "[9]"]
  by (simp add: getPrfSalt_def empty_storage_def)

end
