(* ===== verification/CommandClient.thy ===== *)
theory CommandClient
  imports Rtt Json Locks
begin

text \<open>
  The command client of \<open>lib/channel/commandClient.ts\<close>: numbered commands to the phone with
  retransmission, the matching of responses, the heartbeat and the message count that drives key
  rotation. Promises are entries of a heap and settling one is logged; an \<open>AbortController\<close> is a
  number. \<open>now\<close> is \<open>Date.now()\<close> and \<open>perf\<close> \<open>performance.now()\<close>. The signature provider is a parameter.
\<close>

section \<open>Types and constants\<close>

datatype command_type =
    AuthenticateTransaction | ConfirmTransaction | RejectTransaction | ReadScreen | Ping | Pong
  | CredentialRequest | ProvisionPasskey

fun command_text :: "command_type \<Rightarrow> string" where
  "command_text AuthenticateTransaction = ''authenticate_transaction''"
| "command_text ConfirmTransaction = ''confirm_transaction''"
| "command_text RejectTransaction = ''reject_transaction''"
| "command_text ReadScreen = ''read_screen''"
| "command_text Ping = ''ping''"
| "command_text Pong = ''pong''"
| "command_text CredentialRequest = ''credential-request''"
| "command_text ProvisionPasskey = ''provision-passkey''"

record control_command =
  cmd_sequence :: int
  cmd_command :: command_type
  cmd_payload :: json
  cmd_timestamp :: millis
  cmd_signature :: "string option"

record control_response =
  rsp_sequence :: int
  rsp_status :: string
  rsp_json :: json

definition MAX_RETRIES :: nat where "MAX_RETRIES = 3"
definition ROTATION_THRESHOLD :: int where "ROTATION_THRESHOLD = 1000"
definition HEARTBEAT_INTERVAL_MS :: millis where "HEARTBEAT_INTERVAL_MS = 15000"
definition MAX_MISSED_PINGS :: nat where "MAX_MISSED_PINGS = 3"

datatype outcome = Fulfilled control_response | Failed string

record cc_entry =
  ce_command :: control_command
  ce_encoded :: string
  ce_attempts :: nat
  ce_sentAt :: rat
  ce_ctrl :: nat

record command_client =
  cc_entries :: "cc_entry list"
  cc_pending :: "(int, nat) jsmap"
  cc_pendingTimeouts :: "(int, nat) jsmap"
  cc_nextCtrl :: nat
  cc_aborted :: "nat list"
  cc_timers :: "nat list"
  cc_pingTimers :: "(nat \<times> int) list"
  cc_rtt :: rtt_estimator
  cc_heartbeatTimer :: bool
  cc_missedPings :: nat
  cc_lastCommandTime :: millis
  cc_pendingPingSeq :: "int option"
  cc_sequence :: "int option"
  cc_msgCount :: "int option"
  cc_sent :: "string list"
  cc_settled :: "(nat \<times> outcome) list"
  cc_rotations :: "int list"
  cc_transportDead :: "string list"

definition createCommandClient :: "int option \<Rightarrow> int option \<Rightarrow> command_client" where
  "createCommandClient sequence msgCount =
     \<lparr>cc_entries = [], cc_pending = [], cc_pendingTimeouts = [], cc_nextCtrl = 0, cc_aborted = [], cc_timers = [],
      cc_pingTimers = [], cc_rtt = new_RttEstimator, cc_heartbeatTimer = False, cc_missedPings = 0, cc_lastCommandTime = 0,
      cc_pendingPingSeq = None, cc_sequence = sequence, cc_msgCount = msgCount, cc_sent = [], cc_settled = [],
      cc_rotations = [], cc_transportDead = []\<rparr>"

section \<open>Sequence numbers and rotation\<close>

definition getNextSequence :: "command_client \<Rightarrow> int \<times> command_client" where
  "getNextSequence c = (let next = nullish (cc_sequence c) 0 + 1 in (next, c\<lparr>cc_sequence := Some next\<rparr>))"

definition getAndIncrementMessageCount :: "command_client \<Rightarrow> int \<times> command_client" where
  "getAndIncrementMessageCount c = (let result = nullish (cc_msgCount c) 0 + 1 in (result, c\<lparr>cc_msgCount := Some result\<rparr>))"

definition handleKeyRotation :: "command_client \<Rightarrow> command_client" where
  "handleKeyRotation c =
     (case getAndIncrementMessageCount c of (n, c1) \<Rightarrow>
        if n > 0 \<and> n mod ROTATION_THRESHOLD = 0 then c1\<lparr>cc_rotations := cc_rotations c1 @ [n]\<rparr> else c1)"

section \<open>Messages\<close>

definition signPayload :: "(string \<Rightarrow> string option) \<Rightarrow> json \<Rightarrow> string option" where
  "signPayload sign payload = sign (stringify payload)"

definition createCommand :: "millis \<Rightarrow> command_type \<Rightarrow> json \<Rightarrow> int \<Rightarrow> control_command" where
  "createCommand now command payload sequence =
     \<lparr>cmd_sequence = sequence, cmd_command = command, cmd_payload = payload, cmd_timestamp = now, cmd_signature = None\<rparr>"

definition encodeMessage :: "control_command \<Rightarrow> string" where
  "encodeMessage cmd = stringify (JObj ([(''version'', JNum 1), (''sequence'', JNum (cmd_sequence cmd)),
     (''command'', JStr (command_text (cmd_command cmd))), (''payload'', cmd_payload cmd),
     (''timestamp'', JNum (cmd_timestamp cmd))] @ opt_prop ''signature'' (map_option JStr (cmd_signature cmd))))"

definition decodeMessage :: "string \<Rightarrow> control_response option" where
  "decodeMessage raw =
     (case json_parse raw of
        None \<Rightarrow> None
      | Some parsed \<Rightarrow>
          (case (jnum (jget parsed ''version''), jnum (jget parsed ''sequence''), jstr (jget parsed ''status'')) of
             (Some _, Some q, Some st) \<Rightarrow> Some \<lparr>rsp_sequence = q, rsp_status = st, rsp_json = parsed\<rparr>
           | _ \<Rightarrow> None))"

section \<open>Responses and heartbeat\<close>

definition abort :: "nat \<Rightarrow> command_client \<Rightarrow> command_client" where
  "abort ac c = c\<lparr>cc_aborted := ac # cc_aborted c,
     cc_timers := filter (\<lambda>e. ce_ctrl (cc_entries c ! e) \<noteq> ac) (cc_timers c)\<rparr>"

text \<open>\<open>pendingTimeouts.get(sequence)\<close>, aborted and deleted if there.\<close>

definition abort_timeout :: "int \<Rightarrow> command_client \<Rightarrow> command_client" where
  "abort_timeout q c =
     (case jsmap_get (cc_pendingTimeouts c) q of
        None \<Rightarrow> c
      | Some ac \<Rightarrow> (abort ac c)\<lparr>cc_pendingTimeouts := jsmap_delete q (cc_pendingTimeouts c)\<rparr>)"

definition handlePong :: "int \<Rightarrow> command_client \<Rightarrow> command_client" where
  "handlePong q c =
     (if cc_pendingPingSeq c = Some q then abort_timeout q (c\<lparr>cc_pendingPingSeq := None, cc_missedPings := 0\<rparr>) else c)"

definition settle :: "nat \<Rightarrow> outcome \<Rightarrow> command_client \<Rightarrow> command_client" where
  "settle e out c = c\<lparr>cc_settled := cc_settled c @ [(e, out)]\<rparr>"

text \<open>The second half of \<open>handleIncomingResponse\<close>: the command the response answers, if one is pending.\<close>

definition answerPending :: "rat \<Rightarrow> control_response \<Rightarrow> command_client \<Rightarrow> command_client" where
  "answerPending perf response c1 =
     (let q = rsp_sequence response in
      case jsmap_get (cc_pending c1) q of
        None \<Rightarrow> c1
      | Some e \<Rightarrow>
          (let rttSample = perf - ce_sentAt (cc_entries c1 ! e);
               c2 = (if rttSample > 0 \<and> rttSample < 30000 then c1\<lparr>cc_rtt := updateRtt (Some rttSample) (cc_rtt c1)\<rparr> else c1);
               c3 = abort_timeout q c2;
               c4 = c3\<lparr>cc_pending := jsmap_delete q (cc_pending c3)\<rparr>;
               out = (if rsp_status response = ''error'' then
                        Failed (case jget (rsp_json response) ''error'' of Some (JStr s) \<Rightarrow> s | _ \<Rightarrow> ''Command failed'')
                      else Fulfilled response)
           in settle e out c4))"

definition handleIncomingResponse :: "rat \<Rightarrow> string \<Rightarrow> command_client \<Rightarrow> command_client" where
  "handleIncomingResponse perf raw c =
     (case decodeMessage raw of
        None \<Rightarrow> c
      | Some response \<Rightarrow>
          answerPending perf response (if rsp_status response = ''pong'' then handlePong (rsp_sequence response) c else c))"

definition stopHeartbeat :: "command_client \<Rightarrow> command_client" where
  "stopHeartbeat c = c\<lparr>cc_heartbeatTimer := False\<rparr>"

definition startHeartbeat :: "command_client \<Rightarrow> command_client" where
  "startHeartbeat c = (stopHeartbeat c)\<lparr>cc_heartbeatTimer := True\<rparr>"

definition sendHeartbeatPing :: "millis \<Rightarrow> int \<Rightarrow> command_client \<Rightarrow> command_client" where
  "sendHeartbeatPing now ts c =
     (if now - cc_lastCommandTime c < HEARTBEAT_INTERVAL_MS then c
      else
       (case getNextSequence c of (q, c1) \<Rightarrow>
          (let cmd = createCommand now Ping (JObj [(''ts'', JNum ts)]) q;
               ac = cc_nextCtrl c1
           in c1\<lparr>cc_pendingPingSeq := Some q, cc_sent := cc_sent c1 @ [encodeMessage cmd], cc_nextCtrl := ac + 1,
                 cc_pendingTimeouts := jsmap_set q ac (cc_pendingTimeouts c1), cc_pingTimers := cc_pingTimers c1 @ [(ac, q)]\<rparr>)))"

definition dead_reason :: string where
  "dead_reason = ''WebRTC heartbeat failure: 3 consecutive pings missed''"

text \<open>The callback of the ping's own timeout, after \<open>getRto() * MAX_RETRIES\<close> milliseconds.\<close>

definition pingTimeout :: "nat \<Rightarrow> int \<Rightarrow> command_client \<Rightarrow> command_client" where
  "pingTimeout ac q c0 =
     (let c = c0\<lparr>cc_pingTimers := removeAll (ac, q) (cc_pingTimers c0)\<rparr> in
      if ac \<in> set (cc_aborted c) then c
      else if cc_pendingPingSeq c = Some q then
       (let c1 = c\<lparr>cc_pendingPingSeq := None, cc_pendingTimeouts := jsmap_delete q (cc_pendingTimeouts c),
              cc_missedPings := cc_missedPings c + 1\<rparr>
        in if cc_missedPings c1 \<ge> MAX_MISSED_PINGS then
             (stopHeartbeat c1)\<lparr>cc_transportDead := cc_transportDead c1 @ [dead_reason]\<rparr>
           else c1)
      else c)"

section \<open>Sending\<close>

definition retries_error :: "int \<Rightarrow> string" where
  "retries_error q = ''Command '' @ show_int q @ '' failed after 3 retries''"

definition attemptSend :: "rat \<Rightarrow> nat \<Rightarrow> command_client \<Rightarrow> command_client" where
  "attemptSend perf e c =
     (let entry = cc_entries c ! e; q = cmd_sequence (ce_command entry) in
      if ce_ctrl entry \<in> set (cc_aborted c) then c
      else if ce_attempts entry \<ge> MAX_RETRIES then
        settle e (Failed (retries_error q))
          (c\<lparr>cc_pendingTimeouts := jsmap_delete q (cc_pendingTimeouts c), cc_pending := jsmap_delete q (cc_pending c)\<rparr>)
      else
        c\<lparr>cc_entries := (cc_entries c)[e := entry\<lparr>ce_attempts := ce_attempts entry + 1, ce_sentAt := perf\<rparr>],
          cc_sent := cc_sent c @ [ce_encoded entry], cc_timers := cc_timers c @ [e]\<rparr>)"

definition sendCommandWithRetry :: "rat \<Rightarrow> control_command \<Rightarrow> string \<Rightarrow> command_client \<Rightarrow> nat \<times> command_client" where
  "sendCommandWithRetry perf command encoded c =
     (let e = length (cc_entries c); ac = cc_nextCtrl c; q = cmd_sequence command;
          c1 = c\<lparr>cc_entries := cc_entries c @ [\<lparr>ce_command = command, ce_encoded = encoded, ce_attempts = 0, ce_sentAt = perf, ce_ctrl = ac\<rparr>],
                 cc_pending := jsmap_set q e (cc_pending c),
                 cc_pendingTimeouts := jsmap_set q ac (cc_pendingTimeouts c), cc_nextCtrl := ac + 1\<rparr>
      in (e, attemptSend perf e c1))"

text \<open>The callback of a command's retransmission timer.\<close>

definition retryTimeout :: "rat \<Rightarrow> nat \<Rightarrow> command_client \<Rightarrow> command_client" where
  "retryTimeout perf e c0 =
     (let c = c0\<lparr>cc_timers := removeAll e (cc_timers c0)\<rparr> in
      if ce_ctrl (cc_entries c ! e) \<in> set (cc_aborted c) then c
      else if jsmap_has (cc_pending c) (cmd_sequence (ce_command (cc_entries c ! e))) then attemptSend perf e c
      else c)"

text \<open>The rest of \<open>sendCommand\<close> once the sequence number is known.\<close>

definition dispatch :: "(string \<Rightarrow> string option) \<Rightarrow> millis \<Rightarrow> rat \<Rightarrow> command_type \<Rightarrow> json \<Rightarrow> int \<Rightarrow> command_client \<Rightarrow> nat \<times> command_client" where
  "dispatch sign now perf command payload q c =
     (let cmd = createCommand now command payload q;
          cmd = (case signPayload sign payload of
                   Some s \<Rightarrow> if s \<noteq> [] then cmd\<lparr>cmd_signature := Some s\<rparr> else cmd
                 | None \<Rightarrow> cmd);
          c1 = handleKeyRotation c;
          encoded = encodeMessage cmd;
          c2 = c1\<lparr>cc_lastCommandTime := now\<rparr>;
          c3 = (if command \<noteq> Ping then startHeartbeat c2 else c2)
      in sendCommandWithRetry perf cmd encoded c3)"

text \<open>The session guard is a parameter: when it throws, nothing is sent.\<close>

definition sendCommand ::
  "bool \<Rightarrow> (string \<Rightarrow> string option) \<Rightarrow> millis \<Rightarrow> rat \<Rightarrow> command_type \<Rightarrow> json \<Rightarrow> command_client \<Rightarrow> nat option \<times> command_client" where
  "sendCommand guardOk sign now perf command payload c =
     (if \<not> guardOk then (None, c)
      else (case getNextSequence c of (q, c1) \<Rightarrow>
              (case dispatch sign now perf command payload q c1 of (e, c2) \<Rightarrow> (Some e, c2))))"

definition sendAuthenticateTransaction ::
  "bool \<Rightarrow> (string \<Rightarrow> string option) \<Rightarrow> millis \<Rightarrow> rat \<Rightarrow> json \<Rightarrow> command_client \<Rightarrow> nat option \<times> command_client" where
  "sendAuthenticateTransaction guardOk sign now perf transaction c =
     sendCommand guardOk sign now perf AuthenticateTransaction transaction c"

definition sendPing :: "bool \<Rightarrow> (string \<Rightarrow> string option) \<Rightarrow> millis \<Rightarrow> rat \<Rightarrow> command_client \<Rightarrow> nat option \<times> command_client" where
  "sendPing guardOk sign now perf c =
     (if list_ex (\<lambda>p. cmd_command (ce_command (cc_entries c ! snd p)) = Ping) (cc_pending c) then (None, c)
      else sendCommand guardOk sign now perf Ping (JObj []) c)"

definition sendCredentialRequest ::
  "bool \<Rightarrow> (string \<Rightarrow> string option) \<Rightarrow> millis \<Rightarrow> rat \<Rightarrow> string \<Rightarrow> string \<Rightarrow> string \<Rightarrow> string \<Rightarrow> command_client \<Rightarrow> nat option \<times> command_client" where
  "sendCredentialRequest guardOk sign now perf domain url usernameFieldId passwordFieldId c =
     sendCommand guardOk sign now perf CredentialRequest
       (JObj [(''domain'', JStr domain), (''url'', JStr url), (''usernameFieldId'', JStr usernameFieldId),
              (''passwordFieldId'', JStr passwordFieldId)]) c"

definition getPendingCount :: "command_client \<Rightarrow> nat" where
  "getPendingCount c = length (cc_pending c)"

definition getState :: "command_client \<Rightarrow> int \<times> int \<times> int \<times> (int, nat) jsmap" where
  "getState c = (nullish (cc_sequence c) 0, nullish (cc_msgCount c) 0, ROTATION_THRESHOLD, cc_pending c)"

section \<open>Runs\<close>

text \<open>
  The events of a client whose commands are sent one after the other: calls, incoming texts, timers
  that are outstanding, the heartbeat interval while it is on.
\<close>

datatype cc_event =
    CcSend bool command_type json millis rat
  | CcPing bool millis rat
  | CcReceive rat string
  | CcRetry rat nat
  | CcHeartbeat millis int
  | CcPingTimeout nat int
  | CcStart
  | CcStop

fun cc_exec :: "(string \<Rightarrow> string option) \<Rightarrow> cc_event \<Rightarrow> command_client \<Rightarrow> command_client" where
  "cc_exec sign (CcSend guardOk t payload now perf) c = snd (sendCommand guardOk sign now perf t payload c)"
| "cc_exec sign (CcPing guardOk now perf) c = snd (sendPing guardOk sign now perf c)"
| "cc_exec sign (CcReceive perf raw) c = handleIncomingResponse perf raw c"
| "cc_exec sign (CcRetry perf e) c = (if e \<in> set (cc_timers c) then retryTimeout perf e c else c)"
| "cc_exec sign (CcHeartbeat now ts) c = (if cc_heartbeatTimer c then sendHeartbeatPing now ts c else c)"
| "cc_exec sign (CcPingTimeout ac q) c = (if (ac, q) \<in> set (cc_pingTimers c) then pingTimeout ac q c else c)"
| "cc_exec sign CcStart c = startHeartbeat c"
| "cc_exec sign CcStop c = stopHeartbeat c"

inductive cc_reachable :: "(string \<Rightarrow> string option) \<Rightarrow> command_client \<Rightarrow> bool" for sign where
  cc_init: "cc_reachable sign (createCommandClient None None)"
| cc_next: "cc_reachable sign c \<Longrightarrow> cc_reachable sign (cc_exec sign ev c)"

section \<open>The invariant\<close>

definition seqof :: "command_client \<Rightarrow> nat \<Rightarrow> int" where
  "seqof c e = cmd_sequence (ce_command (cc_entries c ! e))"

definition ctrlof :: "command_client \<Rightarrow> nat \<Rightarrow> nat" where
  "ctrlof c e = ce_ctrl (cc_entries c ! e)"

abbreviation attempts :: "command_client \<Rightarrow> nat \<Rightarrow> nat" where
  "attempts c e \<equiv> ce_attempts (cc_entries c ! e)"

abbreviation counter :: "command_client \<Rightarrow> int" where
  "counter c \<equiv> nullish (cc_sequence c) 0"

text \<open>Numbers and controllers are handed out once.\<close>

definition ids_inv :: "command_client \<Rightarrow> bool" where
  "ids_inv c \<longleftrightarrow>
     (\<forall>e < length (cc_entries c). ctrlof c e < cc_nextCtrl c \<and> seqof c e \<le> counter c \<and> attempts c e \<le> 3)
     \<and> (\<forall>e < length (cc_entries c). \<forall>f < length (cc_entries c). ctrlof c e = ctrlof c f \<or> seqof c e = seqof c f \<longrightarrow> e = f)
     \<and> (\<forall>q ac. map_of (cc_pendingTimeouts c) q = Some ac \<longrightarrow> ac < cc_nextCtrl c \<and> q \<le> counter c
          \<and> (\<forall>e < length (cc_entries c). ctrlof c e = ac \<longleftrightarrow> seqof c e = q))
     \<and> (\<forall>q. cc_pendingPingSeq c = Some q \<longrightarrow> q \<le> counter c \<and> (\<forall>e < length (cc_entries c). seqof c e \<noteq> q))
     \<and> (\<forall>ac \<in> set (cc_aborted c). ac < cc_nextCtrl c)"

text \<open>A command is pending, with a live controller and an outstanding timer, or settled.\<close>

definition pending_inv :: "command_client \<Rightarrow> bool" where
  "pending_inv c \<longleftrightarrow>
     (\<forall>q e. map_of (cc_pending c) q = Some e \<longrightarrow> e < length (cc_entries c) \<and> seqof c e = q
        \<and> e \<notin> fst ` set (cc_settled c) \<and> map_of (cc_pendingTimeouts c) q = Some (ctrlof c e)
        \<and> ctrlof c e \<notin> set (cc_aborted c) \<and> e \<in> set (cc_timers c) \<and> 0 < attempts c e)
     \<and> (\<forall>e < length (cc_entries c). e \<notin> fst ` set (cc_settled c) \<longrightarrow> map_of (cc_pending c) (seqof c e) = Some e)
     \<and> (\<forall>e \<in> set (cc_timers c). e < length (cc_entries c) \<and> map_of (cc_pending c) (seqof c e) = Some e)
     \<and> distinct (map fst (cc_settled c)) \<and> (\<forall>e \<in> fst ` set (cc_settled c). e < length (cc_entries c))"

definition cc_inv :: "command_client \<Rightarrow> bool" where
  "cc_inv c \<longleftrightarrow> ids_inv c \<and> pending_inv c"

lemmas cc_inv_defs = cc_inv_def ids_inv_def pending_inv_def seqof_def ctrlof_def

lemma cc_inv_init: "cc_inv (createCommandClient None None)"
  by (simp add: cc_inv_defs createCommandClient_def)

text \<open>The invariant does not read the other fields.\<close>

lemma cc_inv_frame:
  assumes "cc_inv c" "cc_entries d = cc_entries c" "cc_pending d = cc_pending c" "cc_pendingTimeouts d = cc_pendingTimeouts c"
    "cc_nextCtrl d = cc_nextCtrl c" "cc_aborted d = cc_aborted c" "cc_timers d = cc_timers c" "cc_settled d = cc_settled c"
    "cc_pendingPingSeq d = cc_pendingPingSeq c \<or> cc_pendingPingSeq d = None" "counter c \<le> counter d"
  shows "cc_inv d"
proof -
  have same: "seqof d = seqof c" "ctrlof d = ctrlof c" using assms(2) by (auto simp: seqof_def ctrlof_def)
  have le: "q \<le> counter d" if "q \<le> counter c" for q using that assms(10) by simp
  have ids: "ids_inv c" and pend: "pending_inv c" using assms(1) by (simp_all add: cc_inv_def)
  have "ids_inv d"
    unfolding ids_inv_def same assms(2,4,5,6)
  proof (intro conjI)
    show "\<forall>q. cc_pendingPingSeq d = Some q \<longrightarrow> q \<le> counter d \<and> (\<forall>e < length (cc_entries c). seqof c e \<noteq> q)"
      using ids assms(9) le unfolding ids_inv_def by (metis option.distinct(1))
  qed (use ids le in \<open>simp_all add: ids_inv_def\<close>)
  moreover have "pending_inv d" using pend unfolding pending_inv_def same assms(2,3,4,6,7,8) .
  ultimately show ?thesis by (simp add: cc_inv_def)
qed

lemma cc_inv_fresh_ctrl: "cc_inv c \<Longrightarrow> cc_nextCtrl c \<notin> set (cc_aborted c)"
  by (auto simp: cc_inv_def ids_inv_def)

lemma sendCommandWithRetry_eq:
  assumes "cc_nextCtrl c \<notin> set (cc_aborted c)"
  shows "snd (sendCommandWithRetry perf command encoded c) =
    c\<lparr>cc_entries := cc_entries c @ [\<lparr>ce_command = command, ce_encoded = encoded, ce_attempts = 1, ce_sentAt = perf, ce_ctrl = cc_nextCtrl c\<rparr>],
      cc_pending := jsmap_set (cmd_sequence command) (length (cc_entries c)) (cc_pending c),
      cc_pendingTimeouts := jsmap_set (cmd_sequence command) (cc_nextCtrl c) (cc_pendingTimeouts c),
      cc_nextCtrl := cc_nextCtrl c + 1, cc_sent := cc_sent c @ [encoded], cc_timers := cc_timers c @ [length (cc_entries c)]\<rparr>"
  using assms by (simp add: sendCommandWithRetry_def attemptSend_def Let_def MAX_RETRIES_def)

lemma cc_inv_send_new:
  assumes inv: "cc_inv c" and new: "\<forall>e < length (cc_entries c). seqof c e < cmd_sequence command"
    "\<forall>q ac. map_of (cc_pendingTimeouts c) q = Some ac \<longrightarrow> q < cmd_sequence command"
    "\<forall>q. cc_pendingPingSeq c = Some q \<longrightarrow> q < cmd_sequence command" "cmd_sequence command \<le> counter c"
  shows "cc_inv (snd (sendCommandWithRetry perf command encoded c))"
proof -
  note eq = sendCommandWithRetry_eq [OF cc_inv_fresh_ctrl [OF inv], of perf command encoded]
  have ids: "ids_inv c" and pend: "pending_inv c" using inv by (simp_all add: cc_inv_def)
  define d where "d = snd (sendCommandWithRetry perf command encoded c)"
  define n where "n = length (cc_entries c)"
  define q where "q = cmd_sequence command"
  have f: "length (cc_entries d) = Suc n" "seqof d n = q" "ctrlof d n = cc_nextCtrl c" "attempts d n = 1"
    "cc_nextCtrl d = Suc (cc_nextCtrl c)" "cc_aborted d = cc_aborted c" "cc_settled d = cc_settled c" "counter d = counter c"
    "map_of (cc_pending d) = (map_of (cc_pending c))(q \<mapsto> n)" "cc_pendingPingSeq d = cc_pendingPingSeq c"
    "map_of (cc_pendingTimeouts d) = (map_of (cc_pendingTimeouts c))(q \<mapsto> cc_nextCtrl c)" "set (cc_timers d) = insert n (set (cc_timers c))"
    unfolding d_def eq n_def q_def by (simp_all add: seqof_def ctrlof_def)
  have old: "seqof d e = seqof c e \<and> ctrlof d e = ctrlof c e \<and> attempts d e = attempts c e" if "e < n" for e
    using that unfolding d_def eq n_def by (simp add: seqof_def ctrlof_def nth_append)
  have lt: "e < n \<Longrightarrow> seqof c e \<noteq> q \<and> ctrlof c e \<noteq> cc_nextCtrl c" for e
    using new(1) ids unfolding n_def q_def ids_inv_def by fastforce
  have "ids_inv d"
    unfolding ids_inv_def f
  proof (intro conjI allI impI ballI)
    fix e assume "e < Suc n"
    then show "ctrlof d e < Suc (cc_nextCtrl c)" "seqof d e \<le> counter c" "attempts d e \<le> 3"
      using ids old [of e] f(2-4) new(4) by (auto simp: ids_inv_def n_def q_def less_Suc_eq)
    fix e' assume "e' < Suc n" "ctrlof d e = ctrlof d e' \<or> seqof d e = seqof d e'"
    then show "e = e'" using \<open>e < Suc n\<close> ids old [of e] old [of e'] lt [of e] lt [of e'] f(2,3)
      unfolding ids_inv_def n_def by (metis less_Suc_eq)
  next
    fix k ac assume k: "((map_of (cc_pendingTimeouts c))(q \<mapsto> cc_nextCtrl c)) k = Some ac"
    have "k = q \<and> ac = cc_nextCtrl c \<or> k < q \<and> map_of (cc_pendingTimeouts c) k = Some ac"
      using k new(2) by (auto simp: q_def split: if_splits)
    then show "ac < Suc (cc_nextCtrl c)" "k \<le> counter c"
      using ids new(4) unfolding ids_inv_def q_def by (auto intro: less_SucI)
    fix e assume "e < Suc n"
    then show "(ctrlof d e = ac) = (seqof d e = k)"
      using \<open>k = q \<and> ac = cc_nextCtrl c \<or> _\<close> ids old [of e] lt [of e] f(2,3)
      unfolding ids_inv_def n_def by (metis less_Suc_eq less_irrefl)
  next
    fix k e assume "cc_pendingPingSeq c = Some k" "e < Suc n"
    then show "seqof d e \<noteq> k" using ids new(3) old [of e] f(2) by (auto simp: ids_inv_def n_def q_def less_Suc_eq)
  qed (use ids in \<open>auto simp: ids_inv_def\<close>)
  moreover have "pending_inv d"
    unfolding pending_inv_def f
  proof (intro conjI allI impI ballI)
    have stale: "n \<notin> fst ` set (cc_settled c)" using pend by (auto simp: pending_inv_def n_def)
    fix k e assume k: "((map_of (cc_pending c))(q \<mapsto> n)) k = Some e"
    have c: "k = q \<and> e = n \<or> k \<noteq> q \<and> e < n \<and> map_of (cc_pending c) k = Some e"
      using k pend by (auto simp: pending_inv_def n_def split: if_splits)
    show "e < Suc n" "seqof d e = k" "e \<notin> fst ` set (cc_settled c)" "e \<in> insert n (set (cc_timers c))" "0 < attempts d e"
      "((map_of (cc_pendingTimeouts c))(q \<mapsto> cc_nextCtrl c)) k = Some (ctrlof d e)"
      using c pend old [of e] f(2-4) stale by (auto simp: pending_inv_def)
    show "ctrlof d e \<notin> set (cc_aborted c)"
      using c pend old [of e] f(3) cc_inv_fresh_ctrl [OF inv] by (auto simp: pending_inv_def)
  next
    fix e assume "e < Suc n" "e \<notin> fst ` set (cc_settled c)"
    then show "((map_of (cc_pending c))(q \<mapsto> n)) (seqof d e) = Some e"
      using pend old [of e] lt [of e] f(2) by (auto simp: pending_inv_def n_def less_Suc_eq)
  next
    fix e assume "e \<in> insert n (set (cc_timers c))"
    then have "e = n \<or> e < n \<and> map_of (cc_pending c) (seqof c e) = Some e"
      using pend unfolding pending_inv_def n_def by blast
    then show "e < Suc n" "((map_of (cc_pending c))(q \<mapsto> n)) (seqof d e) = Some e"
      using old [of e] lt [of e] f(2) by auto
  qed (use pend in \<open>auto simp: pending_inv_def n_def\<close>)
  ultimately show ?thesis by (simp add: cc_inv_def d_def)
qed

lemma pending_invD:
  assumes "cc_inv c" "map_of (cc_pending c) q = Some e"
  shows "e < length (cc_entries c)" "seqof c e = q" "e \<notin> fst ` set (cc_settled c)"
    "map_of (cc_pendingTimeouts c) q = Some (ctrlof c e)" "ctrlof c e \<notin> set (cc_aborted c)" "e \<in> set (cc_timers c)"
    "0 < attempts c e" "attempts c e \<le> 3"
  using assms by (auto simp: cc_inv_def pending_inv_def ids_inv_def)

lemma timer_invD:
  assumes "cc_inv c" "e \<in> set (cc_timers c)"
  shows "e < length (cc_entries c)" "map_of (cc_pending c) (seqof c e) = Some e"
  using assms by (auto simp: cc_inv_def pending_inv_def)

lemma ids_inject:
  "cc_inv c \<Longrightarrow> e < length (cc_entries c) \<Longrightarrow> f < length (cc_entries c) \<Longrightarrow> ctrlof c e = ctrlof c f \<longleftrightarrow> e = f"
  "cc_inv c \<Longrightarrow> e < length (cc_entries c) \<Longrightarrow> f < length (cc_entries c) \<Longrightarrow> seqof c e = seqof c f \<longleftrightarrow> e = f"
  unfolding cc_inv_def ids_inv_def by blast+

text \<open>Settling the pending command of a number, with its controller aborted or not.\<close>

lemma cc_inv_settle:
  assumes inv: "cc_inv c" and p: "map_of (cc_pending c) q = Some e"
    and d: "cc_entries d = cc_entries c" "cc_pending d = jsmap_delete q (cc_pending c)"
      "cc_pendingTimeouts d = jsmap_delete q (cc_pendingTimeouts c)" "cc_nextCtrl d = cc_nextCtrl c"
      "set (cc_aborted d) \<subseteq> insert (ctrlof c e) (set (cc_aborted c))" "set (cc_timers d) = set (cc_timers c) - {e}"
      "cc_settled d = cc_settled c @ [(e, out)]" "cc_pendingPingSeq d = cc_pendingPingSeq c" "counter d = counter c"
  shows "cc_inv d"
proof -
  have same: "seqof d = seqof c" "ctrlof d = ctrlof c" using d(1) by (auto simp: seqof_def ctrlof_def)
  have maps: "map_of (cc_pending d) = (map_of (cc_pending c))(q := None)"
    "map_of (cc_pendingTimeouts d) = (map_of (cc_pendingTimeouts c))(q := None)" by (simp_all add: d)
  note e = pending_invD [OF inv p]
  have ids: "ids_inv c" and pend: "pending_inv c" using inv by (simp_all add: cc_inv_def)
  have "ctrlof c e < cc_nextCtrl c" using ids e(1) by (simp add: ids_inv_def)
  then have ab: "\<forall>ac \<in> set (cc_aborted d). ac < cc_nextCtrl c" using ids d(5) by (auto simp: ids_inv_def)
  have "ids_inv d"
    using ids ab unfolding ids_inv_def same maps d(1,4,8,9) by (simp add: fun_upd_def)
  moreover have "pending_inv d"
    unfolding pending_inv_def same maps d(1,6,7)
  proof (intro conjI allI impI ballI)
    fix k f assume k: "((map_of (cc_pending c))(q := None)) k = Some f"
    then have k': "k \<noteq> q" "map_of (cc_pending c) k = Some f" by (auto split: if_splits)
    note f = pending_invD [OF inv k'(2)]
    have ne: "f \<noteq> e" using f(2) e(2) k'(1) by auto
    show "f < length (cc_entries c)" "seqof c f = k" "0 < attempts c f" using f d(1) by simp_all
    show "f \<notin> fst ` set (cc_settled c @ [(e, out)])" using f(3) ne by simp
    show "((map_of (cc_pendingTimeouts c))(q := None)) k = Some (ctrlof c f)" using f(4) k'(1) by simp
    show "ctrlof c f \<notin> set (cc_aborted d)" using f(1,5) ne d(5) ids_inject(1) [OF inv f(1) e(1)] by auto
    show "f \<in> set (cc_timers c) - {e}" using f(6) ne by simp
  next
    fix f assume f: "f < length (cc_entries c)" "f \<notin> fst ` set (cc_settled c @ [(e, out)])"
    then have "map_of (cc_pending c) (seqof c f) = Some f" "f \<noteq> e" using pend by (auto simp: pending_inv_def)
    then show "((map_of (cc_pending c))(q := None)) (seqof c f) = Some f"
      using e(2) ids_inject(2) [OF inv f(1) e(1)] by auto
  next
    fix f assume "f \<in> set (cc_timers c) - {e}"
    then show "f < length (cc_entries c)" "((map_of (cc_pending c))(q := None)) (seqof c f) = Some f"
      using timer_invD [OF inv, of f] e(2) ids_inject(2) [OF inv _ e(1), of f] by auto
  qed (use pend e(1,3) in \<open>auto simp: pending_inv_def\<close>)
  ultimately show ?thesis by (simp add: cc_inv_def)
qed

text \<open>Aborting and forgetting a ping touches no command.\<close>

lemma cc_inv_drop_ping:
  assumes inv: "cc_inv c" and q: "\<forall>e < length (cc_entries c). seqof c e \<noteq> q"
    and d: "cc_entries d = cc_entries c" "cc_pending d = cc_pending c" "cc_nextCtrl d = cc_nextCtrl c"
      "cc_pendingTimeouts d = jsmap_delete q (cc_pendingTimeouts c)" "set (cc_timers d) = set (cc_timers c)"
      "\<forall>ac \<in> set (cc_aborted d). ac \<in> set (cc_aborted c) \<or> map_of (cc_pendingTimeouts c) q = Some ac"
      "cc_settled d = cc_settled c" "cc_pendingPingSeq d = cc_pendingPingSeq c \<or> cc_pendingPingSeq d = None" "counter d = counter c"
  shows "cc_inv d"
proof -
  have same: "seqof d = seqof c" "ctrlof d = ctrlof c" using d(1) by (auto simp: seqof_def ctrlof_def)
  have tm: "map_of (cc_pendingTimeouts d) = (map_of (cc_pendingTimeouts c))(q := None)" by (simp add: d)
  have ids: "ids_inv c" and pend: "pending_inv c" using inv by (simp_all add: cc_inv_def)
  have ab: "ac < cc_nextCtrl c \<and> (ac \<in> set (cc_aborted c) \<or> (\<forall>e < length (cc_entries c). ctrlof c e \<noteq> ac))"
    if "ac \<in> set (cc_aborted d)" for ac
    using that d(6) ids q unfolding ids_inv_def by blast
  have "ids_inv d"
    unfolding ids_inv_def same tm d(1,3,9)
  proof (intro conjI)
    show "\<forall>k. cc_pendingPingSeq d = Some k \<longrightarrow> k \<le> counter c \<and> (\<forall>e < length (cc_entries c). seqof c e \<noteq> k)"
      using ids d(8) unfolding ids_inv_def by (metis option.distinct(1))
  qed (use ids ab in \<open>auto simp: ids_inv_def fun_upd_def\<close>)
  moreover have "pending_inv d"
    unfolding pending_inv_def same tm d(1,2,5,7)
  proof (intro conjI allI impI ballI)
    fix k f assume k: "map_of (cc_pending c) k = Some f"
    note f = pending_invD [OF inv k]
    show "f < length (cc_entries c)" "seqof c f = k" "0 < attempts c f" "f \<notin> fst ` set (cc_settled c)" "f \<in> set (cc_timers c)"
      using f d(1) by simp_all
    show "((map_of (cc_pendingTimeouts c))(q := None)) k = Some (ctrlof c f)" using f(1,2,4) q by auto
    show "ctrlof c f \<notin> set (cc_aborted d)" using f(1,5) ab by blast
  qed (use pend in \<open>auto simp: pending_inv_def\<close>)
  ultimately show ?thesis by (simp add: cc_inv_def)
qed

lemma abort_timeout_ping:
  assumes inv: "cc_inv c" and q: "\<forall>e < length (cc_entries c). seqof c e \<noteq> q"
    "c' = c\<lparr>cc_pendingPingSeq := None, cc_missedPings := m\<rparr>"
  shows "cc_inv (abort_timeout q c')"
proof (cases "map_of (cc_pendingTimeouts c) q")
  case None
  then have "abort_timeout q c' = c'" by (simp add: abort_timeout_def q(2))
  then show ?thesis by (simp add: q(2)) (rule cc_inv_frame [OF inv], simp_all)
next
  case (Some ac)
  have "ctrlof c e \<noteq> ac" if "e < length (cc_entries c)" for e
    using inv that q Some unfolding cc_inv_def ids_inv_def by blast
  then have "\<forall>e \<in> set (cc_timers c). ce_ctrl (cc_entries c ! e) \<noteq> ac"
    using timer_invD [OF inv] by (auto simp: ctrlof_def)
  then have f: "filter (\<lambda>e. ce_ctrl (cc_entries c ! e) \<noteq> ac) (cc_timers c) = cc_timers c" by (intro filter_True) auto
  show ?thesis
    by (rule cc_inv_drop_ping [OF inv q(1)]) (use Some f in \<open>simp_all add: abort_timeout_def abort_def q(2)\<close>)
qed

lemma cc_inv_handlePong: "cc_inv c \<Longrightarrow> cc_inv (handlePong q c)"
proof (cases "cc_pendingPingSeq c = Some q")
  case True
  assume inv: "cc_inv c"
  then have "\<forall>e < length (cc_entries c). seqof c e \<noteq> q" using True by (simp add: cc_inv_def ids_inv_def)
  from abort_timeout_ping [OF inv this refl, of 0] show ?thesis using True by (simp add: handlePong_def)
qed (simp add: handlePong_def)

lemma cc_inv_answer:
  assumes inv: "cc_inv c"
  shows "cc_inv (answerPending perf response c)"
proof (cases "map_of (cc_pending c) (rsp_sequence response)")
  case None
  then show ?thesis using inv by (simp add: answerPending_def)
next
  case e: (Some e)
  note pe = pending_invD [OF inv e]
  have timers: "set (filter (\<lambda>f. ce_ctrl (cc_entries c ! f) \<noteq> ctrlof c e) (cc_timers c)) = set (cc_timers c) - {e}"
    using timer_invD [OF inv] ids_inject(1) [OF inv _ pe(1)] by (auto simp: ctrlof_def)
  obtain out where settled: "cc_settled (answerPending perf response c) = cc_settled c @ [(e, out)]"
    using e pe(4) by (simp add: answerPending_def Let_def settle_def abort_timeout_def abort_def)
  show ?thesis
    by (rule cc_inv_settle [OF inv e _ _ _ _ _ _ settled])
      (use e pe(4) timers in \<open>simp_all add: answerPending_def Let_def settle_def abort_timeout_def abort_def\<close>)
qed

lemma cc_inv_receive: "cc_inv c \<Longrightarrow> cc_inv (handleIncomingResponse perf raw c)"
  by (simp add: handleIncomingResponse_def cc_inv_answer cc_inv_handlePong split: option.split)

text \<open>A retransmission, or the failure after the last one.\<close>

lemma cc_inv_retry:
  assumes inv: "cc_inv c" and e: "e \<in> set (cc_timers c)"
  shows "cc_inv (retryTimeout perf e c)"
proof -
  note lt = timer_invD [OF inv e] and pe = pending_invD [OF inv timer_invD(2) [OF inv e]]
  have live: "ce_ctrl (cc_entries c ! e) \<notin> set (cc_aborted c)" using pe(5) by (simp add: ctrlof_def)
  have has: "jsmap_has (cc_pending c) (cmd_sequence (ce_command (cc_entries c ! e)))"
    using lt(2) by (simp add: jsmap_has_def seqof_def)
  show ?thesis
  proof (cases "attempts c e \<ge> 3")
    case True
    show ?thesis
      by (rule cc_inv_settle [OF inv lt(2), where out = "Failed (retries_error (seqof c e))"])
        (use live has True in \<open>simp_all add: retryTimeout_def attemptSend_def Let_def settle_def MAX_RETRIES_def seqof_def set_removeAll subset_insertI\<close>)
  next
    case False
    define d where "d = retryTimeout perf e c"
    have d: "cc_entries d = (cc_entries c)[e := (cc_entries c ! e)\<lparr>ce_attempts := attempts c e + 1, ce_sentAt := perf\<rparr>]"
      "cc_pending d = cc_pending c" "cc_pendingTimeouts d = cc_pendingTimeouts c" "cc_nextCtrl d = cc_nextCtrl c"
      "cc_aborted d = cc_aborted c" "set (cc_timers d) = set (cc_timers c)" "cc_settled d = cc_settled c"
      "cc_pendingPingSeq d = cc_pendingPingSeq c" "cc_sequence d = cc_sequence c"
      using live has False e by (auto simp: d_def retryTimeout_def attemptSend_def Let_def MAX_RETRIES_def)
    have same: "seqof d f = seqof c f" "ctrlof d f = ctrlof c f" "attempts c f \<le> attempts d f"
      "attempts d f \<le> 3 \<longleftrightarrow> attempts c f \<le> 3" for f
      using lt(1) False d(1) by (cases "f = e"; simp add: seqof_def ctrlof_def)+
    have len: "length (cc_entries d) = length (cc_entries c)" by (simp add: d)
    have "ids_inv d" using inv unfolding cc_inv_def ids_inv_def same len d(3,4,5,8,9) by blast
    moreover have "pending_inv d"
      using inv same(3) unfolding cc_inv_def pending_inv_def same(1,2) len d(2,3,5,6,7) by (meson less_le_trans)
    ultimately show ?thesis by (simp add: cc_inv_def d_def)
  qed
qed

text \<open>What \<open>sendCommand\<close> does before the new command is entered.\<close>

lemma dispatch_entry:
  assumes inv: "cc_inv c"
  shows "cc_inv (snd (dispatch sign now perf t payload (counter c + 1) (snd (getNextSequence c))))"
proof -
  define q where "q = counter c + 1"
  define d where "d = (let d0 = (handleKeyRotation (snd (getNextSequence c)))\<lparr>cc_lastCommandTime := now\<rparr> in
      if t \<noteq> Ping then startHeartbeat d0 else d0)"
  define cmd where "cmd = (case signPayload sign payload of
      Some s \<Rightarrow> if s \<noteq> [] then (createCommand now t payload q)\<lparr>cmd_signature := Some s\<rparr> else createCommand now t payload q
    | None \<Rightarrow> createCommand now t payload q)"
  have d: "cc_entries d = cc_entries c" "cc_pending d = cc_pending c" "cc_pendingTimeouts d = cc_pendingTimeouts c"
    "cc_nextCtrl d = cc_nextCtrl c" "cc_aborted d = cc_aborted c" "cc_timers d = cc_timers c" "cc_settled d = cc_settled c"
    "cc_pendingPingSeq d = cc_pendingPingSeq c" "counter d = q"
    by (simp_all add: d_def handleKeyRotation_def getAndIncrementMessageCount_def getNextSequence_def startHeartbeat_def
        stopHeartbeat_def Let_def q_def)
  have inv': "cc_inv d" by (rule cc_inv_frame [OF inv d(1-7)]) (simp_all add: d q_def)
  have cmd: "cmd_sequence cmd = q" by (simp add: cmd_def createCommand_def split: option.split)
  have same: "seqof d = seqof c" using d(1) by (auto simp: seqof_def)
  have lt: "\<forall>e < length (cc_entries d). seqof d e < cmd_sequence cmd"
    "\<forall>k ac. map_of (cc_pendingTimeouts d) k = Some ac \<longrightarrow> k < cmd_sequence cmd"
    "\<forall>k. cc_pendingPingSeq d = Some k \<longrightarrow> k < cmd_sequence cmd"
    using inv unfolding cc_inv_def ids_inv_def cmd same d q_def by (fastforce, fastforce, fastforce)
  have "cc_inv (snd (sendCommandWithRetry perf cmd (encodeMessage cmd) d))"
    by (rule cc_inv_send_new [OF inv' lt]) (simp add: cmd d)
  then show ?thesis
    by (simp add: dispatch_def Let_def d_def cmd_def q_def split: option.splits if_splits)
qed

lemma cc_inv_sendCommand: "cc_inv c \<Longrightarrow> cc_inv (snd (sendCommand guardOk sign now perf t payload c))"
  using dispatch_entry [of c sign now perf t payload]
  by (simp add: sendCommand_def getNextSequence_def Let_def case_prod_beta)

lemma cc_inv_heartbeat: "cc_inv c \<Longrightarrow> cc_inv (sendHeartbeatPing now ts c)"
proof (cases "now - cc_lastCommandTime c < HEARTBEAT_INTERVAL_MS")
  case False
  assume inv: "cc_inv c"
  define d where "d = sendHeartbeatPing now ts c"
  define q where "q = counter c + 1"
  have d: "cc_entries d = cc_entries c" "cc_pending d = cc_pending c" "cc_nextCtrl d = Suc (cc_nextCtrl c)"
    "map_of (cc_pendingTimeouts d) = (map_of (cc_pendingTimeouts c))(q \<mapsto> cc_nextCtrl c)" "cc_aborted d = cc_aborted c"
    "cc_timers d = cc_timers c" "cc_settled d = cc_settled c" "cc_pendingPingSeq d = Some q" "counter d = q"
    using False by (simp_all add: d_def sendHeartbeatPing_def getNextSequence_def Let_def q_def)
  have same: "seqof d = seqof c" "ctrlof d = ctrlof c" using d(1) by (auto simp: seqof_def ctrlof_def)
  have ids: "ids_inv c" and pend: "pending_inv c" using inv by (simp_all add: cc_inv_def)
  have fresh: "seqof c e \<noteq> q \<and> ctrlof c e \<noteq> cc_nextCtrl c" if "e < length (cc_entries c)" for e
    using that ids by (force simp: ids_inv_def q_def)
  have "ids_inv d"
    unfolding ids_inv_def same d(1,3-5,8,9)
  proof (intro conjI allI impI ballI)
    fix k ac assume "((map_of (cc_pendingTimeouts c))(q \<mapsto> cc_nextCtrl c)) k = Some ac"
    then have k: "k = q \<and> ac = cc_nextCtrl c \<or> map_of (cc_pendingTimeouts c) k = Some ac" by (auto split: if_splits)
    moreover have "ac < cc_nextCtrl c \<and> k \<le> counter c" if "map_of (cc_pendingTimeouts c) k = Some ac"
      using ids that unfolding ids_inv_def by blast
    ultimately show "ac < Suc (cc_nextCtrl c)" "k \<le> q" by (auto simp: q_def)
    fix e assume "e < length (cc_entries c)"
    then show "(ctrlof c e = ac) = (seqof c e = k)" using k ids fresh [of e] unfolding ids_inv_def by blast
  qed (use ids fresh in \<open>auto simp: ids_inv_def q_def intro: less_SucI\<close>)
  moreover have "pending_inv d"
    using pend fresh unfolding pending_inv_def same d(1,2,4-7) by auto
  ultimately show ?thesis by (simp add: cc_inv_def d_def)
qed (simp add: sendHeartbeatPing_def)

lemma cc_inv_pingTimeout: "cc_inv c \<Longrightarrow> cc_inv (pingTimeout ac q c)"
proof (cases "ac \<notin> set (cc_aborted c) \<and> cc_pendingPingSeq c = Some q")
  case True
  assume inv: "cc_inv c"
  then have "\<forall>e < length (cc_entries c). seqof c e \<noteq> q" using True by (simp add: cc_inv_def ids_inv_def)
  then show ?thesis
    by (rule cc_inv_drop_ping [OF inv]) (use True in \<open>simp_all add: pingTimeout_def Let_def stopHeartbeat_def\<close>)
next
  case False
  assume inv: "cc_inv c"
  show ?thesis by (rule cc_inv_frame [OF inv]) (use False in \<open>auto simp: pingTimeout_def Let_def\<close>)
qed

lemma cc_inv_exec: "cc_inv c \<Longrightarrow> cc_inv (cc_exec sign ev c)"
proof (cases ev)
  case CcStart
  assume "cc_inv c"
  then show ?thesis using CcStart by (simp add: startHeartbeat_def stopHeartbeat_def) (rule cc_inv_frame [of c], simp_all)
next
  case CcStop
  assume "cc_inv c"
  then show ?thesis using CcStop by (simp add: stopHeartbeat_def) (rule cc_inv_frame [of c], simp_all)
qed (auto simp: cc_inv_sendCommand cc_inv_receive cc_inv_retry cc_inv_heartbeat cc_inv_pingTimeout sendPing_def)

lemma cc_inv_reachable: "cc_reachable sign c \<Longrightarrow> cc_inv c"
  by (induction rule: cc_reachable.induct) (auto intro: cc_inv_init cc_inv_exec)

section \<open>Retransmission to the end\<close>

lemma retry_step:
  assumes inv: "cc_inv c" and e: "map_of (cc_pending c) q = Some e"
  shows "if attempts c e < 3
    then attempts (retryTimeout perf e c) e = Suc (attempts c e) \<and> map_of (cc_pending (retryTimeout perf e c)) q = Some e
      \<and> cc_sent (retryTimeout perf e c) = cc_sent c @ [ce_encoded (cc_entries c ! e)]
      \<and> ce_encoded (cc_entries (retryTimeout perf e c) ! e) = ce_encoded (cc_entries c ! e)
    else cc_settled (retryTimeout perf e c) = cc_settled c @ [(e, Failed (retries_error q))]
      \<and> map_of (cc_pending (retryTimeout perf e c)) q = None \<and> cc_sent (retryTimeout perf e c) = cc_sent c"
proof -
  note pe = pending_invD [OF inv e]
  have "ce_ctrl (cc_entries c ! e) \<notin> set (cc_aborted c)" "jsmap_has (cc_pending c) (cmd_sequence (ce_command (cc_entries c ! e)))"
    "cmd_sequence (ce_command (cc_entries c ! e)) = q"
    using pe e by (auto simp: ctrlof_def seqof_def jsmap_has_def)
  then show ?thesis
    using pe(1) e by (simp add: retryTimeout_def attemptSend_def Let_def MAX_RETRIES_def settle_def)
qed

lemma retries_exhaust:
  assumes "cc_inv c" "map_of (cc_pending c) q = Some e" "length ts = 4 - attempts c e"
  shows "cc_settled (fold (\<lambda>perf. retryTimeout perf e) ts c) = cc_settled c @ [(e, Failed (retries_error q))]
    \<and> cc_sent (fold (\<lambda>perf. retryTimeout perf e) ts c) = cc_sent c @ replicate (3 - attempts c e) (ce_encoded (cc_entries c ! e))"
  using assms
proof (induction ts arbitrary: c)
  case Nil
  then show ?case using pending_invD(8) [OF Nil(1,2)] by simp
next
  case (Cons t ts)
  note pe = pending_invD [OF Cons.prems(1,2)] and st = retry_step [OF Cons.prems(1,2), of t]
  have inv': "cc_inv (retryTimeout t e c)" by (rule cc_inv_retry [OF Cons.prems(1) pe(6)])
  show ?case
  proof (cases "attempts c e < 3")
    case True
    then have st': "attempts (retryTimeout t e c) e = Suc (attempts c e)" "map_of (cc_pending (retryTimeout t e c)) q = Some e"
      "cc_sent (retryTimeout t e c) = cc_sent c @ [ce_encoded (cc_entries c ! e)]"
      "ce_encoded (cc_entries (retryTimeout t e c) ! e) = ce_encoded (cc_entries c ! e)" using st by auto
    have same: "cc_settled (retryTimeout t e c) = cc_settled c"
      using True pe(5) by (simp add: retryTimeout_def attemptSend_def Let_def MAX_RETRIES_def ctrlof_def)
    have "3 - attempts c e = Suc (3 - Suc (attempts c e))" using True by simp
    then show ?thesis
      using Cons.IH [OF inv' st'(2)] Cons.prems(3) st' True same by simp
  next
    case False
    then have "ts = []" "attempts c e = 3" using Cons.prems(3) pe(8) by auto
    then show ?thesis using st by simp
  qed
qed

section \<open>Message count and rotation\<close>

lemma cc_rotation_reachable:
  "cc_reachable sign c \<Longrightarrow> nullish (cc_msgCount c) 0 = int (length (cc_entries c))
     \<and> cc_rotations c = filter (\<lambda>k. k mod 1000 = 0) [1..int (length (cc_entries c))]"
proof (induction rule: cc_reachable.induct)
  case cc_init
  then show ?case by (simp add: createCommandClient_def)
next
  case (cc_next c ev)
  note inv = cc_inv_reachable [OF cc_next.hyps]
  have send: "nullish (cc_msgCount c') 0 = int (length (cc_entries c'))
     \<and> cc_rotations c' = filter (\<lambda>k. k mod 1000 = 0) [1..int (length (cc_entries c'))]"
    if "c' = snd (sendCommand True sign now perf t payload c)" for c' now perf t payload
  proof -
    have "[1..int (length (cc_entries c)) + 1] = [1..int (length (cc_entries c))] @ [int (length (cc_entries c)) + 1]"
      using upto_rec2 [of 1 "int (length (cc_entries c)) + 1"] by simp
    moreover have "nullish (cc_msgCount c') 0 = nullish (cc_msgCount c) 0 + 1"
      "length (cc_entries c') = Suc (length (cc_entries c))"
      "cc_rotations c' = cc_rotations c @ (if nullish (cc_msgCount c) 0 + 1 > 0 \<and> (nullish (cc_msgCount c) 0 + 1) mod 1000 = 0
         then [nullish (cc_msgCount c) 0 + 1] else [])"
      using cc_inv_fresh_ctrl [OF inv] that
      by (simp_all add: sendCommand_def getNextSequence_def Let_def case_prod_beta dispatch_def sendCommandWithRetry_eq
          handleKeyRotation_def getAndIncrementMessageCount_def startHeartbeat_def stopHeartbeat_def ROTATION_THRESHOLD_def)
    ultimately show ?thesis using cc_next.IH by (auto simp: add.commute)
  qed
  have keep: "nullish (cc_msgCount c') 0 = int (length (cc_entries c'))
     \<and> cc_rotations c' = filter (\<lambda>k. k mod 1000 = 0) [1..int (length (cc_entries c'))]"
    if "cc_msgCount c' = cc_msgCount c" "length (cc_entries c') = length (cc_entries c)" "cc_rotations c' = cc_rotations c" for c'
    using that cc_next.IH by simp
  show ?case
  proof (cases ev)
    case (CcSend guardOk t payload now perf)
    then show ?thesis using send [OF refl] cc_next.IH by (cases guardOk) (simp_all add: sendCommand_def [of False])
  next
    case (CcPing guardOk now perf)
    then show ?thesis using send [OF refl] cc_next.IH by (cases guardOk) (simp_all add: sendPing_def sendCommand_def [of False])
  next
    case (CcReceive perf raw)
    have same: "cc_msgCount (abort_timeout q d) = cc_msgCount d" "cc_entries (abort_timeout q d) = cc_entries d"
      "cc_rotations (abort_timeout q d) = cc_rotations d" for q d
      by (simp_all add: abort_timeout_def abort_def split: option.split)
    then have pong: "cc_msgCount (handlePong q c) = cc_msgCount c" "cc_entries (handlePong q c) = cc_entries c"
      "cc_rotations (handlePong q c) = cc_rotations c" for q
      by (simp_all add: handlePong_def)
    have answered: "cc_msgCount (answerPending perf r d) = cc_msgCount d" "cc_entries (answerPending perf r d) = cc_entries d"
      "cc_rotations (answerPending perf r d) = cc_rotations d" for r d
      by (simp_all add: answerPending_def settle_def same Let_def split: option.split)
    show ?thesis unfolding CcReceive by (intro keep) (simp_all add: handleIncomingResponse_def answered pong split: option.split)
  qed (use cc_next.IH in \<open>simp_all add: retryTimeout_def attemptSend_def settle_def Let_def sendHeartbeatPing_def
      getNextSequence_def pingTimeout_def startHeartbeat_def stopHeartbeat_def\<close>)
qed

text \<open>
  The two counters as tasks: \<open>getNextSequence\<close> reads and writes with an \<open>await\<close> in between and no
  lock; \<open>getAndIncrementMessageCount\<close> is the same under the promise chain.
\<close>

definition counter_task :: "(int option, int) task" where
  "counter_task = (0, [\<lambda>(s, l). (s, nullish s 0), \<lambda>(s, l). (Some (l + 1), l + 1)])"

lemma serial_counter:
  "serial (replicate n counter_task) s =
     (if n = 0 then s else Some (nullish s 0 + int n), [nullish s 0 + 1..nullish s 0 + int n])"
proof (induction n arbitrary: s)
  case (Suc n)
  have "[nullish s 0 + 1..nullish s 0 + (1 + int n)] = (nullish s 0 + 1) # [nullish s 0 + 2..nullish s 0 + (1 + int n)]"
    using upto_rec1 [of "nullish s 0 + 1" "nullish s 0 + (1 + int n)"] by (simp add: add.commute)
  then show ?case using Suc [of "Some (nullish s 0 + 1)"] by (simp add: counter_task_def algebra_simps)
qed simp

section \<open>Properties\<close>



definition sample_client :: command_client where
  "sample_client = cc_exec (\<lambda>_. None) (CcSend True ReadScreen JNull 1000 5) (createCommandClient None None)"

lemma sample_client_reachable: "cc_reachable (\<lambda>_. None) sample_client"
  unfolding sample_client_def by (intro cc_reachable.intros)

lemma sample_client_pending: "map_of (cc_pending sample_client) 1 = Some 0 \<and> attempts sample_client 0 = 1 \<and> length (cc_entries sample_client) = 1"
  by (simp add: sample_client_def sendCommand_def getNextSequence_def dispatch_def handleKeyRotation_def
      getAndIncrementMessageCount_def startHeartbeat_def stopHeartbeat_def createCommandClient_def signPayload_def createCommand_def
      sendCommandWithRetry_eq ROTATION_THRESHOLD_def Let_def case_prod_beta)



text \<open>
  Keys rotate every thousand messages: in every reachable state the rotations asked for are
  exactly the multiples of 1000 up to the number of commands sent, in order.
\<close>

theorem rotation_every_thousand:
  assumes "cc_reachable sign c"
  shows "cc_rotations c = filter (\<lambda>k. k mod ROTATION_THRESHOLD = 0) [1..int (length (cc_entries c))]
    \<and> nullish (cc_msgCount c) 0 = int (length (cc_entries c))"
  using cc_rotation_reachable [OF assms] by (simp add: ROTATION_THRESHOLD_def)

theorem rotation_every_thousand_witness: "cc_rotations sample_client = [] \<and> nullish (cc_msgCount sample_client) 0 = 1"
  using rotation_every_thousand [OF sample_client_reachable] sample_client_pending by (simp add: ROTATION_THRESHOLD_def)

text \<open>
  The message count is exact under concurrency: however calls of \<open>getAndIncrementMessageCount\<close>
  interleave, when the chain is idle the \<open>n\<close> calls made have returned \<open>n\<close> consecutive numbers in the
  order of the calls and the stored count is the last of them.
\<close>

theorem message_count_exact:
  assumes "chain_reachable s l c" "ch_running c = None" "ch_waiting c = []" "ch_issued c = replicate n counter_task"
  shows "ch_results c = [nullish s 0 + 1..nullish s 0 + int n] \<and> nullish (ch_state c) 0 = nullish s 0 + int n"
  using chain_serial [OF assms(1-3)] serial_counter [of n s] assms(4) by (auto split: if_splits)

theorem message_count_exact_witness:
  "\<exists>(c :: (int option, int) chain). ch_issued c = replicate 3 counter_task \<and> ch_results c = [8..10] \<and> nullish (ch_state c) 0 = 10"
proof -
  obtain c0 where "chain_reachable (Some 7) 0 c0" "ch_issued c0 = replicate 3 counter_task"
    using chain_issue [of "Some 7" 0 "replicate 3 counter_task"] by blast
  then obtain c where "chain_reachable (Some 7) 0 c" "ch_running c = None" "ch_waiting c = []" "ch_issued c = replicate 3 counter_task"
    using chain_drains by metis
  from message_count_exact [OF this] show ?thesis using \<open>ch_issued c = _\<close> by auto
qed

text \<open>
  The sequence number has no such lock. Two commands whose calls of \<open>getNextSequence\<close> overlap
  get the same number, and then the first is lost: its entry in the map is overwritten, the answer
  settles the second only, and when the first one's timer fires it finds nothing pending and stops.
\<close>

theorem overlapping_sequence_loses_command:
  assumes "cc_nextCtrl c \<notin> set (cc_aborted c)" "Suc (cc_nextCtrl c) \<notin> set (cc_aborted c)"
    and "cmd_sequence cmd1 = q" "cmd_sequence cmd2 = q" "rsp_sequence rsp = q"
    and "sendCommandWithRetry perf cmd1 enc1 c = (e1, c1)" "sendCommandWithRetry perf cmd2 enc2 c1 = (e2, c2)"
    and "c3 = answerPending perf' rsp c2"
  shows "unlocked [0, 1, 0, 1] s [counter_task, counter_task] = (Some (nullish s 0 + 1), [(nullish s 0 + 1, []), (nullish s 0 + 1, [])])
    \<and> e1 \<noteq> e2 \<and> map fst (cc_settled c3) = map fst (cc_settled c) @ [e2] \<and> map_of (cc_pending c3) q = None
    \<and> cc_settled (retryTimeout perf'' e1 c3) = cc_settled c3 \<and> cc_sent (retryTimeout perf'' e1 c3) = cc_sent c3"
proof -
  have c1: "c1 = snd (sendCommandWithRetry perf cmd1 enc1 c)" and c2: "c2 = snd (sendCommandWithRetry perf cmd2 enc2 c1)"
    and e: "e1 = length (cc_entries c)" "e2 = length (cc_entries c1)"
    using assms(6,7) by (auto simp: sendCommandWithRetry_def Let_def)
  note eq1 = c1 [unfolded sendCommandWithRetry_eq [OF assms(1)]]
  have "cc_nextCtrl c1 \<notin> set (cc_aborted c1)" using assms(2) by (simp add: eq1)
  note eq2 = c2 [unfolded sendCommandWithRetry_eq [OF this]]
  have f: "cc_entries c2 = cc_entries c @ [\<lparr>ce_command = cmd1, ce_encoded = enc1, ce_attempts = 1, ce_sentAt = perf, ce_ctrl = cc_nextCtrl c\<rparr>,
      \<lparr>ce_command = cmd2, ce_encoded = enc2, ce_attempts = 1, ce_sentAt = perf, ce_ctrl = Suc (cc_nextCtrl c)\<rparr>]"
    "map_of (cc_pending c2) q = Some e2" "cc_settled c2 = cc_settled c" "map_of (cc_pendingTimeouts c2) q = Some (Suc (cc_nextCtrl c))"
    "e2 = Suc e1"
    using assms(3,4) by (simp_all add: eq1 eq2 e)
  have g: "cc_entries c3 = cc_entries c2" "map_of (cc_pending c3) = (map_of (cc_pending c2))(q := None)"
    "map fst (cc_settled c3) = map fst (cc_settled c) @ [e2]"
    using f(2-4) assms(5) by (simp_all add: assms(8) answerPending_def Let_def settle_def abort_timeout_def abort_def)
  have "\<not> jsmap_has (cc_pending c3) (cmd_sequence (ce_command (cc_entries c3 ! e1)))"
    using g(1,2) f(1) assms(3) by (simp add: jsmap_has_def e(1) nth_append)
  then show ?thesis
    using g f(5) by (simp add: retryTimeout_def Let_def counter_task_def)
qed

theorem overlapping_sequence_loses_command_witness:
  "map fst (cc_settled (answerPending 9 \<lparr>rsp_sequence = 1, rsp_status = ''ok'', rsp_json = JNull\<rparr>
     (snd (sendCommandWithRetry 5 (createCommand 1000 ReadScreen JNull 1) ''b''
       (snd (sendCommandWithRetry 5 (createCommand 1000 ReadScreen JNull 1) ''a'' (createCommandClient None None))))))) = [1]"
proof -
  define c1 where "c1 = snd (sendCommandWithRetry 5 (createCommand 1000 ReadScreen JNull 1) ''a'' (createCommandClient None None))"
  define c2 where "c2 = snd (sendCommandWithRetry 5 (createCommand 1000 ReadScreen JNull 1) ''b'' c1)"
  have s1: "sendCommandWithRetry 5 (createCommand 1000 ReadScreen JNull 1) ''a'' (createCommandClient None None) = (0, c1)"
    by (simp add: c1_def sendCommandWithRetry_def Let_def createCommandClient_def)
  have s2: "sendCommandWithRetry 5 (createCommand 1000 ReadScreen JNull 1) ''b'' c1 = (1, c2)"
    by (simp add: c2_def c1_def sendCommandWithRetry_def attemptSend_def MAX_RETRIES_def Let_def createCommandClient_def)
  show ?thesis
    using overlapping_sequence_loses_command [OF _ _ _ _ _ s1 s2 refl, where q = 1 and rsp = "\<lparr>rsp_sequence = 1, rsp_status = ''ok'', rsp_json = JNull\<rparr>" and perf' = 9]
    by (simp add: createCommandClient_def createCommand_def c1_def c2_def)
qed

text \<open>
  The heartbeat declares the transport dead after three unanswered pings in a row and not before:
  a ping whose timeout runs out counts as missed, the third one stops the heartbeat and reports; a
  pong for the outstanding ping resets the count and cancels the timeout.
\<close>

theorem heartbeat_three_misses:
  assumes "cc_pendingPingSeq c = Some q" "ac \<notin> set (cc_aborted c)"
  shows "cc_missedPings (pingTimeout ac q c) = cc_missedPings c + 1
    \<and> cc_transportDead (pingTimeout ac q c) = cc_transportDead c @ (if cc_missedPings c + 1 \<ge> 3 then [dead_reason] else [])
    \<and> (cc_missedPings c + 1 \<ge> 3 \<longrightarrow> \<not> cc_heartbeatTimer (pingTimeout ac q c))
    \<and> cc_missedPings (handlePong q c) = 0
    \<and> (map_of (cc_pendingTimeouts c) q = Some ac \<longrightarrow> cc_missedPings (pingTimeout ac q (handlePong q c)) = 0)"
  using assms
  by (auto simp: pingTimeout_def Let_def MAX_MISSED_PINGS_def stopHeartbeat_def handlePong_def abort_timeout_def abort_def
      split: option.splits)

definition ping_out :: command_client where
  "ping_out = (createCommandClient None None)\<lparr>cc_pendingPingSeq := Some 4, cc_missedPings := 2, cc_heartbeatTimer := True,
     cc_pendingTimeouts := [(4, 9)]\<rparr>"

theorem heartbeat_three_misses_witness:
  "cc_transportDead (pingTimeout 9 4 ping_out) = [dead_reason] \<and> \<not> cc_heartbeatTimer (pingTimeout 9 4 ping_out)
   \<and> cc_missedPings (handlePong 4 ping_out) = 0"
  using heartbeat_three_misses [of ping_out 4 9] by (simp add: ping_out_def createCommandClient_def)

text \<open>
  A slow ping is never counted as missed. When the next ping goes out before the timeout of the
  previous one (three retransmission timeouts) has run out, the previous one's timeout finds another
  ping outstanding and does nothing: with a retransmission timeout above five seconds, which slow
  answers do lead to, the heartbeat cannot detect a dead transport.
\<close>

theorem slow_ping_never_missed:
  assumes "now - cc_lastCommandTime c \<ge> HEARTBEAT_INTERVAL_MS" "now' - cc_lastCommandTime c \<ge> HEARTBEAT_INTERVAL_MS"
    and "c1 = sendHeartbeatPing now ts c" "c2 = sendHeartbeatPing now' ts' c1"
  shows "cc_pendingPingSeq c1 = Some (counter c + 1)
    \<and> cc_missedPings (pingTimeout (cc_nextCtrl c) (counter c + 1) c2) = cc_missedPings c
    \<and> cc_transportDead (pingTimeout (cc_nextCtrl c) (counter c + 1) c2) = cc_transportDead c
    \<and> of_nat MAX_RETRIES * getRto (rtt_run [Some 20000, Some 20000] new_RttEstimator) > of_int HEARTBEAT_INTERVAL_MS"
proof -
  have "of_nat MAX_RETRIES * getRto (rtt_run [Some 20000, Some 20000] new_RttEstimator) > of_int HEARTBEAT_INTERVAL_MS"
    by (simp add: rtt_run_def updateRtt_def new_RttEstimator_def rtt_alpha_def rtt_beta_def getRto_def MAX_RETRIES_def
        HEARTBEAT_INTERVAL_MS_def max_def)
  then show ?thesis using assms by (simp add: sendHeartbeatPing_def getNextSequence_def Let_def pingTimeout_def)
qed

theorem slow_ping_never_missed_witness:
  "cc_missedPings (pingTimeout 0 1 (sendHeartbeatPing 30000 2 (sendHeartbeatPing 15000 1 (createCommandClient None None)))) = 0"
  using slow_ping_never_missed [of "15000" "createCommandClient None None" 30000 _ 1 _ 2, OF _ _ refl refl]
  by (simp add: createCommandClient_def HEARTBEAT_INTERVAL_MS_def)

end
