(* ===== verification/PairingCodes.thy ===== *)
theory PairingCodes
  imports Json
begin

text \<open>
  What is shown and scanned while pairing: the six-digit code, the pairing URL and the payload of the
  QR code (\<open>lib/channel/qrCode.ts\<close>), and the three emoji of the short authentication string
  (\<open>lib/channel/emojiSas.ts\<close>, \<open>lib/channel/emojiPalette.ts\<close>). The hash function and random values are
  parameters. An emoji is its code point.
\<close>

section \<open>Codes and URLs\<close>

definition SAS_LENGTH :: nat where "SAS_LENGTH = 6"
definition SAS_TTL_MS :: millis where "SAS_TTL_MS = 60000"
definition PAIRING_SCHEME :: string where "PAIRING_SCHEME = ''smartid2-pair''"
definition pairing_prefix :: string where "pairing_prefix = PAIRING_SCHEME @ ''://''"

text \<open>\<open>randoms\<close> are the values of \<open>Math.floor(Math.random() * 10)\<close>.\<close>

definition generateSasCode :: "(nat \<Rightarrow> nat) \<Rightarrow> string" where
  "generateSasCode randoms = map (\<lambda>i. ''0123456789'' ! randoms i) [0..<SAS_LENGTH]"

definition toBase64Url :: "bytes \<Rightarrow> string" where
  "toBase64Url data = strip_eqs (map url_char (btoa data))"

definition computeCommitment :: "(bytes \<Rightarrow> bytes) \<Rightarrow> bytes \<Rightarrow> bytes \<Rightarrow> string \<Rightarrow> string" where
  "computeCommitment sha256 extensionStaticKey nonce sasCode =
     toBase64Url (sha256 (extensionStaticKey @ nonce @ utf8_encode sasCode))"

text \<open>A byte array is truthy even when empty, a string only when it is not.\<close>

definition buildPairingUrl :: "string \<Rightarrow> bytes option \<Rightarrow> string option \<Rightarrow> string" where
  "buildPairingUrl sasCode nonce commitment =
     pairing_prefix @ sasCode @
     (case (nonce, commitment) of
        (Some n, Some c) \<Rightarrow> if c \<noteq> [] then ''?nonce='' @ toBase64Url n @ ''&commitment='' @ c else []
      | _ \<Rightarrow> [])"

definition is_sas_code :: "string \<Rightarrow> bool" where
  "is_sas_code code \<longleftrightarrow> length code = SAS_LENGTH \<and> list_all is_digit_char code"

text \<open>The part after the scheme, split at the first question mark.\<close>

definition split_query :: "string \<Rightarrow> string \<times> string option" where
  "split_query rest =
     (case index_of (CHR ''?'') rest of
        Some i \<Rightarrow> (take i rest, Some (drop (i + 1) rest))
      | None \<Rightarrow> (rest, None))"

definition extractSasCode :: "string \<Rightarrow> string option" where
  "extractSasCode url =
     (let prefix = pairing_prefix in
      if \<not> starts_with url prefix then None
      else let code = fst (split_query (drop (length prefix) url)) in if is_sas_code code then Some code else None)"

record pairing_url =
  pu_sasCode :: string
  pu_nonce :: "string option"
  pu_commitment :: "string option"

definition query_part :: "string \<Rightarrow> string option \<times> string option \<Rightarrow> string option \<times> string option" where
  "query_part part nc =
     (case index_of (CHR ''='') part of
        None \<Rightarrow> nc
      | Some i \<Rightarrow>
          (let key = take i part; value = drop (i + 1) part in
           if key = ''nonce'' then (Some value, snd nc)
           else if key = ''commitment'' then (fst nc, Some value)
           else nc))"

definition parsePairingUrl :: "string \<Rightarrow> pairing_url option" where
  "parsePairingUrl url =
     (let prefix = pairing_prefix in
      if \<not> starts_with url prefix then None
      else
       (case split_query (drop (length prefix) url) of (code, query) \<Rightarrow>
          if \<not> is_sas_code code then None
          else
           (let nc = (case query of None \<Rightarrow> (None, None) | Some q \<Rightarrow> fold query_part (split_on (CHR ''&'') q) (None, None))
            in Some \<lparr>pu_sasCode = code, pu_nonce = fst nc, pu_commitment = snd nc\<rparr>)))"

section \<open>The QR payload\<close>

definition compressSdp :: "string \<Rightarrow> string" where
  "compressSdp sdp = btoa (utf8_encode sdp)"

definition candidateToShort :: "string \<Rightarrow> string" where
  "candidateToShort candidate =
     (let parts = split_on (CHR '' '') candidate in
      if length parts \<ge> 8 then join_with '' '' (take 8 parts) else candidate)"

definition encodePairingPayload :: "string \<Rightarrow> string option \<Rightarrow> string list option \<Rightarrow> string" where
  "encodePairingPayload sasCode sdpOffer iceCandidates =
     stringify (JObj ([(''v'', JNum 2), (''c'', JStr sasCode)]
       @ (case sdpOffer of Some s \<Rightarrow> if s \<noteq> [] then [(''s'', JStr (compressSdp s))] else [] | None \<Rightarrow> [])
       @ (case iceCandidates of
            Some cs \<Rightarrow> if cs \<noteq> [] then [(''i'', JArr (map (\<lambda>c. JStr (candidateToShort c)) cs))] else []
          | None \<Rightarrow> [])))"

record pairing_payload =
  pp_sasCode :: string
  pp_sdpOffer :: "string option"
  pp_iceCandidates :: "json option"

text \<open>
  The fields are cast, not checked: the code is taken to be a string and the candidates are passed on
  as they are (\<open>null\<close> becomes none). Reading a property of \<open>null\<close>, or decoding what is no base64, ends
  in the handler that returns null.
\<close>

definition decodePairingPayload :: "string \<Rightarrow> pairing_payload option" where
  "decodePairingPayload payload =
     (case json_parse payload of
        None \<Rightarrow> None
      | Some parsed \<Rightarrow>
          (case jget parsed ''c'' of
             Some (JStr c) \<Rightarrow>
               if c = [] \<or> jget parsed ''v'' \<noteq> Some (JNum 2) then None
               else
                (let i = (case jget parsed ''i'' of Some JNull \<Rightarrow> None | x \<Rightarrow> x) in
                 case jget parsed ''s'' of
                   Some (JStr s) \<Rightarrow>
                     if s = [] then Some \<lparr>pp_sasCode = c, pp_sdpOffer = None, pp_iceCandidates = i\<rparr>
                     else (case atob s of
                             None \<Rightarrow> None
                           | Some bs \<Rightarrow> Some \<lparr>pp_sasCode = c, pp_sdpOffer = Some (utf8_decode bs), pp_iceCandidates = i\<rparr>)
                 | _ \<Rightarrow> Some \<lparr>pp_sasCode = c, pp_sdpOffer = None, pp_iceCandidates = i\<rparr>)
           | _ \<Rightarrow> None))"

section \<open>The emoji\<close>

definition EMOJI_PALETTE :: "(nat \<times> string) list" where
  "EMOJI_PALETTE =
     [(0x1F680, ''Rocket''), (0x1F3B8, ''Guitar''), (0x1F951, ''Avocado''), (0x1F40B, ''Whale''),
      (0x1F308, ''Rainbow''), (0x1F334, ''Palm Tree''), (0x1F427, ''Penguin''), (0x1F30D, ''Globe''),
      (0x1F438, ''Frog''), (0x1F98A, ''Fox''), (0x1F31F, ''Star''), (0x1F349, ''Watermelon''),
      (0x1F4A1, ''Light Bulb''), (0x1F525, ''Fire''), (0x1F98B, ''Butterfly''), (0x1F422, ''Turtle''),
      (0x1F33B, ''Sunflower''), (0x1F36B, ''Chocolate''), (0x1F4A3, ''Bomb''), (0x1F40C, ''Snail''),
      (0x1F318, ''Moon''), (0x1F3AF, ''Target''), (0x1F48E, ''Gem''), (0x1F381, ''Gift''),
      (0x1F6C0, ''Bath''), (0x1F98D, ''Gorilla''), (0x1F418, ''Elephant''), (0x1F98C, ''Deer''),
      (0x1F40A, ''Crocodile''), (0x1F32D, ''Hot Dog''), (0x1F3C0, ''Basketball''), (0x1F3C8, ''Football''),
      (0x1F3BE, ''Tennis''), (0x1F47B, ''Ghost''), (0x1F4A9, ''Pile of Poo''), (0x1F916, ''Robot''),
      (0x1F954, ''Potato''), (0x1F34E, ''Apple''), (0x1F34C, ''Banana''), (0x1F353, ''Strawberry''),
      (0x1F355, ''Pizza''), (0x1F354, ''Hamburger''), (0x1F436, ''Dog''), (0x1F431, ''Cat''),
      (0x1F430, ''Rabbit''), (0x1F434, ''Horse''), (0x1F984, ''Unicorn''), (0x1F988, ''Shark''),
      (0x1F42C, ''Dolphin''), (0x1F41D, ''Bee''), (0x1F41B, ''Bug''), (0x1F4A6, ''Droplets''),
      (0x1F32A, ''Tornado''), (0x1F30A, ''Wave''), (0x26A1, ''Lightning''), (0x2600, ''Sun''),
      (0x2744, ''Snowflake''), (0x1F33A, ''Hibiscus''), (0x1F33C, ''Blossom''), (0x1F33E, ''Sheaf of Rice''),
      (0x1F6B2, ''Bicycle''), (0x2708, ''Airplane''), (0x1F6A2, ''Ship''), (0x1F453, ''Eyeglasses'')]"

text \<open>\<open>None\<close> is the thrown \<open>RangeError\<close>.\<close>

definition emojiAtIndex :: "nat \<Rightarrow> nat option" where
  "emojiAtIndex index = map_option fst (item_at EMOJI_PALETTE index)"

definition deriveEmojiSas :: "(bytes \<Rightarrow> bytes) \<Rightarrow> bytes \<Rightarrow> nat list option" where
  "deriveEmojiSas sha256 sessionKey =
     (let bs = sha256 sessionKey;
          i1 = unat (bs ! 0 AND 0x3f); i2 = unat (bs ! 1 AND 0x3f); i3 = unat (bs ! 2 AND 0x3f)
      in case (emojiAtIndex i1, emojiAtIndex i2, emojiAtIndex i3) of
           (Some a, Some b, Some c) \<Rightarrow> Some [a, b, c]
         | _ \<Rightarrow> None)"

section \<open>Lemmas\<close>

lemma toBase64Url_eq: "toBase64Url bs = base64urlEncode bs"
  by (simp add: toBase64Url_def base64urlEncode_def)

lemma index_of_append_fresh: "CHR ''?'' \<notin> set a \<Longrightarrow> index_of (CHR ''?'') (a @ CHR ''?'' # b) = Some (length a)"
  by (rule index_of_append)

lemma digits_no_special: "list_all is_digit_char s \<Longrightarrow> CHR ''?'' \<notin> set s"
  by (auto simp: list_all_iff is_digit_char_iff)

lemma base64url_safe:
  assumes "c \<in> set (base64urlEncode bs)"
  shows "c \<noteq> CHR ''&'' \<and> c \<noteq> CHR ''=''"
proof -
  from assms obtain n where n: "n < 64" "c = url_char (b64_char n)"
    using to_sextets_less by (auto simp: base64urlEncode_eq)
  then have "(of_char (b64_char n) :: nat) \<noteq> 38" by (auto simp: of_char_b64_char)
  then show ?thesis using n b64_char_plain [OF n(1)] by (auto simp: url_char_def)
qed

lemma query_part_pair: "CHR ''='' \<notin> set k \<Longrightarrow> query_part (k @ CHR ''='' # v) nc =
    (if k = ''nonce'' then (Some v, snd nc) else if k = ''commitment'' then (fst nc, Some v) else nc)"
  by (simp add: query_part_def index_of_append Let_def)

lemma and_3f_less: "unat (b AND 0x3f :: byte) < 64"
proof -
  have "b AND 0x3f \<le> (0x3f :: byte)" by (rule word_and_le1)
  then have "unat (b AND 0x3f) \<le> unat (0x3f :: byte)" by (simp only: word_le_nat_alt)
  then show ?thesis by simp
qed

lemma palette_distinct: "distinct (map fst EMOJI_PALETTE) \<and> length EMOJI_PALETTE = 64"
  by (simp add: EMOJI_PALETTE_def)

lemma emojiAtIndex_inject:
  "i < 64 \<Longrightarrow> j < 64 \<Longrightarrow> emojiAtIndex i = emojiAtIndex j \<longleftrightarrow> i = j"
  using palette_distinct by (auto simp: emojiAtIndex_def item_at_def distinct_conv_nth) (metis length_map nth_map)

section \<open>Properties\<close>

text \<open>
  What is put into a pairing URL is read out of it: for a six-digit code, a nonce and a commitment,
  parsing the URL gives the code, the nonce (from which base64url recovers the bytes) and the
  commitment; without them it gives the code alone; and a URL is accepted only with a six-digit code.
\<close>

theorem pairing_url_roundtrip:
  assumes "is_sas_code code"
  shows "parsePairingUrl (buildPairingUrl code None None) = Some \<lparr>pu_sasCode = code, pu_nonce = None, pu_commitment = None\<rparr>
    \<and> parsePairingUrl (buildPairingUrl code (Some nonce) (Some (computeCommitment sha256 key nonce code))) =
        (if sha256 (key @ nonce @ utf8_encode code) = [] then parsePairingUrl (buildPairingUrl code None None)
         else Some \<lparr>pu_sasCode = code, pu_nonce = Some (toBase64Url nonce), pu_commitment = Some (computeCommitment sha256 key nonce code)\<rparr>)
    \<and> base64urlDecode (toBase64Url nonce) = Some nonce
    \<and> extractSasCode (buildPairingUrl code n c) = Some code"
proof -
  let ?pre = pairing_prefix
  let ?c = "computeCommitment sha256 key nonce code"
  have nq: "CHR ''?'' \<notin> set code" using assms digits_no_special by (simp add: is_sas_code_def)
  have split0: "split_query code = (code, None)" using nq by (simp add: split_query_def index_of_not_in)
  have split1: "split_query (code @ CHR ''?'' # r) = (code, Some r)" for r
    using nq by (simp add: split_query_def index_of_append)
  have none: "buildPairingUrl code None None = ?pre @ code" by (simp add: buildPairingUrl_def)
  have p0: "parsePairingUrl (?pre @ code) = Some \<lparr>pu_sasCode = code, pu_nonce = None, pu_commitment = None\<rparr>"
    using assms split0 unfolding parsePairingUrl_def Let_def by simp
  have c_ne: "?c = [] \<longleftrightarrow> sha256 (key @ nonce @ utf8_encode code) = []"
    using b64url.enc_inject [of _ "[]"] by (simp add: computeCommitment_def toBase64Url_eq base64urlEncode_eq)
  have some: "buildPairingUrl code (Some nonce) (Some ?c) =
      (if ?c = [] then ?pre @ code else ?pre @ code @ CHR ''?'' # (''nonce='' @ toBase64Url nonce) @ CHR ''&'' # (''commitment='' @ ?c))"
    by (simp add: buildPairingUrl_def)
  have parts: "split_on (CHR ''&'') ((''nonce='' @ toBase64Url nonce) @ CHR ''&'' # (''commitment='' @ ?c))
      = [''nonce='' @ toBase64Url nonce, ''commitment='' @ ?c]"
  proof -
    have a: "CHR ''&'' \<notin> set (''nonce='' @ toBase64Url nonce)" and b: "CHR ''&'' \<notin> set (''commitment='' @ ?c)"
      using base64url_safe by (auto simp: toBase64Url_eq computeCommitment_def)
    show ?thesis by (subst split_on_append [OF a], subst split_on_not_in [OF b], rule refl)
  qed
  have fold: "fold query_part [''nonce='' @ toBase64Url nonce, ''commitment='' @ ?c] (None, None) = (Some (toBase64Url nonce), Some ?c)"
    using query_part_pair [of "''nonce''" "toBase64Url nonce"] query_part_pair [of "''commitment''" ?c] by simp
  have p1: "parsePairingUrl (?pre @ code @ CHR ''?'' # (''nonce='' @ toBase64Url nonce) @ CHR ''&'' # (''commitment='' @ ?c))
      = Some \<lparr>pu_sasCode = code, pu_nonce = Some (toBase64Url nonce), pu_commitment = Some ?c\<rparr>"
    using assms split1 [of "(''nonce='' @ toBase64Url nonce) @ CHR ''&'' # (''commitment='' @ ?c)"] fold parts
    unfolding parsePairingUrl_def Let_def by simp
  have ex: "extractSasCode (buildPairingUrl code n c) = Some code"
  proof -
    have "buildPairingUrl code n c = ?pre @ code \<or> (\<exists>r. buildPairingUrl code n c = ?pre @ code @ CHR ''?'' # r)"
      by (auto simp: buildPairingUrl_def split: option.splits)
    then show ?thesis using assms split0 split1 by (auto simp: extractSasCode_def Let_def)
  qed
  show ?thesis using p0 p1 some none ex c_ne base64url_roundtrip [of nonce] by (simp add: toBase64Url_eq)
qed

theorem pairing_url_roundtrip_witness:
  "parsePairingUrl (buildPairingUrl ''123456'' None None) = Some \<lparr>pu_sasCode = ''123456'', pu_nonce = None, pu_commitment = None\<rparr>
   \<and> extractSasCode (buildPairingUrl ''123456'' (Some [1, 2]) (Some ''x'')) = Some ''123456''"
  using pairing_url_roundtrip [of "''123456''" "[]" "\<lambda>x. x" "[]" "Some [1, 2]" "Some ''x''"]
  by (simp add: is_sas_code_def SAS_LENGTH_def is_digit_char_def)

lemma jget_append: "jget (JObj (ps @ qs)) k = (case map_of ps k of None \<Rightarrow> map_of qs k | Some v \<Rightarrow> Some v)"
  by (simp add: map_add_def split: option.split)

text \<open>
  The QR payload is decoded to what was encoded: the code, the session description if there was
  one, and the ICE candidates cut to their first eight fields; a text with another version or no code
  is refused.
\<close>

theorem pairing_payload_roundtrip:
  assumes "code \<noteq> []"
  shows "decodePairingPayload (encodePairingPayload code sdp ice) =
    Some \<lparr>pp_sasCode = code, pp_sdpOffer = (if sdp = Some [] then None else sdp),
      pp_iceCandidates = (case ice of
          Some (c # cs) \<Rightarrow> Some (JArr (map (\<lambda>c. JStr (candidateToShort c)) (c # cs))) | _ \<Rightarrow> None)\<rparr>"
proof -
  define ps where "ps = (case sdp of Some s \<Rightarrow> if s \<noteq> [] then [(''s'', JStr (compressSdp s))] else [] | None \<Rightarrow> [])"
  define cands where "cands = (case ice of
      Some cs \<Rightarrow> if cs \<noteq> [] then [(''i'', JArr (map (\<lambda>c. JStr (candidateToShort c)) cs))] else [] | None \<Rightarrow> [])"
  let ?j = "JObj ([(''v'', JNum 2), (''c'', JStr code)] @ ps @ cands)"
  have "jwf ?j" by (auto simp: ps_def cands_def split: option.splits)
  moreover have "encodePairingPayload code sdp ice = stringify ?j"
    unfolding encodePairingPayload_def ps_def cands_def ..
  ultimately have parse: "json_parse (encodePairingPayload code sdp ice) = Some ?j"
    using parse_stringify by metis
  have vc: "jget ?j ''v'' = Some (JNum 2)" "jget ?j ''c'' = Some (JStr code)" by simp_all
  have s: "jget ?j ''s'' = (case sdp of Some s \<Rightarrow> if s \<noteq> [] then Some (JStr (compressSdp s)) else None | None \<Rightarrow> None)"
    by (auto simp: ps_def cands_def split: option.splits)
  have i: "jget ?j ''i'' = (case ice of
      Some cs \<Rightarrow> if cs \<noteq> [] then Some (JArr (map (\<lambda>c. JStr (candidateToShort c)) cs)) else None | None \<Rightarrow> None)"
    by (auto simp: ps_def cands_def split: option.splits)
  have ne: "compressSdp x \<noteq> []" if "x \<noteq> []" for x
    using that utf8_encode_inject [of x "[]"] by (simp add: compressSdp_def btoa_nonempty utf8_encode_def)
  show ?thesis
    unfolding decodePairingPayload_def parse option.case vc s i
    using assms ne by (cases sdp; cases ice) (auto simp: compressSdp_def Let_def split: list.splits)
qed

theorem pairing_payload_roundtrip_witness:
  "decodePairingPayload (encodePairingPayload ''123456'' (Some ''v=0'') (Some [''a b c d e f g h i'']))
     = Some \<lparr>pp_sasCode = ''123456'', pp_sdpOffer = Some ''v=0'', pp_iceCandidates = Some (JArr [JStr ''a b c d e f g h''])\<rparr>"
proof -
  have "candidateToShort ''a b c d e f g h i'' = ''a b c d e f g h''" by (simp add: candidateToShort_def)
  then show ?thesis using pairing_payload_roundtrip [of "''123456''" "Some ''v=0''" "Some [''a b c d e f g h i'']"] by simp
qed

text \<open>
  The emoji comparison always has something to show and hides nothing: for a hash of at least
  three bytes the three emoji exist, and two session keys show the same emoji exactly when the low six
  bits of the first three bytes of their hashes agree, for the palette has 64 different emoji.
\<close>

theorem emoji_sas_faithful:
  assumes "3 \<le> length (sha256 key)"
  shows "deriveEmojiSas sha256 key \<noteq> None
    \<and> (deriveEmojiSas sha256 key = deriveEmojiSas sha256 key' \<longleftrightarrow>
         (\<forall>i < 3. sha256 key ! i AND 0x3f = (sha256 key' ! i AND 0x3f)))"
proof -
  have some: "\<exists>x. emojiAtIndex (unat (b AND 0x3f :: byte)) = Some x" for b
    using palette_distinct and_3f_less [of b] by (simp add: emojiAtIndex_def item_at_def)
  have inj: "emojiAtIndex (unat (a AND 0x3f :: byte)) = emojiAtIndex (unat (b AND 0x3f)) \<longleftrightarrow> a AND 0x3f = b AND 0x3f" for a b
    using emojiAtIndex_inject [OF and_3f_less and_3f_less, of a b] by (simp only: byte_eq_iff)
  define e where "e b = the (emojiAtIndex (unat (b AND 0x3f :: byte)))" for b
  have e: "emojiAtIndex (unat (b AND 0x3f)) = Some (e b)" for b using some [of b] by (auto simp: e_def)
  have derive: "deriveEmojiSas sha256 k = Some [e (sha256 k ! 0), e (sha256 k ! 1), e (sha256 k ! 2)]" for k
    by (simp add: deriveEmojiSas_def Let_def e)
  have "e a = e b \<longleftrightarrow> a AND 0x3f = b AND 0x3f" for a b using inj [of a b] by (simp add: e)
  moreover have "(\<forall>i < 3. P i) \<longleftrightarrow> P 0 \<and> P 1 \<and> P 2" for P :: "nat \<Rightarrow> bool"
    by (auto simp: numeral_3_eq_3 numeral_2_eq_2 less_Suc_eq)
  ultimately show ?thesis by (simp add: derive)
qed

theorem emoji_sas_faithful_witness: "deriveEmojiSas (\<lambda>k. k) [1, 2, 3] \<noteq> None"
  using emoji_sas_faithful [of "\<lambda>k. k" "[1, 2, 3]" "[]"] by simp

end
