(* ===== verification/Pairing.thy ===== *)
theory Pairing
  imports DeviceRegistry Session CommandClient PairingCodes
begin

text \<open>
  Pairing a phone: the offscreen document (\<open>offscreenWebrtc.ts\<close>), the pairing session
  (\<open>pairingService.ts\<close>) and the coordinator that runs the handshake and registers the phone
  (\<open>pairingCoordinator.ts\<close>), all under \<open>entrypoints/background/\<close>. The browser's answers and the
  handshake of the Noise package are parameters. Messages handed to the offscreen document are
  logged, as are the tabs opened.
\<close>

section \<open>The offscreen document\<close>

datatype connection_state = Disconnected | Connecting | Connected | Reconnecting

record offscreen =
  os_keepalivePort :: bool
  os_created :: bool
  os_connectionState :: connection_state
  os_connectionError :: "string option"

definition new_offscreen :: offscreen where
  "new_offscreen = \<lparr>os_keepalivePort = False, os_created = False, os_connectionState = Disconnected, os_connectionError = None\<rparr>"

text \<open>\<open>contexts\<close> is the number of offscreen contexts the browser reports, \<open>None\<close> when the call throws.\<close>

definition hasOffscreenDocument :: "nat option \<Rightarrow> offscreen \<Rightarrow> bool" where
  "hasOffscreenDocument contexts os \<longleftrightarrow> os_created os \<and> (case contexts of Some n \<Rightarrow> n > 0 | None \<Rightarrow> False)"

definition createOffscreenDocument :: "nat option \<Rightarrow> bool \<Rightarrow> offscreen \<Rightarrow> bool \<times> offscreen" where
  "createOffscreenDocument contexts createOk os =
     (if hasOffscreenDocument contexts os then (True, os)
      else if createOk then (True, os\<lparr>os_created := True, os_connectionState := Connecting, os_connectionError := None\<rparr>)
      else (False, os\<lparr>os_created := False, os_connectionState := Disconnected\<rparr>))"

definition closeOffscreenDocument :: "bool \<Rightarrow> nat option \<Rightarrow> bool \<Rightarrow> offscreen \<Rightarrow> offscreen" where
  "closeOffscreenDocument usbActive contexts closeOk os =
     (if usbActive then os
      else
       (let os1 = os\<lparr>os_keepalivePort := False\<rparr> in
        if hasOffscreenDocument contexts os1 \<and> closeOk then
          os1\<lparr>os_created := False, os_connectionState := Disconnected, os_connectionError := None\<rparr>
        else os1))"

definition registerKeepalivePort :: "offscreen \<Rightarrow> offscreen" where
  "registerKeepalivePort os = os\<lparr>os_keepalivePort := True\<rparr>"

definition onKeepaliveDisconnect :: "offscreen \<Rightarrow> offscreen" where
  "onKeepaliveDisconnect os = os\<lparr>os_keepalivePort := False\<rparr>"

definition isKeepaliveActive :: "offscreen \<Rightarrow> bool" where
  "isKeepaliveActive os = os_keepalivePort os"

definition updateConnectionState :: "connection_state \<Rightarrow> string option \<Rightarrow> offscreen \<Rightarrow> offscreen" where
  "updateConnectionState state err os =
     (let os1 = os\<lparr>os_connectionState := state\<rparr> in case err of Some e \<Rightarrow> os1\<lparr>os_connectionError := Some e\<rparr> | None \<Rightarrow> os1)"

definition setConnectionError :: "string option \<Rightarrow> offscreen \<Rightarrow> offscreen" where
  "setConnectionError err os = os\<lparr>os_connectionError := err\<rparr>"

section \<open>State of a pairing\<close>

record pairing_session =
  ps_sasCode :: string
  ps_nonce :: bytes
  ps_localStaticKey :: noise_keypair
  ps_startedAt :: millis

record 't noise_session =
  ns_transport :: 't
  ns_localStaticKey :: noise_keypair
  ns_remoteStaticPublicKey :: "bytes option"
  ns_handshakePattern :: handshake_pattern
  ns_remoteCapabilities :: "capabilities option"

datatype runtime_message =
    WebrtcStartPairing string numbers numbers
  | WebrtcSend numbers

record 't pairing =
  pw_registry :: registry
  pw_offscreen :: offscreen
  pw_activeSession :: "pairing_session option"
  pw_currentSession :: "'t noise_session option"
  pw_commandClient :: "command_client option"
  pw_pendingRemoteStaticPk :: "bytes option"
  pw_negotiatedCaps :: "capabilities option"
  pw_pendingMessages :: "bytes list"
  pw_outbox :: "runtime_message list"
  pw_tabs :: "string list"

definition pw_store :: "'t pairing \<Rightarrow> storage" where
  "pw_store w = reg_store (pw_registry w)"

definition pw_store_update :: "(storage \<Rightarrow> storage) \<Rightarrow> 't pairing \<Rightarrow> 't pairing" where
  "pw_store_update f w = w\<lparr>pw_registry := (pw_registry w)\<lparr>reg_store := f (reg_store (pw_registry w))\<rparr>\<rparr>"

text \<open>What the browser answers while an operation runs.\<close>

record browser_env =
  env_contexts :: "nat option"
  env_createOk :: bool
  env_closeOk :: bool
  env_usbActive :: bool
  env_sendError :: "string option"
  env_tabsOk :: bool
  env_prfSupported :: bool

section \<open>The pairing service\<close>

record start_result =
  sr_success :: bool
  sr_error :: "string option"
  sr_publicKey :: "numbers option"

definition startPairing ::
  "browser_env \<Rightarrow> noise_keypair \<Rightarrow> bytes \<Rightarrow> millis \<Rightarrow> string \<Rightarrow> bytes option \<Rightarrow> 't pairing \<Rightarrow> start_result \<times> 't pairing" where
  "startPairing env keypair random32 now sasCode nonce w =
     (if pw_activeSession w \<noteq> None then
        (\<lparr>sr_success = False, sr_error = Some ''Pairing session already in progress'', sr_publicKey = None\<rparr>, w)
      else
       (let sessionNonce = nullish nonce random32;
            w1 = w\<lparr>pw_activeSession := Some \<lparr>ps_sasCode = sasCode, ps_nonce = sessionNonce, ps_localStaticKey = keypair, ps_startedAt = now\<rparr>\<rparr>;
            (created, os) = createOffscreenDocument (env_contexts env) (env_createOk env) (pw_offscreen w1);
            w2 = w1\<lparr>pw_offscreen := os\<rparr>
        in if \<not> created then
             (\<lparr>sr_success = False, sr_error = Some ''Failed to create WebRTC offscreen document'', sr_publicKey = None\<rparr>,
              w2\<lparr>pw_activeSession := None\<rparr>)
           else
            (case env_sendError env of
               None \<Rightarrow>
                 (\<lparr>sr_success = True, sr_error = None, sr_publicKey = Some (Array_from (publicKey keypair))\<rparr>,
                  w2\<lparr>pw_outbox := pw_outbox w2 @ [WebrtcStartPairing sasCode (Array_from sessionNonce) (Array_from (publicKey keypair))]\<rparr>)
             | Some err \<Rightarrow>
                 (\<lparr>sr_success = False, sr_error = Some err, sr_publicKey = None\<rparr>,
                  w2\<lparr>pw_activeSession := None,
                     pw_offscreen := closeOffscreenDocument (env_usbActive env) (env_contexts env) (env_closeOk env) (pw_offscreen w2)\<rparr>))))"

text \<open>\<open>None\<close> is the thrown error "No active pairing session".\<close>

definition completePairing :: "millis \<Rightarrow> bytes \<Rightarrow> 't pairing \<Rightarrow> 't pairing option" where
  "completePairing now remoteStaticPublicKey w =
     (case pw_activeSession w of
        None \<Rightarrow> None
      | Some s \<Rightarrow>
          Some ((pw_store_update (\<lambda>st. st\<lparr>ss_pairing := Some (toCachedPairing now (ps_localStaticKey s) remoteStaticPublicKey XX),
                   ss_cmdClient := True\<rparr>) w)\<lparr>pw_activeSession := None\<rparr>))"

definition getCachedPairing :: "nat \<Rightarrow> storage \<Rightarrow> (noise_keypair \<times> bytes) option" where
  "getCachedPairing dhlen s = map_option (fromCachedPairing dhlen) (ss_pairing s)"

definition isDevicePaired :: "nat \<Rightarrow> storage \<Rightarrow> bool" where
  "isDevicePaired dhlen s \<longleftrightarrow> getCachedPairing dhlen s \<noteq> None"

definition clearPairing :: "browser_env \<Rightarrow> 't pairing \<Rightarrow> 't pairing" where
  "clearPairing env w =
     (let w1 = pw_store_update (\<lambda>st. st\<lparr>ss_pairing := None, ss_cmdClient := False\<rparr>) w
      in w1\<lparr>pw_offscreen := closeOffscreenDocument (env_usbActive env) (env_contexts env) (env_closeOk env) (pw_offscreen w1),
            pw_activeSession := None\<rparr>)"

section \<open>The coordinator\<close>

definition PROTOCOL_VERSION :: byte where "PROTOCOL_VERSION = 1"
definition MESSAGE_HANDSHAKE :: byte where "MESSAGE_HANDSHAKE = 0"
definition MESSAGE_DATA :: byte where "MESSAGE_DATA = 1"
definition MESSAGE_CAPABILITIES :: byte where "MESSAGE_CAPABILITIES = 2"

lemmas frame_consts = PROTOCOL_VERSION_def MESSAGE_HANDSHAKE_def MESSAGE_DATA_def MESSAGE_CAPABILITIES_def

definition deriveDeviceId :: "(bytes \<Rightarrow> bytes) \<Rightarrow> bytes \<Rightarrow> string" where
  "deriveDeviceId sha256 phoneKey = to_hex (take 8 (sha256 phoneKey))"

definition sendViaDataChannel :: "bytes \<Rightarrow> 't pairing \<Rightarrow> 't pairing" where
  "sendViaDataChannel data w = w\<lparr>pw_outbox := pw_outbox w @ [WebrtcSend (Array_from data)]\<rparr>"

text \<open>Writing at an offset of a typed array throws when it does not fit (\<open>None\<close>).\<close>

definition frame_data :: "bytes \<Rightarrow> bytes option" where
  "frame_data encrypted =
     Option.bind (ta_set (replicate (2 + length encrypted) 0) [PROTOCOL_VERSION] 0) (\<lambda>f.
     Option.bind (ta_set f [MESSAGE_DATA] 1) (\<lambda>f. ta_set f encrypted 2))"

definition frame_handshake :: "bytes \<Rightarrow> bytes option" where
  "frame_handshake msg =
     Option.bind (ta_set (replicate (3 + length msg) 0) [PROTOCOL_VERSION] 0) (\<lambda>f.
     Option.bind (ta_set f [MESSAGE_HANDSHAKE] 1) (\<lambda>f.
     Option.bind (ta_set f [word_of_nat (length msg div 256), word_of_nat (length msg mod 256)] 2) (\<lambda>f. ta_set f msg 3)))"

text \<open>\<open>decrypt\<close> is the receiving cipher of the package; it throws on a forged or replayed text (\<open>None\<close>).\<close>

definition processIncomingMessage ::
  "('t \<Rightarrow> bytes \<Rightarrow> (bytes \<times> 't) option) \<Rightarrow> rat \<Rightarrow> bytes \<Rightarrow> 't pairing \<Rightarrow> 't pairing" where
  "processIncomingMessage decrypt perf data w =
     (if length data < 2 then w
      else if data ! 0 \<noteq> PROTOCOL_VERSION then w
      else
       (let messageType = data ! 1; content = drop 2 data in
        if messageType = MESSAGE_HANDSHAKE then w
        else if messageType = MESSAGE_CAPABILITIES then
         (case decodeCapabilities content of
            None \<Rightarrow> w
          | Some remoteCaps \<Rightarrow>
              w\<lparr>pw_negotiatedCaps := Some (intersectCapabilities localCaps remoteCaps),
                pw_currentSession := map_option (\<lambda>s. s\<lparr>ns_remoteCapabilities := Some remoteCaps\<rparr>) (pw_currentSession w)\<rparr>)
        else if messageType = MESSAGE_DATA then
         (case pw_currentSession w of
            None \<Rightarrow> w
          | Some s \<Rightarrow>
              (case decrypt (ns_transport s) content of
                 None \<Rightarrow> w
               | Some (plain, t') \<Rightarrow>
                   w\<lparr>pw_currentSession := Some (s\<lparr>ns_transport := t'\<rparr>),
                     pw_commandClient := map_option (handleIncomingResponse perf (utf8_decode plain)) (pw_commandClient w)\<rparr>))
        else w))"

text \<open>
  The XX handshake as the coordinator drives it: the packets the package writes and what it reads,
  each \<open>None\<close> where it throws. \<open>reply\<close> is the phone's message, \<open>None\<close> after the timeout.
\<close>

record 't xx_handshake =
  xx_write1 :: "bytes \<Rightarrow> bytes option"
  xx_read2 :: "bytes \<Rightarrow> (bytes \<times> bytes option) option"
  xx_write3 :: "bytes \<Rightarrow> (bytes \<times> 't option) option"
  xx_chainingKey :: bytes

definition isHandshakeReply :: "bytes \<Rightarrow> bool" where
  "isHandshakeReply bs \<longleftrightarrow> length bs \<ge> 3 \<and> bs ! 0 = PROTOCOL_VERSION \<and> bs ! 1 = MESSAGE_HANDSHAKE"

text \<open>The first handshake frame among the messages that arrive before the timeout.\<close>

definition waitForDataChannelMessage :: "bytes list \<Rightarrow> bytes option" where
  "waitForDataChannelMessage arrivals = find isHandshakeReply arrivals"

text \<open>The second half, once the phone's static key is known: message 3, the session and the emoji to compare.\<close>

definition finishXXHandshake ::
  "(bytes \<Rightarrow> bytes) \<Rightarrow> 't xx_handshake \<Rightarrow> noise_keypair \<Rightarrow> bytes \<Rightarrow> bytes \<Rightarrow> capabilities option \<Rightarrow> 't pairing
   \<Rightarrow> 't noise_session option \<times> 't pairing" where
  "finishXXHandshake sha256 xx localKey msg2Payload pk remoteCaps w3 =
     (case xx_write3 xx msg2Payload of
        None \<Rightarrow> (None, w3)
      | Some (msg3, done3) \<Rightarrow>
          (case frame_handshake msg3 of
             None \<Rightarrow> (None, w3)
           | Some framed3 \<Rightarrow>
               (let w4 = sendViaDataChannel framed3 w3 in
                case done3 of
                  None \<Rightarrow> (None, w4)
                | Some transport \<Rightarrow>
                    (let session = \<lparr>ns_transport = transport, ns_localStaticKey = localKey, ns_remoteStaticPublicKey = Some pk,
                           ns_handshakePattern = XX, ns_remoteCapabilities = remoteCaps\<rparr>
                     in case deriveEmojiSas sha256 (xx_chainingKey xx) of
                          None \<Rightarrow> (None, w4)
                        | Some emojiSas \<Rightarrow>
                            (Some session,
                             pw_store_update (\<lambda>st. st\<lparr>ss_emojiSas := Some emojiSas\<rparr>) (w4\<lparr>pw_pendingRemoteStaticPk := Some pk\<rparr>))))))"

definition performXXHandshake ::
  "(bytes \<Rightarrow> bytes) \<Rightarrow> 't xx_handshake \<Rightarrow> noise_keypair \<Rightarrow> bytes list \<Rightarrow> 't pairing \<Rightarrow> 't noise_session option \<times> 't pairing" where
  "performXXHandshake sha256 xx localKey arrivals w =
     (let w1 = pw_store_update (\<lambda>st. st\<lparr>ss_cmdClient := True\<rparr>)
                 (w\<lparr>pw_commandClient := Some (createCommandClient (ss_sequence (pw_store w)) (ss_msgCount (pw_store w)))\<rparr>) in
      case Option.bind (xx_write1 xx encodeCapabilities) frame_handshake of
        None \<Rightarrow> (None, w1)
      | Some framed1 \<Rightarrow>
          (let w2 = sendViaDataChannel framed1 w1 in
           case waitForDataChannelMessage arrivals of
             None \<Rightarrow> (None, w2)
           | Some msg2 \<Rightarrow>
               (case xx_read2 xx (drop 3 msg2) of
                  None \<Rightarrow> (None, w2)
                | Some (msg2Payload, remoteStaticPk) \<Rightarrow>
                    (let remoteCaps = decodeCapabilities msg2Payload;
                         w3 = w2\<lparr>pw_negotiatedCaps := Some (case remoteCaps of
                                Some rc \<Rightarrow> intersectCapabilities localCaps rc
                              | None \<Rightarrow> \<lparr>cap_version = CURRENT_PROTOCOL_VERSION, cap_features = [], cap_supportedTransports = []\<rparr>)\<rparr>
                     in case remoteStaticPk of
                          None \<Rightarrow> (None, w3)
                        | Some pk \<Rightarrow> finishXXHandshake sha256 xx localKey msg2Payload pk remoteCaps w3))))"

definition startPairingFlow ::
  "browser_env \<Rightarrow> (bytes \<Rightarrow> bytes) \<Rightarrow> 't xx_handshake \<Rightarrow> noise_keypair \<Rightarrow> bytes list \<Rightarrow> 't pairing \<Rightarrow> 't pairing" where
  "startPairingFlow env sha256 xx localKey arrivals w =
     (case performXXHandshake sha256 xx localKey arrivals (w\<lparr>pw_pendingMessages := []\<rparr>) of
        (Some session, w1) \<Rightarrow> w1\<lparr>pw_currentSession := Some session\<rparr>
      | (None, w1) \<Rightarrow> clearPairing env w1)"

definition disconnectSession :: "'t pairing \<Rightarrow> 't pairing" where
  "disconnectSession w = w\<lparr>pw_currentSession := None, pw_pendingMessages := [], pw_negotiatedCaps := None\<rparr>"

definition handleDataChannelOpen :: "'t pairing \<Rightarrow> 't pairing" where
  "handleDataChannelOpen w = (fold sendViaDataChannel (pw_pendingMessages w) w)\<lparr>pw_pendingMessages := []\<rparr>"

section \<open>Confirmation\<close>

text \<open>\<open>encodeURIComponent\<close>: unreserved characters stand for themselves, the others are escaped byte by byte.\<close>

definition uri_unreserved :: "char \<Rightarrow> bool" where
  "uri_unreserved c \<longleftrightarrow> (let n = of_char c :: nat in
     48 \<le> n \<and> n \<le> 57 \<or> 65 \<le> n \<and> n \<le> 90 \<or> 97 \<le> n \<and> n \<le> 122 \<or> n \<in> {33, 39, 40, 41, 42, 45, 46, 95, 126})"

definition upper_hex :: "nat \<Rightarrow> char" where
  "upper_hex d = (if d < 10 then char_of (48 + d) else char_of (55 + d))"

definition encodeURIComponent :: "string \<Rightarrow> string" where
  "encodeURIComponent s = concat (map (\<lambda>c. if uri_unreserved c then [c]
     else concat (map (\<lambda>b. [CHR ''%'', upper_hex (unat b div 16), upper_hex (unat b mod 16)]) (utf8_char c))) s)"

definition PRF_REAUTH_DOMAIN :: string where "PRF_REAUTH_DOMAIN = ''smartid2-reauth-v1''"

definition generatePrfSalt :: "(bytes \<Rightarrow> bytes) \<Rightarrow> bytes \<Rightarrow> bytes" where
  "generatePrfSalt sha256 phoneStaticPublicKey = sha256 (phoneStaticPublicKey @ utf8_encode PRF_REAUTH_DOMAIN)"

definition open_tab :: "browser_env \<Rightarrow> string \<Rightarrow> 't pairing \<Rightarrow> bool \<times> 't pairing" where
  "open_tab env url w = (if env_tabsOk env then (True, w\<lparr>pw_tabs := pw_tabs w @ [url]\<rparr>) else (False, w))"

definition fallbackToPrfOnly :: "browser_env \<Rightarrow> (bytes \<Rightarrow> bytes) \<Rightarrow> bytes \<Rightarrow> 't pairing \<Rightarrow> 't pairing" where
  "fallbackToPrfOnly env sha256 remoteStaticPk w =
     (if \<not> env_prfSupported env then w
      else snd (open_tab env (''auth.html?mode=prf-create&salt='' @ encodeURIComponent (btoa (generatePrfSalt sha256 remoteStaticPk))) w))"

definition pairing_confirmed_text :: "capabilities option \<Rightarrow> string" where
  "pairing_confirmed_text caps = stringify (JObj [(''type'', JStr ''pairing-confirmed''),
     (''caps'', case caps of Some c \<Rightarrow> caps_json c | None \<Rightarrow> JNull)])"

text \<open>Sending over the session: the cipher advances, and an error of the cipher is only logged.\<close>

definition send_encrypted :: "('t \<Rightarrow> bytes \<Rightarrow> (bytes \<times> 't) option) \<Rightarrow> 't noise_session \<Rightarrow> bytes \<Rightarrow> 't pairing \<Rightarrow> 't pairing" where
  "send_encrypted encrypt session plain w =
     (case encrypt (ns_transport session) plain of
        None \<Rightarrow> w
      | Some (cipher, t') \<Rightarrow>
          (let w1 = w\<lparr>pw_currentSession := Some (session\<lparr>ns_transport := t'\<rparr>)\<rparr> in
           case frame_data cipher of None \<Rightarrow> w1 | Some f \<Rightarrow> sendViaDataChannel f w1))"

text \<open>What follows the registration when a session is open.\<close>

definition afterRegistration ::
  "browser_env \<Rightarrow> (bytes \<Rightarrow> bytes) \<Rightarrow> ('t \<Rightarrow> bytes \<Rightarrow> (bytes \<times> 't) option) \<Rightarrow> bytes \<Rightarrow> 't pairing \<Rightarrow> 't pairing" where
  "afterRegistration env sha256 encrypt pk w =
     (case pw_currentSession w of
        None \<Rightarrow> w\<lparr>pw_pendingRemoteStaticPk := None\<rparr>
      | Some session \<Rightarrow>
          (let w1 = pw_store_update (\<lambda>st. st\<lparr>ss_emojiSas := None\<rparr>) w;
               w2 = (case pw_commandClient w1 of
                       Some _ \<Rightarrow> send_encrypted encrypt session (utf8_encode (pairing_confirmed_text (pw_negotiatedCaps w1))) w1
                     | None \<Rightarrow> w1)
           in case open_tab env ''auth.html?mode=passkey-create'' w2 of
                (True, w3) \<Rightarrow> w3
              | (False, w3) \<Rightarrow> (fallbackToPrfOnly env sha256 pk w3)\<lparr>pw_pendingRemoteStaticPk := None\<rparr>))"

definition confirmSasMatch ::
  "browser_env \<Rightarrow> (bytes \<Rightarrow> bytes) \<Rightarrow> ('t \<Rightarrow> bytes \<Rightarrow> (bytes \<times> 't) option) \<Rightarrow> millis \<Rightarrow> 't pairing \<Rightarrow> bool \<times> 't pairing" where
  "confirmSasMatch env sha256 encrypt now w =
     (case pw_pendingRemoteStaticPk w of
        None \<Rightarrow> (False, w)
      | Some pk \<Rightarrow>
          (let devId = deriveDeviceId sha256 pk;
               (existingDevice, r1) = getDevice devId (pw_registry w);
               (canAdd, r2) = canAddDevice r1;
               w1 = w\<lparr>pw_registry := r2\<rparr>
           in if existingDevice = None \<and> \<not> canAdd then (False, w1)
              else
               (case completePairing now pk w1 of
                  None \<Rightarrow> (False, w1)
                | Some w2 \<Rightarrow>
                    (let (n, r3) = getDeviceCount (pw_registry w2);
                         (name, r4) = resolveDeviceName None r3;
                         rec = \<lparr>deviceId = devId, dev_name = name, phoneStaticKey = pk, lastSeen = now, pairedAt = now, isPrimary = (n = 0)\<rparr>
                     in case addDevice rec r4 of
                          (Inl _, r5) \<Rightarrow> (False, clearPairing env (w2\<lparr>pw_registry := r5\<rparr>))
                        | (Inr _, r5) \<Rightarrow>
                            (case setActiveDevice now devId r5 of
                               (Inl _, r6) \<Rightarrow> (False, w2\<lparr>pw_registry := r6\<rparr>)
                             | (Inr _, r6) \<Rightarrow> (True, afterRegistration env sha256 encrypt pk (w2\<lparr>pw_registry := r6\<rparr>)))))))"

definition rejectSasMatch :: "browser_env \<Rightarrow> 't pairing \<Rightarrow> 't pairing" where
  "rejectSasMatch env w =
     clearPairing env (pw_store_update (\<lambda>st. st\<lparr>ss_emojiSas := None\<rparr>) (w\<lparr>pw_pendingRemoteStaticPk := None, pw_negotiatedCaps := None\<rparr>))"

definition clearPendingRemoteKey :: "'t pairing \<Rightarrow> 't pairing" where
  "clearPendingRemoteKey w = w\<lparr>pw_pendingRemoteStaticPk := None\<rparr>"

text \<open>
  The provisioning message for the phone. \<open>transportSend\<close> is the transport manager's \<open>send\<close>: \<open>None\<close>
  when there is no manager, else whether it succeeded.
\<close>

definition credential_message :: "string \<Rightarrow> bytes \<Rightarrow> capabilities option \<Rightarrow> bytes" where
  "credential_message credentialId publicKeyBytes caps = utf8_encode (stringify (JObj [(''type'', JStr ''credential-provision''),
     (''credentialId'', JStr credentialId), (''publicKeyBytes'', JStr (btoa publicKeyBytes)),
     (''protocolVersion'', JNum (case caps of Some c \<Rightarrow> cap_version c | None \<Rightarrow> CURRENT_PROTOCOL_VERSION))]))"

definition transmitCredentialToAndroid :: "(bytes \<Rightarrow> bool) option \<Rightarrow> string \<Rightarrow> bytes \<Rightarrow> 't pairing \<Rightarrow> bool" where
  "transmitCredentialToAndroid transportSend credentialId publicKeyBytes w =
     (case transportSend of
        None \<Rightarrow> False
      | Some send \<Rightarrow> send (credential_message credentialId publicKeyBytes (pw_negotiatedCaps w)))"

section \<open>Lemmas\<close>

lemma pw_store_update_simps [simp]:
  "pw_registry (pw_store_update f w) = (pw_registry w)\<lparr>reg_store := f (reg_store (pw_registry w))\<rparr>"
  "pw_currentSession (pw_store_update f w) = pw_currentSession w" "pw_commandClient (pw_store_update f w) = pw_commandClient w"
  "pw_activeSession (pw_store_update f w) = pw_activeSession w" "pw_offscreen (pw_store_update f w) = pw_offscreen w"
  "pw_pendingRemoteStaticPk (pw_store_update f w) = pw_pendingRemoteStaticPk w" "pw_tabs (pw_store_update f w) = pw_tabs w"
  "pw_negotiatedCaps (pw_store_update f w) = pw_negotiatedCaps w" "pw_outbox (pw_store_update f w) = pw_outbox w"
  by (simp_all add: pw_store_update_def)

text \<open>The registry does not depend on the parts of storage that pairing writes.\<close>

definition same_registry_data :: "storage \<Rightarrow> storage \<Rightarrow> bool" where
  "same_registry_data s t \<longleftrightarrow> ss_devices s = ss_devices t \<and> ss_activeDevice s = ss_activeDevice t
     \<and> ls_deviceMetadata s = ls_deviceMetadata t"

lemma registry_store_irrelevant:
  assumes "same_registry_data s (reg_store r)"
  shows "abs_registry (r\<lparr>reg_store := s\<rparr>) = abs_registry r" "coherent (r\<lparr>reg_store := s\<rparr>) = coherent r"
proof -
  have load: "devs (loadFromStorage (r\<lparr>reg_store := s\<rparr>)) = devs (loadFromStorage r)"
    "cachedActiveId (loadFromStorage (r\<lparr>reg_store := s\<rparr>)) = cachedActiveId (loadFromStorage r)"
    using assms by (auto simp: loadFromStorage_def same_registry_data_def devs_def split: option.splits list.splits)
  then show "abs_registry (r\<lparr>reg_store := s\<rparr>) = abs_registry r"
    by (simp add: abs_registry_def ensureLoaded_def) (simp add: devs_def)
  then show "coherent (r\<lparr>reg_store := s\<rparr>) = coherent r"
    using load assms by (simp add: coherent_def same_registry_data_def) (simp add: devs_def)
qed

lemma ensureLoaded_idem [simp]: "ensureLoaded (ensureLoaded r) = ensureLoaded r"
  by (simp add: ensureLoaded_def [of "ensureLoaded r"])

lemma abs_ensureLoaded [simp]: "abs_registry (ensureLoaded r) = abs_registry r"
  by (simp add: abs_registry_def)

lemma registry_good_ensureLoaded: "registry_good r \<Longrightarrow> registry_good (ensureLoaded r)"
  using registry_step [of r "OpTouch 0 k" for k]
  unfolding registry_good_def
proof -
  assume g: "coherent r \<and> spec_ok (abs_registry r)"
  obtain k where k: "k \<notin> deviceId ` set (devs (ensureLoaded r))"
    using ex_new_if_finite [of "deviceId ` set (devs (ensureLoaded r))"] infinite_UNIV_listI by blast
  then have "find_device k (devs (ensureLoaded r)) = None" by (simp add: find_device_None_iff)
  then have "snd (reg_exec (OpTouch 0 k) r) = ensureLoaded r" by (simp add: updateDeviceLastSeen_def Let_def)
  then show "coherent (ensureLoaded r) \<and> spec_ok (abs_registry (ensureLoaded r))"
    using registry_step [of r "OpTouch 0 k"] g by metis
qed

lemma registry_good_store:
  assumes "registry_good r" "same_registry_data s (reg_store r)"
  shows "registry_good (r\<lparr>reg_store := s\<rparr>)" "abs_registry (r\<lparr>reg_store := s\<rparr>) = abs_registry r"
  using assms registry_store_irrelevant [OF assms(2)] by (simp_all add: registry_good_def)

lemma query_registry [simp]:
  "snd (getDevice k r) = ensureLoaded r" "snd (canAddDevice r) = ensureLoaded r" "snd (getDeviceCount r) = ensureLoaded r"
  "snd (resolveDeviceName n r) = ensureLoaded r"
  by (auto simp: getDevice_def canAddDevice_def getDeviceCount_def resolveDeviceName_def Let_def split: option.split)

lemma query_results:
  "fst (getDevice k r) = None \<longleftrightarrow> k \<notin> deviceId ` set (fst (abs_registry r))"
  "fst (canAddDevice r) \<longleftrightarrow> length (fst (abs_registry r)) < MAX_DEVICES"
  "fst (getDeviceCount r) = length (fst (abs_registry r))"
  by (simp_all add: getDevice_def canAddDevice_def getDeviceCount_def Let_def abs_registry_def find_device_None_iff)

lemma resolved_name_fresh: "fst (resolveDeviceName n r) \<notin> dev_name ` set (devs (ensureLoaded r))"
proof -
  define ns where "ns = map dev_name (devs (ensureLoaded r))"
  have "fst (resolveDeviceName n r) \<notin> set ns"
    using next_free_fresh [where names = ns] unfolding resolveDeviceName_def Let_def ns_def [symmetric]
    by (simp split: option.split)
  then show ?thesis by (simp add: ns_def)
qed

lemma registration_keeps_pairing:
  "ss_pairing (reg_store (snd (addDevice rec r))) = ss_pairing (reg_store r)"
  "ss_pairing (reg_store (snd (setActiveDevice now k r))) = ss_pairing (reg_store r)"
  by (auto simp: addDevice_def setActiveDevice_def registry_writes Let_def split: option.split)

text \<open>After the registration only the emoji is removed from storage.\<close>

lemma afterRegistration_registry:
  "\<exists>st. same_registry_data st (reg_store (pw_registry w)) \<and> ss_pairing st = ss_pairing (reg_store (pw_registry w))
     \<and> pw_registry (afterRegistration env sha256 encrypt pk w) = (pw_registry w)\<lparr>reg_store := st\<rparr>"
proof (cases "pw_currentSession w")
  case None
  then show ?thesis by (intro exI [of _ "reg_store (pw_registry w)"]) (simp add: afterRegistration_def same_registry_data_def)
next
  case (Some session)
  have "pw_registry (send_encrypted encrypt session plain v) = pw_registry v" for plain v
    by (auto simp: send_encrypted_def sendViaDataChannel_def Let_def split: option.split)
  moreover have "pw_registry (snd (open_tab env url v)) = pw_registry v" for url v by (simp add: open_tab_def)
  ultimately show ?thesis
    using Some
    by (intro exI [of _ "(reg_store (pw_registry w))\<lparr>ss_emojiSas := None\<rparr>"])
      (auto simp: afterRegistration_def Let_def same_registry_data_def fallbackToPrfOnly_def open_tab_def split: option.split)
qed

text \<open>Adding a phone that fits and then choosing it both succeed.\<close>

definition registered :: "device_record \<Rightarrow> millis \<Rightarrow> registry_spec \<Rightarrow> registry_spec" where
  "registered rec now p = snd (spec_exec (OpSetActive now (deviceId rec)) (snd (spec_exec (OpAdd rec) p)))"

lemma register_steps:
  assumes "registry_good r" "deviceId rec \<in> deviceId ` set (fst (abs_registry r)) \<or> length (fst (abs_registry r)) < MAX_DEVICES"
  obtains r5 r6 where "addDevice rec r = (Inr (), r5)" "setActiveDevice now (deviceId rec) r5 = (Inr (), r6)"
    "registry_good r6" "abs_registry r6 = registered rec now (abs_registry r)"
    "ss_pairing (reg_store r6) = ss_pairing (reg_store r)"
proof -
  have add: "fst (spec_exec (OpAdd rec) (abs_registry r)) = Inr ()" using assms(2) by auto
  have ids: "deviceId rec \<in> deviceId ` set (fst (snd (spec_exec (OpAdd rec) (abs_registry r))))"
    using assms(2) by (auto simp: image_iff)
  note 1 = registry_step [of r "OpAdd rec"]
  let ?r5 = "snd (addDevice rec r)"
  have s5: "spec_exec (OpAdd rec) (abs_registry r) = (fst (addDevice rec r), abs_registry ?r5)" and g5: "registry_good ?r5"
    using 1 assms(1) by (auto simp: registry_good_def)
  note 2 = registry_step [of ?r5 "OpSetActive now (deviceId rec)"]
  let ?r6 = "snd (setActiveDevice now (deviceId rec) ?r5)"
  have s6: "spec_exec (OpSetActive now (deviceId rec)) (abs_registry ?r5) = (fst (setActiveDevice now (deviceId rec) ?r5), abs_registry ?r6)"
    and g6: "registry_good ?r6"
    using 2 g5 by (auto simp: registry_good_def)
  have "fst (spec_exec (OpSetActive now (deviceId rec)) (abs_registry ?r5)) = Inr ()" using ids s5 by simp
  then have "fst (setActiveDevice now (deviceId rec) ?r5) = Inr ()" using s6 by simp
  moreover have "fst (addDevice rec r) = Inr ()" using add s5 by simp
  moreover have "abs_registry ?r6 = registered rec now (abs_registry r)" using s5 s6 by (simp add: registered_def)
  ultimately show ?thesis using that [of ?r5 ?r6] g6 by (simp add: prod_eq_iff registration_keeps_pairing)
qed

lemma registered_facts:
  assumes "deviceId rec \<in> deviceId ` set (fst p) \<or> length (fst p) < MAX_DEVICES" "rec\<lparr>lastSeen := now\<rparr> = rec"
  shows "rec \<in> set (fst (registered rec now p))" "snd (registered rec now p) = Some (deviceId rec)"
    "deviceId ` set (fst (registered rec now p)) = insert (deviceId rec) (deviceId ` set (fst p))"
proof -
  let ?p1 = "snd (spec_exec (OpAdd rec) p)"
  have rec: "rec \<in> set (fst ?p1)" using assms(1) by (auto simp: image_iff)
  then have ids: "deviceId rec \<in> deviceId ` set (fst ?p1)" by blast
  have new: "deviceId ` set (fst ?p1) = insert (deviceId rec) (deviceId ` set (fst p))"
  proof (cases "deviceId rec \<in> deviceId ` set (fst p)")
    case True
    then have "map deviceId (fst ?p1) = map deviceId (fst p)" by simp
    then show ?thesis using True by (metis insert_absorb list.set_map)
  qed (use assms(1) in auto)
  have reg: "registered rec now p = (touch (deviceId rec) now (fst ?p1), Some (deviceId rec))"
    using ids by (simp add: registered_def)
  then show "snd (registered rec now p) = Some (deviceId rec)" by simp
  show "rec \<in> set (fst (registered rec now p))"
    using imageI [OF rec, of "\<lambda>d. if deviceId d = deviceId rec then d\<lparr>lastSeen := now\<rparr> else d"] assms(2)
    by (simp add: reg touch_def)
  show "deviceId ` set (fst (registered rec now p)) = insert (deviceId rec) (deviceId ` set (fst p))"
    using new unfolding reg by simp
qed

text \<open>The record a confirmation registers.\<close>

definition paired_record :: "(bytes \<Rightarrow> bytes) \<Rightarrow> millis \<Rightarrow> bytes \<Rightarrow> registry \<Rightarrow> device_record" where
  "paired_record sha256 now pk r =
     \<lparr>deviceId = deriveDeviceId sha256 pk, dev_name = fst (resolveDeviceName None r), phoneStaticKey = pk, lastSeen = now,
      pairedAt = now, isPrimary = (fst (abs_registry r) = [])\<rparr>"

lemma resolveDeviceName_store:
  assumes "same_registry_data s (reg_store r)"
  shows "fst (resolveDeviceName n (r\<lparr>reg_store := s\<rparr>)) = fst (resolveDeviceName n r)"
  using registry_store_irrelevant(1) [OF assms] unfolding abs_registry_def resolveDeviceName_def Let_def
  by (simp split: option.split)

lemma confirm_success:
  assumes good: "registry_good (pw_registry w)" and pk: "pw_pendingRemoteStaticPk w = Some pk"
    and active: "pw_activeSession w = Some s"
    and room: "deriveDeviceId sha256 pk \<in> deviceId ` set (fst (abs_registry (pw_registry w)))
      \<or> length (fst (abs_registry (pw_registry w))) < MAX_DEVICES"
  obtains w' where "confirmSasMatch env sha256 encrypt now w = (True, w')" "registry_good (pw_registry w')"
    "abs_registry (pw_registry w') = registered (paired_record sha256 now pk (pw_registry w)) now (abs_registry (pw_registry w))"
    "ss_pairing (pw_store w') = Some (toCachedPairing now (ps_localStaticKey s) pk XX)"
proof -
  define r where "r = ensureLoaded (pw_registry w)"
  have good1: "registry_good r" unfolding r_def by (rule registry_good_ensureLoaded [OF good])
  define st where "st = (reg_store r)\<lparr>ss_pairing := Some (toCachedPairing now (ps_localStaticKey s) pk XX), ss_cmdClient := True\<rparr>"
  have same: "same_registry_data st (reg_store r)" by (simp add: st_def same_registry_data_def)
  define w2 where "w2 = w\<lparr>pw_registry := r\<lparr>reg_store := st\<rparr>, pw_activeSession := None\<rparr>"
  have w2: "completePairing now pk (w\<lparr>pw_registry := r\<rparr>) = Some w2"
    using active by (simp add: completePairing_def w2_def st_def pw_store_update_def)
  define r3 where "r3 = ensureLoaded (r\<lparr>reg_store := st\<rparr>)"
  have abs3: "abs_registry r3 = abs_registry (pw_registry w)" and good3: "registry_good r3"
    using registry_good_store [OF good1 same] registry_good_ensureLoaded by (simp_all add: r3_def) (simp add: r_def)
  let ?rec = "paired_record sha256 now pk (pw_registry w)"
  have name: "fst (resolveDeviceName None r3) = fst (resolveDeviceName None (pw_registry w))"
    using resolveDeviceName_store [OF same, of None]
    by (simp add: r3_def r_def resolveDeviceName_def Let_def)
  obtain r5 r6 where add: "addDevice ?rec r3 = (Inr (), r5)" "setActiveDevice now (deviceId ?rec) r5 = (Inr (), r6)"
    and r6: "registry_good r6" "abs_registry r6 = registered ?rec now (abs_registry r3)"
      "ss_pairing (reg_store r6) = ss_pairing (reg_store r3)"
    using register_steps [OF good3, of ?rec now] room by (auto simp: abs3 paired_record_def)
  define w' where "w' = afterRegistration env sha256 encrypt pk (w2\<lparr>pw_registry := r6\<rparr>)"
  obtain st' where st': "same_registry_data st' (reg_store r6)" "ss_pairing st' = ss_pairing (reg_store r6)"
    "pw_registry w' = r6\<lparr>reg_store := st'\<rparr>"
    using afterRegistration_registry [of "w2\<lparr>pw_registry := r6\<rparr>" env sha256 encrypt pk] by (auto simp: w'_def)
  obtain ed where ed: "getDevice (deriveDeviceId sha256 pk) (pw_registry w) = (ed, r)"
    by (metis query_registry(1) r_def prod.collapse)
  obtain ca where ca: "canAddDevice r = (ca, r)"
    by (metis query_registry(2) ensureLoaded_idem r_def prod.collapse)
  have enter: "\<not> (ed = None \<and> \<not> ca)"
    using room query_results(1) [of "deriveDeviceId sha256 pk" "pw_registry w"] query_results(2) [of r] ed ca by (simp add: r_def)
  have cnt: "getDeviceCount (r\<lparr>reg_store := st\<rparr>) = (length (fst (abs_registry (pw_registry w))), r3)"
    using abs3 by (simp add: prod_eq_iff query_results r3_def)
  have nm: "resolveDeviceName None r3 = (dev_name ?rec, r3)"
    using name by (simp add: prod_eq_iff paired_record_def) (simp add: r3_def)
  have rec: "\<lparr>deviceId = deriveDeviceId sha256 pk, dev_name = dev_name ?rec, phoneStaticKey = pk, lastSeen = now, pairedAt = now,
      isPrimary = (length (fst (abs_registry (pw_registry w))) = 0)\<rparr> = ?rec"
    by (simp add: paired_record_def)
  have "confirmSasMatch env sha256 encrypt now w = (True, w')"
    using enter w2 add rec
    by (auto simp: confirmSasMatch_def Let_def pk ed ca w2_def cnt nm w'_def paired_record_def)
  moreover have "registry_good (pw_registry w')" "abs_registry (pw_registry w') = abs_registry r6"
    using registry_good_store [OF r6(1) st'(1)] by (simp_all add: st'(3))
  moreover have "ss_pairing (pw_store w') = Some (toCachedPairing now (ps_localStaticKey s) pk XX)"
    using st' r6(3) by (simp add: pw_store_def r3_def st_def)
  ultimately show ?thesis using that r6(2) abs3 by simp
qed

lemma confirm_refused:
  assumes good: "registry_good (pw_registry w)"
    and no: "\<not> (\<exists>pk s. pw_pendingRemoteStaticPk w = Some pk \<and> pw_activeSession w = Some s
      \<and> (deriveDeviceId sha256 pk \<in> deviceId ` set (fst (abs_registry (pw_registry w)))
        \<or> length (fst (abs_registry (pw_registry w))) < MAX_DEVICES))"
  shows "confirmSasMatch env sha256 encrypt now w = (False, w)
    \<or> confirmSasMatch env sha256 encrypt now w = (False, w\<lparr>pw_registry := ensureLoaded (pw_registry w)\<rparr>)"
proof (cases "pw_pendingRemoteStaticPk w")
  case (Some pk)
  obtain ed where ed: "getDevice (deriveDeviceId sha256 pk) (pw_registry w) = (ed, ensureLoaded (pw_registry w))"
    by (metis query_registry(1) prod.collapse)
  obtain ca where ca: "canAddDevice (ensureLoaded (pw_registry w)) = (ca, ensureLoaded (pw_registry w))"
    by (metis query_registry(2) ensureLoaded_idem prod.collapse)
  have "ed = None \<and> \<not> ca \<or> pw_activeSession w = None"
    using no Some query_results(1) [of "deriveDeviceId sha256 pk" "pw_registry w"] query_results(2) [of "ensureLoaded (pw_registry w)"]
      ed ca by (cases "pw_activeSession w") auto
  then show ?thesis using Some ed ca by (auto simp: confirmSasMatch_def completePairing_def Let_def)
qed (simp add: confirmSasMatch_def)

section \<open>Properties\<close>

text \<open>
  C8: Confirming the emoji registers the phone, and only then. From a good registry, \<open>confirmSasMatch\<close>
  returns true exactly when a handshake has left a phone key, a pairing session is open, and the phone
  is known or there is room for it. Then the phone is registered under the identifier derived from its
  key with that very key, it is the active device, no other device was dropped, and the cached pairing
  is with its key. Otherwise the registry and the cached pairing are what they were. In every case the
  registry stays good.
\<close>

theorem confirm_registers:
  assumes "registry_good (pw_registry w)" "confirmSasMatch env sha256 encrypt now w = (ok, w')"
  shows "registry_good (pw_registry w')
    \<and> (ok \<longleftrightarrow> (\<exists>pk s. pw_pendingRemoteStaticPk w = Some pk \<and> pw_activeSession w = Some s
        \<and> (deriveDeviceId sha256 pk \<in> deviceId ` set (fst (abs_registry (pw_registry w)))
          \<or> length (fst (abs_registry (pw_registry w))) < MAX_DEVICES)))
    \<and> (ok \<longrightarrow> (\<exists>pk d. pw_pendingRemoteStaticPk w = Some pk \<and> d \<in> set (fst (abs_registry (pw_registry w')))
        \<and> deviceId d = deriveDeviceId sha256 pk \<and> phoneStaticKey d = pk
        \<and> snd (abs_registry (pw_registry w')) = Some (deviceId d)
        \<and> deviceId ` set (fst (abs_registry (pw_registry w'))) = insert (deviceId d) (deviceId ` set (fst (abs_registry (pw_registry w))))
        \<and> map_option snd (getCachedPairing (length pk) (pw_store w')) = Some pk))
    \<and> (\<not> ok \<longrightarrow> abs_registry (pw_registry w') = abs_registry (pw_registry w) \<and> pw_store w' = pw_store w)"
proof (cases "\<exists>pk s. pw_pendingRemoteStaticPk w = Some pk \<and> pw_activeSession w = Some s
    \<and> (deriveDeviceId sha256 pk \<in> deviceId ` set (fst (abs_registry (pw_registry w)))
      \<or> length (fst (abs_registry (pw_registry w))) < MAX_DEVICES)")
  case True
  then obtain pk s where c: "pw_pendingRemoteStaticPk w = Some pk" "pw_activeSession w = Some s"
    "deriveDeviceId sha256 pk \<in> deviceId ` set (fst (abs_registry (pw_registry w)))
      \<or> length (fst (abs_registry (pw_registry w))) < MAX_DEVICES" by blast
  let ?rec = "paired_record sha256 now pk (pw_registry w)"
  have w': "ok" "registry_good (pw_registry w')" "abs_registry (pw_registry w') = registered ?rec now (abs_registry (pw_registry w))"
    "ss_pairing (pw_store w') = Some (toCachedPairing now (ps_localStaticKey s) pk XX)"
    using confirm_success [OF assms(1) c, of env encrypt now] assms(2) by auto
  have rec: "deviceId ?rec = deriveDeviceId sha256 pk" "phoneStaticKey ?rec = pk" "?rec\<lparr>lastSeen := now\<rparr> = ?rec"
    by (simp_all add: paired_record_def)
  have "?rec \<in> set (fst (abs_registry (pw_registry w')))" "snd (abs_registry (pw_registry w')) = Some (deviceId ?rec)"
    "deviceId ` set (fst (abs_registry (pw_registry w'))) = insert (deviceId ?rec) (deviceId ` set (fst (abs_registry (pw_registry w))))"
    using registered_facts [of ?rec "abs_registry (pw_registry w)" now] c(3) by (simp_all add: w'(3) rec)
  moreover have "map_option snd (getCachedPairing (length pk) (pw_store w')) = Some pk"
    by (simp add: getCachedPairing_def w'(4) fromCachedPairing_def toCachedPairing_def)
  ultimately show ?thesis using w'(1,2) c rec by blast
next
  case False
  then have "\<not> ok" "w' = w \<or> w' = w\<lparr>pw_registry := ensureLoaded (pw_registry w)\<rparr>"
    using confirm_refused [OF assms(1) False, of env encrypt now] assms(2) by auto
  then show ?thesis using False registry_good_ensureLoaded [OF assms(1)] assms(1) by (auto simp: pw_store_def)
qed

definition sample_env :: browser_env where
  "sample_env = \<lparr>env_contexts = Some 0, env_createOk = True, env_closeOk = True, env_usbActive = False, env_sendError = None,
     env_tabsOk = True, env_prfSupported = True\<rparr>"

definition sample_key :: "byte \<Rightarrow> noise_keypair" where
  "sample_key b = \<lparr>publicKey = [b], secretKey = [b]\<rparr>"

text \<open>A pairing that waits for the user to compare the emoji, over a given registry.\<close>

definition waiting_pairing :: "bytes \<Rightarrow> registry \<Rightarrow> unit pairing" where
  "waiting_pairing pk r = \<lparr>pw_registry = r, pw_offscreen = new_offscreen,
     pw_activeSession = Some \<lparr>ps_sasCode = ''123456'', ps_nonce = [0], ps_localStaticKey = sample_key 1, ps_startedAt = 0\<rparr>,
     pw_currentSession = None, pw_commandClient = None, pw_pendingRemoteStaticPk = Some pk, pw_negotiatedCaps = None,
     pw_pendingMessages = [], pw_outbox = [], pw_tabs = []\<rparr>"

lemma new_registry_good: "registry_good (new_registry empty_storage)" "abs_registry (new_registry empty_storage) = ([], None)"
  using new_registry_ok
  by (simp_all add: registry_good_def abs_registry_def ensureLoaded_def loadFromStorage_def new_registry_def empty_storage_def devs_def)

theorem confirm_registers_witness:
  "fst (confirmSasMatch sample_env (\<lambda>bs. bs) (\<lambda>_ _. None) 5 (waiting_pairing [9, 8] (new_registry empty_storage)))
   \<and> snd (abs_registry (pw_registry (snd (confirmSasMatch sample_env (\<lambda>bs. bs) (\<lambda>_ _. None) 5
        (waiting_pairing [9, 8] (new_registry empty_storage)))))) = Some ''0908''"
proof -
  let ?w = "waiting_pairing [9, 8] (new_registry empty_storage)"
  obtain ok w' where e: "confirmSasMatch sample_env (\<lambda>bs. bs) (\<lambda>_ _. None) 5 ?w = (ok, w')"
    by (cases "confirmSasMatch sample_env (\<lambda>bs. bs) (\<lambda>_ _. None) 5 ?w")
  have "registry_good (pw_registry ?w)" using new_registry_good by (simp add: waiting_pairing_def)
  note p = confirm_registers [OF this e]
  have ok: ok using p new_registry_good by (simp add: waiting_pairing_def MAX_DEVICES_def)
  moreover have "deriveDeviceId (\<lambda>bs. bs) [9, 8] = ''0908''"
    by (simp add: deriveDeviceId_def to_hex_def) code_simp
  ultimately show ?thesis using p by (auto simp: e) (auto simp: waiting_pairing_def)
qed

text \<open>
  Rejecting the emoji forgets the handshake: the phone's key, the emoji, the negotiated
  capabilities, the cached pairing and the open pairing session are gone, the registry is as it was,
  and a confirmation that arrives afterwards is refused and changes nothing.
\<close>

theorem reject_forgets_handshake:
  "ss_pairing (pw_store (rejectSasMatch env w)) = None \<and> ss_emojiSas (pw_store (rejectSasMatch env w)) = None
   \<and> pw_activeSession (rejectSasMatch env w) = None \<and> pw_negotiatedCaps (rejectSasMatch env w) = None
   \<and> abs_registry (pw_registry (rejectSasMatch env w)) = abs_registry (pw_registry w)
   \<and> confirmSasMatch env' sha256 encrypt now (rejectSasMatch env w) = (False, rejectSasMatch env w)"
proof -
  let ?st = "(reg_store (pw_registry w))\<lparr>ss_emojiSas := None, ss_pairing := None, ss_cmdClient := False\<rparr>"
  have reg: "pw_registry (rejectSasMatch env w) = (pw_registry w)\<lparr>reg_store := ?st\<rparr>"
    by (simp add: rejectSasMatch_def clearPairing_def Let_def)
  have "same_registry_data ?st (reg_store (pw_registry w))" by (simp add: same_registry_data_def)
  then have "abs_registry (pw_registry (rejectSasMatch env w)) = abs_registry (pw_registry w)"
    unfolding reg by (rule registry_store_irrelevant(1))
  moreover have "pw_pendingRemoteStaticPk (rejectSasMatch env w) = None" "pw_activeSession (rejectSasMatch env w) = None"
    "pw_negotiatedCaps (rejectSasMatch env w) = None"
    by (simp_all add: rejectSasMatch_def clearPairing_def Let_def)
  ultimately show ?thesis by (simp add: pw_store_def reg confirmSasMatch_def)
qed

text \<open>
  Pairing a known phone again demotes and renames it: when the phone is already registered, even
  as the primary device, the confirmation replaces its record by one that is not primary, whose name
  is the next free \<open>Phone n\<close> and whose pairing time is the present.
\<close>

theorem repairing_demotes_primary:
  assumes "registry_good (pw_registry w)" "pw_pendingRemoteStaticPk w = Some pk" "pw_activeSession w = Some s"
    and "old \<in> set (fst (abs_registry (pw_registry w)))" "deviceId old = deriveDeviceId sha256 pk"
  shows "\<exists>w' d. confirmSasMatch env sha256 encrypt now w = (True, w') \<and> d \<in> set (fst (abs_registry (pw_registry w')))
    \<and> deviceId d = deviceId old \<and> \<not> isPrimary d \<and> dev_name d \<noteq> dev_name old \<and> pairedAt d = now"
proof -
  let ?rec = "paired_record sha256 now pk (pw_registry w)"
  have known: "deriveDeviceId sha256 pk \<in> deviceId ` set (fst (abs_registry (pw_registry w)))"
    using assms(4,5) by force
  then obtain w' where w': "confirmSasMatch env sha256 encrypt now w = (True, w')"
    "abs_registry (pw_registry w') = registered ?rec now (abs_registry (pw_registry w))"
    using confirm_success [OF assms(1-3), of sha256 env encrypt now] by metis
  have "?rec \<in> set (fst (abs_registry (pw_registry w')))"
    unfolding w'(2) by (rule registered_facts) (use known in \<open>simp_all add: paired_record_def\<close>)
  moreover have "dev_name ?rec \<notin> dev_name ` set (fst (abs_registry (pw_registry w)))"
    by (simp add: paired_record_def abs_registry_def resolved_name_fresh)
  moreover have "deviceId ?rec = deviceId old" "\<not> isPrimary ?rec" "pairedAt ?rec = now"
    using assms(4,5) by (auto simp: paired_record_def)
  ultimately show ?thesis using w'(1) assms(4) by (metis imageI)
qed

definition primary_phone :: device_record where
  "primary_phone = \<lparr>deviceId = ''0908'', dev_name = ''Phone 1'', phoneStaticKey = [9, 8], lastSeen = 0, pairedAt = 0, isPrimary = True\<rparr>"

theorem repairing_demotes_primary_witness:
  "\<exists>w' d. confirmSasMatch sample_env (\<lambda>bs. bs) (\<lambda>_ _. None) 5
       (waiting_pairing [9, 8] (snd (addDevice primary_phone (new_registry empty_storage)))) = (True, w')
     \<and> d \<in> set (fst (abs_registry (pw_registry w'))) \<and> deviceId d = deviceId primary_phone \<and> \<not> isPrimary d"
proof -
  let ?r = "snd (addDevice primary_phone (new_registry empty_storage))"
  have "registry_good ?r"
    using registry_step [of "new_registry empty_storage" "OpAdd primary_phone"] new_registry_good(1) by (simp add: registry_good_def)
  then have "registry_good (pw_registry (waiting_pairing [9, 8] ?r))" by (simp add: waiting_pairing_def)
  moreover have "abs_registry ?r = snd (spec_exec (OpAdd primary_phone) (abs_registry (new_registry empty_storage)))"
    using registry_step [of "new_registry empty_storage" "OpAdd primary_phone"] new_registry_ok by simp
  then have "primary_phone \<in> set (fst (abs_registry (pw_registry (waiting_pairing [9, 8] ?r))))"
    by (simp add: waiting_pairing_def MAX_DEVICES_def new_registry_good(2))
  moreover have "deviceId primary_phone = deriveDeviceId (\<lambda>bs. bs) [9, 8]"
    by (simp add: deriveDeviceId_def to_hex_def primary_phone_def) code_simp
  ultimately show ?thesis
    using repairing_demotes_primary [of "waiting_pairing [9, 8] ?r" "[9, 8]" _ primary_phone "\<lambda>bs. bs"
        sample_env "\<lambda>_ _. None" 5]
    by (fastforce simp: waiting_pairing_def)
qed

text \<open>
  The framing of the data channel. A data frame always fits, and what the receiving side does with
  it is exactly to decrypt its contents and hand the text to the command client. A handshake frame
  also fits, but its payload starts where the low byte of the length was written: of the length only
  the high byte is on the wire, followed by the payload.
\<close>

theorem channel_frames:
  "(\<exists>f. frame_data encrypted = Some f
      \<and> processIncomingMessage decrypt perf f w =
          (case pw_currentSession w of
             None \<Rightarrow> w
           | Some s \<Rightarrow>
               (case decrypt (ns_transport s) encrypted of
                  None \<Rightarrow> w
                | Some (plain, t') \<Rightarrow>
                    w\<lparr>pw_currentSession := Some (s\<lparr>ns_transport := t'\<rparr>),
                      pw_commandClient := map_option (handleIncomingResponse perf (utf8_decode plain)) (pw_commandClient w)\<rparr>)))
   \<and> frame_handshake (b # msg) = Some ([PROTOCOL_VERSION, MESSAGE_HANDSHAKE, word_of_nat (Suc (length msg) div 256), b] @ msg)
   \<and> isHandshakeReply ([PROTOCOL_VERSION, MESSAGE_HANDSHAKE, word_of_nat (Suc (length msg) div 256), b] @ msg)
   \<and> frame_handshake [] = None"
proof -
  have "frame_data encrypted = Some ([PROTOCOL_VERSION, MESSAGE_DATA] @ encrypted)"
    by (simp add: frame_data_def ta_set_def numeral_2_eq_2)
  moreover have "frame_handshake (b # msg) = Some ([PROTOCOL_VERSION, MESSAGE_HANDSHAKE, word_of_nat (Suc (length msg) div 256), b] @ msg)"
    by (simp add: frame_handshake_def ta_set_def numeral_3_eq_3 numeral_2_eq_2)
  ultimately show ?thesis
    by (simp add: processIncomingMessage_def frame_consts Let_def isHandshakeReply_def frame_handshake_def ta_set_def)
qed

text \<open>The handshake keeps the pairing session, and leaves the phone's key pending.\<close>

lemma handshake_effects:
  assumes "performXXHandshake sha256 xx localKey arrivals w = (Some session, w')"
  shows "ns_localStaticKey session = localKey \<and> pw_activeSession w' = pw_activeSession w
    \<and> (\<exists>pk. ns_remoteStaticPublicKey session = Some pk \<and> pw_pendingRemoteStaticPk w' = Some pk)
    \<and> (\<exists>emoji. pw_registry w' = (pw_registry w)\<lparr>reg_store := (reg_store (pw_registry w))\<lparr>ss_cmdClient := True, ss_emojiSas := emoji\<rparr>\<rparr>)"
  using assms
  by (auto simp: performXXHandshake_def finishXXHandshake_def sendViaDataChannel_def Let_def pw_store_update_def
      split: option.splits prod.splits)

text \<open>
  The local key that is cached is not the one of the handshake: the phone runs the handshake
  against the key pair \<open>performXXHandshake\<close> generates, while a confirmed pairing stores the key pair
  \<open>startPairing\<close> had put in the QR code.
\<close>

theorem cached_key_not_handshake_key:
  assumes "registry_good (pw_registry w)" "startPairing env k1 rnd now sas nonce w = (sr, w1)" "sr_success sr"
    and "performXXHandshake sha256 xx k2 arrivals w1 = (Some session, w2)"
    and "confirmSasMatch env' sha256 encrypt now' w2 = (True, w3)"
  shows "ns_localStaticKey session = k2
    \<and> map_option cp_localStaticKey (ss_pairing (pw_store w3)) = Some (serializeKeyPair k1)"
proof -
  have w1: "pw_registry w1 = pw_registry w" "\<exists>s. pw_activeSession w1 = Some s \<and> ps_localStaticKey s = k1"
    using assms(2,3) by (auto simp: startPairing_def Let_def split: if_splits prod.splits option.splits)
  then obtain s where s: "pw_activeSession w1 = Some s" "ps_localStaticKey s = k1" by blast
  note h = handshake_effects [OF assms(4)]
  then obtain emoji where "pw_registry w2 =
      (pw_registry w)\<lparr>reg_store := (reg_store (pw_registry w))\<lparr>ss_cmdClient := True, ss_emojiSas := emoji\<rparr>\<rparr>"
    using w1(1) by auto
  then have good2: "registry_good (pw_registry w2)"
    using registry_good_store(1) [OF assms(1)] by (simp add: same_registry_data_def)
  have active2: "pw_activeSession w2 = Some s" using h s by simp
  have room: "\<exists>pk. pw_pendingRemoteStaticPk w2 = Some pk
      \<and> (deriveDeviceId sha256 pk \<in> deviceId ` set (fst (abs_registry (pw_registry w2)))
        \<or> length (fst (abs_registry (pw_registry w2))) < MAX_DEVICES)"
    using confirm_refused [OF good2, of sha256 env' encrypt now'] assms(5) by (rule_tac ccontr) auto
  then obtain pk where pk: "pw_pendingRemoteStaticPk w2 = Some pk"
    "deriveDeviceId sha256 pk \<in> deviceId ` set (fst (abs_registry (pw_registry w2)))
      \<or> length (fst (abs_registry (pw_registry w2))) < MAX_DEVICES" by blast
  have "ss_pairing (pw_store w3) = Some (toCachedPairing now' (ps_localStaticKey s) pk XX)"
    using confirm_success [OF good2 pk(1) active2 pk(2), of env' encrypt now'] assms(5) by (metis prod.inject)
  then show ?thesis using h s(2) by (simp add: toCachedPairing_def serializeKeyPair_def)
qed

end
