(* ===== verification/NoiseSessions.thy ===== *)
theory NoiseSessions
  imports Pairing
begin

text \<open>
  The sessions of \<open>lib/channel/noise.ts\<close>. The package salty-crypto is a record of its functions: making a handshake of a pattern, completing
  it over packets, and the two cipher states of a transport, which advance with every message. What it documents is
  \<open>transport_laws\<close>: a cipher state opens what its peer has sealed, in order.
\<close>

section \<open>The package\<close>

datatype role = Initiator | Responder

record handshake_options =
  ho_staticKeypair :: noise_keypair
  ho_remoteStaticPublicKey :: "bytes option"

record 'c transport_state =
  tst_send :: 'c
  tst_recv :: 'c

text \<open>\<open>completeHandshake\<close> writes packets and reads the given ones; it may reject. \<open>decrypt\<close> throws on a text that is not authentic.\<close>

record ('h, 'c) noise_package =
  np_Handshake :: "handshake_pattern \<Rightarrow> role \<Rightarrow> handshake_options \<Rightarrow> 'h"
  np_completeHandshake :: "'h \<Rightarrow> bytes list \<Rightarrow> bytes list \<times> (string + 'c transport_state)"
  np_encrypt :: "'c \<Rightarrow> bytes \<Rightarrow> bytes \<times> 'c"
  np_decrypt :: "'c \<Rightarrow> bytes \<Rightarrow> (string + bytes) \<times> 'c"
  np_generateKeypair :: "nat \<Rightarrow> bytes \<times> bytes"
  np_scalarMultBase :: "bytes \<Rightarrow> bytes"

section \<open>Handshakes and sessions\<close>

definition generateKeyPair :: "('h, 'c) noise_package \<Rightarrow> nat \<Rightarrow> noise_keypair" where
  "generateKeyPair pkg seed = (case np_generateKeypair pkg seed of (pub, sec) \<Rightarrow> \<lparr>publicKey = pub, secretKey = sec\<rparr>)"

definition createXXHandshake :: "('h, 'c) noise_package \<Rightarrow> noise_keypair \<Rightarrow> 'h" where
  "createXXHandshake pkg localStaticKey = np_Handshake pkg XX Initiator \<lparr>ho_staticKeypair = localStaticKey, ho_remoteStaticPublicKey = None\<rparr>"

definition createIKHandshake :: "('h, 'c) noise_package \<Rightarrow> noise_keypair \<Rightarrow> bytes \<Rightarrow> 'h" where
  "createIKHandshake pkg localStaticKey remotePk =
     np_Handshake pkg IK Initiator \<lparr>ho_staticKeypair = localStaticKey, ho_remoteStaticPublicKey = Some remotePk\<rparr>"

definition createResponderXXHandshake :: "('h, 'c) noise_package \<Rightarrow> noise_keypair \<Rightarrow> 'h" where
  "createResponderXXHandshake pkg localStaticKey =
     np_Handshake pkg XX Responder \<lparr>ho_staticKeypair = localStaticKey, ho_remoteStaticPublicKey = None\<rparr>"

definition createResponderIKHandshake :: "('h, 'c) noise_package \<Rightarrow> noise_keypair \<Rightarrow> 'h" where
  "createResponderIKHandshake pkg localStaticKey =
     np_Handshake pkg IK Responder \<lparr>ho_staticKeypair = localStaticKey, ho_remoteStaticPublicKey = None\<rparr>"

text \<open>The packets read are an argument, the packets written a result.\<close>

definition completeIKHandshake ::
  "('h, 'c) noise_package \<Rightarrow> noise_keypair \<Rightarrow> bytes \<Rightarrow> bytes list \<Rightarrow> bytes list \<times> (string + 'c transport_state)" where
  "completeIKHandshake pkg localStaticKey remotePk packets =
     (let handshake = np_Handshake pkg IK Initiator \<lparr>ho_staticKeypair = localStaticKey, ho_remoteStaticPublicKey = Some remotePk\<rparr>
      in np_completeHandshake pkg handshake packets)"

definition createNoiseSession :: "'t \<Rightarrow> noise_keypair \<Rightarrow> bytes option \<Rightarrow> handshake_pattern \<Rightarrow> 't noise_session" where
  "createNoiseSession transport localStaticKey remotePk pattern =
     \<lparr>ns_transport = transport, ns_localStaticKey = localStaticKey, ns_remoteStaticPublicKey = remotePk, ns_handshakePattern = pattern,
      ns_remoteCapabilities = None\<rparr>"

definition deriveNoiseKeypair :: "('h, 'c) noise_package \<Rightarrow> bytes \<Rightarrow> noise_keypair" where
  "deriveNoiseKeypair pkg seed32 = \<lparr>publicKey = np_scalarMultBase pkg seed32, secretKey = seed32\<rparr>"

definition encryptMessage ::
  "('h, 'c) noise_package \<Rightarrow> 'c transport_state noise_session \<Rightarrow> bytes \<Rightarrow> bytes \<times> 'c transport_state noise_session" where
  "encryptMessage pkg session plaintext =
     (case np_encrypt pkg (tst_send (ns_transport session)) plaintext of
        (cipher, c) \<Rightarrow> (cipher, session\<lparr>ns_transport := (ns_transport session)\<lparr>tst_send := c\<rparr>\<rparr>))"

definition decryptMessage ::
  "('h, 'c) noise_package \<Rightarrow> 'c transport_state noise_session \<Rightarrow> bytes \<Rightarrow> (string + bytes) \<times> 'c transport_state noise_session" where
  "decryptMessage pkg session ciphertext =
     (case np_decrypt pkg (tst_recv (ns_transport session)) ciphertext of
        (r, c) \<Rightarrow> (r, session\<lparr>ns_transport := (ns_transport session)\<lparr>tst_recv := c\<rparr>\<rparr>))"

section \<open>A conversation\<close>

text \<open>\<open>paired x y\<close>: \<open>y\<close> is the receiving state of the peer whose sending state is \<open>x\<close>. Completing the two sides of a handshake gives such
  states in both directions.\<close>

definition transport_laws :: "('c \<Rightarrow> 'c \<Rightarrow> bool) \<Rightarrow> ('h, 'c) noise_package \<Rightarrow> bool" where
  "transport_laws paired pkg \<longleftrightarrow>
     (\<forall>x y p. paired x y \<longrightarrow>
        fst (np_decrypt pkg y (fst (np_encrypt pkg x p))) = Inr p
        \<and> paired (snd (np_encrypt pkg x p)) (snd (np_decrypt pkg y (fst (np_encrypt pkg x p)))))"

definition peers :: "('c \<Rightarrow> 'c \<Rightarrow> bool) \<Rightarrow> 'c transport_state noise_session \<Rightarrow> 'c transport_state noise_session \<Rightarrow> bool" where
  "peers paired a b \<longleftrightarrow> paired (tst_send (ns_transport a)) (tst_recv (ns_transport b)) \<and> paired (tst_send (ns_transport b)) (tst_recv (ns_transport a))"

text \<open>A conversation: \<open>True\<close> marks a message of the first session, each is delivered before the next is sent. The result is what
  was decrypted.\<close>

fun talk :: "('h, 'c) noise_package \<Rightarrow> (bool \<times> bytes) list \<Rightarrow> 'c transport_state noise_session \<Rightarrow> 'c transport_state noise_session
    \<Rightarrow> (bool \<times> (string + bytes)) list" where
  "talk pkg [] a b = []"
| "talk pkg ((True, p) # ms) a b =
     (let (c, a') = encryptMessage pkg a p; (r, b') = decryptMessage pkg b c in (True, r) # talk pkg ms a' b')"
| "talk pkg ((False, p) # ms) a b =
     (let (c, b') = encryptMessage pkg b p; (r, a') = decryptMessage pkg a c in (False, r) # talk pkg ms a' b')"

lemma peers_sym: "peers paired a b \<longleftrightarrow> peers paired b a"
  by (auto simp: peers_def)

lemma peers_message:
  assumes "transport_laws paired pkg" "peers paired a b" "encryptMessage pkg a p = (c, a')" "decryptMessage pkg b c = (r, b')"
  shows "r = Inr p \<and> peers paired a' b'"
  using assms unfolding transport_laws_def peers_def encryptMessage_def decryptMessage_def
  by (auto split: prod.splits) (metis fst_conv snd_conv)+

text \<open>a session carries every message of a conversation. If the cipher states are those of the two ends of a handshake, each
  message is decrypted to what was encrypted, in both directions and in any order of turns, however many there are.\<close>

theorem session_conversation:
  assumes "transport_laws paired pkg" "peers paired a b"
  shows "talk pkg ms a b = map (\<lambda>(side, p). (side, Inr p)) ms"
  using assms(2)
proof (induction ms arbitrary: a b)
  case (Cons m ms)
  obtain side p where m: "m = (side, p)" by fastforce
  show ?case
  proof (cases side)
    case True
    obtain c a' r b' where step: "encryptMessage pkg a p = (c, a')" "decryptMessage pkg b c = (r, b')" by (metis prod.exhaust)
    then show ?thesis using m True Cons peers_message [OF assms(1) Cons.prems step] by simp
  next
    case False
    obtain c b' r a' where step: "encryptMessage pkg b p = (c, b')" "decryptMessage pkg a c = (r, a')" by (metis prod.exhaust)
    have "peers paired b a" using Cons.prems peers_sym by blast
    from peers_message [OF assms(1) this step] have "r = Inr p" "peers paired a' b'" using peers_sym by blast+
    then show ?thesis using m False Cons step by simp
  qed
qed simp

text \<open>The handshake that \<open>completeIKHandshake\<close> completes is the one \<open>createIKHandshake\<close> makes, towards the key of the cached pairing.\<close>

lemma ik_from_cached:
  assumes "keypair_len dhlen k"
  shows "(case fromCachedPairing dhlen (toCachedPairing now k pk IK) of (k', pk') \<Rightarrow> completeIKHandshake pkg k' pk' packets)
    = np_completeHandshake pkg (createIKHandshake pkg k pk) packets"
  using keyFromBytes_keyToBytes [OF assms]
  by (simp add: fromCachedPairing_def toCachedPairing_def completeIKHandshake_def createIKHandshake_def)

text \<open>A stored key pair derived from a seed is the same key pair again.\<close>

lemma derived_pair_stored:
  assumes "length seed = dhlen" "length (np_scalarMultBase pkg seed) = dhlen"
  shows "deserializeKeyPair dhlen (serializeKeyPair (deriveNoiseKeypair pkg seed)) = deriveNoiseKeypair pkg seed"
  using assms by (simp add: deserializeKeyPair_def serializeKeyPair_def keyFromBytes_keyToBytes keypair_len_def deriveNoiseKeypair_def)

text \<open>A package whose ciphers count the messages: the laws can hold.\<close>

definition counting_package :: "(unit, nat) noise_package" where
  "counting_package = \<lparr>np_Handshake = (\<lambda>_ _ _. ()), np_completeHandshake = (\<lambda>_ _. ([], Inr \<lparr>tst_send = 0, tst_recv = 0\<rparr>)),
     np_encrypt = (\<lambda>n p. (word_of_nat n # p, Suc n)),
     np_decrypt = (\<lambda>n c. if c \<noteq> [] \<and> hd c = word_of_nat n then (Inr (tl c), Suc n) else (Inl ''bad MAC'', n)),
     np_generateKeypair = (\<lambda>_. ([], [])), np_scalarMultBase = (\<lambda>bs. bs)\<rparr>"

theorem session_conversation_witness:
  defines "k \<equiv> \<lparr>publicKey = [1], secretKey = [2]\<rparr>"
  shows "talk counting_package [(True, [1]), (False, [2]), (True, [3])] (createNoiseSession \<lparr>tst_send = 0, tst_recv = 5\<rparr> k None XX)
     (createNoiseSession \<lparr>tst_send = 5, tst_recv = 0\<rparr> k None XX) = [(True, Inr [1]), (False, Inr [2]), (True, Inr [3])]"
proof -
  have laws: "transport_laws (=) counting_package" by (simp add: transport_laws_def counting_package_def)
  have "peers (=) (createNoiseSession \<lparr>tst_send = 0 :: nat, tst_recv = 5\<rparr> k None XX) (createNoiseSession \<lparr>tst_send = 5, tst_recv = 0\<rparr> k None XX)"
    by (simp add: peers_def createNoiseSession_def)
  from session_conversation [OF laws this, of "[(True, [1]), (False, [2]), (True, [3])]"] show ?thesis by simp
qed

end
