(* ===== verification/Domain.thy ===== *)
theory Domain
  imports Storage
begin

text \<open>
  Domains: \<open>lib/domainParser.ts\<close> and the tab state of \<open>entrypoints/background/tabState.ts\<close>. The URL
  parser of the platform is a parameter, \<open>parseUrl\<close>, giving protocol and host name or nothing when
  \<open>new URL\<close> throws.
\<close>

section \<open>Registrable domains\<close>

definition to_lower_char :: "char \<Rightarrow> char" where
  "to_lower_char c = (let n = of_char c :: nat in
     if 65 \<le> n \<and> n \<le> 90 \<or> 192 \<le> n \<and> n \<le> 222 \<and> n \<noteq> 215 then char_of (n + 32) else c)"

definition to_lower :: "string \<Rightarrow> string" where
  "to_lower s = map to_lower_char s"

definition VALID_PROTOCOLS :: "string list" where
  "VALID_PROTOCOLS = [''http:'', ''https:'']"

definition BLOCKED_HOSTNAMES :: "string list" where
  "BLOCKED_HOSTNAMES = [''localhost'', ''127.0.0.1'', ''0.0.0.0'']"

definition KNOWN_MULTI_LEVEL_TLDS :: "string list" where
  "KNOWN_MULTI_LEVEL_TLDS =
     [''co.uk'', ''org.uk'', ''ac.uk'', ''gov.uk'', ''ltd.uk'', ''me.uk'', ''net.uk'', ''nhs.uk'', ''plc.uk'', ''sch.uk'',
      ''co.jp'', ''or.jp'', ''ne.jp'', ''ac.jp'', ''go.jp'', ''ed.jp'', ''ad.jp'', ''gr.jp'', ''lg.jp'',
      ''com.au'', ''net.au'', ''org.au'', ''edu.au'', ''gov.au'', ''asn.au'', ''id.au'',
      ''co.nz'', ''org.nz'', ''net.nz'', ''ac.nz'', ''govt.nz'', ''school.nz'',
      ''co.kr'', ''or.kr'', ''ne.kr'', ''go.kr'', ''re.kr'', ''pe.kr'',
      ''com.br'', ''org.br'', ''net.br'', ''gov.br'', ''edu.br'', ''mil.br'',
      ''co.za'', ''org.za'', ''net.za'', ''web.za'',
      ''co.in'', ''org.in'', ''net.in'', ''gov.in'', ''ac.in'', ''firm.in'', ''gen.in'', ''ind.in'',
      ''com.sg'', ''org.sg'', ''net.sg'', ''gov.sg'', ''edu.sg'',
      ''com.hk'', ''org.hk'', ''net.hk'', ''gov.hk'', ''edu.hk'',
      ''com.tw'', ''org.tw'', ''net.tw'', ''gov.tw'', ''edu.tw'']"

text \<open>\<open>parts.slice(-k)\<close>.\<close>

definition last_n :: "nat \<Rightarrow> 'a list \<Rightarrow> 'a list" where
  "last_n k xs = drop (length xs - k) xs"

definition labels :: "string \<Rightarrow> string list" where
  "labels hostname = split_on (CHR ''.'') hostname"

definition getRegistrableDomain :: "string \<Rightarrow> string" where
  "getRegistrableDomain hostname =
     (let parts = labels hostname in
      if length parts \<le> 2 then hostname
      else
       (let lastTwo = to_lower (join_with ''.'' (last_n 2 parts)) in
        if lastTwo \<in> set KNOWN_MULTI_LEVEL_TLDS then
          (if length parts \<le> 3 then hostname else join_with ''.'' (last_n 3 parts))
        else join_with ''.'' (last_n 2 parts)))"

text \<open>\<open>s.lastIndexOf(p)\<close>: the greatest position at which \<open>p\<close> occurs.\<close>

fun last_index_of :: "'a list \<Rightarrow> 'a list \<Rightarrow> nat option" where
  "last_index_of p [] = (if p = [] then Some 0 else None)"
| "last_index_of p (x # xs) =
     (case last_index_of p xs of
        Some i \<Rightarrow> Some (Suc i)
      | None \<Rightarrow> if starts_with (x # xs) p then Some 0 else None)"

definition getSubdomain :: "string \<Rightarrow> string \<Rightarrow> string option" where
  "getSubdomain hostname registrableDomain =
     (if hostname = registrableDomain then None
      else (case last_index_of (CHR ''.'' # registrableDomain) hostname of
              None \<Rightarrow> None
            | Some idx \<Rightarrow> Some (take idx hostname)))"

datatype domain_error = INVALID_URL | INVALID_PROTOCOL | BLOCKED_HOST | PARSE_FAILED

record parsed_domain =
  pdm_domain :: string
  pdm_subdomain :: "string option"
  pdm_registrableDomain :: string
  pdm_isPublic :: bool
  pdm_protocol :: string

definition parseDomain :: "(string \<Rightarrow> (string \<times> string) option) \<Rightarrow> bool \<Rightarrow> string \<Rightarrow> domain_error + parsed_domain" where
  "parseDomain parseUrl devMode url =
     (if url = [] then Inl INVALID_URL
      else
       (case parseUrl url of
          None \<Rightarrow> Inl PARSE_FAILED
        | Some (protocol, rawHost) \<Rightarrow>
            if protocol \<notin> set VALID_PROTOCOLS then Inl INVALID_PROTOCOL
            else
             (let hostname = to_lower rawHost in
              if hostname \<in> set BLOCKED_HOSTNAMES \<and> \<not> devMode then Inl BLOCKED_HOST
              else
               (let registrableDomain = getRegistrableDomain hostname
                in Inr \<lparr>pdm_domain = hostname, pdm_subdomain = getSubdomain hostname registrableDomain,
                        pdm_registrableDomain = registrableDomain, pdm_isPublic = \<not> devMode, pdm_protocol = protocol\<rparr>))))"

section \<open>Tab state\<close>

definition CACHE_TTL_MS :: millis where "CACHE_TTL_MS = 1000"

record tab_state =
  ts_cache :: "(int, string \<times> millis) jsmap"
  ts_store :: storage

definition updateTabDomain ::
  "(string \<Rightarrow> (string \<times> string) option) \<Rightarrow> bool \<Rightarrow> millis \<Rightarrow> int \<Rightarrow> string \<Rightarrow> tab_state \<Rightarrow> bool \<times> tab_state" where
  "updateTabDomain parseUrl devMode now tabId url st =
     (case parseDomain parseUrl devMode url of
        Inl _ \<Rightarrow> (False, st)
      | Inr p \<Rightarrow>
          if (case jsmap_get (ts_cache st) tabId of Some (d, t) \<Rightarrow> d = pdm_domain p \<and> now - t < CACHE_TTL_MS | None \<Rightarrow> False)
          then (False, st)
          else
           (let state = \<lparr>td_tabId = tabId, td_domain = pdm_domain p, td_registrableDomain = pdm_registrableDomain p,
                  td_url = url, td_timestamp = now, td_isPublic = pdm_isPublic p\<rparr>
            in (True, st\<lparr>ts_store := (ts_store st)\<lparr>ss_tabDomains := jsmap_set tabId state (ss_tabDomains (ts_store st))\<rparr>,
                        ts_cache := jsmap_set tabId (pdm_domain p, now) (ts_cache st)\<rparr>)))"

text \<open>Both branches of the source read the same key.\<close>

definition getTabDomain :: "millis \<Rightarrow> int \<Rightarrow> tab_state \<Rightarrow> tab_domain_state option" where
  "getTabDomain now tabId st =
     (case (case jsmap_get (ts_cache st) tabId of
              Some (d, t) \<Rightarrow> if now - t < CACHE_TTL_MS then jsmap_get (ss_tabDomains (ts_store st)) tabId else None
            | None \<Rightarrow> None) of
        Some state \<Rightarrow> Some state
      | None \<Rightarrow> jsmap_get (ss_tabDomains (ts_store st)) tabId)"

definition clearTabState :: "int \<Rightarrow> tab_state \<Rightarrow> tab_state" where
  "clearTabState tabId st =
     st\<lparr>ts_store := (ts_store st)\<lparr>ss_tabDomains := jsmap_delete tabId (ss_tabDomains (ts_store st))\<rparr>,
        ts_cache := jsmap_delete tabId (ts_cache st)\<rparr>"

definition clearAllStates :: "tab_state \<Rightarrow> tab_state" where
  "clearAllStates st = st\<lparr>ts_cache := []\<rparr>"

text \<open>The listener on closed tabs.\<close>

definition onTabRemoved :: "int \<Rightarrow> tab_state \<Rightarrow> tab_state" where
  "onTabRemoved tabId st = st\<lparr>ts_cache := jsmap_delete tabId (ts_cache st)\<rparr>"

section \<open>Lemmas\<close>

lemma last_index_of_suffix: "last_index_of p (xs @ p) = Some (length xs)"
proof (induction xs)
  case Nil
  have short: "last_index_of p ys = None" if "length ys < length p" for ys
    using that by (induction ys) (auto simp: starts_with_iff dest: arg_cong [where f = length])
  show ?case
  proof (cases p)
    case (Cons a as)
    then show ?thesis using short [of as] by (simp add: starts_with_iff)
  qed simp
qed simp

lemma join_with_append: "xs \<noteq> [] \<Longrightarrow> ys \<noteq> [] \<Longrightarrow> join_with s (xs @ ys) = join_with s xs @ s @ join_with s ys"
proof (induction xs)
  case (Cons x xs)
  then show ?case by (cases "xs = []") (simp_all add: join_with_Cons)
qed simp

lemma join_labels: "join_with ''.'' (labels h) = h"
  by (simp add: labels_def join_split_on)

lemma labels_join: "ps \<noteq> [] \<Longrightarrow> \<forall>p \<in> set ps. CHR ''.'' \<notin> set p \<Longrightarrow> labels (join_with ''.'' ps) = ps"
  by (simp add: labels_def split_join_on)

lemma labels_no_dot: "p \<in> set (labels h) \<Longrightarrow> CHR ''.'' \<notin> set p"
  by (simp add: labels_def split_on_no_sep)

lemma hostname_suffix:
  assumes "0 < k" "k < length (labels h)"
  shows "\<exists>sub. h = sub @ ''.'' @ join_with ''.'' (last_n k (labels h))"
proof -
  let ?n = "length (labels h) - k"
  have "take ?n (labels h) \<noteq> []" "drop ?n (labels h) \<noteq> []" using assms by auto
  from join_with_append [OF this, of "''.''"] have
    "h = join_with ''.'' (take ?n (labels h)) @ ''.'' @ join_with ''.'' (drop ?n (labels h))"
    by (simp add: join_labels)
  then show ?thesis unfolding last_n_def by blast
qed

text \<open>The registrable domain is the host name or its last two or three labels.\<close>

lemma registrable_cases:
  obtains (whole) "getRegistrableDomain h = h"
  | (tail) k where "k \<in> {2, 3}" "k < length (labels h)" "getRegistrableDomain h = join_with ''.'' (last_n k (labels h))"
      "k = 3 \<longrightarrow> to_lower (join_with ''.'' (last_n 2 (labels h))) \<in> set KNOWN_MULTI_LEVEL_TLDS"
proof -
  let ?known = "to_lower (join_with ''.'' (last_n 2 (labels h))) \<in> set KNOWN_MULTI_LEVEL_TLDS"
  consider "length (labels h) \<le> 2" | "\<not> length (labels h) \<le> 2" "?known" "length (labels h) \<le> 3"
    | (three) "\<not> length (labels h) \<le> 2" "?known" "\<not> length (labels h) \<le> 3" | (two) "\<not> length (labels h) \<le> 2" "\<not> ?known"
    by blast
  then show thesis
  proof cases
    case three
    then show thesis using tail [of 3] by (simp add: getRegistrableDomain_def Let_def)
  next
    case two
    then show thesis using tail [of 2] by (simp add: getRegistrableDomain_def Let_def)
  qed (use whole in \<open>simp_all add: getRegistrableDomain_def Let_def\<close>)
qed

lemma labels_registrable:
  assumes "k < length (labels h)" "0 < k"
  shows "labels (join_with ''.'' (last_n k (labels h))) = last_n k (labels h)"
  using assms labels_no_dot [of _ h] by (intro labels_join) (auto simp: last_n_def dest: in_set_dropD)

lemma last_n_last_n: "j \<le> k \<Longrightarrow> k \<le> length xs \<Longrightarrow> last_n j (last_n k xs) = last_n j xs"
  by (simp add: last_n_def)

lemma length_last_n: "k \<le> length xs \<Longrightarrow> length (last_n k xs) = k"
  by (simp add: last_n_def)

section \<open>Properties\<close>

text \<open>
  A successfully parsed host name splits into its two parts: it is the registrable domain itself,
  and then there is no subdomain, or it is subdomain, dot, registrable domain. The registrable
  domain of a registrable domain is itself, so grouping by it is stable; a blocked or non-web
  address never gets this far outside development.
\<close>

theorem domain_splits:
  assumes "parseDomain parseUrl devMode url = Inr p"
  shows "(case pdm_subdomain p of
            None \<Rightarrow> pdm_domain p = pdm_registrableDomain p
          | Some s \<Rightarrow> pdm_domain p = s @ ''.'' @ pdm_registrableDomain p)
    \<and> getRegistrableDomain (pdm_registrableDomain p) = pdm_registrableDomain p
    \<and> pdm_protocol p \<in> set VALID_PROTOCOLS \<and> (\<not> devMode \<longrightarrow> pdm_domain p \<notin> set BLOCKED_HOSTNAMES)"
proof -
  define h where "h = pdm_domain p"
  have p: "pdm_registrableDomain p = getRegistrableDomain h" "pdm_subdomain p = getSubdomain h (getRegistrableDomain h)"
    "pdm_protocol p \<in> set VALID_PROTOCOLS" "\<not> devMode \<longrightarrow> pdm_domain p \<notin> set BLOCKED_HOSTNAMES"
    using assms by (auto simp: parseDomain_def Let_def h_def split: if_splits option.splits)
  have "(case getSubdomain h (getRegistrableDomain h) of None \<Rightarrow> h = getRegistrableDomain h | Some s \<Rightarrow> h = s @ ''.'' @ getRegistrableDomain h)
      \<and> getRegistrableDomain (getRegistrableDomain h) = getRegistrableDomain h"
  proof (cases rule: registrable_cases [of h])
    case whole
    then show ?thesis by (simp add: getSubdomain_def)
  next
    case (tail k)
    obtain sub where sub: "h = sub @ ''.'' @ getRegistrableDomain h" using hostname_suffix [of k h] tail by auto
    then have ne: "h \<noteq> getRegistrableDomain h" by (metis append_assoc append_is_Nil_conv not_Cons_self2 self_append_conv2)
    have "take (length sub) h = sub" using arg_cong [OF sub, of "take (length sub)"] by simp
    then have "getSubdomain h (getRegistrableDomain h) = Some sub"
      using ne sub last_index_of_suffix [of "CHR ''.'' # getRegistrableDomain h" sub] by (simp add: getSubdomain_def)
    moreover have "getRegistrableDomain (getRegistrableDomain h) = getRegistrableDomain h"
      using tail labels_registrable [of k h] last_n_last_n [of 2 k "labels h"] length_last_n [of k "labels h"]
      by (auto simp: getRegistrableDomain_def [of "join_with _ _"] Let_def)
    ultimately show ?thesis using sub by simp
  qed
  then show ?thesis using p by (auto simp: h_def split: option.splits)
qed

theorem domain_splits_witness:
  "\<exists>p. parseDomain (\<lambda>_. Some (''https:'', ''WWW.Bank.co.uk'')) False ''u'' = Inr p \<and> pdm_subdomain p = Some ''www''
     \<and> pdm_domain p = ''www'' @ ''.'' @ pdm_registrableDomain p"
proof -
  have "parseDomain (\<lambda>_. Some (''https:'', ''WWW.Bank.co.uk'')) False ''u'' =
    Inr \<lparr>pdm_domain = ''www.bank.co.uk'', pdm_subdomain = Some ''www'', pdm_registrableDomain = ''bank.co.uk'',
      pdm_isPublic = True, pdm_protocol = ''https:''\<rparr>" (is "?l = Inr ?p")
    by code_simp
  moreover from domain_splits [OF this] have "pdm_domain ?p = ''www'' @ ''.'' @ pdm_registrableDomain ?p" by simp
  ultimately show ?thesis by auto
qed

text \<open>
  The tab state answers with the last update that was recorded: after an update is accepted, the
  tab's state is the parsed domain with its URL and time, whatever the cache holds, and no other tab
  changes. An update is dropped only for an unparsable URL or for the domain already recorded less
  than a second ago, and then nothing changes.
\<close>

theorem tab_state_last_update:
  assumes "updateTabDomain parseUrl devMode now tabId url st = (ok, st')"
  shows "if ok then (\<exists>p. parseDomain parseUrl devMode url = Inr p \<and> getTabDomain later tabId st' =
        Some \<lparr>td_tabId = tabId, td_domain = pdm_domain p, td_registrableDomain = pdm_registrableDomain p,
          td_url = url, td_timestamp = now, td_isPublic = \<not> devMode\<rparr>)
      \<and> (\<forall>other. other \<noteq> tabId \<longrightarrow> getTabDomain later other st' = getTabDomain later other st)
    else st' = st \<and> ((\<exists>e. parseDomain parseUrl devMode url = Inl e)
      \<or> (\<exists>p t. parseDomain parseUrl devMode url = Inr p \<and> map_of (ts_cache st) tabId = Some (pdm_domain p, t) \<and> now - t < 1000))"
proof (cases "parseDomain parseUrl devMode url")
  case (Inl e)
  then show ?thesis using assms by (simp add: updateTabDomain_def)
next
  case (Inr p)
  have public: "pdm_isPublic p \<longleftrightarrow> \<not> devMode"
    using Inr by (auto simp: parseDomain_def Let_def split: if_splits option.splits)
  show ?thesis
  proof (cases "case jsmap_get (ts_cache st) tabId of Some (d, t) \<Rightarrow> d = pdm_domain p \<and> now - t < CACHE_TTL_MS | None \<Rightarrow> False")
    case True
    then show ?thesis using assms Inr by (auto simp: updateTabDomain_def CACHE_TTL_MS_def split: option.splits)
  next
    case False
    then have "ok" "st' = st\<lparr>ts_store := (ts_store st)\<lparr>ss_tabDomains := jsmap_set tabId \<lparr>td_tabId = tabId, td_domain = pdm_domain p,
        td_registrableDomain = pdm_registrableDomain p, td_url = url, td_timestamp = now, td_isPublic = pdm_isPublic p\<rparr> (ss_tabDomains (ts_store st))\<rparr>,
        ts_cache := jsmap_set tabId (pdm_domain p, now) (ts_cache st)\<rparr>"
      using assms Inr by (simp_all add: updateTabDomain_def Let_def)
    moreover have "getTabDomain t i x = jsmap_get (ss_tabDomains (ts_store x)) i" for t i x
      by (auto simp: getTabDomain_def split: option.split)
    ultimately show ?thesis using Inr public by simp
  qed
qed

theorem tab_state_last_update_witness:
  "\<exists>st'. updateTabDomain (\<lambda>u. Some (''https:'', u)) False 50 3 ''lhv.ee'' \<lparr>ts_cache = [], ts_store = empty_storage\<rparr> = (True, st')
     \<and> getTabDomain 5000 3 st' \<noteq> None"
proof -
  obtain ok st' where u: "updateTabDomain (\<lambda>u. Some (''https:'', u)) False 50 3 ''lhv.ee'' \<lparr>ts_cache = [], ts_store = empty_storage\<rparr> = (ok, st')"
    by (cases "updateTabDomain (\<lambda>u. Some (''https:'', u)) False 50 3 ''lhv.ee'' \<lparr>ts_cache = [], ts_store = empty_storage\<rparr>")
  have "\<exists>p. parseDomain (\<lambda>u. Some (''https:'', u)) False ''lhv.ee'' = Inr p"
    by (simp add: parseDomain_def VALID_PROTOCOLS_def BLOCKED_HOSTNAMES_def to_lower_def to_lower_char_def Let_def)
  then show ?thesis using u tab_state_last_update [OF u, of 5000] by (cases ok) auto
qed

text \<open>
  Closing a tab clears the cache and not the state: the stored domain of a closed tab is still
  returned afterwards; only \<open>clearTabState\<close>, which nothing calls, removes it.
\<close>

theorem closed_tab_keeps_state:
  "getTabDomain now tabId (onTabRemoved tabId st) = getTabDomain now tabId st
   \<and> getTabDomain now tabId (clearTabState tabId st) = None"
  by (auto simp: getTabDomain_def onTabRemoved_def clearTabState_def split: option.splits)

end
