(* ===== verification/Retry.thy ===== *)
theory Retry
  imports Json
begin

text \<open>
  Errors, retries and timeouts: \<open>lib/errors.ts\<close>, \<open>lib/retry.ts\<close>, \<open>withTimeout\<close> of \<open>lib/asyncUtils.ts\<close>,
  the phase gate of \<open>lib/storage.ts\<close>, and the API relay of \<open>entrypoints/background/apiRelay.ts\<close> as
  their client. What the awaited function does is a parameter that gives the outcome of each call;
  \<open>Math.random()\<close> is a parameter too.
\<close>

section \<open>Errors\<close>

text \<open>What can be thrown: an \<open>ExtensionError\<close>, another \<open>Error\<close> with its name, message and, if it has one, status, or something else.\<close>

datatype thrown =
    ExtensionErr (err_message: string) (err_code: string) (err_recoverable: bool)
  | PlainErr (err_name: string) (err_message: string) (err_status: "int option")
  | NoError

definition RateLimitError :: thrown where
  "RateLimitError = ExtensionErr ''Rate limited'' ''RATE_LIMIT'' True"

definition ContextInvalidatedError :: thrown where
  "ContextInvalidatedError = ExtensionErr ''Context invalidated'' ''CONTEXT_INVALID'' False"

definition ApiError :: "string \<Rightarrow> int option \<Rightarrow> thrown" where
  "ApiError message statusCode = ExtensionErr message ''API_ERROR''
     (case statusCode of None \<Rightarrow> False | Some c \<Rightarrow> c \<ge> 500 \<or> c = 429)"

definition SessionExpiredError :: thrown where
  "SessionExpiredError = ExtensionErr ''MFA session expired'' ''SESSION_EXPIRED'' False"

definition handleExtensionError :: "thrown \<Rightarrow> thrown option" where
  "handleExtensionError e =
     (case e of
        ExtensionErr m c r \<Rightarrow> Some e
      | PlainErr n m st \<Rightarrow>
          if contains m ''Extension context'' then Some ContextInvalidatedError else Some (ExtensionErr m ''UNKNOWN'' True)
      | NoError \<Rightarrow> None)"

definition isRetryableError :: "thrown \<Rightarrow> bool" where
  "isRetryableError e =
     (case e of
        PlainErr n m st \<Rightarrow> if n = ''AbortError'' then True else (case st of Some s \<Rightarrow> s \<ge> 500 \<or> s = 429 | None \<Rightarrow> False)
      | _ \<Rightarrow> False)"

definition error_text :: "thrown \<Rightarrow> string" where
  "error_text e = (case e of ExtensionErr m c r \<Rightarrow> m | PlainErr n m st \<Rightarrow> m | NoError \<Rightarrow> ''Unknown error'')"

section \<open>Timeouts\<close>

text \<open>A race: \<open>Some (t, r)\<close> is a promise that settles with \<open>r\<close> after \<open>t\<close> milliseconds, \<open>None\<close> one that never does.\<close>

definition withTimeout :: "(millis \<times> (string + 'a)) option \<Rightarrow> millis \<Rightarrow> string option \<Rightarrow> string + 'a" where
  "withTimeout promise ms message =
     (let late = Inl (nullish message (''Timed out after '' @ show_int ms @ ''ms'')) in
      case promise of Some (t, r) \<Rightarrow> if t < ms then r else late | None \<Rightarrow> late)"

section \<open>Retries\<close>

record retry_options =
  maxAttempts :: nat
  baseDelayMs :: rat
  maxDelayMs :: rat
  jitterMs :: rat
  shouldRetry :: "thrown \<Rightarrow> nat \<Rightarrow> bool"

definition default_options :: retry_options where
  "default_options = \<lparr>maxAttempts = 3, baseDelayMs = 1000, maxDelayMs = 30000, jitterMs = 500, shouldRetry = (\<lambda>_ _. True)\<rparr>"

definition calculateDelay :: "rat \<Rightarrow> nat \<Rightarrow> retry_options \<Rightarrow> rat" where
  "calculateDelay random attempt opts =
     (let exponentialDelay = baseDelayMs opts * 2 ^ (attempt - 1);
          cappedDelay = min exponentialDelay (maxDelayMs opts);
          jitter = (random * 2 - 1) * jitterMs opts
      in max 0 (cappedDelay + jitter))"

record 'a retry_result =
  rr_success :: bool
  rr_data :: "'a option"
  rr_error :: "string option"
  rr_attempts :: nat

text \<open>
  The loop from attempt \<open>k\<close> on. Besides the result it gives the number of calls made and the delays
  slept, in order. \<open>fn k\<close> is the outcome of the \<open>k\<close>-th call, \<open>rnd k\<close> the random number drawn after it.
\<close>

function retry_loop ::
  "(nat \<Rightarrow> thrown + 'a) \<Rightarrow> (nat \<Rightarrow> rat) \<Rightarrow> retry_options \<Rightarrow> nat \<Rightarrow> thrown \<Rightarrow> 'a retry_result \<times> nat \<times> rat list" where
  "retry_loop fn rnd opts k lastError =
     (if k > maxAttempts opts then
        (\<lparr>rr_success = False, rr_data = None, rr_error = Some (error_text lastError), rr_attempts = maxAttempts opts\<rparr>, 0, [])
      else
       (case fn k of
          Inr d \<Rightarrow> (\<lparr>rr_success = True, rr_data = Some d, rr_error = None, rr_attempts = k\<rparr>, 1, [])
        | Inl err \<Rightarrow>
            if k \<ge> maxAttempts opts \<or> \<not> shouldRetry opts err k then
              (\<lparr>rr_success = False, rr_data = None, rr_error = Some (error_text err), rr_attempts = maxAttempts opts\<rparr>, 1, [])
            else
             (case retry_loop fn rnd opts (k + 1) err of
                (res, calls, delays) \<Rightarrow> (res, calls + 1, calculateDelay (rnd k) k opts # delays))))"
  by pat_completeness auto

termination by (relation "measure (\<lambda>(_, _, opts, k, _). Suc (maxAttempts opts) - k)") auto

declare retry_loop.simps [simp del]

definition withRetry :: "(nat \<Rightarrow> thrown + 'a) \<Rightarrow> (nat \<Rightarrow> rat) \<Rightarrow> retry_options \<Rightarrow> 'a retry_result \<times> nat \<times> rat list" where
  "withRetry fn rnd opts = retry_loop fn rnd opts 1 NoError"

section \<open>Phases\<close>

definition PHASE_ORDER :: "string list" where
  "PHASE_ORDER = [''phase1'', ''phase1.5'', ''phase2a'', ''phase2b'', ''phase2c'', ''full-v6'']"

definition getMigrationPhase :: "string option \<Rightarrow> string" where
  "getMigrationPhase stored = nullish stored ''phase1''"

text \<open>\<open>indexOf\<close>, with -1 for a phase that is not in the list.\<close>

definition phase_index :: "string \<Rightarrow> int" where
  "phase_index p = (case index_of p PHASE_ORDER of Some i \<Rightarrow> int i | None \<Rightarrow> -1)"

definition phaseGate :: "string \<Rightarrow> string \<Rightarrow> bool" where
  "phaseGate currentPhase minimumPhase \<longleftrightarrow> phase_index currentPhase \<ge> phase_index minimumPhase"

section \<open>The API relay\<close>

datatype fetch_outcome = FetchThrows thrown | FetchResponse int string json

definition buildHeaders :: "string \<Rightarrow> string \<Rightarrow> (string, string) jsmap" where
  "buildHeaders apiKey authToken =
     [(''Content-Type'', ''application/json''), (''X-Client'', ''domain-inspector/1.0'')]
     @ (if apiKey \<noteq> [] then [(''X-API-Key'', apiKey)] else [])
     @ (if authToken \<noteq> [] then [(''Authorization'', ''Bearer '' @ authToken)] else [])"

definition response_ok :: "int \<Rightarrow> bool" where
  "response_ok status \<longleftrightarrow> 200 \<le> status \<and> status \<le> 299"

fun send_attempt :: "fetch_outcome \<Rightarrow> thrown + json" where
  "send_attempt (FetchThrows e) = Inl e"
| "send_attempt (FetchResponse status statusText body) =
     (if response_ok status then Inr body
      else Inl (PlainErr ''Error'' (''HTTP '' @ show_int status @ '': '' @ statusText) (Some status)))"

record api_result =
  ar_success :: bool
  ar_data :: "json option"
  ar_error :: "string option"

definition send_options :: retry_options where
  "send_options = default_options\<lparr>maxAttempts := 3, baseDelayMs := 1000, shouldRetry := (\<lambda>e _. isRetryableError e)\<rparr>"

definition ApiRelay_send :: "(nat \<Rightarrow> fetch_outcome) \<Rightarrow> (nat \<Rightarrow> rat) \<Rightarrow> api_result \<times> nat" where
  "ApiRelay_send fetch rnd =
     (case withRetry (\<lambda>k. send_attempt (fetch k)) rnd send_options of (result, calls, _) \<Rightarrow>
        (if rr_success result then \<lparr>ar_success = True, ar_data = rr_data result, ar_error = None\<rparr>
         else \<lparr>ar_success = False, ar_data = None, ar_error = rr_error result\<rparr>, calls))"

fun health_attempt :: "fetch_outcome \<Rightarrow> thrown + json" where
  "health_attempt (FetchThrows e) = Inl e"
| "health_attempt (FetchResponse status statusText body) =
     (if response_ok status then Inr (JObj [(''ok'', JBool True), (''status'', JNum status)])
      else Inl (PlainErr ''Error'' (''Health check failed: '' @ show_int status) None))"

definition ApiRelay_healthCheck :: "(nat \<Rightarrow> fetch_outcome) \<Rightarrow> (nat \<Rightarrow> rat) \<Rightarrow> api_result \<times> nat" where
  "ApiRelay_healthCheck fetch rnd =
     (case withRetry (\<lambda>k. health_attempt (fetch k)) rnd (default_options\<lparr>maxAttempts := 2, baseDelayMs := 500\<rparr>) of (result, calls, _) \<Rightarrow>
        (\<lparr>ar_success = rr_success result, ar_data = rr_data result, ar_error = rr_error result\<rparr>, calls))"

section \<open>Lemmas\<close>

text \<open>The loop stops at the first call that succeeds, must not be retried or is the last.\<close>

definition stops :: "(nat \<Rightarrow> thrown + 'a) \<Rightarrow> retry_options \<Rightarrow> nat \<Rightarrow> bool" where
  "stops fn opts k \<longleftrightarrow> k \<ge> maxAttempts opts \<or> (case fn k of Inr _ \<Rightarrow> True | Inl e \<Rightarrow> \<not> shouldRetry opts e k)"

lemma retry_loop_stops:
  assumes "k \<le> n" "n \<le> maxAttempts opts" "stops fn opts n" "\<forall>j. k \<le> j \<longrightarrow> j < n \<longrightarrow> \<not> stops fn opts j"
  shows "retry_loop fn rnd opts k lastError =
    ((case fn n of
        Inr d \<Rightarrow> \<lparr>rr_success = True, rr_data = Some d, rr_error = None, rr_attempts = n\<rparr>
      | Inl e \<Rightarrow> \<lparr>rr_success = False, rr_data = None, rr_error = Some (error_text e), rr_attempts = maxAttempts opts\<rparr>),
     Suc n - k, map (\<lambda>j. calculateDelay (rnd j) j opts) [k..<n])"
  using assms
proof (induction "n - k" arbitrary: k lastError)
  case 0
  then have "k = n" by simp
  then show ?case using 0 by (subst retry_loop.simps) (auto simp: stops_def split: sum.splits)
next
  case (Suc m)
  then have k: "k < n" "\<not> stops fn opts k" by auto
  then obtain e where e: "fn k = Inl e" "shouldRetry opts e k" "k < maxAttempts opts"
    by (auto simp: stops_def split: sum.splits)
  have "retry_loop fn rnd opts (k + 1) e =
    ((case fn n of
        Inr d \<Rightarrow> \<lparr>rr_success = True, rr_data = Some d, rr_error = None, rr_attempts = n\<rparr>
      | Inl e \<Rightarrow> \<lparr>rr_success = False, rr_data = None, rr_error = Some (error_text e), rr_attempts = maxAttempts opts\<rparr>),
     Suc n - (k + 1), map (\<lambda>j. calculateDelay (rnd j) j opts) [k + 1..<n])"
    using Suc k by (intro Suc.hyps(1)) auto
  moreover have "[k..<n] = k # [k + 1..<n]" using k(1) by (simp add: upt_conv_Cons)
  ultimately show ?case using e k(1) by (subst retry_loop.simps) (simp add: Suc_diff_le)
qed

lemma calculateDelay_bounds:
  assumes "0 \<le> random" "random \<le> 1" "0 \<le> jitterMs opts" "0 \<le> maxDelayMs opts"
  shows "0 \<le> calculateDelay random k opts \<and> calculateDelay random k opts \<le> maxDelayMs opts + jitterMs opts"
proof -
  have "(random * 2 - 1) * jitterMs opts \<le> 1 * jitterMs opts" using assms by (intro mult_right_mono) auto
  then show ?thesis using assms by (auto simp: calculateDelay_def Let_def)
qed

section \<open>Properties\<close>

text \<open>
  A retried call stops where it should. Let the \<open>n\<close>-th call be the first that succeeds, must not be
  retried, or is the last allowed. Then exactly \<open>n\<close> calls are made, with \<open>n - 1\<close> pauses between them,
  each between zero and the maximal delay plus jitter; the result is the data of that call or the
  message of its error. On failure the reported number of attempts is the maximum, not the number
  of calls.
\<close>

theorem withRetry_behaviour:
  assumes "1 \<le> n" "n \<le> maxAttempts opts" "stops fn opts n" "\<forall>j. 1 \<le> j \<longrightarrow> j < n \<longrightarrow> \<not> stops fn opts j"
    and "\<forall>j. 0 \<le> rnd j \<and> rnd j \<le> 1" "0 \<le> jitterMs opts" "0 \<le> maxDelayMs opts"
  shows "\<exists>delays. withRetry fn rnd opts =
      ((case fn n of
          Inr d \<Rightarrow> \<lparr>rr_success = True, rr_data = Some d, rr_error = None, rr_attempts = n\<rparr>
        | Inl e \<Rightarrow> \<lparr>rr_success = False, rr_data = None, rr_error = Some (error_text e), rr_attempts = maxAttempts opts\<rparr>), n, delays)
    \<and> length delays = n - 1 \<and> list_all (\<lambda>d. 0 \<le> d \<and> d \<le> maxDelayMs opts + jitterMs opts) delays"
  using retry_loop_stops [OF assms(1-3), of rnd NoError] assms(4) calculateDelay_bounds [OF _ _ assms(6,7)] assms(5)
  by (simp add: withRetry_def list_all_iff)

theorem withRetry_behaviour_witness:
  "\<exists>delays. withRetry (\<lambda>k. if k = 2 then Inl (PlainErr ''Error'' ''no'' (Some 404)) else Inl (PlainErr ''AbortError'' ''t'' None) :: thrown + unit)
      (\<lambda>_. 1/2) send_options
    = (\<lparr>rr_success = False, rr_data = None, rr_error = Some ''no'', rr_attempts = 3\<rparr>, 2, delays) \<and> length delays = 1"
proof -
  let ?fn = "\<lambda>k. if k = 2 then Inl (PlainErr ''Error'' ''no'' (Some 404)) else Inl (PlainErr ''AbortError'' ''t'' None) :: thrown + unit"
  have "stops ?fn send_options 2" "\<forall>j. 1 \<le> j \<longrightarrow> j < 2 \<longrightarrow> \<not> stops ?fn send_options j"
    by (auto simp: stops_def send_options_def default_options_def isRetryableError_def)
  from withRetry_behaviour [OF _ _ this, of "\<lambda>_. 1/2"] show ?thesis
    by (auto simp: send_options_def default_options_def error_text_def)
qed

text \<open>
  The relay does not repeat a request the server has refused: an answer in the 400s other than
  429 ends the sending after one call with that answer's text, a successful answer ends it with its
  data; a request that fails with a server error or 429 every time is made exactly three times.
\<close>

theorem relay_retries:
  assumes "fetch 1 = FetchResponse status text body"
  shows "(400 \<le> status \<and> status < 500 \<and> status \<noteq> 429 \<longrightarrow>
       ApiRelay_send fetch rnd = (\<lparr>ar_success = False, ar_data = None, ar_error = Some (''HTTP '' @ show_int status @ '': '' @ text)\<rparr>, 1))
    \<and> (response_ok status \<longrightarrow> ApiRelay_send fetch rnd = (\<lparr>ar_success = True, ar_data = Some body, ar_error = None\<rparr>, 1))
    \<and> ((\<forall>k. \<exists>s t b. fetch k = FetchResponse s t b \<and> (s \<ge> 500 \<or> s = 429)) \<longrightarrow>
         snd (ApiRelay_send fetch rnd) = 3 \<and> \<not> ar_success (fst (ApiRelay_send fetch rnd)))"
proof -
  let ?fn = "\<lambda>k. send_attempt (fetch k)"
  have mx: "maxAttempts send_options = 3" by (simp add: send_options_def)
  have one: "withRetry ?fn rnd send_options = ((case ?fn 1 of
        Inr d \<Rightarrow> \<lparr>rr_success = True, rr_data = Some d, rr_error = None, rr_attempts = 1\<rparr>
      | Inl e \<Rightarrow> \<lparr>rr_success = False, rr_data = None, rr_error = Some (error_text e), rr_attempts = maxAttempts send_options\<rparr>), 1, [])"
    if "stops ?fn send_options 1"
    using retry_loop_stops [of 1 1 send_options ?fn rnd NoError] that mx unfolding withRetry_def by simp
  have refused: "stops ?fn send_options 1" if "response_ok status \<or> 400 \<le> status \<and> status < 500 \<and> status \<noteq> 429"
    using that assms by (auto simp: stops_def send_options_def isRetryableError_def response_ok_def)
  have again: "snd (ApiRelay_send fetch rnd) = 3 \<and> \<not> ar_success (fst (ApiRelay_send fetch rnd))"
    if all: "\<forall>k. \<exists>s t b. fetch k = FetchResponse s t b \<and> (s \<ge> 500 \<or> s = 429)"
  proof -
    have inl: "\<exists>e. ?fn k = Inl e \<and> isRetryableError e" for k
      using all [rule_format, of k] by (auto simp: response_ok_def isRetryableError_def)
    have "\<not> stops ?fn send_options j" if "j < 3" for j
    proof -
      obtain e where "?fn j = Inl e" "isRetryableError e" using inl by blast
      then show ?thesis using that by (simp add: stops_def send_options_def)
    qed
    moreover have "stops ?fn send_options 3" by (simp add: stops_def mx)
    ultimately show ?thesis
      using retry_loop_stops [of 1 3 send_options ?fn rnd NoError] inl [of 3] mx
      by (auto simp: ApiRelay_send_def withRetry_def)
  qed
  show ?thesis
    using one refused again assms by (auto simp: ApiRelay_send_def error_text_def response_ok_def)
qed

lemma show_403: "show_int 403 = ''403''"
  by code_simp

theorem relay_retries_witness:
  "ApiRelay_send (\<lambda>_. FetchResponse 403 ''Forbidden'' JNull) (\<lambda>_. 0)
     = (\<lparr>ar_success = False, ar_data = None, ar_error = Some ''HTTP 403: Forbidden''\<rparr>, 1)"
  using relay_retries [of "\<lambda>_. FetchResponse 403 ''Forbidden'' JNull" 403 "''Forbidden''" JNull "\<lambda>_. 0"]
  by (simp add: show_403)

end
