(* ===== verification/ContentScripts.thy ===== *)
theory ContentScripts
  imports Storage Locks
begin

text \<open>
  Which web sites the extension may act on: \<open>entrypoints/background/contentScriptManager.ts\<close> (the
  approved domains and their content scripts, the pending and the denied domains, the badge) and the
  handlers of \<open>messageHandlers.ts\<close> that take the user's decisions. The browser's script registry is
  part of the state; why it refuses a script is a parameter.
\<close>

section \<open>State\<close>

record content_script =
  scr_id :: string
  scr_matches :: "string list"
  scr_js :: "string list"

record csm =
  cs_store :: storage
  cs_scripts :: "content_script list"
  cs_badge :: "string \<times> string"

definition new_csm :: csm where
  "new_csm = \<lparr>cs_store = empty_storage, cs_scripts = [], cs_badge = ([], ''#000000'')\<rparr>"

definition SCRIPT_ID_PREFIX :: string where "SCRIPT_ID_PREFIX = ''credential-fill-''"

definition sha256Hex :: "(bytes \<Rightarrow> bytes) \<Rightarrow> string \<Rightarrow> string" where
  "sha256Hex sha256 input = to_hex (sha256 (utf8_encode input))"

definition scriptIdForDomain :: "string \<Rightarrow> string option \<Rightarrow> string" where
  "scriptIdForDomain domain hash = SCRIPT_ID_PREFIX @ nullish hash domain"

definition script_for :: "string \<Rightarrow> string \<Rightarrow> string option \<Rightarrow> content_script" where
  "script_for scriptId domain jsFile =
     \<lparr>scr_id = scriptId, scr_matches = [''*://*.'' @ domain @ ''/*''], scr_js = [nullish jsFile ''content-scripts/content.js'']\<rparr>"

section \<open>Approved domains\<close>

definition getApprovedDomains :: "csm \<Rightarrow> approved_domain list" where
  "getApprovedDomains s = nullish (sy_approvedDomains (cs_store s)) []"

definition setApprovedDomains :: "approved_domain list \<Rightarrow> csm \<Rightarrow> csm" where
  "setApprovedDomains ds s = s\<lparr>cs_store := (cs_store s)\<lparr>sy_approvedDomains := Some ds\<rparr>\<rparr>"

definition isDomainApproved :: "string \<Rightarrow> csm \<Rightarrow> bool" where
  "isDomainApproved domain s \<longleftrightarrow> list_ex (\<lambda>a. ad_domain a = domain) (getApprovedDomains s)"

text \<open>
  \<open>chrome.scripting.registerContentScripts\<close>: \<open>regErr\<close> gives the message of the error it rejects with
  for a script, given those registered; otherwise the script is registered.
\<close>

type_synonym reg_err = "content_script \<Rightarrow> content_script list \<Rightarrow> string option"

definition register_script :: "reg_err \<Rightarrow> content_script \<Rightarrow> csm \<Rightarrow> string option \<times> csm" where
  "register_script regErr script s =
     (case regErr script (cs_scripts s) of
        None \<Rightarrow> (None, s\<lparr>cs_scripts := cs_scripts s @ [script]\<rparr>)
      | Some e \<Rightarrow> (Some e, s))"

definition script_error :: "string option \<Rightarrow> string option" where
  "script_error e = (case e of None \<Rightarrow> None | Some m \<Rightarrow> if contains m ''already registered'' then None else Some m)"

definition registerForDomain ::
  "(bytes \<Rightarrow> bytes) \<Rightarrow> reg_err \<Rightarrow> millis \<Rightarrow> string \<Rightarrow> string option \<Rightarrow> csm \<Rightarrow> (string + string) \<times> csm" where
  "registerForDomain sha256 regErr now domain jsFile s =
     (let scriptId = scriptIdForDomain domain (Some (sha256Hex sha256 domain));
          existing = getApprovedDomains s
      in if list_ex (\<lambda>a. ad_domain a = domain) existing then (Inr scriptId, s)
         else
          (let (err, s1) = register_script regErr (script_for scriptId domain jsFile) s in
           case script_error err of
             Some e \<Rightarrow> (Inl e, s1)
           | None \<Rightarrow>
               (Inr scriptId, setApprovedDomains (existing @ [\<lparr>ad_domain = domain, ad_registeredAt = now, ad_scriptId = scriptId\<rparr>]) s1)))"

definition unregisterForDomain :: "(string \<Rightarrow> bool) \<Rightarrow> string \<Rightarrow> csm \<Rightarrow> csm" where
  "unregisterForDomain unregOk domain s =
     (let existing = getApprovedDomains s in
      case find (\<lambda>a. ad_domain a = domain) existing of
        None \<Rightarrow> s
      | Some entry \<Rightarrow>
          (let s1 = (if unregOk (ad_scriptId entry)
                     then s\<lparr>cs_scripts := filter (\<lambda>c. scr_id c \<noteq> ad_scriptId entry) (cs_scripts s)\<rparr> else s)
           in setApprovedDomains (filter (\<lambda>a. ad_domain a \<noteq> domain) existing) s1))"

text \<open>
  All entries ask for the registered scripts before the first registration; \<open>listOk\<close> is whether that
  call works. A failed registration is logged and the others go on.
\<close>

definition reRegisterOnStartup :: "reg_err \<Rightarrow> bool \<Rightarrow> csm \<Rightarrow> csm" where
  "reRegisterOnStartup regErr listOk s =
     (if listOk then
        fold (\<lambda>entry s. snd (register_script regErr (script_for (ad_scriptId entry) (ad_domain entry) None) s))
          (filter (\<lambda>entry. \<not> list_ex (\<lambda>c. scr_id c = ad_scriptId entry) (cs_scripts s)) (getApprovedDomains s)) s
      else s)"

definition isScriptRegistered :: "(bytes \<Rightarrow> bytes) \<Rightarrow> bool \<Rightarrow> string \<Rightarrow> csm \<Rightarrow> bool" where
  "isScriptRegistered sha256 listOk domain s \<longleftrightarrow>
     listOk \<and> list_ex (\<lambda>c. scr_id c = scriptIdForDomain domain (Some (sha256Hex sha256 domain))) (cs_scripts s)"

section \<open>Pending and denied domains\<close>

definition getPendingDomains :: "csm \<Rightarrow> pending_domain list" where
  "getPendingDomains s = nullish (ss_pendingDomains (cs_store s)) []"

definition setPendingDomains :: "pending_domain list \<Rightarrow> csm \<Rightarrow> csm" where
  "setPendingDomains ps s = s\<lparr>cs_store := (cs_store s)\<lparr>ss_pendingDomains := Some ps\<rparr>\<rparr>"

definition updateBadgeCount :: "csm \<Rightarrow> csm" where
  "updateBadgeCount s =
     (let n = length (getPendingDomains s) in
      s\<lparr>cs_badge := (if n > 0 then (show_nat n, ''#dc2626'') else ([], ''#000000''))\<rparr>)"

definition addPendingDomain :: "millis \<Rightarrow> string \<Rightarrow> string \<Rightarrow> int \<Rightarrow> string \<Rightarrow> string \<Rightarrow> csm \<Rightarrow> csm" where
  "addPendingDomain now domain url tabId usernameSelector passwordSelector s =
     (let pending = getPendingDomains s in
      if list_ex (\<lambda>p. pd_domain p = domain) pending then s
      else updateBadgeCount (setPendingDomains (pending @ [\<lparr>pd_domain = domain, pd_url = url, pd_tabId = tabId,
        pd_usernameSelector = usernameSelector, pd_passwordSelector = passwordSelector, pd_timestamp = now\<rparr>]) s))"

definition removePendingDomain :: "string \<Rightarrow> csm \<Rightarrow> csm" where
  "removePendingDomain domain s =
     updateBadgeCount (setPendingDomains (filter (\<lambda>p. pd_domain p \<noteq> domain) (getPendingDomains s)) s)"

definition deniedDomains :: "csm \<Rightarrow> string list" where
  "deniedDomains s = nullish (ss_deniedDomains (cs_store s)) []"

definition isDomainDeniedInSession :: "string \<Rightarrow> csm \<Rightarrow> bool" where
  "isDomainDeniedInSession domain s \<longleftrightarrow> domain \<in> set (deniedDomains s)"

definition addDeniedDomain :: "string \<Rightarrow> csm \<Rightarrow> csm" where
  "addDeniedDomain domain s =
     (if domain \<in> set (deniedDomains s) then s
      else s\<lparr>cs_store := (cs_store s)\<lparr>ss_deniedDomains := Some (deniedDomains s @ [domain])\<rparr>\<rparr>)"

section \<open>The handlers\<close>

record login_form =
  lf_domain :: string
  lf_url :: string
  lf_usernameSelector :: string
  lf_passwordSelector :: string

definition ok_response :: "(string \<times> json) list \<Rightarrow> message_response" where
  "ok_response props = \<lparr>mr_success = True, mr_data = Some (JObj props), mr_error = None\<rparr>"

definition error_response :: "string \<Rightarrow> message_response" where
  "error_response e = \<lparr>mr_success = False, mr_data = None, mr_error = Some e\<rparr>"

definition incomplete_form :: "login_form \<Rightarrow> bool" where
  "incomplete_form f \<longleftrightarrow> lf_domain f = [] \<or> lf_usernameSelector f = [] \<or> lf_passwordSelector f = []"

text \<open>A tab identifier of 0 is falsy, as is a missing one.\<close>

definition sender_tab :: "int option \<Rightarrow> int option" where
  "sender_tab t = (case t of Some i \<Rightarrow> if i = 0 then None else Some i | None \<Rightarrow> None)"

definition login_form_detected_unapproved :: "millis \<Rightarrow> login_form \<Rightarrow> int option \<Rightarrow> csm \<Rightarrow> message_response \<times> csm" where
  "login_form_detected_unapproved now f sender s =
     (if incomplete_form f then (error_response ''Incomplete login form detection data'', s)
      else
       (case sender_tab sender of
          None \<Rightarrow> (error_response ''No sender tab'', s)
        | Some tabId \<Rightarrow>
            if isDomainDeniedInSession (lf_domain f) s then (ok_response [(''ignored'', JBool True)], s)
            else (ok_response [(''pending'', JBool True)],
                  addPendingDomain now (lf_domain f) (lf_url f) tabId (lf_usernameSelector f) (lf_passwordSelector f) s)))"

definition domain_approved :: "(bytes \<Rightarrow> bytes) \<Rightarrow> reg_err \<Rightarrow> millis \<Rightarrow> string \<Rightarrow> csm \<Rightarrow> message_response \<times> csm" where
  "domain_approved sha256 regErr now domain s =
     (case registerForDomain sha256 regErr now domain None s of
        (Inl e, s1) \<Rightarrow> (error_response e, s1)
      | (Inr _, s1) \<Rightarrow> (ok_response [(''domain'', JStr domain)], removePendingDomain domain s1))"

definition domain_denied :: "string \<Rightarrow> csm \<Rightarrow> message_response \<times> csm" where
  "domain_denied domain s = (ok_response [(''domain'', JStr domain)], removePendingDomain domain (addDeniedDomain domain s))"

definition check_domain_approved :: "string \<Rightarrow> csm \<Rightarrow> message_response" where
  "check_domain_approved domain s = ok_response [(''approved'', JBool (isDomainApproved domain s))]"

section \<open>Histories\<close>

definition csm_restart :: "csm \<Rightarrow> csm" where
  "csm_restart s = s\<lparr>cs_store := browser_restart (cs_store s), cs_badge := ([], ''#000000'')\<rparr>"

inductive csm_step :: "(bytes \<Rightarrow> bytes) \<Rightarrow> csm \<Rightarrow> csm \<Rightarrow> bool" for sha256 where
  detect: "csm_step sha256 s (snd (login_form_detected_unapproved now f sender s))"
| approve: "csm_step sha256 s (snd (domain_approved sha256 regErr now domain s))"
| deny: "csm_step sha256 s (snd (domain_denied domain s))"
| unregister: "csm_step sha256 s (unregisterForDomain unregOk domain s)"
| startup: "csm_step sha256 s (reRegisterOnStartup regErr listOk s)"
| restart: "csm_step sha256 s (csm_restart s)"

inductive csm_reachable :: "(bytes \<Rightarrow> bytes) \<Rightarrow> csm \<Rightarrow> bool" for sha256 where
  csm_init: "csm_reachable sha256 new_csm"
| csm_next: "csm_reachable sha256 s \<Longrightarrow> csm_step sha256 s s' \<Longrightarrow> csm_reachable sha256 s'"

text \<open>Calls of \<open>registerForDomain\<close> as the segments between their awaits; for different domains no lock orders them.\<close>

record reg_call =
  rc_existing :: "approved_domain list"
  rc_result :: "(string + string) option"

definition reg_call0 :: reg_call where
  "reg_call0 = \<lparr>rc_existing = [], rc_result = None\<rparr>"

definition register_segments ::
  "(bytes \<Rightarrow> bytes) \<Rightarrow> reg_err \<Rightarrow> millis \<Rightarrow> string \<Rightarrow> string option \<Rightarrow> (csm, reg_call) segment list" where
  "register_segments sha256 regErr now domain jsFile =
     (let scriptId = scriptIdForDomain domain (Some (sha256Hex sha256 domain)) in
      [\<lambda>(s, l). let existing = getApprovedDomains s in
         (s, if list_ex (\<lambda>a. ad_domain a = domain) existing then l\<lparr>rc_result := Some (Inr scriptId)\<rparr>
             else l\<lparr>rc_existing := existing\<rparr>),
       \<lambda>(s, l). if rc_result l \<noteq> None then (s, l)
         else (case register_script regErr (script_for scriptId domain jsFile) s of (err, s1) \<Rightarrow>
           (s1, case script_error err of None \<Rightarrow> l | Some e \<Rightarrow> l\<lparr>rc_result := Some (Inl e)\<rparr>)),
       \<lambda>(s, l). if rc_result l \<noteq> None then (s, l)
         else (setApprovedDomains (rc_existing l @ [\<lparr>ad_domain = domain, ad_registeredAt = now, ad_scriptId = scriptId\<rparr>]) s,
               l\<lparr>rc_result := Some (Inr scriptId)\<rparr>)])"

section \<open>Lemmas\<close>

lemma csm_get_simps [simp]:
  "getApprovedDomains (setApprovedDomains ds s) = ds" "getPendingDomains (setApprovedDomains ds s) = getPendingDomains s"
  "deniedDomains (setApprovedDomains ds s) = deniedDomains s" "cs_badge (setApprovedDomains ds s) = cs_badge s"
  "getPendingDomains (setPendingDomains ps s) = ps" "getApprovedDomains (setPendingDomains ps s) = getApprovedDomains s"
  "deniedDomains (setPendingDomains ps s) = deniedDomains s" "cs_scripts (setApprovedDomains ds s) = cs_scripts s"
  "getPendingDomains (updateBadgeCount s) = getPendingDomains s" "getApprovedDomains (updateBadgeCount s) = getApprovedDomains s"
  "deniedDomains (updateBadgeCount s) = deniedDomains s" "getApprovedDomains (s\<lparr>cs_scripts := cs\<rparr>) = getApprovedDomains s"
  "getPendingDomains (s\<lparr>cs_scripts := cs\<rparr>) = getPendingDomains s" "deniedDomains (s\<lparr>cs_scripts := cs\<rparr>) = deniedDomains s"
  by (simp_all add: getApprovedDomains_def setApprovedDomains_def getPendingDomains_def setPendingDomains_def deniedDomains_def
      updateBadgeCount_def Let_def)

lemma register_script_keeps [simp]:
  "getApprovedDomains (snd (register_script regErr c s)) = getApprovedDomains s"
  "getPendingDomains (snd (register_script regErr c s)) = getPendingDomains s"
  "deniedDomains (snd (register_script regErr c s)) = deniedDomains s"
  "cs_badge (snd (register_script regErr c s)) = cs_badge s"
  by (simp_all add: register_script_def split: option.split)

lemma removePending_facts [simp]:
  "getPendingDomains (removePendingDomain d s) = filter (\<lambda>p. pd_domain p \<noteq> d) (getPendingDomains s)"
  "getApprovedDomains (removePendingDomain d s) = getApprovedDomains s"
  "deniedDomains (removePendingDomain d s) = deniedDomains s"
  by (simp_all add: removePendingDomain_def)

lemma addDenied_facts [simp]:
  "getPendingDomains (addDeniedDomain d s) = getPendingDomains s" "getApprovedDomains (addDeniedDomain d s) = getApprovedDomains s"
  "cs_badge (addDeniedDomain d s) = cs_badge s" "set (deniedDomains (addDeniedDomain d s)) = insert d (set (deniedDomains s))"
  by (auto simp: addDeniedDomain_def getPendingDomains_def getApprovedDomains_def deniedDomains_def)

definition badge_of :: "nat \<Rightarrow> string \<times> string" where
  "badge_of n = (if n > 0 then (show_nat n, ''#dc2626'') else ([], ''#000000''))"

lemma updateBadge_badge: "cs_badge (updateBadgeCount s) = badge_of (length (getPendingDomains s))"
  by (simp add: updateBadgeCount_def badge_of_def Let_def)

text \<open>The invariant, one part per list.\<close>

definition approved_inv :: "(bytes \<Rightarrow> bytes) \<Rightarrow> approved_domain list \<Rightarrow> bool" where
  "approved_inv sha256 ds \<longleftrightarrow> distinct (map ad_domain ds)
     \<and> list_all (\<lambda>a. ad_scriptId a = scriptIdForDomain (ad_domain a) (Some (sha256Hex sha256 (ad_domain a)))) ds"

definition pending_inv :: "csm \<Rightarrow> bool" where
  "pending_inv s \<longleftrightarrow> distinct (map pd_domain (getPendingDomains s))
     \<and> set (deniedDomains s) \<inter> pd_domain ` set (getPendingDomains s) = {}
     \<and> cs_badge s = badge_of (length (getPendingDomains s))"

lemma pending_inv_remove:
  assumes "pending_inv s" "set (deniedDomains s') \<subseteq> insert d (set (deniedDomains s))" "getPendingDomains s' = getPendingDomains s"
  shows "pending_inv (removePendingDomain d s')"
proof -
  have "cs_badge (removePendingDomain d s') = badge_of (length (getPendingDomains (removePendingDomain d s')))"
    by (simp add: removePendingDomain_def updateBadge_badge)
  moreover have "set (deniedDomains s') \<inter> pd_domain ` set (filter (\<lambda>p. pd_domain p \<noteq> d) (getPendingDomains s)) = {}"
    using assms(1,2) unfolding pending_inv_def by auto
  ultimately show ?thesis using assms by (simp add: pending_inv_def distinct_map_filter_keys)
qed

lemma pending_inv_same:
  assumes "pending_inv s" "getPendingDomains s' = getPendingDomains s" "deniedDomains s' = deniedDomains s" "cs_badge s' = cs_badge s"
  shows "pending_inv s'"
  using assms by (simp add: pending_inv_def)

text \<open>What a registration does to the list, on every branch.\<close>

lemma registerForDomain_outcome:
  assumes "registerForDomain sha256 regErr now domain jsFile s = (res, s')"
  shows "getPendingDomains s' = getPendingDomains s \<and> deniedDomains s' = deniedDomains s \<and> cs_badge s' = cs_badge s
    \<and> (case res of
         Inl e \<Rightarrow> getApprovedDomains s' = getApprovedDomains s \<and> \<not> isDomainApproved domain s
       | Inr sid \<Rightarrow> sid = scriptIdForDomain domain (Some (sha256Hex sha256 domain))
           \<and> getApprovedDomains s' = (if isDomainApproved domain s then getApprovedDomains s
               else getApprovedDomains s @ [\<lparr>ad_domain = domain, ad_registeredAt = now, ad_scriptId = sid\<rparr>]))"
  using assms register_script_keeps
    [of regErr "script_for (scriptIdForDomain domain (Some (sha256Hex sha256 domain))) domain jsFile" s]
  by (auto simp: registerForDomain_def Let_def case_prod_beta isDomainApproved_def split: if_splits option.splits)

lemma approved_inv_register:
  assumes "approved_inv sha256 (getApprovedDomains s)" "registerForDomain sha256 regErr now domain jsFile s = (res, s')"
  shows "approved_inv sha256 (getApprovedDomains s')"
  using assms registerForDomain_outcome [OF assms(2)]
  by (cases res) (auto simp: approved_inv_def isDomainApproved_def list_ex_iff)

lemma approved_inv_unregister:
  "approved_inv sha256 (getApprovedDomains s) \<Longrightarrow> approved_inv sha256 (getApprovedDomains (unregisterForDomain unregOk d s))"
  by (auto simp: unregisterForDomain_def Let_def approved_inv_def distinct_map_filter_keys list_all_iff split: option.split)

lemma reRegister_keeps:
  "getApprovedDomains (reRegisterOnStartup regErr ok s) = getApprovedDomains s
   \<and> getPendingDomains (reRegisterOnStartup regErr ok s) = getPendingDomains s
   \<and> deniedDomains (reRegisterOnStartup regErr ok s) = deniedDomains s \<and> cs_badge (reRegisterOnStartup regErr ok s) = cs_badge s"
proof -
  have "getApprovedDomains (fold (\<lambda>e s. snd (register_script regErr (f e) s)) es s) = getApprovedDomains s
    \<and> getPendingDomains (fold (\<lambda>e s. snd (register_script regErr (f e) s)) es s) = getPendingDomains s
    \<and> deniedDomains (fold (\<lambda>e s. snd (register_script regErr (f e) s)) es s) = deniedDomains s
    \<and> cs_badge (fold (\<lambda>e s. snd (register_script regErr (f e) s)) es s) = cs_badge s"
    for f :: "approved_domain \<Rightarrow> content_script" and es
    by (induction es arbitrary: s) simp_all
  from this [of "\<lambda>e. script_for (ad_scriptId e) (ad_domain e) None"] show ?thesis by (simp add: reRegisterOnStartup_def)
qed

lemma csm_inv_step:
  assumes "csm_step sha256 s s'" "approved_inv sha256 (getApprovedDomains s)" "pending_inv s"
  shows "approved_inv sha256 (getApprovedDomains s') \<and> pending_inv s'"
  using assms(1)
proof cases
  case (detect now f sender)
  let ?t = "\<lambda>tab. addPendingDomain now (lf_domain f) (lf_url f) tab (lf_usernameSelector f) (lf_passwordSelector f) s"
  have "approved_inv sha256 (getApprovedDomains (?t tab)) \<and> pending_inv (?t tab)" if "\<not> isDomainDeniedInSession (lf_domain f) s" for tab
    using that assms(2,3)
    by (auto simp: addPendingDomain_def Let_def pending_inv_def list_ex_iff updateBadge_badge isDomainDeniedInSession_def)
  then show ?thesis using detect assms(2,3)
    by (auto simp: login_form_detected_unapproved_def split: option.splits)
next
  case (approve regErr now domain)
  obtain res s1 where r: "registerForDomain sha256 regErr now domain None s = (res, s1)" by fastforce
  note o = registerForDomain_outcome [OF r] and a = approved_inv_register [OF assms(2) r]
  show ?thesis
  proof (cases res)
    case (Inl e)
    then show ?thesis using approve r o a pending_inv_same [OF assms(3)] by (simp add: domain_approved_def)
  next
    case (Inr sid)
    then show ?thesis using approve r o a pending_inv_remove [OF assms(3), of s1 domain] by (auto simp: domain_approved_def)
  qed
next
  case (deny domain)
  then show ?thesis using assms(2) pending_inv_remove [OF assms(3), of "addDeniedDomain domain s" domain]
    by (simp add: domain_denied_def)
next
  case (unregister unregOk domain)
  have "pending_inv s'" unfolding unregister
    by (rule pending_inv_same [OF assms(3)]) (auto simp: unregisterForDomain_def Let_def split: option.split)
  then show ?thesis using approved_inv_unregister [OF assms(2)] unregister by simp
next
  case (startup regErr listOk)
  then show ?thesis using reRegister_keeps [of regErr listOk s] assms(2) pending_inv_same [OF assms(3)] by simp
next
  case restart
  then show ?thesis using assms(2)
    by (simp add: csm_restart_def browser_restart_def empty_storage_def pending_inv_def badge_of_def getPendingDomains_def
        getApprovedDomains_def deniedDomains_def)
qed

lemma csm_inv_reachable: "csm_reachable sha256 s \<Longrightarrow> approved_inv sha256 (getApprovedDomains s) \<and> pending_inv s"
proof (induction rule: csm_reachable.induct)
  case csm_init
  show ?case by (simp add: new_csm_def empty_storage_def approved_inv_def pending_inv_def badge_of_def getPendingDomains_def
        getApprovedDomains_def deniedDomains_def)
next
  case (csm_next s s')
  then show ?case using csm_inv_step by blast
qed

lemma run_register_segments:
  "case run_segments (register_segments sha256 regErr now domain jsFile) (s, reg_call0) of (s', l') \<Rightarrow>
     rc_result l' = Some (fst (registerForDomain sha256 regErr now domain jsFile s))
     \<and> s' = snd (registerForDomain sha256 regErr now domain jsFile s)"
  by (auto simp: register_segments_def registerForDomain_def reg_call0_def Let_def case_prod_beta split: option.split)

section \<open>Properties\<close>


definition sample_form :: login_form where
  "sample_form = \<lparr>lf_domain = ''a.ee'', lf_url = ''https://a.ee/'', lf_usernameSelector = ''#u'', lf_passwordSelector = ''#p''\<rparr>"


text \<open>
  Approval and its withdrawal. A registration that succeeds makes its domain approved, and with a
  browser that accepted the script that script is registered; one that fails reports the browser's
  message and leaves the approvals as they were. Withdrawing removes the approval whatever the browser
  says. Neither touches the approval of another domain, nor the pending and denied ones.
\<close>

theorem approval_lifecycle:
  assumes "registerForDomain sha256 regErr now domain jsFile s = (res, s')"
  shows "(case res of
       Inl e \<Rightarrow> regErr (script_for (scriptIdForDomain domain (Some (sha256Hex sha256 domain))) domain jsFile) (cs_scripts s) = Some e
         \<and> s' = s
     | Inr sid \<Rightarrow> isDomainApproved domain s'
         \<and> (\<not> isDomainApproved domain s \<longrightarrow> regErr (script_for sid domain jsFile) (cs_scripts s) = None \<longrightarrow> isScriptRegistered sha256 True domain s'))
    \<and> (d \<noteq> domain \<longrightarrow> isDomainApproved d s' = isDomainApproved d s)
    \<and> \<not> isDomainApproved domain (unregisterForDomain unregOk domain s')
    \<and> (d \<noteq> domain \<longrightarrow> isDomainApproved d (unregisterForDomain unregOk domain s') = isDomainApproved d s)
    \<and> getPendingDomains (unregisterForDomain unregOk domain s') = getPendingDomains s
    \<and> deniedDomains (unregisterForDomain unregOk domain s') = deniedDomains s"
proof -
  note o = registerForDomain_outcome [OF assms]
  have fail: "regErr (script_for (scriptIdForDomain domain (Some (sha256Hex sha256 domain))) domain jsFile) (cs_scripts s) = Some e
      \<and> s' = s" if "res = Inl e" for e
    using assms that
    by (auto simp: registerForDomain_def Let_def register_script_def script_error_def split: if_splits option.splits)
  have new: "isScriptRegistered sha256 True domain s'"
    if "res = Inr sid" "\<not> isDomainApproved domain s" "regErr (script_for sid domain jsFile) (cs_scripts s) = None" for sid
    using assms that o
    by (auto simp: registerForDomain_def Let_def register_script_def script_error_def isScriptRegistered_def isDomainApproved_def
        script_for_def)
  have others: "d \<noteq> domain \<longrightarrow> isDomainApproved d s' = isDomainApproved d s"
    using o by (cases res) (auto simp: isDomainApproved_def)
  have out: "getApprovedDomains (unregisterForDomain unregOk domain s') = filter (\<lambda>a. ad_domain a \<noteq> domain) (getApprovedDomains s')
      \<and> getPendingDomains (unregisterForDomain unregOk domain s') = getPendingDomains s'
      \<and> deniedDomains (unregisterForDomain unregOk domain s') = deniedDomains s'"
    by (auto simp: unregisterForDomain_def Let_def find_None_iff filter_id_conv split: option.split)
  then have "isDomainApproved k (unregisterForDomain unregOk domain s') \<longleftrightarrow> k \<noteq> domain \<and> isDomainApproved k s'" for k
    by (auto simp: isDomainApproved_def list_ex_iff)
  then show ?thesis using o fail new others out by (cases res) (auto simp: isDomainApproved_def)
qed

theorem approval_lifecycle_witness:
  "isDomainApproved ''a.ee'' (snd (registerForDomain (\<lambda>b. b) (\<lambda>_ _. None) 5 ''a.ee'' None new_csm))
   \<and> isScriptRegistered (\<lambda>b. b) True ''a.ee'' (snd (registerForDomain (\<lambda>b. b) (\<lambda>_ _. None) 5 ''a.ee'' None new_csm))
   \<and> \<not> isDomainApproved ''a.ee'' (unregisterForDomain (\<lambda>_. False) ''a.ee''
        (snd (registerForDomain (\<lambda>b. b) (\<lambda>_ _. None) 5 ''a.ee'' None new_csm)))"
proof -
  obtain res s' where e: "registerForDomain (\<lambda>b. b) (\<lambda>_ _. None) 5 ''a.ee'' None new_csm = (res, s')" by fastforce
  have no: "\<not> isDomainApproved ''a.ee'' new_csm"
    by (simp add: isDomainApproved_def getApprovedDomains_def new_csm_def empty_storage_def)
  note p = approval_lifecycle [OF e, of "''a.ee''" "\<lambda>_. False"]
  then show ?thesis using e no by (cases res) auto
qed

text \<open>
  Approvals of two domains that overlap lose one of them. When both calls have read the list
  before either writes it, both report success and both scripts are registered, but the first domain
  is not among the approved ones: the lock of \<open>registerForDomain\<close> is one per domain.
\<close>

theorem overlapping_approvals_lose_one:
  assumes "d1 \<noteq> d2" "\<not> isDomainApproved d1 s" "\<not> isDomainApproved d2 s" "regErr = (\<lambda>_ _. None)"
    and "unlocked [0, 1, 0, 1, 0, 1] s
      [(reg_call0, register_segments sha256 regErr t1 d1 None), (reg_call0, register_segments sha256 regErr t2 d2 None)] = (s', ts)"
  shows "map (rc_result \<circ> fst) ts = [Some (Inr (SCRIPT_ID_PREFIX @ sha256Hex sha256 d1)), Some (Inr (SCRIPT_ID_PREFIX @ sha256Hex sha256 d2))]
    \<and> isScriptRegistered sha256 True d1 s' \<and> isScriptRegistered sha256 True d2 s'
    \<and> isDomainApproved d2 s' \<and> \<not> isDomainApproved d1 s'"
  using assms
  by (auto simp: register_segments_def reg_call0_def Let_def isDomainApproved_def register_script_def script_error_def
      isScriptRegistered_def script_for_def scriptIdForDomain_def numeral_2_eq_2)

theorem overlapping_approvals_lose_one_witness:
  "\<exists>s' ts. unlocked [0, 1, 0, 1, 0, 1] new_csm
      [(reg_call0, register_segments (\<lambda>b. b) (\<lambda>_ _. None) 1 ''a.ee'' None),
       (reg_call0, register_segments (\<lambda>b. b) (\<lambda>_ _. None) 2 ''b.ee'' None)] = (s', ts)
    \<and> isDomainApproved ''b.ee'' s' \<and> \<not> isDomainApproved ''a.ee'' s'"
proof -
  obtain s' ts where e: "unlocked [0, 1, 0, 1, 0, 1] new_csm
      [(reg_call0, register_segments (\<lambda>b. b) (\<lambda>_ _. None) 1 ''a.ee'' None),
       (reg_call0, register_segments (\<lambda>b. b) (\<lambda>_ _. None) 2 ''b.ee'' None)] = (s', ts)" by fastforce
  have "\<not> isDomainApproved k new_csm" for k
    by (simp add: isDomainApproved_def getApprovedDomains_def new_csm_def empty_storage_def)
  then show ?thesis using overlapping_approvals_lose_one [OF _ _ _ refl e] e by simp
qed

end
