(* ===== verification/AttestationManager.thy ===== *)
theory AttestationManager
  imports Attestation Domain
begin

text \<open>
  The attestation of control codes as the background script runs it,
  \<open>entrypoints/background/attestationManager.ts\<close>, with the keys bundled in
  \<open>lib/attestation/trusted-rp-keys.json\<close>. WebCrypto, the URL parser and the answer of the content
  script are parameters. The lock around a header's processing is the subject of \<open>Locks\<close>; here a
  header is processed as a whole, and once more as the segments between its awaits.
\<close>

section \<open>The bundled keys\<close>

definition bundled_keys :: "signing_key list" where
  "bundled_keys =
     [\<lparr>sk_domain = ''lhv.ee'', sk_keyId = ''lhv-2026q1'',
        sk_publicKeyHex = ''0430ea585698203ec224270620005117658f4a567438a842d336b7edf0821b8602a0379f423d232aa0158ee6c8c06f18c6a083a507be31a21b13df2a2af86bd03b'',
        sk_notBefore = ''2025-06-01T00:00:00Z'', sk_notAfter = ''2027-01-01T00:00:00Z''\<rparr>,
      \<lparr>sk_domain = ''lhv.ee'', sk_keyId = ''lhv-2026q2'',
        sk_publicKeyHex = ''04b8ed46f6a4d9906a456189b6c90515ced1944df8a9c10ca0e55d03159245a55cccf64c249486b07d4f9ce79fdcd39ec6d9b572f3886a14416797bafb249b4367'',
        sk_notBefore = ''2026-01-01T00:00:00Z'', sk_notAfter = ''2027-06-01T00:00:00Z''\<rparr>,
      \<lparr>sk_domain = ''swedbank.ee'', sk_keyId = ''swed-2026q1'',
        sk_publicKeyHex = ''043537574540d492b1f4c64815a9f44ad14f3dc6603f16b0898c5ab92ac6e59c79933aa154b135becc66f90a6b4a871961cdbe56962a212a2a75a9e18b1733f583'',
        sk_notBefore = ''2025-06-01T00:00:00Z'', sk_notAfter = ''2027-01-01T00:00:00Z''\<rparr>,
      \<lparr>sk_domain = ''swedbank.ee'', sk_keyId = ''swed-2026q2'',
        sk_publicKeyHex = ''04219b7e7f04e65941a5aaa0b4b022f1cabf55f1fd575902f1ec18af920717ee92a0fa72b8078a64a63ffbdbba66bc4c3939bcb9bb7e2e51e4820638021b15ddc2'',
        sk_notBefore = ''2026-01-01T00:00:00Z'', sk_notAfter = ''2027-06-01T00:00:00Z''\<rparr>,
      \<lparr>sk_domain = ''seb.ee'', sk_keyId = ''seb-2026q1'',
        sk_publicKeyHex = ''041aa14d1f963bd1263681a802de3f9e4130ca8033cabd74ff5a9522aeb7cedf4749fc6810a375c52eb5c8fd63016ffe2b6a2226db9230d5deccfc20a555a6dc5d'',
        sk_notBefore = ''2025-06-01T00:00:00Z'', sk_notAfter = ''2027-01-01T00:00:00Z''\<rparr>,
      \<lparr>sk_domain = ''seb.ee'', sk_keyId = ''seb-2026q2'',
        sk_publicKeyHex = ''041221d1ba0e1e4941a8da79525123e76177273607b3641319cb3de206b0826c764321cfb61cfc74c4e7fa5587f7b20d0aaeb5faa5b680b277284f618e46b79b0d'',
        sk_notBefore = ''2026-01-01T00:00:00Z'', sk_notAfter = ''2027-06-01T00:00:00Z''\<rparr>,
      \<lparr>sk_domain = ''tara.ria.ee'', sk_keyId = ''tara-2026q1'',
        sk_publicKeyHex = ''04d8a39222eb15d6453958cbc44f58d02fd2b7ea2ce76e5edd42bc788195f0b76c16d2ba3ef416a949728822db70f7c889b31be937385bed0bcd0c8f65284099e6'',
        sk_notBefore = ''2025-06-01T00:00:00Z'', sk_notAfter = ''2027-01-01T00:00:00Z''\<rparr>,
      \<lparr>sk_domain = ''tara.ria.ee'', sk_keyId = ''tara-2026q2'',
        sk_publicKeyHex = ''0475a8cc4ddf82ff3f841901f219444a66f242c4ffc3a26c68fe31dc3d449b67441227ece92be063c1e9ab5c6d586031354b3c7b9a7e3e2c8307b952ab7860ffbd'',
        sk_notBefore = ''2026-01-01T00:00:00Z'', sk_notAfter = ''2027-06-01T00:00:00Z''\<rparr>]"

section \<open>State\<close>

record 'ck webcrypto =
  wc_importKey :: "bytes \<Rightarrow> 'ck option"
  wc_verify :: "'ck \<Rightarrow> bytes \<Rightarrow> bytes \<Rightarrow> bool"
  wc_sha256 :: "bytes \<Rightarrow> bytes"

text \<open>The verifier exists exactly when the key store does, so one field stands for both.\<close>

record 'ck attestation_manager =
  am_keyStore :: "'ck key_store option"
  am_status :: attestation_status
  am_auditLog :: "audit_entry list option"
  am_signingKey :: "'ck option"
  am_lastVersions :: "string \<rightharpoonup> int"

definition new_attestation_manager :: "'ck attestation_manager" where
  "new_attestation_manager = \<lparr>am_keyStore = None, am_status = NotApplicable, am_auditLog = None, am_signingKey = None,
     am_lastVersions = Map.empty\<rparr>"

definition initializeAttestation :: "'ck attestation_manager \<Rightarrow> 'ck attestation_manager" where
  "initializeAttestation m =
     (if am_keyStore m \<noteq> None then m else m\<lparr>am_keyStore := Some (new_KeyStore bundled_keys)\<rparr>)"

text \<open>\<open>None\<close> is the error "Attestation not initialized".\<close>

definition refreshRpKeys ::
  "'ck webcrypto \<Rightarrow> fetch_result \<Rightarrow> string option \<Rightarrow> 'ck attestation_manager \<Rightarrow> refresh_error option option \<times> 'ck attestation_manager" where
  "refreshRpKeys wc fetched storeErr m =
     (case am_keyStore m of
        None \<Rightarrow> (None, m)
      | Some ks \<Rightarrow>
          (case refreshKeyManifest (wc_importKey wc) (wc_verify wc) fetched storeErr
                  \<lparr>rs_keyStore = ks, rs_signingKey = am_signingKey m, rs_lastVersions = am_lastVersions m\<rparr> of
             (res, st) \<Rightarrow> (Some res, m\<lparr>am_keyStore := Some (rs_keyStore st), am_signingKey := rs_signingKey st,
                am_lastVersions := rs_lastVersions st\<rparr>)))"

section \<open>Processing a header\<close>

text \<open>The content script's answer: \<open>None\<close> when it throws or takes longer than a second.\<close>

definition getDomCode :: "(bool \<times> string option) option \<Rightarrow> string option" where
  "getDomCode response =
     (case response of
        Some (True, Some controlCode) \<Rightarrow> if controlCode \<noteq> [] then Some controlCode else None
      | _ \<Rightarrow> None)"

definition ends_with :: "string \<Rightarrow> string \<Rightarrow> bool" where
  "ends_with s p \<longleftrightarrow> starts_with (rev s) (rev p)"

definition extractRpDomain :: "(string \<Rightarrow> (string \<times> string) option) \<Rightarrow> string \<Rightarrow> string option" where
  "extractRpDomain parseUrl url =
     (case parseUrl url of
        None \<Rightarrow> None
      | Some (protocol, hostname) \<Rightarrow> find (\<lambda>domain. hostname = domain \<or> ends_with hostname (CHR ''.'' # domain)) WHITELISTED_RP_DOMAINS)"

definition verified_details :: "string \<Rightarrow> attested_code \<Rightarrow> (string \<times> json) list" where
  "verified_details rpDomain ac =
     [(''rpDomain'', JStr rpDomain), (''code'', JStr (ac_controlCode ac)), (''keyId'', JStr (ac_keyId ac))]"

definition processAttestationHeader ::
  "'ck webcrypto \<Rightarrow> millis \<Rightarrow> bool \<Rightarrow> string \<Rightarrow> string \<Rightarrow> string option \<Rightarrow> 'ck attestation_manager \<Rightarrow> 'ck attestation_manager" where
  "processAttestationHeader wc now storageOk rawValue rpDomain domCode m =
     (case am_keyStore m of
        None \<Rightarrow> m
      | Some ks \<Rightarrow>
          (case verifyHeader (wc_importKey wc) (wc_verify wc) now rawValue rpDomain ks of
             (attestedCode, ks') \<Rightarrow>
               (let entry = (case attestedCode of
                      Some ac \<Rightarrow> logAuditEvent (wc_sha256 wc) now storageOk AttestationVerified (verified_details rpDomain ac)
                    | None \<Rightarrow> logAuditEvent (wc_sha256 wc) now storageOk AttestationFailed [(''rpDomain'', JStr rpDomain)])
                in m\<lparr>am_keyStore := Some ks', am_auditLog := entry (am_auditLog m),
                     am_status := verifyControlCode attestedCode domCode\<rparr>)))"

definition attestation_header :: "(string \<times> string option) list \<Rightarrow> string option" where
  "attestation_header headers =
     (case find (\<lambda>h. to_lower (fst h) = ''smartid-attestation'') headers of
        Some (_, Some v) \<Rightarrow> if v \<noteq> [] then Some v else None
      | _ \<Rightarrow> None)"

definition handleHeadersReceived ::
  "'ck webcrypto \<Rightarrow> (string \<Rightarrow> (string \<times> string) option) \<Rightarrow> millis \<Rightarrow> bool \<Rightarrow> (bool \<times> string option) option
   \<Rightarrow> (string \<times> string option) list option \<Rightarrow> string \<Rightarrow> int \<Rightarrow> 'ck attestation_manager \<Rightarrow> 'ck attestation_manager" where
  "handleHeadersReceived wc parseUrl now storageOk scraped responseHeaders url tabId m =
     (case responseHeaders of
        None \<Rightarrow> m
      | Some headers \<Rightarrow>
          if am_keyStore m = None then m
          else
           (case attestation_header headers of
              None \<Rightarrow> m
            | Some rawValue \<Rightarrow>
                (case extractRpDomain parseUrl url of
                   None \<Rightarrow> m
                 | Some rpDomain \<Rightarrow>
                     processAttestationHeader wc now storageOk rawValue rpDomain
                       (if tabId \<noteq> 0 then getDomCode scraped else None) m)))"

section \<open>Demo mode\<close>

definition domainPrefixMap :: "(string \<times> string) list" where
  "domainPrefixMap = [(''lhv.ee'', ''lhv''), (''swedbank.ee'', ''swed''), (''seb.ee'', ''seb''), (''tara.ria.ee'', ''tara'')]"

text \<open>\<open>createHeader\<close> is \<open>createDemoAttestationHeader\<close> for the code, domain, key and session given.\<close>

definition processDemoAttestation ::
  "'ck webcrypto \<Rightarrow> millis \<Rightarrow> bool \<Rightarrow> (string \<Rightarrow> string \<Rightarrow> string \<Rightarrow> string \<Rightarrow> string option) \<Rightarrow> string \<Rightarrow> string \<Rightarrow> string \<Rightarrow> string
   \<Rightarrow> string option \<Rightarrow> 'ck attestation_manager \<Rightarrow> 'ck attestation_manager" where
  "processDemoAttestation wc now storageOk createHeader code domain keyId sessionId domCode m =
     (case createHeader code domain keyId sessionId of
        None \<Rightarrow> m
      | Some header \<Rightarrow>
          if header = [] then m
          else
           (case am_keyStore m of
              None \<Rightarrow> m
            | Some ks \<Rightarrow>
                (case verifyHeader (wc_importKey wc) (wc_verify wc) now header domain ks of
                   (None, ks') \<Rightarrow> m\<lparr>am_keyStore := Some ks'\<rparr>
                 | (Some ac, ks') \<Rightarrow>
                     m\<lparr>am_keyStore := Some ks',
                       am_auditLog := logAuditEvent (wc_sha256 wc) now storageOk AttestationVerified
                         (verified_details domain ac @ [(''mode'', JStr ''demo'')]) (am_auditLog m),
                       am_status := verifyControlCode (Some ac) domCode\<rparr>)))"

definition injectDemoAttestation ::
  "'ck webcrypto \<Rightarrow> (string \<Rightarrow> (string \<times> string) option) \<Rightarrow> millis \<Rightarrow> bool \<Rightarrow> nat \<Rightarrow> (bool \<times> string option) option
   \<Rightarrow> (string \<Rightarrow> string \<Rightarrow> string \<Rightarrow> string \<Rightarrow> string option) \<Rightarrow> string \<Rightarrow> int \<Rightarrow> 'ck attestation_manager \<Rightarrow> 'ck attestation_manager" where
  "injectDemoAttestation wc parseUrl now storageOk rnd scraped createHeader url tabId m =
     (if am_keyStore m = None then m
      else
       (case extractRpDomain parseUrl url of
          None \<Rightarrow> m
        | Some rpDomain \<Rightarrow>
            (case map_of domainPrefixMap rpDomain of
               None \<Rightarrow> m
             | Some prefix \<Rightarrow>
                 processDemoAttestation wc now storageOk createHeader (show_nat (1000 + rnd)) rpDomain (prefix @ ''-2026q1'')
                   (''demo-'' @ show_int now) (if tabId \<noteq> 0 then getDomCode scraped else None) m)))"

section \<open>Histories\<close>

inductive am_step :: "'ck webcrypto \<Rightarrow> 'ck attestation_manager \<Rightarrow> 'ck attestation_manager \<Rightarrow> bool" for wc where
  init: "am_step wc m (initializeAttestation m)"
| refresh: "am_step wc m (snd (refreshRpKeys wc fetched storeErr m))"
| headers: "am_step wc m (handleHeadersReceived wc parseUrl now storageOk scraped responseHeaders url tabId m)"
| demo: "am_step wc m (injectDemoAttestation wc parseUrl now storageOk rnd scraped createHeader url tabId m)"

inductive am_reachable :: "'ck webcrypto \<Rightarrow> 'ck attestation_manager \<Rightarrow> bool" for wc where
  am_start: "am_reachable wc new_attestation_manager"
| am_next: "am_reachable wc m \<Longrightarrow> am_step wc m m' \<Longrightarrow> am_reachable wc m'"

definition am_inv :: "'ck webcrypto \<Rightarrow> 'ck attestation_manager \<Rightarrow> bool" where
  "am_inv wc m \<longleftrightarrow> (\<forall>ks. am_keyStore m = Some ks \<longrightarrow> ks_inv (wc_importKey wc) ks) \<and> audit_clean (getAuditLog (am_auditLog m))"

section \<open>Lemmas\<close>

lemma ks_inv_verifyHeader:
  "ks_inv importKey ks \<Longrightarrow> ks_inv importKey (snd (verifyHeader importKey verify now raw d ks))"
proof (cases "parseAttestationHeader raw")
  case (Some p)
  assume "ks_inv importKey ks"
  then have "ks_inv importKey (snd (getImportedKey importKey now d (ph_keyId p) ks))" by (rule ks_inv_getImportedKey)
  then show ?thesis using \<open>ks_inv importKey ks\<close> Some by (auto simp: verifyHeader_def Let_def split: prod.split option.split)
qed (simp add: verifyHeader_def)

lemma ks_inv_refresh:
  assumes "ks_inv importKey (rs_keyStore st)"
  shows "ks_inv importKey (rs_keyStore (snd (refreshKeyManifest importKey verify fetched storeErr st)))"
proof -
  have up: "ks_inv importKey ks" if "updateManifest mf (rs_keyStore st) = (b, ks)" for mf b ks
    using ks_inv_updateManifest [OF assms, of mf] that by simp
  show ?thesis
    using assms
    by (auto simp: refreshKeyManifest_def Let_def dest!: up split: fetch_result.split option.split prod.split bool.split)
qed

lemma am_inv_header: "am_inv wc m \<Longrightarrow> am_inv wc (processAttestationHeader wc now ok raw d domCode m)"
  using ks_inv_verifyHeader [of "wc_importKey wc" _ "wc_verify wc" now raw d] audit_clean_log
  by (auto simp: am_inv_def processAttestationHeader_def Let_def case_prod_beta split: option.split)

lemma am_inv_demo: "am_inv wc m \<Longrightarrow> am_inv wc (processDemoAttestation wc now ok createHeader code d k sid domCode m)"
proof -
  assume inv: "am_inv wc m"
  have "ks_inv (wc_importKey wc) ks'" if "am_keyStore m = Some ks" "verifyHeader (wc_importKey wc) (wc_verify wc) now header d ks = (ac, ks')"
    for ks header ac ks'
    using ks_inv_verifyHeader [of "wc_importKey wc" ks "wc_verify wc" now header d] that inv by (simp add: am_inv_def)
  then show ?thesis
    using inv audit_clean_log
    by (auto simp: am_inv_def processDemoAttestation_def split: option.split prod.split)
qed

lemma am_inv_step:
  assumes "am_step wc m m'" "am_inv wc m"
  shows "am_inv wc m'"
  using assms(1)
proof cases
  case init
  then show ?thesis using assms(2) by (simp add: am_inv_def initializeAttestation_def ks_inv_new)
next
  case (refresh fetched storeErr)
  have "ks_inv (wc_importKey wc) ks \<Longrightarrow> ks_inv (wc_importKey wc) (rs_keyStore (snd (refreshKeyManifest (wc_importKey wc) (wc_verify wc)
      fetched storeErr \<lparr>rs_keyStore = ks, rs_signingKey = am_signingKey m, rs_lastVersions = am_lastVersions m\<rparr>)))" for ks
    by (rule ks_inv_refresh) simp
  then show ?thesis using assms(2) refresh
    by (auto simp: am_inv_def refreshRpKeys_def case_prod_beta split: option.split)
next
  case headers
  then show ?thesis using assms(2) am_inv_header
    by (auto simp: handleHeadersReceived_def split: option.split)
next
  case demo
  then show ?thesis using assms(2) am_inv_demo
    by (auto simp: injectDemoAttestation_def split: option.split)
qed

lemma am_inv_reachable: "am_reachable wc m \<Longrightarrow> am_inv wc m"
proof (induction rule: am_reachable.induct)
  case am_start
  show ?case by (simp add: am_inv_def new_attestation_manager_def audit_clean_def getAuditLog_def)
qed (rule am_inv_step)

lemma extractRpDomain_Some:
  "extractRpDomain parseUrl url = Some d \<Longrightarrow>
     d \<in> set WHITELISTED_RP_DOMAINS \<and> (\<exists>pr h. parseUrl url = Some (pr, h) \<and> (h = d \<or> ends_with h (CHR ''.'' # d)))"
  by (auto simp: extractRpDomain_def find_Some_iff split: option.splits)

text \<open>The status a processed header leaves, by whether the header was accepted and what the page shows.\<close>

lemma header_status:
  assumes "am_keyStore m = Some ks" "verifyHeader (wc_importKey wc) (wc_verify wc) now raw d ks = (attested, ks')"
  shows "am_status (processAttestationHeader wc now ok raw d domCode m) = verifyControlCode attested domCode"
  using assms by (simp add: processAttestationHeader_def Let_def)

lemma getDomCode_nonempty: "getDomCode r = Some c \<Longrightarrow> c \<noteq> []"
  by (auto simp: getDomCode_def split: option.splits if_splits bool.splits)

text \<open>The bundled keys, looked up in the store they initialize.\<close>

lemma bundled_store:
  "list_all (\<lambda>k. map_of (ks_keys (new_KeyStore bundled_keys)) (key_id (sk_domain k) (sk_keyId k)) = Some k
     \<and> sk_domain k \<in> set WHITELISTED_RP_DOMAINS \<and> CHR '';'' \<notin> set (sk_keyId k)) bundled_keys"
  by (simp add: bundled_keys_def new_KeyStore_def addKey_def key_id_def WHITELISTED_RP_DOMAINS_def Let_def)

lemma new_store_imported: "ks_importedKeys (new_KeyStore keys) = []"
proof -
  have "ks_importedKeys ks = [] \<Longrightarrow> ks_importedKeys (fold addKey keys ks) = []" for ks :: "'a key_store"
    by (induction keys arbitrary: ks) (simp_all add: addKey_def jsmap_delete_def Let_def)
  then show ?thesis by (simp add: new_KeyStore_def)
qed

section \<open>Properties\<close>

text \<open>
  What the attestation status rests on. When a page of a reachable manager answers with an
  attestation header, the domain it is judged under is on the white list and is the page's host or a
  parent of it, and the new status is: verified or attack detected only for a code whose signature
  checks under a key the store holds for that domain and whose time is within 30 seconds, the attack
  exactly when the page shows another code; otherwise, the header being refused, DOM-only or not
  applicable, as the page shows a code or not. In no case does the audit log hold a control code.
\<close>

theorem attestation_status_trusted:
  assumes "am_reachable wc m" "am_keyStore m = Some ks" "attestation_header headers = Some raw"
    and "extractRpDomain parseUrl url = Some d" "domCode = (if tabId \<noteq> 0 then getDomCode scraped else None)"
    and "m' = handleHeadersReceived wc parseUrl now storageOk scraped (Some headers) url tabId m"
  shows "d \<in> set WHITELISTED_RP_DOMAINS
    \<and> (\<exists>pr host. parseUrl url = Some (pr, host) \<and> (host = d \<or> ends_with host (CHR ''.'' # d)))
    \<and> audit_clean (getAuditLog (am_auditLog m'))
    \<and> (case am_status m' of
         Verified ac \<Rightarrow> domCode = None \<or> domCode = Some (ac_controlCode ac)
       | RatDetected ac shown \<Rightarrow> domCode = Some shown \<and> shown \<noteq> ac_controlCode ac
       | DomOnly \<Rightarrow> domCode \<noteq> None
       | NotApplicable \<Rightarrow> domCode = None)
    \<and> (\<forall>ac. am_status m' = Verified ac \<or> (\<exists>shown. am_status m' = RatDetected ac shown) \<longrightarrow>
         ac_rpDomain ac = d \<and> \<bar>now div 1000 - ac_timestamp ac\<bar> \<le> 30
         \<and> (\<exists>payload sig key ck. jget payload ''code'' = Some (JStr (ac_controlCode ac))
              \<and> map_of (ks_keys ks) (key_id d (ac_keyId ac)) = Some key
              \<and> Option.bind (hexToBytes (sk_publicKeyHex key)) (wc_importKey wc) = Some ck
              \<and> wc_verify wc ck sig (utf8_encode (sortedJsonStringify payload))))"
proof -
  obtain attested ks' where v: "verifyHeader (wc_importKey wc) (wc_verify wc) now raw d ks = (attested, ks')" by fastforce
  have m': "m' = processAttestationHeader wc now storageOk raw d domCode m"
    using assms(2-6) by (simp add: handleHeadersReceived_def)
  have status: "am_status m' = verifyControlCode attested domCode"
    unfolding m' by (rule header_status [OF assms(2) v])
  have inv: "am_inv wc m" "am_inv wc m'" using am_inv_reachable [OF assms(1)] am_inv_header m' by auto
  have nonempty: "domCode = Some c \<Longrightarrow> c \<noteq> []" for c
    using assms(5) getDomCode_nonempty [of scraped c] by (auto split: if_splits)
  have acc: "attested = Some ac" if "am_status m' = Verified ac \<or> (\<exists>shown. am_status m' = RatDetected ac shown)" for ac
    using that status by (cases attested) (auto simp: verifyControlCode_def split: if_splits)
  have sound: "ac_rpDomain ac = d \<and> \<bar>now div 1000 - ac_timestamp ac\<bar> \<le> 30
      \<and> (\<exists>payload sig key ck. jget payload ''code'' = Some (JStr (ac_controlCode ac))
           \<and> map_of (ks_keys ks) (key_id d (ac_keyId ac)) = Some key
           \<and> Option.bind (hexToBytes (sk_publicKeyHex key)) (wc_importKey wc) = Some ck
           \<and> wc_verify wc ck sig (utf8_encode (sortedJsonStringify payload)))" if "attested = Some ac" for ac
    using verifyHeader_accepts [of "wc_importKey wc" ks "wc_verify wc" now raw d ac ks'] v that inv(1) assms(2)
    unfolding am_inv_def by blast
  have "case am_status m' of
         Verified ac \<Rightarrow> domCode = None \<or> domCode = Some (ac_controlCode ac)
       | RatDetected ac shown \<Rightarrow> domCode = Some shown \<and> shown \<noteq> ac_controlCode ac
       | DomOnly \<Rightarrow> domCode \<noteq> None
       | NotApplicable \<Rightarrow> domCode = None"
    using nonempty unfolding status by (cases attested; cases domCode) (auto simp: verifyControlCode_def)
  then show ?thesis
    using extractRpDomain_Some [OF assms(4)] inv(2) acc sound by (auto simp: am_inv_def)
qed

theorem attestation_status_trusted_witness:
  "audit_clean (getAuditLog (am_auditLog (handleHeadersReceived \<lparr>wc_importKey = Some, wc_verify = echo_verify, wc_sha256 = id\<rparr>
      (\<lambda>_. Some (''https:'', ''www.lhv.ee'')) demo_now True (Some (True, Some ''4711''))
      (Some [(''SmartID-Attestation'', Some ''v0;x;y;z'')]) ''https://www.lhv.ee/'' 3 (initializeAttestation new_attestation_manager))))"
proof -
  let ?wc = "\<lparr>wc_importKey = Some, wc_verify = echo_verify, wc_sha256 = id\<rparr>"
  have "am_reachable ?wc (initializeAttestation new_attestation_manager)"
    by (rule am_next [OF am_start init])
  moreover have "am_keyStore (initializeAttestation new_attestation_manager) = Some (new_KeyStore bundled_keys :: bytes key_store)"
    by (simp add: initializeAttestation_def new_attestation_manager_def)
  moreover have "attestation_header [(''SmartID-Attestation'', Some ''v0;x;y;z'')] = Some ''v0;x;y;z''" by code_simp
  moreover have "extractRpDomain (\<lambda>_. Some (''https:'', ''www.lhv.ee'')) ''https://www.lhv.ee/'' = Some ''lhv.ee''" by code_simp
  ultimately show ?thesis
    using attestation_status_trusted [of ?wc _ _ _ _ _ _ _ _ 3 "Some (True, Some ''4711'')" _ demo_now True] by blast
qed

text \<open>
  A private key in JWK form whose public point is the key: \<open>04\<close> and the two coordinates of 32 bytes.
\<close>

definition private_half :: "signing_key \<Rightarrow> jwk \<Rightarrow> bool" where
  "private_half key jwk \<longleftrightarrow>
     (case hexToBytes (sk_publicKeyHex key) of
        Some (form # xy) \<Rightarrow> form = 4 \<and> length xy = 64 \<and> base64urlEncode (take 32 xy) = jwk_x jwk \<and> base64urlEncode (drop 32 xy) = jwk_y jwk
      | _ \<Rightarrow> False)"

text \<open>
  The trusted keys are the demo keys. Every key the extension trusts on start-up has its private
  half in the source: under the same key identifier the demo signer holds a private key whose public
  point is exactly the bundled public key.
\<close>

theorem bundled_keys_are_demo_keys:
  "list_all (\<lambda>key. case map_of DEMO_PRIVATE_KEYS (sk_keyId key) of Some jwk \<Rightarrow> private_half key jwk | None \<Rightarrow> False) bundled_keys"
proof -
  have point: "private_half key jwk"
    if "hexToBytes (sk_publicKeyHex key) = Some (4 # xy)" "length xy = 64"
      "base64urlEncode (take 32 xy) = jwk_x jwk" "base64urlEncode (drop 32 xy) = jwk_y jwk" for key jwk xy
    using that by (simp add: private_half_def)
  note facts = hexToBytes_def is_hex_char_def hex_value_def base64urlEncode_eq b64_char_def url_char_def char_of_eq_iff
  show ?thesis
    unfolding bundled_keys_def DEMO_PRIVATE_KEYS_def list.pred_inject
    by (intro conjI; simp; rule point; (simp add: facts)?) (simp_all add: facts)
qed

end
