(* ===== verification/Usb.thy ===== *)
theory Usb
  imports Prelude
begin

text \<open>
  The USB side: vendor list (\<open>lib/transport/vendorIds.ts\<close>), endpoint search and device lookup
  (\<open>lib/usb/webusbCore.ts\<close>), the WebUSB transport (\<open>lib/usb/WebUsbTransport.ts\<close>) and the negotiation
  with the native shim (\<open>lib/usb/aoaShim.ts\<close>). The browser's USB calls are parameters: \<open>None\<close> where
  \<open>getDevices\<close> throws, an error message where opening or a transfer fails.
\<close>

section \<open>Devices and endpoints\<close>

datatype endpoint_direction = EpIn | EpOut

record usb_endpoint =
  ep_direction :: endpoint_direction
  ep_number :: nat
  ep_packetSize :: nat

record usb_device =
  ud_vendorId :: nat
  ud_productId :: nat
  ud_opened :: bool
  ud_configuration :: "usb_endpoint list list list option"

definition ANDROID_VENDOR_IDS :: "nat list" where
  "ANDROID_VENDOR_IDS = [0x18D1, 0x04E8, 0x22B8, 0x0FCE, 0x2B4C, 0x0bb4, 0x12d1, 0x1004]"

text \<open>The endpoints in the order of the three nested loops over interfaces, alternates and endpoints.\<close>

definition device_endpoints :: "usb_device \<Rightarrow> usb_endpoint list" where
  "device_endpoints d = concat (concat (nullish (ud_configuration d) []))"

definition findInputEndpoint :: "usb_device \<Rightarrow> usb_endpoint option" where
  "findInputEndpoint d = find (\<lambda>ep. ep_direction ep = EpIn) (device_endpoints d)"

definition findOutputEndpoint :: "usb_device \<Rightarrow> usb_endpoint option" where
  "findOutputEndpoint d = find (\<lambda>ep. ep_direction ep = EpOut) (device_endpoints d)"

definition note_endpoint ::
  "usb_endpoint \<Rightarrow> usb_endpoint option \<times> usb_endpoint option \<Rightarrow> usb_endpoint option \<times> usb_endpoint option" where
  "note_endpoint ep p =
     (let (inEp, outEp) = p;
          inEp' = (if ep_direction ep = EpIn \<and> inEp = None then Some ep else inEp);
          outEp' = (if ep_direction ep = EpOut \<and> outEp = None then Some ep else outEp)
      in (inEp', outEp'))"

definition findEndpointPair :: "usb_device \<Rightarrow> (usb_endpoint \<times> usb_endpoint) option" where
  "findEndpointPair d =
     (case fold note_endpoint (device_endpoints d) (None, None) of
        (Some i, Some out) \<Rightarrow> Some (i, out)
      | _ \<Rightarrow> None)"

definition isAndroidDeviceAvailable :: "usb_device list option \<Rightarrow> bool" where
  "isAndroidDeviceAvailable getDevices =
     (case getDevices of Some ds \<Rightarrow> list_ex (\<lambda>d. ud_vendorId d \<in> set ANDROID_VENDOR_IDS) ds | None \<Rightarrow> False)"

definition findAndroidDevice :: "usb_device list option \<Rightarrow> usb_device option" where
  "findAndroidDevice getDevices =
     (case getDevices of Some ds \<Rightarrow> find (\<lambda>d. ud_vendorId d \<in> set ANDROID_VENDOR_IDS) ds | None \<Rightarrow> None)"

section \<open>The WebUSB transport\<close>

record webusb =
  wu_device :: "usb_device option"
  wu_endpoints :: "(usb_endpoint \<times> usb_endpoint) option"
  wu_connected :: bool
  wu_readLoopActive :: bool
  wu_messageCallbacks :: "nat list"
  wu_disconnectCallbacks :: "nat list"

definition new_webusb :: webusb where
  "new_webusb = \<lparr>wu_device = None, wu_endpoints = None, wu_connected = False, wu_readLoopActive = False,
     wu_messageCallbacks = [], wu_disconnectCallbacks = []\<rparr>"

definition wu_startReadLoop :: "webusb \<Rightarrow> webusb" where
  "wu_startReadLoop t =
     (if wu_readLoopActive t \<or> wu_device t = None \<or> wu_endpoints t = None then t else t\<lparr>wu_readLoopActive := True\<rparr>)"

text \<open>
  \<open>getDevices\<close> gives an error message or the devices, with the configuration they have once opened;
  \<open>openErr\<close> is the message of the error with which opening the device fails.
\<close>

definition wu_connect :: "string + usb_device list \<Rightarrow> string option \<Rightarrow> webusb \<Rightarrow> string option \<times> webusb" where
  "wu_connect getDevices openErr t =
     (if wu_connected t \<and> wu_device t \<noteq> None then (None, t)
      else
       (case getDevices of
          Inl e \<Rightarrow> (Some e, t)
        | Inr devices \<Rightarrow>
            (case find (\<lambda>d. ud_vendorId d \<in> set ANDROID_VENDOR_IDS) devices of
               None \<Rightarrow> (Some ''No AOA device found'', t)
             | Some android \<Rightarrow>
                 (case openErr of
                    Some e \<Rightarrow> (Some e, t)
                  | None \<Rightarrow>
                      (case findEndpointPair android of
                         None \<Rightarrow> (Some ''No valid USB endpoint pair found'', t)
                       | Some eps \<Rightarrow>
                           (None, wu_startReadLoop (t\<lparr>wu_device := Some (android\<lparr>ud_opened := True\<rparr>), wu_endpoints := Some eps,
                              wu_connected := True\<rparr>)))))))"

definition wu_disconnect :: "webusb \<Rightarrow> webusb" where
  "wu_disconnect t = t\<lparr>wu_readLoopActive := False, wu_device := None, wu_endpoints := None, wu_connected := False\<rparr>"

text \<open>Where a payload goes: the endpoint number and the bytes; \<open>transferErr\<close> is the failure of the transfer.\<close>

definition wu_send :: "string option \<Rightarrow> bytes \<Rightarrow> webusb \<Rightarrow> string + (nat \<times> bytes)" where
  "wu_send transferErr data t =
     (case (wu_device t, wu_endpoints t) of
        (Some _, Some (_, out)) \<Rightarrow>
          if \<not> wu_connected t then Inl ''WebUSB not connected''
          else (case transferErr of Some e \<Rightarrow> Inl e | None \<Rightarrow> Inr (ep_number out, data))
      | _ \<Rightarrow> Inl ''WebUSB not connected'')"

definition wu_onMessage :: "nat \<Rightarrow> webusb \<Rightarrow> webusb" where
  "wu_onMessage cb t = t\<lparr>wu_messageCallbacks := wu_messageCallbacks t @ [cb]\<rparr>"

definition wu_removeMessageListener :: "nat \<Rightarrow> webusb \<Rightarrow> webusb" where
  "wu_removeMessageListener cb t = t\<lparr>wu_messageCallbacks := remove1 cb (wu_messageCallbacks t)\<rparr>"

definition wu_onDisconnect :: "nat \<Rightarrow> webusb \<Rightarrow> webusb" where
  "wu_onDisconnect cb t = t\<lparr>wu_disconnectCallbacks := wu_disconnectCallbacks t @ [cb]\<rparr>"

definition wu_removeDisconnectListener :: "nat \<Rightarrow> webusb \<Rightarrow> webusb" where
  "wu_removeDisconnectListener cb t = t\<lparr>wu_disconnectCallbacks := remove1 cb (wu_disconnectCallbacks t)\<rparr>"

text \<open>\<open>elapsed\<close>: how long an empty transfer takes, \<open>None\<close> when it fails.\<close>

definition wu_getLatency :: "rat option \<Rightarrow> webusb \<Rightarrow> rat" where
  "wu_getLatency elapsed t =
     (if \<not> wu_connected t \<or> wu_device t = None \<or> wu_endpoints t = None then -1 else nullish elapsed (-1))"

definition wu_isAvailable :: "webusb \<Rightarrow> bool" where
  "wu_isAvailable t \<longleftrightarrow> wu_connected t \<and> wu_device t \<noteq> None"

definition wu_checkAvailability :: "usb_device list option \<Rightarrow> webusb \<Rightarrow> bool" where
  "wu_checkAvailability getDevices t \<longleftrightarrow> wu_device t \<noteq> None \<or> isAndroidDeviceAvailable getDevices"

definition wu_handleDisconnect :: "webusb \<Rightarrow> nat list \<times> webusb" where
  "wu_handleDisconnect t =
     (wu_disconnectCallbacks t, t\<lparr>wu_readLoopActive := False, wu_connected := False, wu_device := None, wu_endpoints := None\<rparr>)"

text \<open>
  One turn of the read loop on the outcome of its transfer (\<open>None\<close> when it fails): the message
  callbacks called with the data, the disconnect callbacks called, the transport after it, and whether
  the loop goes on.
\<close>

definition wu_readLoop_turn :: "bytes option \<Rightarrow> webusb \<Rightarrow> (nat \<times> bytes) list \<times> nat list \<times> webusb \<times> bool" where
  "wu_readLoop_turn transfer t =
     (if wu_readLoopActive t \<and> (case wu_device t of Some d \<Rightarrow> ud_opened d | None \<Rightarrow> False) \<and> wu_endpoints t \<noteq> None then
       (case transfer of
          Some data \<Rightarrow> (if data \<noteq> [] then map (\<lambda>cb. (cb, data)) (wu_messageCallbacks t) else [], [], t, True)
        | None \<Rightarrow>
            (if wu_readLoopActive t then
              (case wu_handleDisconnect t of (called, t') \<Rightarrow> ([], called, t', False))
             else ([], [], t, False)))
      else ([], [], t, False))"

section \<open>The native shim\<close>

definition aoaReenumeratePollMs :: nat where "aoaReenumeratePollMs = 500"
definition aoaReenumerateTimeoutMs :: nat where "aoaReenumerateTimeoutMs = 10000"

datatype shim_result =
    NotInstalled string
  | ExecutionFailed string "nat option" "nat option"
  | ShimSuccess nat nat

record shim_response =
  shr_success :: bool
  shr_error :: "string option"
  shr_vid :: "nat option"
  shr_pid :: "nat option"
  shr_reenumerated :: bool

text \<open>
  The poll loop from its \<open>k\<close>-th turn at time \<open>now\<close>: \<open>polls k\<close> is what \<open>getDevices\<close> gives there, and a
  turn takes the polling interval and \<open>late k\<close> milliseconds more.
\<close>

function waitForAoaDevice :: "nat \<Rightarrow> nat \<Rightarrow> (nat \<Rightarrow> usb_device list option) \<Rightarrow> (nat \<Rightarrow> nat) \<Rightarrow> nat \<Rightarrow> nat \<Rightarrow> nat \<Rightarrow> bool" where
  "waitForAoaDevice vid pid polls late deadline k now =
     (if now < deadline then
       (case polls k of
          None \<Rightarrow> False
        | Some ds \<Rightarrow>
            if list_ex (\<lambda>d. ud_vendorId d = vid \<and> ud_productId d = pid) ds then True
            else waitForAoaDevice vid pid polls late deadline (k + 1) (now + aoaReenumeratePollMs + late k))
      else False)"
  by pat_completeness auto

termination
  by (relation "measure (\<lambda>(_, _, _, _, deadline, _, now). deadline - now)") (auto simp: aoaReenumeratePollMs_def)

declare waitForAoaDevice.simps [simp del]

text \<open>The shim's answer: an error message, a value that is not a response (\<open>Inr None\<close>), or a response.\<close>

definition runAoaShim :: "(string + shim_response option) \<Rightarrow> (nat \<Rightarrow> usb_device list option) \<Rightarrow> (nat \<Rightarrow> nat) \<Rightarrow> shim_result" where
  "runAoaShim answer polls late =
     (case answer of
        Inl message \<Rightarrow> NotInstalled message
      | Inr None \<Rightarrow> ExecutionFailed ''Invalid shim response: missing success field'' None None
      | Inr (Some r) \<Rightarrow>
          if shr_success r then
           (let vid = nullish (shr_vid r) 0; pid = nullish (shr_pid r) 0 in
            if shr_reenumerated r \<and> \<not> waitForAoaDevice vid pid polls late aoaReenumerateTimeoutMs 0 0
            then ExecutionFailed (''AOA device did not re-enumerate within '' @ show_nat aoaReenumerateTimeoutMs @ ''ms'') (Some vid) (Some pid)
            else ShimSuccess vid pid)
          else ExecutionFailed (nullish (shr_error r) ''Unknown shim error'') (shr_vid r) (shr_pid r))"

section \<open>Lemmas\<close>

text \<open>The pair search finds what the two single searches find.\<close>

lemma note_endpoints:
  "fold note_endpoint eps (i, out) =
     (case i of None \<Rightarrow> find (\<lambda>ep. ep_direction ep = EpIn) eps | Some e \<Rightarrow> Some e,
      case out of None \<Rightarrow> find (\<lambda>ep. ep_direction ep = EpOut) eps | Some e \<Rightarrow> Some e)"
proof (induction eps arbitrary: i out)
  case (Cons ep eps)
  then show ?case
    by (cases i; cases out; cases "ep_direction ep") (simp_all add: note_endpoint_def)
qed (simp split: option.split)

lemma findEndpointPair_eq:
  "findEndpointPair d =
     (case (findInputEndpoint d, findOutputEndpoint d) of (Some i, Some out) \<Rightarrow> Some (i, out) | _ \<Rightarrow> None)"
  by (simp add: findEndpointPair_def note_endpoints findInputEndpoint_def findOutputEndpoint_def)

text \<open>The three fields of the transport agree, and a running loop has a device.\<close>

definition webusb_inv :: "webusb \<Rightarrow> bool" where
  "webusb_inv t \<longleftrightarrow> wu_connected t = (wu_device t \<noteq> None) \<and> wu_connected t = (wu_endpoints t \<noteq> None)
     \<and> (wu_readLoopActive t \<longrightarrow> wu_connected t)
     \<and> (case (wu_device t, wu_endpoints t) of (Some d, Some eps) \<Rightarrow> ud_opened d \<and> findEndpointPair d = Some eps | _ \<Rightarrow> True)"

datatype webusb_op =
    WuConnect "string + usb_device list" "string option"
  | WuDisconnect
  | WuOnMessage nat
  | WuRemoveMessage nat
  | WuOnDisconnect nat
  | WuRemoveDisconnect nat
  | WuRead "bytes option"

fun webusb_exec :: "webusb_op \<Rightarrow> webusb \<Rightarrow> webusb" where
  "webusb_exec (WuConnect ds e) t = snd (wu_connect ds e t)"
| "webusb_exec WuDisconnect t = wu_disconnect t"
| "webusb_exec (WuOnMessage cb) t = wu_onMessage cb t"
| "webusb_exec (WuRemoveMessage cb) t = wu_removeMessageListener cb t"
| "webusb_exec (WuOnDisconnect cb) t = wu_onDisconnect cb t"
| "webusb_exec (WuRemoveDisconnect cb) t = wu_removeDisconnectListener cb t"
| "webusb_exec (WuRead r) t = fst (snd (snd (wu_readLoop_turn r t)))"

lemma findEndpointPair_opened [simp]: "findEndpointPair (d\<lparr>ud_opened := b\<rparr>) = findEndpointPair d"
  by (simp add: findEndpointPair_def device_endpoints_def)

lemma webusb_inv_exec: "webusb_inv t \<Longrightarrow> webusb_inv (webusb_exec op t)"
proof (cases op)
  case (WuConnect ds e)
  assume "webusb_inv t"
  then show ?thesis using WuConnect
    by (auto simp: wu_connect_def wu_startReadLoop_def webusb_inv_def split: option.splits sum.splits)
next
  case (WuRead r)
  assume "webusb_inv t"
  then show ?thesis using WuRead
    by (auto simp: wu_readLoop_turn_def wu_handleDisconnect_def webusb_inv_def split: option.splits)
qed (auto simp: webusb_inv_def wu_disconnect_def wu_onMessage_def wu_removeMessageListener_def wu_onDisconnect_def
    wu_removeDisconnectListener_def)

lemma webusb_inv_run: "webusb_inv (fold webusb_exec ops new_webusb)"
proof (induction ops rule: rev_induct)
  case Nil
  show ?case by (simp add: webusb_inv_def new_webusb_def)
qed (simp add: webusb_inv_exec)

text \<open>The loop against a reference without a clock: poll \<open>j\<close> starts \<open>poll_time\<close> milliseconds after the first one.\<close>

definition shows_device :: "nat \<Rightarrow> nat \<Rightarrow> usb_device list option \<Rightarrow> bool" where
  "shows_device vid pid answer \<longleftrightarrow> (case answer of
     None \<Rightarrow> False | Some ds \<Rightarrow> list_ex (\<lambda>d. ud_vendorId d = vid \<and> ud_productId d = pid) ds)"

definition poll_time :: "(nat \<Rightarrow> nat) \<Rightarrow> nat \<Rightarrow> nat \<Rightarrow> nat" where
  "poll_time late k j = (\<Sum>i = k..<j. aoaReenumeratePollMs + late i)"

definition first_shown :: "nat \<Rightarrow> nat \<Rightarrow> (nat \<Rightarrow> usb_device list option) \<Rightarrow> nat \<Rightarrow> nat \<Rightarrow> bool" where
  "first_shown vid pid polls k j \<longleftrightarrow> shows_device vid pid (polls j)
     \<and> list_all (\<lambda>i. polls i \<noteq> None \<and> \<not> shows_device vid pid (polls i)) [k..<j]"

lemma poll_time_step: "k < j \<Longrightarrow> poll_time late k j = aoaReenumeratePollMs + late k + poll_time late (k + 1) j"
  by (simp add: poll_time_def sum.atLeast_Suc_lessThan)

lemma first_shown_step:
  "k < j \<Longrightarrow> first_shown vid pid polls k j
     \<longleftrightarrow> polls k \<noteq> None \<and> \<not> shows_device vid pid (polls k) \<and> first_shown vid pid polls (k + 1) j"
  by (auto simp: first_shown_def upt_rec [of k j])

lemma poll_time_lower: "k \<le> j \<Longrightarrow> aoaReenumeratePollMs * (j - k) \<le> poll_time late k j"
  using sum_mono [of "{k..<j}" "\<lambda>_. aoaReenumeratePollMs" "\<lambda>i. aoaReenumeratePollMs + late i"] by (simp add: poll_time_def mult.commute)

lemma waitForAoaDevice_iff:
  "waitForAoaDevice vid pid polls late deadline k now
     \<longleftrightarrow> (\<exists>j. k \<le> j \<and> now + poll_time late k j < deadline \<and> first_shown vid pid polls k j)"
    (is "_ \<longleftrightarrow> (\<exists>j. ?P k now j)")
proof (induction vid pid polls late deadline k now rule: waitForAoaDevice.induct)
  case (1 vid pid polls late deadline k now)
  let ?P = "\<lambda>k now j. k \<le> j \<and> now + poll_time late k j < deadline \<and> first_shown vid pid polls k j"
  have at: "?P k now k \<longleftrightarrow> now < deadline \<and> shows_device vid pid (polls k)"
    by (simp add: poll_time_def first_shown_def)
  have later: "?P k now j \<longleftrightarrow> now < deadline \<and> polls k \<noteq> None \<and> \<not> shows_device vid pid (polls k)
      \<and> ?P (k + 1) (now + aoaReenumeratePollMs + late k) j" if "k \<noteq> j" for j
    using that by (cases "k < j") (auto simp: poll_time_step first_shown_step add.assoc)
  have split: "(\<exists>j. Q j) \<longleftrightarrow> Q k \<or> (\<exists>j. k \<noteq> j \<and> Q j)" for Q :: "nat \<Rightarrow> bool" by metis
  have away: "k \<noteq> j" if "?P (k + 1) n j" for n j using that by simp
  have ih: "waitForAoaDevice vid pid polls late deadline (k + 1) (now + aoaReenumeratePollMs + late k)
      \<longleftrightarrow> (\<exists>j. ?P (k + 1) (now + aoaReenumeratePollMs + late k) j)"
    if "now < deadline" "polls k \<noteq> None" "\<not> shows_device vid pid (polls k)"
    using 1 that by (auto simp: shows_device_def)
  have "(\<exists>j. ?P k now j) \<longleftrightarrow> now < deadline \<and> (shows_device vid pid (polls k) \<or>
      polls k \<noteq> None \<and> (\<exists>j. ?P (k + 1) (now + aoaReenumeratePollMs + late k) j))"
    unfolding split [of "?P k now"] at using later away by blast
  then show ?case
    using ih by (subst waitForAoaDevice.simps) (auto simp: shows_device_def split: option.splits)
qed

section \<open>Properties\<close>

text \<open>
  The WebUSB transport is connected or not, never in between. After any sequence of connections,
  disconnections, reads and changes of listeners, a device, a pair of endpoints and the connected flag
  are there together or not at all; the endpoints are the first input and the first output of the
  device, which is open; a payload is sent, and to that output, exactly when connected; and a read
  that fails while the loop runs disconnects and tells every listener once.
\<close>

theorem webusb_consistent:
  assumes "t = fold webusb_exec ops new_webusb"
  shows "wu_isAvailable t = wu_connected t
    \<and> (\<forall>data. wu_send None data t =
         (if wu_connected t then Inr (ep_number (snd (the (wu_endpoints t))), data) else Inl ''WebUSB not connected''))
    \<and> (wu_connected t \<longrightarrow> (\<exists>d i out. wu_device t = Some d \<and> ud_opened d \<and> wu_endpoints t = Some (i, out)
         \<and> findInputEndpoint d = Some i \<and> findOutputEndpoint d = Some out))
    \<and> (wu_readLoopActive t \<longrightarrow> wu_readLoop_turn None t = ([], wu_disconnectCallbacks t, wu_disconnect t, False))"
proof -
  have inv: "webusb_inv t" using webusb_inv_run assms by simp
  have pair: "\<exists>d i out. wu_device t = Some d \<and> ud_opened d \<and> wu_endpoints t = Some (i, out)
      \<and> findInputEndpoint d = Some i \<and> findOutputEndpoint d = Some out" if "wu_connected t"
    using inv that by (auto simp: webusb_inv_def findEndpointPair_eq split: option.splits)
  show ?thesis
    using inv pair
    by (cases "wu_device t"; cases "wu_endpoints t")
      (auto simp: webusb_inv_def wu_isAvailable_def wu_send_def wu_readLoop_turn_def wu_handleDisconnect_def wu_disconnect_def
        split: prod.splits)
qed

definition sample_phone :: usb_device where
  "sample_phone = \<lparr>ud_vendorId = 0x18D1, ud_productId = 1, ud_opened = False,
     ud_configuration = Some [[[\<lparr>ep_direction = EpIn, ep_number = 1, ep_packetSize = 64\<rparr>,
       \<lparr>ep_direction = EpOut, ep_number = 2, ep_packetSize = 64\<rparr>]]]\<rparr>"

theorem webusb_consistent_witness:
  "wu_send None [7] (fold webusb_exec [WuConnect (Inr [sample_phone]) None] new_webusb) = Inr (2, [7])"
proof -
  let ?t = "fold webusb_exec [WuConnect (Inr [sample_phone]) None] new_webusb"
  have "wu_connected ?t" "map_option (ep_number \<circ> snd) (wu_endpoints ?t) = Some 2"
    by (simp_all add: wu_connect_def new_webusb_def sample_phone_def ANDROID_VENDOR_IDS_def findEndpointPair_eq
        findInputEndpoint_def findOutputEndpoint_def device_endpoints_def wu_startReadLoop_def)
  then show ?thesis using webusb_consistent [OF refl, of "[WuConnect (Inr [sample_phone]) None]"] by auto
qed


end
