(* ===== verification/OffscreenDoc.thy ===== *)
theory OffscreenDoc
  imports Backpressure Usb Noise
begin

text \<open>
  The offscreen document, \<open>entrypoints/offscreen-webrtc/main.ts\<close>: it holds the peer connection, the data
  channel with its backpressure queue, the signaling socket and the WebUSB device, and answers the
  messages of the background script. Every callback of the browser is an event; what the browser, the
  TURN server and the phone answer is in the environment of the event. Timers are kept in a list, so
  that a timer whose handle has been overwritten is still there.
\<close>

section \<open>Data\<close>

record turn_credentials =
  tc_username :: string
  tc_credential :: "string option"
  tc_password :: "string option"
  tc_ttl :: int
  tc_urls :: "string list option"
  tc_stunUrls :: "string list option"

record ice_server =
  ice_urls :: "string list"
  ice_username :: "string option"
  ice_credential :: "string option"

definition nonempty :: "string option \<Rightarrow> bool" where
  "nonempty s \<longleftrightarrow> nullish s [] \<noteq> []"

definition buildIceServers :: "turn_credentials option \<Rightarrow> ice_server list" where
  "buildIceServers creds =
     (let plain = (\<lambda>u. \<lparr>ice_urls = [u], ice_username = None, ice_credential = None\<rparr>) in
      plain ''stun:stun.l.google.com:19302'' #
      (case creds of
         None \<Rightarrow> []
       | Some c \<Rightarrow>
           map plain (filter (\<lambda>u. u \<noteq> []) (nullish (tc_stunUrls c) []))
           @ (let validUrls = filter (\<lambda>u. u \<noteq> []) (nullish (tc_urls c) []) in
              if validUrls \<noteq> [] then
                [\<lparr>ice_urls = validUrls, ice_username = (if tc_username c \<noteq> [] then Some (tc_username c) else None),
                  ice_credential = (if nonempty (tc_credential c) then tc_credential c
                    else if nonempty (tc_password c) then tc_password c else None)\<rparr>]
              else [])))"

record peer =
  pe_relayOnly :: bool
  pe_connectionState :: string
  pe_signalingState :: string
  pe_iceServers :: "ice_server list"

datatype timer_kind = TReconnect | TConnection | TCreds

datatype signal =
    RegisterRoom "string option" numbers numbers
  | JoinRoom "string option"
  | SdpOffer "string option" string
  | SdpAnswer "string option" string
  | IceCandidate "string option" string

datatype off_note =
    ConnectionStateNote string string
  | ConnectionTimeoutNote
  | TransportChangedNote bool
  | DataReceivedNote numbers
  | SdpForQrNote "string option" "(string \<times> string list) option"

record odoc =
  od_pc :: "peer option"
  od_channel :: "bq_world option"
  od_socket :: bool
  od_sasCode :: "string option"
  od_nonce :: "numbers option"
  od_extensionStaticKey :: "numbers option"
  od_keepalivePort :: bool
  od_turnCredentials :: "turn_credentials option"
  od_usbDevice :: "usb_device option"
  od_pendingSdpOffer :: "string option"
  od_offerAlreadyCreated :: bool
  od_reconnectAttempt :: nat
  od_reconnectTimer :: "nat option"
  od_connectionTimeout :: "nat option"
  od_credsRefreshTimer :: "nat option"
  od_lastConnectionState :: string
  od_timers :: "(nat \<times> timer_kind \<times> int) list"
  od_nextTimer :: nat
  od_notes :: "off_note list"
  od_signals :: "signal list"
  od_usbSent :: "bytes list"
  od_usbReading :: bool

definition new_odoc :: odoc where
  "new_odoc = \<lparr>od_pc = None, od_channel = None, od_socket = False, od_sasCode = None, od_nonce = None,
     od_extensionStaticKey = None, od_keepalivePort = True, od_turnCredentials = None, od_usbDevice = None,
     od_pendingSdpOffer = None, od_offerAlreadyCreated = False, od_reconnectAttempt = 0, od_reconnectTimer = None,
     od_connectionTimeout = None, od_credsRefreshTimer = None, od_lastConnectionState = [], od_timers = [], od_nextTimer = 0,
     od_notes = [], od_signals = [], od_usbSent = [], od_usbReading = False\<rparr>"

record off_env =
  oe_turn :: "(bool \<times> turn_credentials) option"
  oe_random :: rat
  oe_offer :: "string option"
  oe_candidates :: "string list"
  oe_usb :: "usb_device option"
  oe_transferOk :: bool
  oe_dcTry :: "data_channel \<Rightarrow> bytes \<Rightarrow> string option"

text \<open>The answer of the TURN endpoint: \<open>None\<close> when the request or the parsing of the body fails, otherwise the
  \<open>ok\<close> of the response and its body. A body without \<open>urls\<close> throws in the log line that counts them.\<close>

definition fetchTurnCredentials :: "off_env \<Rightarrow> turn_credentials option" where
  "fetchTurnCredentials env =
     (case oe_turn env of
        Some (ok, creds) \<Rightarrow> if \<not> ok then None else if tc_urls creds = None then None else Some creds
      | None \<Rightarrow> None)"

section \<open>Timers and notifications\<close>

definition RECONNECT_BACKOFF_INITIAL :: int where "RECONNECT_BACKOFF_INITIAL = 1000"
definition RECONNECT_BACKOFF_MAX :: int where "RECONNECT_BACKOFF_MAX = 30000"
definition CONNECTION_TOTAL_TIMEOUT_MS :: int where "CONNECTION_TOTAL_TIMEOUT_MS = 15000"

definition setTimeout :: "timer_kind \<Rightarrow> int \<Rightarrow> odoc \<Rightarrow> nat \<times> odoc" where
  "setTimeout kind ms d =
     (od_nextTimer d, d\<lparr>od_timers := od_timers d @ [(od_nextTimer d, kind, ms)], od_nextTimer := od_nextTimer d + 1\<rparr>)"

definition clearTimeout :: "nat option \<Rightarrow> odoc \<Rightarrow> odoc" where
  "clearTimeout h d = (case h of None \<Rightarrow> d | Some i \<Rightarrow> d\<lparr>od_timers := filter (\<lambda>t. fst t \<noteq> i) (od_timers d)\<rparr>)"

definition notifyBackground :: "off_note \<Rightarrow> odoc \<Rightarrow> odoc" where
  "notifyBackground n d = d\<lparr>od_notes := od_notes d @ [n]\<rparr>"

definition emit :: "signal \<Rightarrow> odoc \<Rightarrow> odoc" where
  "emit s d = (if od_socket d then d\<lparr>od_signals := od_signals d @ [s]\<rparr> else d)"

definition scheduleCredsRefresh :: "int \<Rightarrow> odoc \<Rightarrow> odoc" where
  "scheduleCredsRefresh ttlSeconds d =
     (let (h, d1) = setTimeout TCreds (max ((ttlSeconds - 30) * 1000) 5000) d in d1\<lparr>od_credsRefreshTimer := Some h\<rparr>)"

section \<open>The peer connection\<close>

definition fresh_channel :: bq_world where
  "fresh_channel = init_world \<lparr>dc_open = False, dc_bufferedAmount = 0, dc_sent = []\<rparr>"

definition setupPeerConnection :: "bool \<Rightarrow> odoc \<Rightarrow> odoc" where
  "setupPeerConnection relayOnly d =
     (let d1 = d\<lparr>od_pc := Some \<lparr>pe_relayOnly = relayOnly, pe_connectionState = ''new'', pe_signalingState = ''stable'',
                 pe_iceServers = buildIceServers (od_turnCredentials d)\<rparr>,
               od_channel := Some fresh_channel\<rparr>
      in if relayOnly then d1
         else (let (h, d2) = setTimeout TConnection CONNECTION_TOTAL_TIMEOUT_MS d1 in d2\<lparr>od_connectionTimeout := Some h\<rparr>))"

definition closePeerConnection :: "odoc \<Rightarrow> odoc" where
  "closePeerConnection d = d\<lparr>od_channel := None, od_pc := None\<rparr>"

definition reconnect_delay :: "nat \<Rightarrow> rat \<Rightarrow> int" where
  "reconnect_delay attempt random =
     (let delay = min (RECONNECT_BACKOFF_INITIAL * 2 ^ attempt) RECONNECT_BACKOFF_MAX;
          jitter = of_int delay * (3 / 10) * random
      in \<lfloor>of_int delay + jitter\<rfloor>)"

definition scheduleReconnect :: "off_env \<Rightarrow> odoc \<Rightarrow> odoc" where
  "scheduleReconnect env d =
     (if od_reconnectTimer d \<noteq> None then d
      else
       (let actualDelay = reconnect_delay (od_reconnectAttempt d) (oe_random env);
            (h, d1) = setTimeout TReconnect actualDelay (d\<lparr>od_reconnectAttempt := od_reconnectAttempt d + 1\<rparr>)
        in d1\<lparr>od_reconnectTimer := Some h\<rparr>))"

text \<open>\<open>pc.createOffer\<close> and \<open>setLocalDescription\<close>: \<open>None\<close> when one of them throws. An empty code is falsy.\<close>

definition createOffer :: "off_env \<Rightarrow> odoc \<Rightarrow> odoc" where
  "createOffer env d =
     (case od_pc d of
        None \<Rightarrow> d
      | Some p \<Rightarrow>
          if \<not> nonempty (od_sasCode d) then d
          else
           (let d1 = d\<lparr>od_offerAlreadyCreated := True\<rparr> in
            case oe_offer env of
              None \<Rightarrow> d1
            | Some sdp \<Rightarrow>
                emit (SdpOffer (od_sasCode d) sdp)
                  (d1\<lparr>od_pc := Some (p\<lparr>pe_signalingState := ''have-local-offer''\<rparr>), od_pendingSdpOffer := Some sdp\<rparr>)))"

definition attemptRelayFallback :: "off_env \<Rightarrow> odoc \<Rightarrow> odoc" where
  "attemptRelayFallback env d =
     (if od_pc d = None \<or> od_reconnectAttempt d > 0 then d
      else createOffer env (setupPeerConnection True (closePeerConnection d)))"

definition onconnectionstatechange :: "off_env \<Rightarrow> string \<Rightarrow> odoc \<Rightarrow> odoc" where
  "onconnectionstatechange env state d =
     (case od_pc d of
        None \<Rightarrow> d
      | Some p \<Rightarrow>
          (let d0 = d\<lparr>od_pc := Some (p\<lparr>pe_connectionState := state\<rparr>)\<rparr> in
           if pe_relayOnly p then d0
           else
            (let d1 = (notifyBackground (ConnectionStateNote state (od_lastConnectionState d0)) d0)\<lparr>od_lastConnectionState := state\<rparr>;
                 d2 = (if od_connectionTimeout d1 \<noteq> None \<and> (state = ''connected'' \<or> state = ''failed'')
                       then (clearTimeout (od_connectionTimeout d1) d1)\<lparr>od_connectionTimeout := None\<rparr> else d1);
                 d3 = (if state = ''connected'' then d2\<lparr>od_reconnectAttempt := 0\<rparr> else d2)
             in if state = ''failed'' \<or> state = ''disconnected'' then scheduleReconnect env d3 else d3)))"

definition oniceconnectionstatechange :: "off_env \<Rightarrow> string \<Rightarrow> odoc \<Rightarrow> odoc" where
  "oniceconnectionstatechange env iceState d =
     (case od_pc d of
        None \<Rightarrow> d
      | Some p \<Rightarrow>
          if pe_relayOnly p then d
          else if iceState = ''failed'' \<and> od_reconnectAttempt d = 0 then attemptRelayFallback env d else d)"

section \<open>Signaling\<close>

definition connectSignaling :: "string option \<Rightarrow> numbers option \<Rightarrow> numbers option \<Rightarrow> odoc \<Rightarrow> odoc" where
  "connectSignaling code roomNonce extStaticKey d =
     d\<lparr>od_sasCode := code, od_nonce := roomNonce, od_extensionStaticKey := extStaticKey, od_socket := True\<rparr>"

definition onSocketConnect :: "string option \<Rightarrow> odoc \<Rightarrow> odoc" where
  "onSocketConnect code d =
     (let d1 = (case (od_nonce d, od_extensionStaticKey d) of
                  (Some n, Some k) \<Rightarrow> emit (RegisterRoom code n k) d
                | _ \<Rightarrow> d)
      in emit (JoinRoom code) d1)"

definition onRoomJoined :: "off_env \<Rightarrow> nat \<Rightarrow> odoc \<Rightarrow> odoc" where
  "onRoomJoined env peerCount d =
     (case od_pc d of
        None \<Rightarrow> d
      | Some p \<Rightarrow>
          if peerCount \<ge> 2 \<and> pe_signalingState p = ''stable'' \<and> \<not> od_offerAlreadyCreated d then createOffer env d else d)"

definition onSdpOffer :: "string option \<Rightarrow> odoc \<Rightarrow> odoc" where
  "onSdpOffer answer d =
     (case (od_pc d, answer) of
        (Some p, Some a) \<Rightarrow>
          emit (SdpAnswer (od_sasCode d) a) (d\<lparr>od_pc := Some (p\<lparr>pe_signalingState := ''stable''\<rparr>)\<rparr>)
      | _ \<Rightarrow> d)"

definition onSdpAnswer :: "bool \<Rightarrow> odoc \<Rightarrow> odoc" where
  "onSdpAnswer ok d =
     (case od_pc d of
        None \<Rightarrow> d
      | Some p \<Rightarrow>
          if pe_signalingState p = ''have-local-offer'' \<and> ok then d\<lparr>od_pc := Some (p\<lparr>pe_signalingState := ''stable''\<rparr>)\<rparr> else d)"

definition onicecandidate :: "string \<Rightarrow> odoc \<Rightarrow> odoc" where
  "onicecandidate candidate d =
     (if od_pc d \<noteq> None \<and> nonempty (od_sasCode d) then emit (IceCandidate (od_sasCode d) candidate) d else d)"

definition off_compressSdp :: "string \<Rightarrow> string" where
  "off_compressSdp sdp = btoa (utf8_encode sdp)"

definition generateQrSdp :: "off_env \<Rightarrow> odoc \<Rightarrow> (string \<times> string list) option \<times> odoc" where
  "generateQrSdp env d =
     (case (od_pc d, oe_offer env) of
        (Some p, Some sdp) \<Rightarrow>
          (Some (off_compressSdp sdp, oe_candidates env),
           d\<lparr>od_pc := Some (p\<lparr>pe_signalingState := ''have-local-offer''\<rparr>), od_pendingSdpOffer := Some sdp, od_offerAlreadyCreated := True\<rparr>)
      | _ \<Rightarrow> (None, d))"

section \<open>Timers that fire\<close>

definition fetched_creds :: "off_env \<Rightarrow> odoc \<Rightarrow> odoc" where
  "fetched_creds env d = (case fetchTurnCredentials env of Some c \<Rightarrow> d\<lparr>od_turnCredentials := Some c\<rparr> | None \<Rightarrow> d)"

definition reconnectFires :: "off_env \<Rightarrow> odoc \<Rightarrow> odoc" where
  "reconnectFires env d =
     (let d1 = fetched_creds env (d\<lparr>od_reconnectTimer := None\<rparr>);
          d2 = setupPeerConnection False (closePeerConnection d1)
      in connectSignaling (od_sasCode d2) (od_nonce d2) (od_extensionStaticKey d2) d2)"

definition connectionTimeoutFires :: "odoc \<Rightarrow> odoc" where
  "connectionTimeoutFires d =
     (if map_option pe_connectionState (od_pc d) \<noteq> Some ''connected'' then notifyBackground ConnectionTimeoutNote d else d)"

definition credsRefreshFires :: "off_env \<Rightarrow> odoc \<Rightarrow> odoc" where
  "credsRefreshFires env d =
     (case fetchTurnCredentials env of
        Some c \<Rightarrow> scheduleCredsRefresh (tc_ttl c) (d\<lparr>od_turnCredentials := Some c\<rparr>)
      | None \<Rightarrow> d)"

definition timerFires :: "off_env \<Rightarrow> nat \<Rightarrow> odoc \<Rightarrow> odoc" where
  "timerFires env i d =
     (case map_of (od_timers d) i of
        None \<Rightarrow> d
      | Some (kind, ms) \<Rightarrow>
          (let d1 = d\<lparr>od_timers := filter (\<lambda>t. fst t \<noteq> i) (od_timers d)\<rparr> in
           case kind of
             TReconnect \<Rightarrow> reconnectFires env d1
           | TConnection \<Rightarrow> connectionTimeoutFires d1
           | TCreds \<Rightarrow> credsRefreshFires env d1))"

section \<open>Sending and receiving\<close>

definition base64ToUint8Array :: "string \<Rightarrow> bytes option" where
  "base64ToUint8Array base64 = atob base64"

definition findUsbInputEndpoint :: "usb_device \<Rightarrow> usb_endpoint option" where
  "findUsbInputEndpoint device = find (\<lambda>ep. ep_direction ep = EpIn) (device_endpoints device)"

definition findUsbOutputEndpoint :: "usb_device \<Rightarrow> usb_endpoint option" where
  "findUsbOutputEndpoint device = find (\<lambda>ep. ep_direction ep = EpOut) (device_endpoints device)"

definition sendViaUsb :: "off_env \<Rightarrow> bytes \<Rightarrow> odoc \<Rightarrow> bool \<times> odoc" where
  "sendViaUsb env data d =
     (case od_usbDevice d of
        None \<Rightarrow> (False, d)
      | Some dev \<Rightarrow>
          if \<not> ud_opened dev \<or> findUsbOutputEndpoint dev = None \<or> \<not> oe_transferOk env then (False, d)
          else (True, d\<lparr>od_usbSent := od_usbSent d @ [data]\<rparr>))"

text \<open>The device that \<open>requestDevice\<close> gave, opened and claimed; \<open>None\<close> when one of the calls throws.\<close>

definition connectWebUsb :: "off_env \<Rightarrow> odoc \<Rightarrow> bool \<times> odoc" where
  "connectWebUsb env d =
     (case oe_usb env of
        None \<Rightarrow> (False, d)
      | Some device \<Rightarrow>
          (let dev = device\<lparr>ud_opened := True\<rparr> in
           (True, (notifyBackground (TransportChangedNote True) (d\<lparr>od_usbDevice := Some dev\<rparr>))
                    \<lparr>od_usbReading := findUsbInputEndpoint dev \<noteq> None\<rparr>)))"

definition onChannelOpen :: "odoc \<Rightarrow> odoc" where
  "onChannelOpen d = d\<lparr>od_channel := map_option (\<lambda>w. w\<lparr>w_dc := (w_dc w)\<lparr>dc_open := True\<rparr>\<rparr>) (od_channel d)\<rparr>"

definition onChannelMessage :: "bytes \<Rightarrow> odoc \<Rightarrow> odoc" where
  "onChannelMessage data d = notifyBackground (DataReceivedNote (Array_from data)) d"

text \<open>One turn of the loop of \<open>startUsbReadLoop\<close>; a transfer that fails, also because the device has been
  closed, ends the loop.\<close>

definition usbReadTurn :: "bytes option \<Rightarrow> odoc \<Rightarrow> odoc" where
  "usbReadTurn transfer d =
     (if \<not> od_usbReading d then d
      else
       (case transfer of
          Some data \<Rightarrow>
            (if data \<noteq> [] then notifyBackground (DataReceivedNote (Array_from data)) d else d)
              \<lparr>od_usbReading := (case od_usbDevice d of Some dev \<Rightarrow> ud_opened dev | None \<Rightarrow> False)\<rparr>
        | None \<Rightarrow> (notifyBackground (TransportChangedNote False) d)\<lparr>od_usbReading := False\<rparr>))"

definition off_disconnect :: "odoc \<Rightarrow> odoc" where
  "off_disconnect d =
     (let d1 = (clearTimeout (od_reconnectTimer d) d)\<lparr>od_reconnectTimer := None\<rparr>;
          d2 = (clearTimeout (od_connectionTimeout d1) d1)\<lparr>od_connectionTimeout := None\<rparr>;
          d3 = (clearTimeout (od_credsRefreshTimer d2) d2)\<lparr>od_credsRefreshTimer := None\<rparr>;
          d4 = d3\<lparr>od_channel := None, od_pc := None, od_socket := False,
                 od_usbDevice := (case od_usbDevice d3 of Some dev \<Rightarrow> if ud_opened dev then None else Some dev | None \<Rightarrow> None),
                 od_keepalivePort := False\<rparr>
      in d4\<lparr>od_sasCode := None, od_nonce := None, od_extensionStaticKey := None, od_turnCredentials := None,
            od_pendingSdpOffer := None, od_offerAlreadyCreated := False, od_reconnectAttempt := 0\<rparr>)"

section \<open>Messages\<close>

datatype raw_data = RawText string | RawArray numbers | RawOther

datatype off_message =
    StartPairingMsg string "numbers option" "numbers option"
  | StartOfferlessMsg string "numbers option" "numbers option"
  | ConnectUsbMsg
  | SendMsg raw_data
  | DisconnectMsg
  | GetSdpMsg

definition start_room :: "off_env \<Rightarrow> string \<Rightarrow> numbers option \<Rightarrow> numbers option \<Rightarrow> odoc \<Rightarrow> odoc" where
  "start_room env code roomNonce key d =
     (let d1 = d\<lparr>od_sasCode := Some code, od_nonce := roomNonce, od_extensionStaticKey := key, od_turnCredentials := fetchTurnCredentials env\<rparr>;
          d2 = (case fetchTurnCredentials env of Some c \<Rightarrow> scheduleCredsRefresh (tc_ttl c) d1 | None \<Rightarrow> d1)
      in setupPeerConnection False d2)"

definition raw_bytes :: "raw_data \<Rightarrow> bytes option" where
  "raw_bytes raw =
     (case raw of RawText s \<Rightarrow> base64ToUint8Array s | RawArray ns \<Rightarrow> Some (new_Uint8Array ns) | RawOther \<Rightarrow> None)"

definition handleSend :: "off_env \<Rightarrow> raw_data \<Rightarrow> odoc \<Rightarrow> odoc" where
  "handleSend env raw d =
     (if raw = RawText [] then d
      else
       (case raw_bytes raw of
          None \<Rightarrow> d
        | Some data \<Rightarrow>
            (case od_usbDevice d of
               Some dev \<Rightarrow>
                 if ud_opened dev then snd (sendViaUsb env data d)
                 else d\<lparr>od_channel := map_option (bq_exec (oe_dcTry env) default_config (EvSend data)) (od_channel d)\<rparr>
             | None \<Rightarrow> d\<lparr>od_channel := map_option (bq_exec (oe_dcTry env) default_config (EvSend data)) (od_channel d)\<rparr>)))"

text \<open>The answer given to the sender of a message: \<open>None\<close> when \<open>sendResponse\<close> is not called.\<close>

fun off_onMessage :: "off_env \<Rightarrow> off_message \<Rightarrow> odoc \<Rightarrow> json option \<times> odoc" where
  "off_onMessage env (StartPairingMsg code n k) d =
     (Some (JObj [(''success'', JBool True)]), connectSignaling (Some code) n k (start_room env code n k d))"
| "off_onMessage env (StartOfferlessMsg code n k) d =
     (case generateQrSdp env (start_room env code n k d) of (sdp, d1) \<Rightarrow>
        (Some (JObj [(''success'', JBool True)]), connectSignaling (Some code) n k (notifyBackground (SdpForQrNote (Some code) sdp) d1)))"
| "off_onMessage env ConnectUsbMsg d =
     (case connectWebUsb env d of (ok, d1) \<Rightarrow> (Some (JObj [(''success'', JBool ok)]), d1))"
| "off_onMessage env (SendMsg raw) d = (None, handleSend env raw d)"
| "off_onMessage env DisconnectMsg d = (None, off_disconnect d)"
| "off_onMessage env GetSdpMsg d =
     (Some (JObj [(''sdp'', case od_pendingSdpOffer d of Some s \<Rightarrow> JStr s | None \<Rightarrow> JNull)]), d)"

definition onKeepalivePortDisconnect :: "odoc \<Rightarrow> odoc" where
  "onKeepalivePortDisconnect d = d\<lparr>od_keepalivePort := True\<rparr>"

section \<open>Events\<close>

datatype off_event =
    OffMessage off_message
  | ConnectionState string
  | IceState string
  | LocalCandidate string
  | SocketConnected "string option"
  | RoomJoined nat
  | RemoteOffer "string option"
  | RemoteAnswer bool
  | TimerFires nat
  | ChannelOpens
  | ChannelEvent bq_event
  | ChannelMessage bytes
  | UsbRead "bytes option"
  | KeepaliveLost

fun off_exec :: "off_env \<Rightarrow> off_event \<Rightarrow> odoc \<Rightarrow> odoc" where
  "off_exec env (OffMessage m) d = snd (off_onMessage env m d)"
| "off_exec env (ConnectionState s) d = onconnectionstatechange env s d"
| "off_exec env (IceState s) d = oniceconnectionstatechange env s d"
| "off_exec env (LocalCandidate c) d = onicecandidate c d"
| "off_exec env (SocketConnected code) d = onSocketConnect code d"
| "off_exec env (RoomJoined n) d = onRoomJoined env n d"
| "off_exec env (RemoteOffer a) d = onSdpOffer a d"
| "off_exec env (RemoteAnswer ok) d = onSdpAnswer ok d"
| "off_exec env (TimerFires i) d = timerFires env i d"
| "off_exec env ChannelOpens d = onChannelOpen d"
| "off_exec env (ChannelEvent e) d = d\<lparr>od_channel := map_option (bq_exec (oe_dcTry env) default_config e) (od_channel d)\<rparr>"
| "off_exec env (ChannelMessage data) d = onChannelMessage data d"
| "off_exec env (UsbRead r) d = usbReadTurn r d"
| "off_exec env KeepaliveLost d = onKeepalivePortDisconnect d"

text \<open>A run: the events with the environment each of them meets. \<open>Math.random\<close> is in \<open>[0, 1)\<close>.\<close>

definition off_step :: "off_env \<times> off_event \<Rightarrow> odoc \<Rightarrow> odoc" where
  "off_step x d = off_exec (fst x) (snd x) d"

definition off_run :: "(off_env \<times> off_event) list \<Rightarrow> odoc \<Rightarrow> odoc" where
  "off_run xs d = fold off_step xs d"

definition env_ok :: "off_env \<Rightarrow> bool" where
  "env_ok env \<longleftrightarrow> 0 \<le> oe_random env \<and> oe_random env < 1"

lemmas off_defs = setTimeout_def clearTimeout_def notifyBackground_def emit_def scheduleCredsRefresh_def setupPeerConnection_def
  closePeerConnection_def scheduleReconnect_def createOffer_def attemptRelayFallback_def onconnectionstatechange_def
  oniceconnectionstatechange_def connectSignaling_def onSocketConnect_def onRoomJoined_def onSdpOffer_def onSdpAnswer_def
  onicecandidate_def generateQrSdp_def fetched_creds_def reconnectFires_def connectionTimeoutFires_def credsRefreshFires_def
  sendViaUsb_def connectWebUsb_def onChannelOpen_def onChannelMessage_def usbReadTurn_def off_disconnect_def start_room_def
  handleSend_def onKeepalivePortDisconnect_def

section \<open>The timers\<close>

text \<open>A handle that is set belongs to a timer of its own kind; at most one reconnection is pending, the one
  whose handle \<open>reconnectTimer\<close> holds; its delay is within the backoff bounds.\<close>

definition handle_ok :: "timer_kind \<Rightarrow> nat option \<Rightarrow> (nat \<times> timer_kind \<times> int) list \<Rightarrow> nat \<Rightarrow> bool" where
  "handle_ok kind h ts nx \<longleftrightarrow> (\<forall>i. h = Some i \<longrightarrow> i < nx \<and> (\<forall>t\<in>set ts. fst t = i \<longrightarrow> fst (snd t) = kind))"

definition reconnect_ids :: "(nat \<times> timer_kind \<times> int) list \<Rightarrow> nat list" where
  "reconnect_ids ts = map fst (filter (\<lambda>t. fst (snd t) = TReconnect) ts)"

definition tm_inv :: "(nat \<times> timer_kind \<times> int) list \<Rightarrow> nat \<Rightarrow> nat option \<Rightarrow> nat option \<Rightarrow> nat option \<Rightarrow> bool" where
  "tm_inv ts nx r c k \<longleftrightarrow> distinct (map fst ts) \<and> (\<forall>t\<in>set ts. fst t < nx)
     \<and> reconnect_ids ts = (case r of None \<Rightarrow> [] | Some h \<Rightarrow> [h])
     \<and> (\<forall>t\<in>set ts. fst (snd t) = TReconnect \<longrightarrow> 1000 \<le> snd (snd t) \<and> snd (snd t) < 39000)
     \<and> handle_ok TConnection c ts nx \<and> handle_ok TCreds k ts nx"

lemma reconnect_ids_snoc [simp]:
  "reconnect_ids (ts @ [(i, kind, ms)]) = reconnect_ids ts @ (if kind = TReconnect then [i] else [])"
  by (simp add: reconnect_ids_def)

lemma reconnect_ids_filter: "reconnect_ids (filter (\<lambda>t. fst t \<noteq> i) ts) = filter (\<lambda>j. j \<noteq> i) (reconnect_ids ts)"
  by (induction ts) (auto simp: reconnect_ids_def)

lemma reconnect_ids_mem: "i \<in> set (reconnect_ids ts) \<longleftrightarrow> (\<exists>ms. (i, TReconnect, ms) \<in> set ts)"
  by (force simp: reconnect_ids_def)

lemma tm_inv_push_reconnect:
  "tm_inv ts nx None c k \<Longrightarrow> 1000 \<le> ms \<Longrightarrow> ms < 39000 \<Longrightarrow> tm_inv (ts @ [(nx, TReconnect, ms)]) (Suc nx) (Some nx) c k"
  by (fastforce simp: tm_inv_def handle_ok_def)

lemma tm_inv_push_connection:
  "tm_inv ts nx r c k \<Longrightarrow> tm_inv (ts @ [(nx, TConnection, ms)]) (Suc nx) r (Some nx) k"
  by (fastforce simp: tm_inv_def handle_ok_def)

lemma tm_inv_push_creds:
  "tm_inv ts nx r c k \<Longrightarrow> tm_inv (ts @ [(nx, TCreds, ms)]) (Suc nx) r c (Some nx)"
  by (fastforce simp: tm_inv_def handle_ok_def)

lemma reconnect_entries: "tm_inv ts nx r c k \<Longrightarrow> (\<exists>ms. (i, TReconnect, ms) \<in> set ts) \<longleftrightarrow> r = Some i"
  unfolding reconnect_ids_mem [symmetric] by (auto simp: tm_inv_def split: option.splits)

lemma tm_inv_filter:
  assumes "tm_inv ts nx r c k"
  shows "tm_inv (filter (\<lambda>t. fst t \<noteq> i) ts) nx (if r = Some i then None else r) c k"
  using assms by (auto simp: tm_inv_def handle_ok_def reconnect_ids_filter distinct_map_filter split: option.splits)

lemma tm_inv_clear_handle:
  assumes "tm_inv ts nx r c k" "c = Some i \<or> k = Some i"
  shows "tm_inv (filter (\<lambda>t. fst t \<noteq> i) ts) nx r c k"
proof -
  have "r \<noteq> Some i"
    using assms reconnect_entries [OF assms(1), of i] by (fastforce simp: tm_inv_def handle_ok_def)
  with tm_inv_filter [OF assms(1), of i] show ?thesis by simp
qed

lemma tm_inv_forget:
  "tm_inv ts nx r c k \<Longrightarrow> tm_inv ts nx r None k"
  "tm_inv ts nx r c k \<Longrightarrow> tm_inv ts nx r c None"
  by (auto simp: tm_inv_def handle_ok_def)

lemma reconnect_delay_bounds:
  assumes "0 \<le> random" "random < 1"
  shows "1000 \<le> reconnect_delay n random" "reconnect_delay n random < 39000"
    "min (1000 * 2 ^ n) 30000 \<le> reconnect_delay n random"
    "10 * reconnect_delay n random \<le> 13 * min (1000 * 2 ^ n) 30000"
proof -
  define delay :: int where "delay = min (1000 * 2 ^ n) 30000"
  have d: "1000 \<le> delay" "delay \<le> 30000" by (simp_all add: delay_def)
  have eq: "reconnect_delay n random = \<lfloor>of_int delay + of_int delay * (3 / 10) * random\<rfloor>"
    by (simp add: reconnect_delay_def delay_def RECONNECT_BACKOFF_INITIAL_def RECONNECT_BACKOFF_MAX_def Let_def)
  have jit: "0 \<le> of_int delay * (3 / 10) * random" using assms d by simp
  have jit2: "of_int delay * (3 / 10) * random < of_int delay * (3 / 10)" using assms d by simp
  show low: "delay \<le> reconnect_delay n random" unfolding eq using jit by (simp add: le_floor_iff)
  then show "1000 \<le> reconnect_delay n random" using d by linarith
  have up: "of_int (10 * reconnect_delay n random) \<le> (of_int (13 * delay) :: rat)"
    unfolding eq using jit2 of_int_floor_le [of "of_int delay + of_int delay * (3 / 10) * random"]
    by (simp add: algebra_simps)
  then show "10 * reconnect_delay n random \<le> 13 * delay" by linarith
  have "of_int delay + of_int delay * (3 / 10) * random < (39000 :: rat)" using jit2 d by linarith
  then show "reconnect_delay n random < 39000" unfolding eq floor_less_iff by simp
qed

section \<open>The invariant of the document\<close>

definition off_inv :: "odoc \<Rightarrow> bool" where
  "off_inv d \<longleftrightarrow> tm_inv (od_timers d) (od_nextTimer d) (od_reconnectTimer d) (od_connectionTimeout d) (od_credsRefreshTimer d)
     \<and> (od_pc d = None) = (od_channel d = None) \<and> (od_pc d \<noteq> None \<longrightarrow> od_sasCode d \<noteq> None)
     \<and> (od_reconnectTimer d \<noteq> None \<longrightarrow> od_sasCode d \<noteq> None)"

lemma off_inv_new: "off_inv new_odoc"
  by (simp add: off_inv_def new_odoc_def tm_inv_def handle_ok_def reconnect_ids_def)

lemma off_inv_notify [wf_intros]: "off_inv d \<Longrightarrow> off_inv (notifyBackground n d)"
  by (auto simp: off_inv_def notifyBackground_def)

lemma off_inv_emit [wf_intros]: "off_inv d \<Longrightarrow> off_inv (emit x d)"
  by (auto simp: off_inv_def emit_def)

lemma off_inv_creds [wf_intros]: "off_inv d \<Longrightarrow> off_inv (scheduleCredsRefresh ttl d)"
  by (auto simp: off_inv_def scheduleCredsRefresh_def setTimeout_def intro: tm_inv_push_creds)

lemma setup_sasCode [simp]: "od_sasCode (setupPeerConnection relay d) = od_sasCode d"
  by (simp add: setupPeerConnection_def setTimeout_def Let_def)

lemma off_inv_setup:
  "off_inv d \<Longrightarrow> od_sasCode d \<noteq> None \<Longrightarrow> off_inv (setupPeerConnection relay d)"
  by (auto simp: off_inv_def setupPeerConnection_def setTimeout_def Let_def intro: tm_inv_push_connection)

lemma off_inv_close [wf_intros]: "off_inv d \<Longrightarrow> off_inv (closePeerConnection d)"
  by (auto simp: off_inv_def closePeerConnection_def)

lemma off_inv_scheduleReconnect:
  "off_inv d \<Longrightarrow> od_sasCode d \<noteq> None \<Longrightarrow> env_ok env \<Longrightarrow> off_inv (scheduleReconnect env d)"
  using reconnect_delay_bounds [of "oe_random env" "od_reconnectAttempt d"]
  by (auto simp: off_inv_def env_ok_def scheduleReconnect_def setTimeout_def Let_def intro: tm_inv_push_reconnect)

lemma off_inv_createOffer [wf_intros]: "off_inv d \<Longrightarrow> off_inv (createOffer env d)"
  by (auto simp: off_inv_def createOffer_def emit_def Let_def split: option.splits)

lemma off_inv_fallback [wf_intros]:
  assumes "off_inv d"
  shows "off_inv (attemptRelayFallback env d)"
proof (cases "od_pc d = None")
  case False
  then have "od_sasCode (closePeerConnection d) \<noteq> None" using assms by (auto simp: off_inv_def closePeerConnection_def)
  then show ?thesis
    using assms by (simp add: attemptRelayFallback_def off_inv_createOffer off_inv_setup off_inv_close)
qed (simp add: attemptRelayFallback_def assms)

lemma off_inv_signaling [wf_intros]:
  "off_inv d \<Longrightarrow> code \<noteq> None \<Longrightarrow> off_inv (connectSignaling code n k d)"
  by (auto simp: off_inv_def connectSignaling_def)

lemma off_inv_state:
  assumes inv: "off_inv d" and env: "env_ok env"
  shows "off_inv (onconnectionstatechange env state d)"
proof (cases "od_pc d")
  case (Some p)
  have code: "od_sasCode d \<noteq> None" using inv Some by (simp add: off_inv_def)
  have upd: "off_inv (d\<lparr>od_pc := Some q\<rparr>)" for q using inv Some by (auto simp: off_inv_def)
  define d1 where "d1 = (notifyBackground (ConnectionStateNote state (od_lastConnectionState d))
    (d\<lparr>od_pc := Some (p\<lparr>pe_connectionState := state\<rparr>)\<rparr>))\<lparr>od_lastConnectionState := state\<rparr>"
  have d1: "off_inv d1" "od_sasCode d1 \<noteq> None"
    using upd code by (auto simp: d1_def notifyBackground_def off_inv_def)
  define d2 where "d2 = (if od_connectionTimeout d1 \<noteq> None \<and> (state = ''connected'' \<or> state = ''failed'')
    then (clearTimeout (od_connectionTimeout d1) d1)\<lparr>od_connectionTimeout := None\<rparr> else d1)"
  have d2: "off_inv d2" "od_sasCode d2 \<noteq> None"
    using d1 by (auto simp: d2_def clearTimeout_def off_inv_def intro: tm_inv_clear_handle [THEN tm_inv_forget(1)])
  define d3 where "d3 = (if state = ''connected'' then d2\<lparr>od_reconnectAttempt := 0\<rparr> else d2)"
  have d3: "off_inv d3" "od_sasCode d3 \<noteq> None" using d2 by (auto simp: d3_def off_inv_def)
  have "onconnectionstatechange env state d =
      (if pe_relayOnly p then d\<lparr>od_pc := Some (p\<lparr>pe_connectionState := state\<rparr>)\<rparr>
       else if state = ''failed'' \<or> state = ''disconnected'' then scheduleReconnect env d3 else d3)"
    by (simp add: onconnectionstatechange_def Some d3_def d2_def d1_def Let_def)
  then show ?thesis using upd d3 env by (simp add: off_inv_scheduleReconnect)
qed (simp add: onconnectionstatechange_def inv)

lemma off_inv_ice [wf_intros]: "off_inv d \<Longrightarrow> off_inv (oniceconnectionstatechange env s d)"
  by (auto simp: oniceconnectionstatechange_def intro: off_inv_fallback split: option.splits)

lemma off_inv_room [wf_intros]: "off_inv d \<Longrightarrow> off_inv (onRoomJoined env n d)"
  by (auto simp: onRoomJoined_def intro: off_inv_createOffer split: option.splits)

lemma off_inv_socket [wf_intros]: "off_inv d \<Longrightarrow> off_inv (onSocketConnect code d)"
  by (auto simp: onSocketConnect_def intro!: off_inv_emit split: option.splits)

lemma off_inv_remote [wf_intros]:
  "off_inv d \<Longrightarrow> off_inv (onSdpOffer a d)"
  "off_inv d \<Longrightarrow> off_inv (onSdpAnswer ok d)"
  "off_inv d \<Longrightarrow> off_inv (onicecandidate c d)"
  by (auto simp: off_inv_def onSdpOffer_def onSdpAnswer_def onicecandidate_def emit_def split: option.splits)

lemma off_inv_qr: "off_inv d \<Longrightarrow> off_inv (snd (generateQrSdp env d))"
  by (auto simp: generateQrSdp_def off_inv_def split: option.splits)

lemma off_inv_fired:
  assumes "off_inv d" "map_of (od_timers d) i = Some (kind, ms)"
  shows "off_inv (d\<lparr>od_timers := filter (\<lambda>t. fst t \<noteq> i) (od_timers d),
     od_reconnectTimer := if kind = TReconnect then None else od_reconnectTimer d\<rparr>)"
    "kind = TReconnect \<Longrightarrow> od_sasCode d \<noteq> None"
proof -
  have tm: "tm_inv (od_timers d) (od_nextTimer d) (od_reconnectTimer d) (od_connectionTimeout d) (od_credsRefreshTimer d)"
    using assms(1) by (simp add: off_inv_def)
  have mem: "(i, kind, ms) \<in> set (od_timers d)" using assms(2) by (rule map_of_SomeD)
  have "kind' = kind" if "(i, kind', ms') \<in> set (od_timers d)" for kind' ms'
    using that assms(2) tm by (auto simp: tm_inv_def dest: map_of_is_SomeI)
  with mem reconnect_entries [OF tm, of i] have iff: "kind = TReconnect \<longleftrightarrow> od_reconnectTimer d = Some i" by blast
  show "off_inv (d\<lparr>od_timers := filter (\<lambda>t. fst t \<noteq> i) (od_timers d),
     od_reconnectTimer := if kind = TReconnect then None else od_reconnectTimer d\<rparr>)"
    using assms(1) tm_inv_filter [OF tm, of i] iff by (auto simp: off_inv_def)
  show "od_sasCode d \<noteq> None" if "kind = TReconnect" using assms(1) iff that by (auto simp: off_inv_def)
qed

lemma off_inv_turn [simp]: "off_inv (d\<lparr>od_turnCredentials := c\<rparr>) = off_inv d"
  by (simp add: off_inv_def)

lemma off_inv_timer:
  assumes inv: "off_inv d"
  shows "off_inv (timerFires env i d)"
proof (cases "map_of (od_timers d) i")
  case (Some t)
  obtain kind ms where t: "t = (kind, ms)" by force
  note fired = off_inv_fired [OF inv Some [unfolded t]]
  show ?thesis
  proof (cases kind)
    case TReconnect
    define e where "e = fetched_creds env (d\<lparr>od_timers := filter (\<lambda>t. fst t \<noteq> i) (od_timers d), od_reconnectTimer := None\<rparr>)"
    have e: "off_inv e" "od_sasCode e \<noteq> None"
      using fired TReconnect by (auto simp: e_def fetched_creds_def off_inv_def split: option.splits)
    have c: "off_inv (closePeerConnection e)" "od_sasCode (closePeerConnection e) \<noteq> None"
      using e off_inv_close by (auto simp: closePeerConnection_def)
    have s: "off_inv (setupPeerConnection False (closePeerConnection e))" by (rule off_inv_setup [OF c])
    have "od_sasCode (setupPeerConnection False (closePeerConnection e)) \<noteq> None"
      using e(2) by (simp add: closePeerConnection_def)
    then show ?thesis using off_inv_signaling [OF s]
      by (simp add: timerFires_def Some t TReconnect reconnectFires_def e_def Let_def)
  next
    case TConnection
    then show ?thesis using fired off_inv_notify
      by (simp add: timerFires_def Some t connectionTimeoutFires_def Let_def)
  next
    case TCreds
    then have "off_inv (d\<lparr>od_timers := filter (\<lambda>t. fst t \<noteq> i) (od_timers d)\<rparr>)" using fired(1) by simp
    then show ?thesis
      by (simp add: timerFires_def Some t TCreds credsRefreshFires_def off_inv_creds Let_def split: option.split)
  qed
qed (simp add: timerFires_def inv)

lemma off_inv_send [wf_intros]: "off_inv d \<Longrightarrow> off_inv (handleSend env raw d)"
  unfolding handleSend_def sendViaUsb_def
  by (auto simp: off_inv_def split: option.split if_split)

lemma off_inv_usb [wf_intros]:
  "off_inv d \<Longrightarrow> off_inv (snd (connectWebUsb env d))"
  "off_inv d \<Longrightarrow> off_inv (usbReadTurn r d)"
  by (auto simp: connectWebUsb_def usbReadTurn_def notifyBackground_def off_inv_def Let_def split: option.splits)

lemma tm_inv_disconnected:
  assumes "tm_inv (od_timers d) (od_nextTimer d) (od_reconnectTimer d) (od_connectionTimeout d) (od_credsRefreshTimer d)"
  shows "tm_inv (od_timers (off_disconnect d)) (od_nextTimer (off_disconnect d)) None None None"
proof -
  define cleared :: "nat option \<Rightarrow> (nat \<times> timer_kind \<times> int) list \<Rightarrow> (nat \<times> timer_kind \<times> int) list"
    where "cleared = (\<lambda>h ts. case h of None \<Rightarrow> ts | Some i \<Rightarrow> filter (\<lambda>t. fst t \<noteq> i) ts)"
  have 1: "tm_inv (cleared (od_reconnectTimer d) (od_timers d)) (od_nextTimer d) None (od_connectionTimeout d) (od_credsRefreshTimer d)"
    (is "tm_inv ?ts1 _ _ _ _")
    using assms tm_inv_filter [OF assms, of "the (od_reconnectTimer d)"] by (auto simp: cleared_def split: option.splits)
  have 2: "tm_inv (cleared (od_connectionTimeout d) ?ts1) (od_nextTimer d) None None (od_credsRefreshTimer d)"
    (is "tm_inv ?ts2 _ _ _ _")
    using 1 tm_inv_clear_handle [OF 1, of "the (od_connectionTimeout d)"]
    by (cases "od_connectionTimeout d") (auto simp: cleared_def dest: tm_inv_forget(1))
  have 3: "tm_inv (cleared (od_credsRefreshTimer d) ?ts2) (od_nextTimer d) None None None"
    using 2 tm_inv_clear_handle [OF 2, of "the (od_credsRefreshTimer d)"]
    by (cases "od_credsRefreshTimer d") (auto simp: cleared_def dest: tm_inv_forget(2))
  then show ?thesis by (simp add: off_disconnect_def Let_def clearTimeout_def cleared_def split: option.splits)
qed

lemma clearTimeout_eq:
  "clearTimeout h d = d\<lparr>od_timers := (case h of None \<Rightarrow> od_timers d | Some i \<Rightarrow> filter (\<lambda>t. fst t \<noteq> i) (od_timers d))\<rparr>"
  by (cases h) (simp_all add: clearTimeout_def)

lemma off_disconnect_fields:
  "od_pc (off_disconnect d) = None" "od_channel (off_disconnect d) = None" "od_socket (off_disconnect d) = False"
  "od_reconnectTimer (off_disconnect d) = None" "od_connectionTimeout (off_disconnect d) = None"
  "od_credsRefreshTimer (off_disconnect d) = None" "od_sasCode (off_disconnect d) = None"
  "od_offerAlreadyCreated (off_disconnect d) = False" "od_signals (off_disconnect d) = od_signals d"
  "od_usbSent (off_disconnect d) = od_usbSent d" "od_notes (off_disconnect d) = od_notes d"
  "od_usbDevice (off_disconnect d) = (case od_usbDevice d of Some dev \<Rightarrow> if ud_opened dev then None else Some dev | None \<Rightarrow> None)"
  by (simp_all add: off_disconnect_def Let_def clearTimeout_eq)

lemma off_inv_disconnect [wf_intros]: "off_inv d \<Longrightarrow> off_inv (off_disconnect d)"
  using tm_inv_disconnected [of d] by (simp add: off_inv_def off_disconnect_fields)

lemma off_inv_start_room: "off_inv d \<Longrightarrow> off_inv (start_room env code n k d) \<and> od_sasCode (start_room env code n k d) = Some code"
proof -
  assume inv: "off_inv d"
  define d1 where "d1 = d\<lparr>od_sasCode := Some code, od_nonce := n, od_extensionStaticKey := k, od_turnCredentials := fetchTurnCredentials env\<rparr>"
  define d2 where "d2 = (case fetchTurnCredentials env of Some c \<Rightarrow> scheduleCredsRefresh (tc_ttl c) d1 | None \<Rightarrow> d1)"
  have d1: "off_inv d1" "od_sasCode d1 = Some code" using inv by (auto simp: d1_def off_inv_def)
  have d2: "off_inv d2" "od_sasCode d2 = Some code"
    using d1 off_inv_creds by (auto simp: d2_def scheduleCredsRefresh_def setTimeout_def split: option.splits)
  have "start_room env code n k d = setupPeerConnection False d2" unfolding start_room_def d2_def d1_def Let_def ..
  with off_inv_setup [OF d2(1)] d2(2) show ?thesis by simp
qed

lemma off_inv_message: "off_inv d \<Longrightarrow> off_inv (snd (off_onMessage env m d))"
proof (cases m)
  case (StartPairingMsg code n k)
  then show "off_inv d \<Longrightarrow> ?thesis" using off_inv_start_room by (simp add: off_inv_signaling)
next
  case (StartOfferlessMsg code n k)
  then show "off_inv d \<Longrightarrow> ?thesis"
    using off_inv_start_room [of d env code n k] off_inv_qr [of "start_room env code n k d" env]
    by (simp add: case_prod_beta off_inv_signaling off_inv_notify)
qed (auto simp: case_prod_beta intro: wf_intros)

definition off_admissible :: "off_env \<times> off_event \<Rightarrow> bool" where
  "off_admissible x \<longleftrightarrow> env_ok (fst x)"

interpretation off_events: event_system off_step off_admissible off_inv
proof
  fix d x assume inv: "off_inv d" and ok: "off_admissible x"
  have ch: "off_inv (d\<lparr>od_channel := map_option f (od_channel d)\<rparr>)" for f using inv by (auto simp: off_inv_def)
  have ka: "off_inv (d\<lparr>od_keepalivePort := b\<rparr>)" for b using inv by (auto simp: off_inv_def)
  obtain env e where x: "x = (env, e)" by force
  show "off_inv (off_step x d)"
  proof (cases e)
    case (ConnectionState st)
    then show ?thesis using off_inv_state [OF inv] ok by (simp add: off_step_def off_admissible_def x)
  qed (use inv ch ka off_inv_timer [OF inv] off_inv_message [OF inv] in
    \<open>simp_all add: off_step_def x onChannelOpen_def onChannelMessage_def onKeepalivePortDisconnect_def wf_intros\<close>)
qed

section \<open>What the document does\<close>


definition sample_env :: off_env where
  "sample_env = \<lparr>oe_turn = None, oe_random = 1 / 2, oe_offer = Some ''sdp'', oe_candidates = [], oe_usb = None,
     oe_transferOk = True, oe_dcTry = \<lambda>_ _. None\<rparr>"

definition sample_events :: "(off_env \<times> off_event) list" where
  "sample_events = map (Pair sample_env)
     [OffMessage (StartPairingMsg ''code'' None None), SocketConnected (Some ''code''), RoomJoined 2, RemoteAnswer True,
      ConnectionState ''connected'', ConnectionState ''disconnected'']"

lemmas sample_simps = sample_events_def sample_env_def off_run_def off_step_def new_odoc_def off_defs nonempty_def
  fetchTurnCredentials_def buildIceServers_def fresh_channel_def reconnect_delay_def RECONNECT_BACKOFF_INITIAL_def
  RECONNECT_BACKOFF_MAX_def CONNECTION_TOTAL_TIMEOUT_MS_def


subsection \<open>After a disconnect\<close>

fun is_message :: "off_event \<Rightarrow> bool" where
  "is_message (OffMessage m) = True"
| "is_message _ = False"

definition quiet :: "odoc \<Rightarrow> bool" where
  "quiet d \<longleftrightarrow> od_pc d = None \<and> od_channel d = None \<and> \<not> od_socket d \<and> reconnect_ids (od_timers d) = []
     \<and> (\<forall>dev. od_usbDevice d = Some dev \<longrightarrow> \<not> ud_opened dev)"

lemma quiet_timer:
  assumes "quiet d"
  shows "quiet (timerFires env i d) \<and> od_signals (timerFires env i d) = od_signals d \<and> od_usbSent (timerFires env i d) = od_usbSent d"
proof (cases "map_of (od_timers d) i")
  case (Some t)
  obtain kind ms where t: "t = (kind, ms)" by force
  have "kind \<noteq> TReconnect"
    using map_of_SomeD [OF Some] assms reconnect_ids_mem [of i "od_timers d"] by (auto simp: t quiet_def)
  then show ?thesis using assms Some
    by (cases kind) (auto simp: timerFires_def t Let_def connectionTimeoutFires_def credsRefreshFires_def notifyBackground_def
      scheduleCredsRefresh_def setTimeout_def quiet_def reconnect_ids_filter split: option.split)
qed (simp add: timerFires_def assms)

lemma quiet_event:
  "quiet d \<Longrightarrow> \<not> is_message e \<Longrightarrow>
    quiet (off_exec env e d) \<and> od_signals (off_exec env e d) = od_signals d \<and> od_usbSent (off_exec env e d) = od_usbSent d"
  using quiet_timer [of d env]
  by (cases e) (auto simp: quiet_def onconnectionstatechange_def oniceconnectionstatechange_def onicecandidate_def onSocketConnect_def
    emit_def onRoomJoined_def onSdpOffer_def onSdpAnswer_def onChannelOpen_def onChannelMessage_def notifyBackground_def usbReadTurn_def
    onKeepalivePortDisconnect_def split: option.splits)

interpretation quiet_events: observed_events off_step "\<lambda>x. \<not> is_message (snd x)" quiet "\<lambda>d. (od_signals d, od_usbSent d)"
  by unfold_locales (simp_all add: off_step_def quiet_event)

lemma quiet_send: "quiet d \<Longrightarrow> handleSend env raw d = d"
  by (auto simp: quiet_def handleSend_def split: option.splits)

lemma quiet_disconnected:
  assumes "off_inv d"
  shows "quiet (off_disconnect d)"
proof -
  have "tm_inv (od_timers (off_disconnect d)) (od_nextTimer (off_disconnect d)) None None None"
    using assms by (intro tm_inv_disconnected) (simp add: off_inv_def)
  then have "reconnect_ids (od_timers (off_disconnect d)) = []" by (simp add: tm_inv_def)
  then show ?thesis by (simp add: quiet_def off_disconnect_fields split: option.split)
qed

text \<open>\<open>webrtc-disconnect\<close> is final. Whatever the document has been through, after it there is no peer connection,
  no socket and no open USB device, and until the background sends another message no callback or timer
  brings one back: nothing more is signalled, nothing is written to the device, a payload handed to
  \<open>webrtc-send\<close> goes nowhere, and no reconnection is pending.\<close>

theorem off_disconnect_final:
  fixes env :: off_env
  assumes "list_all (\<lambda>x. env_ok (fst x)) xs" "list_all (\<lambda>x. \<not> is_message (snd x)) ys"
  defines "d \<equiv> off_exec env (OffMessage DisconnectMsg) (off_run xs new_odoc)"
  shows "od_signals (off_run ys d) = od_signals (off_run xs new_odoc)
    \<and> od_usbSent (off_run ys d) = od_usbSent (off_run xs new_odoc)
    \<and> od_pc (off_run ys d) = None \<and> \<not> od_socket (off_run ys d) \<and> reconnect_ids (od_timers (off_run ys d)) = []
    \<and> handleSend env' raw (off_run ys d) = off_run ys d"
proof -
  have "list_all off_admissible xs" using assms(1) by (auto simp: list_all_iff off_admissible_def)
  then have "off_inv (off_run xs new_odoc)" unfolding off_run_def using off_events.inv_run [OF off_inv_new] by blast
  then have q: "quiet d" by (simp add: d_def quiet_disconnected)
  from quiet_events.inv_run [OF q assms(2)] have "quiet (off_run ys d)" by (simp add: off_run_def)
  moreover from quiet_events.obs_run [OF q assms(2)]
  have "od_signals (off_run ys d) = od_signals (off_run xs new_odoc) \<and> od_usbSent (off_run ys d) = od_usbSent (off_run xs new_odoc)"
    by (simp add: off_run_def d_def off_disconnect_fields)
  ultimately show ?thesis by (auto simp: quiet_def quiet_send)
qed

theorem off_disconnect_final_witness:
  "od_signals (off_run (map (Pair sample_env) [TimerFires 1, SocketConnected (Some ''code''), RoomJoined 2])
     (off_exec sample_env (OffMessage DisconnectMsg) (off_run sample_events new_odoc)))
   = [JoinRoom (Some ''code''), SdpOffer (Some ''code'') ''sdp'']"
proof -
  have ok: "list_all (\<lambda>x. env_ok (fst x)) sample_events" by (simp add: sample_events_def env_ok_def sample_env_def)
  have s: "od_signals (off_run sample_events new_odoc) = [JoinRoom (Some ''code''), SdpOffer (Some ''code'') ''sdp'']"
    by (simp add: sample_simps)
  have "list_all (\<lambda>x. \<not> is_message (snd x)) (map (Pair sample_env) [TimerFires 1, SocketConnected (Some ''code''), RoomJoined 2])"
    by simp
  from off_disconnect_final [OF ok this, of sample_env sample_env RawOther] show ?thesis by (simp only: s)
qed

subsection \<open>Offers and reconnection\<close>

fun is_offer :: "signal \<Rightarrow> bool" where
  "is_offer (SdpOffer _ _) = True"
| "is_offer _ = False"

text \<open>The events that may renegotiate: the relay fallback of a failed ICE connection and a disconnect, which
  clears the flag.\<close>

fun renegotiates :: "off_event \<Rightarrow> bool" where
  "renegotiates (IceState s) = (s = ''failed'')"
| "renegotiates (OffMessage DisconnectMsg) = True"
| "renegotiates _ = False"

lemma offers_message:
  "od_offerAlreadyCreated d \<Longrightarrow> m \<noteq> DisconnectMsg \<Longrightarrow>
     od_offerAlreadyCreated (snd (off_onMessage env m d)) \<and> od_signals (snd (off_onMessage env m d)) = od_signals d"
  by (cases m) (auto simp: start_room_def connectSignaling_def setupPeerConnection_def setTimeout_def scheduleCredsRefresh_def
    generateQrSdp_def notifyBackground_def connectWebUsb_def handleSend_def sendViaUsb_def Let_def case_prod_beta
    split: option.split)

lemma offers_timer:
  "od_offerAlreadyCreated d \<Longrightarrow>
     od_offerAlreadyCreated (timerFires env i d) \<and> od_signals (timerFires env i d) = od_signals d"
  by (auto simp: timerFires_def reconnectFires_def fetched_creds_def closePeerConnection_def setupPeerConnection_def setTimeout_def
    connectSignaling_def connectionTimeoutFires_def notifyBackground_def credsRefreshFires_def scheduleCredsRefresh_def Let_def
    split: option.split timer_kind.split prod.split)

lemma offers_event:
  assumes "od_offerAlreadyCreated d" "\<not> renegotiates e"
  shows "od_offerAlreadyCreated (off_exec env e d) \<and> filter is_offer (od_signals (off_exec env e d)) = filter is_offer (od_signals d)"
proof (cases e)
  case (OffMessage m)
  then show ?thesis using offers_message [OF assms(1), of m env] assms(2) by (cases m) auto
next
  case (TimerFires i)
  then show ?thesis using offers_timer [OF assms(1), of env i] by simp
qed (use assms in \<open>auto simp: onconnectionstatechange_def clearTimeout_eq scheduleReconnect_def setTimeout_def
    oniceconnectionstatechange_def onicecandidate_def onSocketConnect_def emit_def onRoomJoined_def onSdpOffer_def onSdpAnswer_def
    onChannelOpen_def onChannelMessage_def notifyBackground_def usbReadTurn_def onKeepalivePortDisconnect_def Let_def split: option.split\<close>)

interpretation offered: observed_events off_step "\<lambda>x. \<not> renegotiates (snd x)" od_offerAlreadyCreated
  "\<lambda>d. filter is_offer (od_signals d)"
  by unfold_locales (simp_all add: off_step_def offers_event)

text \<open>once an offer has been created, no event but the relay fallback sends another one until a disconnect: not
  a scheduled reconnection either, although it has replaced the peer connection. \<open>offerAlreadyCreated\<close> is not
  cleared by \<open>scheduleReconnect\<close>, so the \<open>room-joined\<close> of the new signaling connection finds it set; the
  reconnection completes only when the phone sends an offer of its own.\<close>

theorem reconnection_makes_no_offer:
  assumes "od_offerAlreadyCreated d" "list_all (\<lambda>x. \<not> renegotiates (snd x)) xs"
  shows "filter is_offer (od_signals (off_run xs d)) = filter is_offer (od_signals d)"
  unfolding off_run_def by (rule offered.obs_run [OF assms])

theorem reconnection_makes_no_offer_witness:
  "let d = off_run sample_events new_odoc;
       d' = off_run (map (Pair sample_env) [TimerFires 1, SocketConnected (Some ''code''), RoomJoined 2]) d
   in od_offerAlreadyCreated d \<and> map_option pe_signalingState (od_pc d') = Some ''stable''
      \<and> filter is_offer (od_signals d') = [SdpOffer (Some ''code'') ''sdp'']"
proof -
  let ?d = "off_run sample_events new_odoc"
  let ?xs = "map (Pair sample_env) [TimerFires 1, SocketConnected (Some ''code''), RoomJoined 2]"
  have d: "od_offerAlreadyCreated ?d" "od_signals ?d = [JoinRoom (Some ''code''), SdpOffer (Some ''code'') ''sdp'']"
    by (simp_all add: sample_simps)
  have p: "map_option pe_signalingState (od_pc (off_run ?xs ?d)) = Some ''stable''"
    by (simp add: sample_simps timerFires_def)
  have "list_all (\<lambda>x. \<not> renegotiates (snd x)) ?xs" by simp
  from reconnection_makes_no_offer [OF d(1) this]
  have "filter is_offer (od_signals (off_run ?xs ?d)) = [SdpOffer (Some ''code'') ''sdp'']" by (simp only: d) simp
  with d(1) p show ?thesis unfolding Let_def by blast
qed

text \<open>a connection that recovers by itself is torn down all the same. When the state goes to \<open>disconnected\<close> and
  back to \<open>connected\<close>, the handler resets the attempt counter but leaves the reconnect timer armed; when it
  fires, the connected peer connection and its data channel are replaced by new, unconnected ones.\<close>

theorem recovered_connection_torn_down:
  fixes env :: off_env
  assumes "od_pc d = Some p" "\<not> pe_relayOnly p" "od_reconnectTimer d = None"
    and "\<forall>t\<in>set (od_timers d). fst t < od_nextTimer d" "od_connectionTimeout d = None"
  defines "d1 \<equiv> off_run [(env, ConnectionState ''disconnected''), (env, ConnectionState ''connected'')] d"
  shows "map_option pe_connectionState (od_pc d1) = Some ''connected'' \<and> od_reconnectAttempt d1 = 0
    \<and> (\<exists>h. od_reconnectTimer d1 = Some h
        \<and> map_option pe_connectionState (od_pc (off_exec env (TimerFires h) d1)) = Some ''new''
        \<and> od_channel (off_exec env (TimerFires h) d1) = Some fresh_channel)"
proof -
  have none: "map_of (od_timers d) (od_nextTimer d) = None"
    using assms(4) by (fastforce simp: map_of_eq_None_iff)
  have 1: "map_option pe_connectionState (od_pc d1) = Some ''connected''" "od_reconnectAttempt d1 = 0"
      "od_reconnectTimer d1 = Some (od_nextTimer d)"
      "\<exists>ms. map_of (od_timers d1) (od_nextTimer d) = Some (TReconnect, ms)"
    using assms(1-3,5) none
    by (simp_all add: d1_def off_run_def off_step_def onconnectionstatechange_def notifyBackground_def scheduleReconnect_def
      setTimeout_def Let_def map_add_def)
  then obtain ms where "map_of (od_timers d1) (od_nextTimer d) = Some (TReconnect, ms)" by blast
  then have "map_option pe_connectionState (od_pc (off_exec env (TimerFires (od_nextTimer d)) d1)) = Some ''new''
      \<and> od_channel (off_exec env (TimerFires (od_nextTimer d)) d1) = Some fresh_channel"
    by (simp add: timerFires_def reconnectFires_def connectSignaling_def setupPeerConnection_def setTimeout_def Let_def)
  with 1 show ?thesis by blast
qed

definition connected_doc :: odoc where
  "connected_doc = off_run (take 5 sample_events @ [(sample_env, ChannelOpens)]) new_odoc"

theorem recovered_connection_torn_down_witness:
  "map_option pe_connectionState (od_pc connected_doc) = Some ''connected''
   \<and> (\<exists>h. map_option pe_connectionState (od_pc (off_exec sample_env (TimerFires h)
        (off_run [(sample_env, ConnectionState ''disconnected''), (sample_env, ConnectionState ''connected'')] connected_doc)))
      = Some ''new'')"
proof -
  have d: "\<exists>p. od_pc connected_doc = Some p \<and> \<not> pe_relayOnly p \<and> pe_connectionState p = ''connected''"
    "od_reconnectTimer connected_doc = None" "od_timers connected_doc = []" "od_connectionTimeout connected_doc = None"
    by (simp_all add: connected_doc_def sample_simps)
  then obtain p where p: "od_pc connected_doc = Some p" "\<not> pe_relayOnly p" "pe_connectionState p = ''connected''" by blast
  have "\<forall>t\<in>set (od_timers connected_doc). fst t < od_nextTimer connected_doc" by (simp add: d)
  from recovered_connection_torn_down [OF p(1,2) d(2) this d(4), of sample_env] p show ?thesis by auto
qed

subsection \<open>The relay fallback\<close>

fun is_state_event :: "off_event \<Rightarrow> bool" where
  "is_state_event (ConnectionState _) = True"
| "is_state_event (IceState _) = True"
| "is_state_event _ = False"

definition relaying :: "odoc \<Rightarrow> bool" where
  "relaying d \<longleftrightarrow> (\<exists>p. od_pc d = Some p \<and> pe_relayOnly p)"

interpretation relay: observed_events off_step "\<lambda>x. is_state_event (snd x)" relaying "\<lambda>d. d\<lparr>od_pc := None\<rparr>"
proof
  fix d and x :: "off_env \<times> off_event"
  assume *: "relaying d" "is_state_event (snd x)"
  show "relaying (off_step x d)" "(off_step x d)\<lparr>od_pc := None\<rparr> = d\<lparr>od_pc := None\<rparr>"
    using * by (cases "snd x"; auto simp: relaying_def off_step_def onconnectionstatechange_def oniceconnectionstatechange_def)+
qed

lemma ice_failure_relays:
  fixes env :: off_env
  assumes "od_pc d = Some p" "\<not> pe_relayOnly p" "od_reconnectAttempt d = 0"
  defines "d1 \<equiv> off_exec env (IceState ''failed'') d"
  shows "relaying d1" "od_notes d1 = od_notes d" "od_reconnectTimer d1 = od_reconnectTimer d" "od_timers d1 = od_timers d"
  using assms
  by (auto simp: d1_def relaying_def oniceconnectionstatechange_def attemptRelayFallback_def closePeerConnection_def
    setupPeerConnection_def createOffer_def emit_def Let_def split: option.splits)

lemma relay_state_silent:
  "relaying d \<Longrightarrow> is_state_event e \<Longrightarrow> relaying (off_exec env e d) \<and> od_notes (off_exec env e d) = od_notes d"
  by (cases e) (auto simp: relaying_def onconnectionstatechange_def oniceconnectionstatechange_def)

text \<open>a relay connection is invisible. When ICE fails on the first attempt, the document replaces the connection
  by a relay-only one and offers it, and then no state of that connection, \<open>connected\<close> and \<open>failed\<close> included,
  is reported to the background, resets the attempt counter or schedules a reconnection.\<close>

theorem relay_states_unreported:
  fixes env :: off_env
  assumes "od_pc d = Some p" "\<not> pe_relayOnly p" "od_reconnectAttempt d = 0"
    and "list_all (\<lambda>x. is_state_event (snd x)) xs"
  defines "d1 \<equiv> off_exec env (IceState ''failed'') d"
  shows "(\<exists>q. od_pc d1 = Some q \<and> pe_relayOnly q) \<and> od_notes d1 = od_notes d
    \<and> od_notes (off_run xs d1) = od_notes d \<and> od_reconnectTimer (off_run xs d1) = od_reconnectTimer d
    \<and> od_timers (off_run xs d1) = od_timers d"
proof -
  note 1 = ice_failure_relays [OF assms(1-3), of env, folded d1_def]
  have "(off_run xs d1)\<lparr>od_pc := None\<rparr> = d1\<lparr>od_pc := None\<rparr>"
    unfolding off_run_def by (rule relay.obs_run [OF 1(1) assms(4)])
  then have "od_notes (off_run xs d1) = od_notes d1 \<and> od_reconnectTimer (off_run xs d1) = od_reconnectTimer d1
      \<and> od_timers (off_run xs d1) = od_timers d1"
    by (cases "off_run xs d1"; cases d1) simp
  with 1 show ?thesis by (simp add: relaying_def)
qed

theorem relay_states_unreported_witness:
  "od_notes (off_run [(sample_env, ConnectionState ''connected''), (sample_env, ConnectionState ''failed'')]
     (off_exec sample_env (IceState ''failed'') (off_run (take 4 sample_events) new_odoc))) = []"
proof -
  let ?d = "off_run (take 4 sample_events) new_odoc"
  have d: "\<exists>p. od_pc ?d = Some p \<and> \<not> pe_relayOnly p" "od_reconnectAttempt ?d = 0" "od_notes ?d = []"
    by (simp_all add: sample_simps)
  then obtain p where p: "od_pc ?d = Some p" "\<not> pe_relayOnly p" by blast
  have "list_all (\<lambda>x. is_state_event (snd x)) [(sample_env, ConnectionState ''connected''), (sample_env, ConnectionState ''failed'')]"
    by simp
  from relay_states_unreported [OF p d(2) this, of sample_env] show ?thesis by (simp add: d)
qed

end
