(* ===== verification/Transport.thy ===== *)
theory Transport
  imports OffscreenDoc Retry
begin

text \<open>
  The transports of the background script and their manager: \<open>lib/transport/UsbTransport.ts\<close>,
  \<open>lib/transport/WebRtcTransport.ts\<close> and \<open>lib/transport/TransportManager.ts\<close>, composed with the offscreen
  document they talk to through \<open>runtime.sendMessage\<close>. Callbacks are numbers; the calls made of them are
  logged. An operation runs to its end before the next one starts, which \<open>selectPromise\<close> and
  \<open>switchPromise\<close> enforce for selections and switches. A message the receiver does not answer resolves to
  \<open>undefined\<close>; with no receiver the call rejects.
\<close>

section \<open>State\<close>

datatype transport_type = Usb_t | Webrtc_t

record usb_transport =
  ut_connected :: bool
  ut_messageCallbacks :: "nat list"
  ut_disconnectCallbacks :: "nat list"
  ut_device :: "usb_device option"
  ut_readLoopActive :: bool
  ut_listenerAttached :: bool
  ut_listeners :: "nat list"
  ut_written :: "(nat \<times> bytes) list"

definition new_UsbTransport :: usb_transport where
  "new_UsbTransport = \<lparr>ut_connected = False, ut_messageCallbacks = [], ut_disconnectCallbacks = [], ut_device = None,
     ut_readLoopActive = False, ut_listenerAttached = False, ut_listeners = [], ut_written = []\<rparr>"

record webrtc_transport =
  wr_connected :: bool
  wr_listenerAttached :: bool
  wr_messageCallbacks :: "nat list"
  wr_disconnectCallbacks :: "nat list"
  wr_latencyMs :: rat

definition new_WebRtcTransport :: webrtc_transport where
  "new_WebRtcTransport = \<lparr>wr_connected = False, wr_listenerAttached = False, wr_messageCallbacks = [], wr_disconnectCallbacks = [],
     wr_latencyMs = 0\<rparr>"

datatype tm_event =
    TransportChanged "transport_type option" transport_type string
  | StatusChange string

record tworld =
  tw_usb :: usb_transport
  tw_rtc :: webrtc_transport
  tw_active :: "transport_type option"
  tw_usbAvailable :: bool
  tw_connecting :: bool
  tw_pollTimer :: bool
  tw_intervals :: nat
  tw_listeners :: "(string \<times> nat) list"
  tw_messageCallback :: "nat option"
  tw_off :: odoc
  tw_emitted :: "(nat \<times> tm_event) list"
  tw_broadcast :: "tm_event list"
  tw_delivered :: "(nat \<times> bytes) list"

text \<open>What an operation meets: whether the offscreen document exists and its environment, the USB devices
  (\<open>None\<close> when \<open>getDevices\<close> throws), whether opening and transferring succeed, whether a mock manifest is
  stored, and the answer to the \<open>k\<close>-th query of the connection state.\<close>

record tenv =
  te_offscreen :: bool
  te_off :: off_env
  te_devices :: "usb_device list option"
  te_openOk :: bool
  te_transferOk :: bool
  te_mockManifest :: bool
  te_answer :: "nat \<Rightarrow> thrown + string option"
  te_random :: "nat \<Rightarrow> rat"
  te_pingMs :: rat

definition js_error :: "string \<Rightarrow> thrown" where
  "js_error message = PlainErr ''Error'' message None"

definition sendMessage :: "tenv \<Rightarrow> off_message \<Rightarrow> tworld \<Rightarrow> (thrown + json option) \<times> tworld" where
  "sendMessage env m w =
     (if \<not> te_offscreen env then (Inl (js_error ''Could not establish connection. Receiving end does not exist.''), w)
      else (case off_onMessage (te_off env) m (tw_off w) of (answer, d) \<Rightarrow> (Inr answer, w\<lparr>tw_off := d\<rparr>)))"

definition answer_success :: "json option \<Rightarrow> bool" where
  "answer_success r = (case r of Some (JObj kvs) \<Rightarrow> map_of kvs ''success'' = Some (JBool True) | _ \<Rightarrow> False)"

definition answer_error :: "json option \<Rightarrow> string option" where
  "answer_error r = (case r of
     Some (JObj kvs) \<Rightarrow> (case map_of kvs ''error'' of Some (JStr e) \<Rightarrow> Some e | _ \<Rightarrow> None) | _ \<Rightarrow> None)"

section \<open>The USB transport\<close>

definition ut_requestDevice :: "tenv \<Rightarrow> usb_device option" where
  "ut_requestDevice env =
     (case te_devices env of None \<Rightarrow> None | Some ds \<Rightarrow> find (\<lambda>d. ud_vendorId d \<in> set ANDROID_VENDOR_IDS) ds)"

definition ut_startReadLoop :: "usb_transport \<Rightarrow> usb_transport" where
  "ut_startReadLoop t =
     (if ut_readLoopActive t then t
      else t\<lparr>ut_readLoopActive := (case ut_device t of Some d \<Rightarrow> findInputEndpoint d \<noteq> None | None \<Rightarrow> False)\<rparr>)"

definition ut_cleanup :: "usb_transport \<Rightarrow> usb_transport" where
  "ut_cleanup t = t\<lparr>ut_connected := False, ut_device := None, ut_readLoopActive := False, ut_listenerAttached := False\<rparr>"

definition usb_relay_connect :: "tenv \<Rightarrow> tworld \<Rightarrow> thrown option \<times> tworld" where
  "usb_relay_connect env w =
     (case sendMessage env ConnectUsbMsg w of
        (Inl e, w1) \<Rightarrow> (Some e, w1)
      | (Inr answer, w1) \<Rightarrow>
          if answer_success answer then (None, w1\<lparr>tw_usb := (tw_usb w1)\<lparr>ut_connected := True\<rparr>\<rparr>)
          else (Some (js_error (nullish (answer_error answer) ''No USB transport available'')), w1))"

definition usb_connect :: "tenv \<Rightarrow> tworld \<Rightarrow> thrown option \<times> tworld" where
  "usb_connect env w =
     (if ut_device (tw_usb w) \<noteq> None then (None, w\<lparr>tw_usb := (tw_usb w)\<lparr>ut_connected := True\<rparr>\<rparr>)
      else
       (case ut_requestDevice env of
          Some device \<Rightarrow>
            if te_openOk env then
              (None, w\<lparr>tw_usb := ut_startReadLoop ((tw_usb w)\<lparr>ut_device := Some (device\<lparr>ud_opened := True\<rparr>), ut_connected := True\<rparr>)\<rparr>)
            else usb_relay_connect env w
        | None \<Rightarrow> usb_relay_connect env w))"

definition usb_disconnect :: "tenv \<Rightarrow> tworld \<Rightarrow> thrown option \<times> tworld" where
  "usb_disconnect env w =
     (let w1 = w\<lparr>tw_usb := (tw_usb w)\<lparr>ut_readLoopActive := False\<rparr>\<rparr> in
      if ut_device (tw_usb w1) \<noteq> None then (None, w1\<lparr>tw_usb := ut_cleanup (tw_usb w1)\<rparr>)
      else
       (case sendMessage env DisconnectMsg w1 of
          (r, w2) \<Rightarrow> (case r of Inl e \<Rightarrow> Some e | Inr _ \<Rightarrow> None, w2\<lparr>tw_usb := ut_cleanup (tw_usb w2)\<rparr>)))"

definition usb_send :: "tenv \<Rightarrow> bytes \<Rightarrow> tworld \<Rightarrow> thrown option \<times> tworld" where
  "usb_send env payload w =
     (let relay = (case sendMessage env (SendMsg (RawArray (Array_from payload))) w of
                     (Inl e, w1) \<Rightarrow> (Some e, w1) | (Inr _, w1) \<Rightarrow> (None, w1)) in
      if \<not> ut_connected (tw_usb w) then (Some (js_error ''USB transport not connected''), w)
      else
       (case ut_device (tw_usb w) of
          None \<Rightarrow> relay
        | Some d \<Rightarrow>
            (case findOutputEndpoint d of
               None \<Rightarrow> relay
             | Some ep \<Rightarrow>
                 if te_transferOk env
                 then (None, w\<lparr>tw_usb := (tw_usb w)\<lparr>ut_written := ut_written (tw_usb w) @ [(ep_number ep, payload)]\<rparr>\<rparr>)
                 else (Some (PlainErr ''NetworkError'' ''transferOut'' None), w))))"

text \<open>The listener that the first registration adds keeps the callback of that registration.\<close>

definition usb_onMessage :: "nat \<Rightarrow> usb_transport \<Rightarrow> usb_transport" where
  "usb_onMessage callback t =
     (let t1 = t\<lparr>ut_messageCallbacks := ut_messageCallbacks t @ [callback]\<rparr> in
      if ut_listenerAttached t1 then t1
      else t1\<lparr>ut_listenerAttached := True, ut_listeners := ut_listeners t1 @ [callback]\<rparr>)"

definition usb_onDisconnect :: "nat \<Rightarrow> usb_transport \<Rightarrow> usb_transport" where
  "usb_onDisconnect callback t = t\<lparr>ut_disconnectCallbacks := ut_disconnectCallbacks t @ [callback]\<rparr>"

definition usb_getLatency :: "tenv \<Rightarrow> rat" where
  "usb_getLatency env = (if te_offscreen env then te_pingMs env else -1)"

definition usb_isAvailable :: "usb_transport \<Rightarrow> bool" where
  "usb_isAvailable t = ut_connected t"

definition usb_checkAvailability :: "tenv \<Rightarrow> usb_transport \<Rightarrow> bool" where
  "usb_checkAvailability env t \<longleftrightarrow> ut_device t \<noteq> None
     \<or> (case te_devices env of None \<Rightarrow> False | Some ds \<Rightarrow> list_ex (\<lambda>d. ud_vendorId d \<in> set ANDROID_VENDOR_IDS) ds)
     \<or> te_mockManifest env"

text \<open>A turn of the read loop: \<open>Some\<close> the transferred data if any, or a failed transfer. The second result
  is the disconnect callbacks to call.\<close>

definition usb_readTurn :: "bytes option option \<Rightarrow> tworld \<Rightarrow> nat list \<times> tworld" where
  "usb_readTurn transfer w =
     (let t = tw_usb w in
      if \<not> (ut_readLoopActive t \<and> ut_device t \<noteq> None) then ([], w)
      else
       (case transfer of
          Some None \<Rightarrow> ([], w)
        | Some (Some data) \<Rightarrow> ([], w\<lparr>tw_delivered := tw_delivered w @ map (\<lambda>cb. (cb, data)) (ut_messageCallbacks t)\<rparr>)
        | None \<Rightarrow> (ut_disconnectCallbacks t, w\<lparr>tw_usb := ut_cleanup t\<rparr>)))"

section \<open>The WebRTC transport\<close>

definition rtc_connect :: "(thrown + string option) \<Rightarrow> webrtc_transport \<Rightarrow> (thrown + unit) \<times> webrtc_transport" where
  "rtc_connect answer t =
     (case answer of
        Inl e \<Rightarrow> (Inl e, t)
      | Inr state \<Rightarrow>
          if state \<noteq> Some ''connected'' then
            (Inl (js_error (''WebRTC is not connected (state: '' @ nullish state ''unknown'' @ '')'')), t\<lparr>wr_connected := False\<rparr>)
          else (Inr (), t\<lparr>wr_connected := True, wr_listenerAttached := True\<rparr>))"

definition rtc_cleanup :: "webrtc_transport \<Rightarrow> webrtc_transport" where
  "rtc_cleanup t = t\<lparr>wr_connected := False, wr_listenerAttached := False\<rparr>"

definition rtc_disconnect :: "tenv \<Rightarrow> tworld \<Rightarrow> thrown option \<times> tworld" where
  "rtc_disconnect env w =
     (case sendMessage env DisconnectMsg w of
        (r, w1) \<Rightarrow> (case r of Inl e \<Rightarrow> Some e | Inr _ \<Rightarrow> None, w1\<lparr>tw_rtc := rtc_cleanup (tw_rtc w1)\<rparr>))"

definition arrayBufferToBase64 :: "bytes \<Rightarrow> string" where
  "arrayBufferToBase64 buffer = btoa buffer"

definition base64ToArrayBuffer :: "string \<Rightarrow> bytes option" where
  "base64ToArrayBuffer base64 = atob base64"

definition rtc_send :: "tenv \<Rightarrow> bytes \<Rightarrow> tworld \<Rightarrow> thrown option \<times> tworld" where
  "rtc_send env payload w =
     (if \<not> wr_connected (tw_rtc w) then (Some (js_error ''WebRTC transport not connected''), w)
      else
       (case sendMessage env (SendMsg (RawText (arrayBufferToBase64 payload))) w of
          (Inl e, w1) \<Rightarrow> (Some e, w1)
        | (Inr answer, w1) \<Rightarrow>
            if \<not> answer_success answer then (Some (js_error (nullish (answer_error answer) ''WebRTC send failed'')), w1)
            else (None, w1)))"

definition rtc_onMessage :: "nat \<Rightarrow> webrtc_transport \<Rightarrow> webrtc_transport" where
  "rtc_onMessage callback t = t\<lparr>wr_messageCallbacks := wr_messageCallbacks t @ [callback]\<rparr>"

definition rtc_onDisconnect :: "nat \<Rightarrow> webrtc_transport \<Rightarrow> webrtc_transport" where
  "rtc_onDisconnect callback t = t\<lparr>wr_disconnectCallbacks := wr_disconnectCallbacks t @ [callback]\<rparr>"

definition rtc_isAvailable :: "webrtc_transport \<Rightarrow> bool" where
  "rtc_isAvailable t = wr_connected t"

text \<open>The conversion of an argument of \<open>atob\<close> to a string: an array is its elements joined by commas.\<close>

definition js_text :: "raw_data \<Rightarrow> string option" where
  "js_text raw = (case raw of RawText s \<Rightarrow> Some s | RawArray ns \<Rightarrow> Some (join_with '','' (map show_int ns)) | RawOther \<Rightarrow> None)"

text \<open>\<open>webrtc-data-received\<close>, \<open>RawOther\<close> when it has no data: \<open>None\<close> when the handler throws. An empty text is falsy, an empty array is not.\<close>

definition rtc_handleData :: "raw_data \<Rightarrow> tworld \<Rightarrow> tworld option" where
  "rtc_handleData raw w =
     (if raw = RawText [] then Some w
      else
       (case js_text raw of
          None \<Rightarrow> Some w
        | Some s \<Rightarrow>
            (case base64ToArrayBuffer s of
               None \<Rightarrow> None
             | Some bytes \<Rightarrow> Some (w\<lparr>tw_delivered := tw_delivered w @ map (\<lambda>cb. (cb, bytes)) (wr_messageCallbacks (tw_rtc w))\<rparr>))))"

definition rtc_handleDisconnect :: "webrtc_transport \<Rightarrow> nat list \<times> webrtc_transport" where
  "rtc_handleDisconnect t = (wr_disconnectCallbacks t, rtc_cleanup (t\<lparr>wr_connected := False\<rparr>))"

definition rtc_handleState :: "string option \<Rightarrow> rat option \<Rightarrow> webrtc_transport \<Rightarrow> nat list \<times> webrtc_transport" where
  "rtc_handleState state latencyMs t =
     (case (if state = Some ''disconnected'' then rtc_handleDisconnect t else ([], t)) of
        (called, t1) \<Rightarrow> (called, case latencyMs of Some l \<Rightarrow> t1\<lparr>wr_latencyMs := l\<rparr> | None \<Rightarrow> t1))"

section \<open>The manager\<close>

definition new_TransportManager :: "odoc \<Rightarrow> tworld" where
  "new_TransportManager d = \<lparr>tw_usb = usb_onDisconnect 0 new_UsbTransport, tw_rtc = rtc_onDisconnect 0 new_WebRtcTransport,
     tw_active = None, tw_usbAvailable = False, tw_connecting = False, tw_pollTimer = False, tw_intervals = 0, tw_listeners = [],
     tw_messageCallback = None, tw_off = d, tw_emitted = [], tw_broadcast = [], tw_delivered = []\<rparr>"

fun event_name :: "tm_event \<Rightarrow> string" where
  "event_name (TransportChanged _ _ _) = ''transport-changed''"
| "event_name (StatusChange _) = ''status-change''"

definition tm_on :: "string \<Rightarrow> nat \<Rightarrow> tworld \<Rightarrow> tworld" where
  "tm_on event callback w = w\<lparr>tw_listeners := tw_listeners w @ [(event, callback)]\<rparr>"

definition tm_emit :: "tm_event \<Rightarrow> tworld \<Rightarrow> tworld" where
  "tm_emit ev w =
     w\<lparr>tw_emitted := tw_emitted w @ map (\<lambda>l. (snd l, ev)) (filter (\<lambda>l. fst l = event_name ev) (tw_listeners w))\<rparr>"

definition emitChange :: "transport_type option \<Rightarrow> transport_type \<Rightarrow> string \<Rightarrow> tworld \<Rightarrow> tworld" where
  "emitChange previous current reason w =
     (let ev = TransportChanged previous current reason; w1 = tm_emit ev w in w1\<lparr>tw_broadcast := tw_broadcast w1 @ [ev]\<rparr>)"

definition transport_disconnect :: "tenv \<Rightarrow> transport_type \<Rightarrow> tworld \<Rightarrow> thrown option \<times> tworld" where
  "transport_disconnect env t w = (case t of Usb_t \<Rightarrow> usb_disconnect env w | Webrtc_t \<Rightarrow> rtc_disconnect env w)"

definition transport_onMessage :: "nat \<Rightarrow> transport_type \<Rightarrow> tworld \<Rightarrow> tworld" where
  "transport_onMessage callback t w =
     (case t of Usb_t \<Rightarrow> w\<lparr>tw_usb := usb_onMessage callback (tw_usb w)\<rparr> | Webrtc_t \<Rightarrow> w\<lparr>tw_rtc := rtc_onMessage callback (tw_rtc w)\<rparr>)"

definition attach_callback :: "transport_type \<Rightarrow> tworld \<Rightarrow> tworld" where
  "attach_callback t w = (case tw_messageCallback w of Some cb \<Rightarrow> transport_onMessage cb t w | None \<Rightarrow> w)"

definition webrtc_retry_options :: retry_options where
  "webrtc_retry_options = default_options\<lparr>maxAttempts := 3, baseDelayMs := 1000, maxDelayMs := 10000,
     shouldRetry := (\<lambda>e _. isRetryableError e)\<rparr>"

text \<open>The outcome of an attempt depends on the answer only; the transport goes through all the attempts made.\<close>

definition connectWebRtcWithRetry :: "tenv \<Rightarrow> tworld \<Rightarrow> tworld" where
  "connectWebRtcWithRetry env w =
     (case withRetry (\<lambda>k. fst (rtc_connect (te_answer env k) (tw_rtc w))) (te_random env) webrtc_retry_options of
        (result, calls, delays) \<Rightarrow>
          (let w1 = w\<lparr>tw_rtc := fold (\<lambda>k t. snd (rtc_connect (te_answer env k) t)) [1..<calls + 1] (tw_rtc w)\<rparr> in
           if rr_success result then attach_callback Webrtc_t (w1\<lparr>tw_active := Some Webrtc_t\<rparr>)
           else w1\<lparr>tw_active := None\<rparr>))"

definition checkUsbAvailability :: "tenv \<Rightarrow> tworld \<Rightarrow> bool" where
  "checkUsbAvailability env w = usb_checkAvailability env (tw_usb w)"

definition discoverTransport :: "tenv \<Rightarrow> string \<Rightarrow> tworld \<Rightarrow> transport_type option \<times> tworld" where
  "discoverTransport env reason w =
     (let w1 = w\<lparr>tw_usbAvailable := checkUsbAvailability env w\<rparr>;
          (usbErr, w2) = (if tw_usbAvailable w1 then usb_connect env w1 else (Some NoError, w1))
      in if usbErr = None then (Some Usb_t, emitChange None Usb_t reason (w2\<lparr>tw_active := Some Usb_t\<rparr>))
         else
          (let w3 = connectWebRtcWithRetry env w2 in
           case tw_active w3 of
             Some t \<Rightarrow> (Some t, emitChange None t reason w3)
           | None \<Rightarrow> (None, w3)))"

definition selectTransport :: "tenv \<Rightarrow> tworld \<Rightarrow> (thrown + transport_type) \<times> tworld" where
  "selectTransport env w =
     (case tw_active w of
        Some t \<Rightarrow> (Inr t, w)
      | None \<Rightarrow>
          (case discoverTransport env ''Transport selected'' w of
             (Some t, w1) \<Rightarrow> (Inr t, w1)
           | (None, w1) \<Rightarrow> (Inl (js_error ''No transport available''), w1)))"

definition switch_to_usb :: "tenv \<Rightarrow> string \<Rightarrow> tworld \<Rightarrow> bool \<times> tworld" where
  "switch_to_usb env reason w =
     (case usb_connect env w of
        (Some e, w1) \<Rightarrow> (False, w1)
      | (None, w1) \<Rightarrow>
          (case (if tw_active w = Some Webrtc_t then rtc_disconnect env w1 else (None, w1)) of
             (Some e, w2) \<Rightarrow> (False, w2)
           | (None, w2) \<Rightarrow> (True, emitChange (tw_active w) Usb_t reason (attach_callback Usb_t (w2\<lparr>tw_active := Some Usb_t\<rparr>)))))"

definition switch_to_webrtc :: "tenv \<Rightarrow> string \<Rightarrow> tworld \<Rightarrow> (thrown + bool) \<times> tworld" where
  "switch_to_webrtc env reason w =
     (case (if tw_active w = Some Usb_t then usb_disconnect env w else (None, w)) of
        (Some e, w1) \<Rightarrow> (Inl e, w1)
      | (None, w1) \<Rightarrow>
          (let w2 = connectWebRtcWithRetry env w1 in
           if tw_active w2 = Some Webrtc_t then (Inr True, emitChange (tw_active w) Webrtc_t reason w2)
           else (Inr False, tm_emit (StatusChange reason) w2)))"

definition switchTransport :: "tenv \<Rightarrow> transport_type \<Rightarrow> string \<Rightarrow> tworld \<Rightarrow> (thrown + bool) \<times> tworld" where
  "switchTransport env target reason w =
     (case target of
        Usb_t \<Rightarrow> if tw_usbAvailable w then (case switch_to_usb env reason w of (ok, w1) \<Rightarrow> (Inr ok, w1)) else (Inr False, w)
      | Webrtc_t \<Rightarrow> switch_to_webrtc env reason w)"

text \<open>The two disconnect callbacks the constructor registers.\<close>

definition on_usb_disconnect :: "tenv \<Rightarrow> tworld \<Rightarrow> tworld" where
  "on_usb_disconnect env w =
     (if tw_active w = Some Usb_t then snd (switchTransport env Webrtc_t ''USB disconnected'' w) else w)"

definition on_webrtc_disconnect :: "tenv \<Rightarrow> tworld \<Rightarrow> tworld" where
  "on_webrtc_disconnect env w =
     (if tw_active w = Some Webrtc_t then
       (case switchTransport env Usb_t ''WebRTC disconnected'' w of
          (Inr False, w1) \<Rightarrow> tm_emit (StatusChange ''WebRTC disconnected, USB unavailable'') (w1\<lparr>tw_active := None\<rparr>)
        | (_, w1) \<Rightarrow> w1)
      else w)"

text \<open>The first result is what \<open>initialize\<close> rejects with. \<open>discoverTransport\<close> catches the errors of both transports,
  so no call in its body rejects.\<close>

definition tm_initialize :: "tenv \<Rightarrow> tworld \<Rightarrow> thrown option \<times> tworld" where
  "tm_initialize env w =
     (if tw_connecting w then (None, w)
      else
       (case discoverTransport env ''Available on init'' (w\<lparr>tw_connecting := True\<rparr>) of
          (_, w1) \<Rightarrow> (None, w1\<lparr>tw_pollTimer := True, tw_intervals := tw_intervals w1 + 1, tw_connecting := False\<rparr>)))"

definition tm_poll :: "tenv \<Rightarrow> tworld \<Rightarrow> tworld" where
  "tm_poll env w =
     (let wasAvailable = tw_usbAvailable w;
          w1 = w\<lparr>tw_usbAvailable := checkUsbAvailability env w\<rparr>
      in if tw_usbAvailable w1 \<and> \<not> wasAvailable then
           (if tw_active w1 \<noteq> Some Usb_t then snd (switchTransport env Usb_t ''USB became available'' w1) else w1)
         else if \<not> tw_usbAvailable w1 \<and> wasAvailable then
           (if tw_active w1 = Some Usb_t then snd (switchTransport env Webrtc_t ''USB became unavailable'' w1) else w1)
         else w1)"

definition tm_send :: "tenv \<Rightarrow> bytes \<Rightarrow> tworld \<Rightarrow> thrown option \<times> tworld" where
  "tm_send env payload w =
     (case tw_active w of
        None \<Rightarrow> (Some (js_error ''No active transport''), w)
      | Some Usb_t \<Rightarrow> usb_send env payload w
      | Some Webrtc_t \<Rightarrow> rtc_send env payload w)"

definition tm_onMessage :: "nat \<Rightarrow> tworld \<Rightarrow> tworld" where
  "tm_onMessage callback w =
     (let w1 = w\<lparr>tw_messageCallback := Some callback\<rparr> in
      case tw_active w1 of Some t \<Rightarrow> transport_onMessage callback t w1 | None \<Rightarrow> w1)"

definition maxHealthyLatencyMs :: rat where "maxHealthyLatencyMs = 10000"

definition monitorQuality :: "tenv \<Rightarrow> transport_type \<Rightarrow> tworld \<Rightarrow> rat \<times> bool" where
  "monitorQuality env t w =
     (let latencyMs = (case t of Usb_t \<Rightarrow> usb_getLatency env | Webrtc_t \<Rightarrow> wr_latencyMs (tw_rtc w))
      in (latencyMs, latencyMs \<ge> 0 \<and> latencyMs < maxHealthyLatencyMs))"

definition tm_destroy :: "tenv \<Rightarrow> tworld \<Rightarrow> thrown option \<times> tworld" where
  "tm_destroy env w =
     (let w1 = (if tw_pollTimer w then w\<lparr>tw_pollTimer := False, tw_intervals := tw_intervals w - 1\<rparr> else w) in
      case tw_active w1 of Some t \<Rightarrow> transport_disconnect env t w1 | None \<Rightarrow> (None, w1))"

section \<open>The composition with the offscreen document\<close>

text \<open>A notification of the document reaches the listeners of the two transports: the USB transport's
  listeners, which are never removed, and the WebRTC transport's handler while it is attached.\<close>

fun deliver :: "tenv \<Rightarrow> off_note \<Rightarrow> tworld \<Rightarrow> tworld" where
  "deliver env (DataReceivedNote ns) w =
     (let w1 = (if ut_connected (tw_usb w)
                then w\<lparr>tw_delivered := tw_delivered w @ map (\<lambda>cb. (cb, new_Uint8Array ns)) (ut_listeners (tw_usb w))\<rparr> else w)
      in if wr_listenerAttached (tw_rtc w1) then nullish (rtc_handleData (RawArray ns) w1) w1 else w1)"
| "deliver env (ConnectionStateNote state previous) w =
     (if wr_listenerAttached (tw_rtc w) then
       (case rtc_handleState (Some state) None (tw_rtc w) of
          (called, t) \<Rightarrow> fold (\<lambda>cb. on_webrtc_disconnect env) called (w\<lparr>tw_rtc := t\<rparr>))
      else w)"
| "deliver env n w = w"

definition offscreen_event :: "tenv \<Rightarrow> off_event \<Rightarrow> tworld \<Rightarrow> tworld" where
  "offscreen_event env e w =
     (let d = off_exec (te_off env) e (tw_off w);
          fresh = drop (length (od_notes (tw_off w))) (od_notes d)
      in fold (deliver env) fresh (w\<lparr>tw_off := d\<rparr>))"

definition usb_read :: "tenv \<Rightarrow> bytes option option \<Rightarrow> tworld \<Rightarrow> tworld" where
  "usb_read env transfer w =
     (case usb_readTurn transfer w of (called, w1) \<Rightarrow> fold (\<lambda>cb. on_usb_disconnect env) called w1)"

datatype tm_op =
    OpInitialize | OpSelect | OpSwitch transport_type string | OpPoll | OpSend bytes | OpOnMessage nat | OpOn string nat
  | OpDestroy | OpOffscreen off_event | OpUsbRead "bytes option option"

fun tm_exec :: "tenv \<times> tm_op \<Rightarrow> tworld \<Rightarrow> tworld" where
  "tm_exec (env, OpInitialize) w = snd (tm_initialize env w)"
| "tm_exec (env, OpSelect) w = snd (selectTransport env w)"
| "tm_exec (env, OpSwitch target reason) w = snd (switchTransport env target reason w)"
| "tm_exec (env, OpPoll) w = tm_poll env w"
| "tm_exec (env, OpSend payload) w = snd (tm_send env payload w)"
| "tm_exec (env, OpOnMessage cb) w = tm_onMessage cb w"
| "tm_exec (env, OpOn event cb) w = tm_on event cb w"
| "tm_exec (env, OpDestroy) w = snd (tm_destroy env w)"
| "tm_exec (env, OpOffscreen e) w = offscreen_event env e w"
| "tm_exec (env, OpUsbRead r) w = usb_read env r w"

section \<open>The invariant\<close>

definition usb_ok :: "usb_transport \<Rightarrow> bool" where
  "usb_ok t \<longleftrightarrow> (case ut_device t of None \<Rightarrow> \<not> ut_readLoopActive t | Some d \<Rightarrow> ud_opened d \<and> ut_connected t)
     \<and> ut_disconnectCallbacks t = [0] \<and> set (ut_listeners t) \<subseteq> set (ut_messageCallbacks t)
     \<and> (ut_listenerAttached t \<longrightarrow> ut_listeners t \<noteq> [])"

definition rtc_ok :: "webrtc_transport \<Rightarrow> bool" where
  "rtc_ok t \<longleftrightarrow> (wr_connected t \<longrightarrow> wr_listenerAttached t) \<and> wr_disconnectCallbacks t = [0]"

definition tr_inv :: "tworld \<Rightarrow> bool" where
  "tr_inv w \<longleftrightarrow> usb_ok (tw_usb w) \<and> rtc_ok (tw_rtc w) \<and> off_inv (tw_off w)"

lemma tr_inv_new: "off_inv d \<Longrightarrow> tr_inv (new_TransportManager d)"
  by (simp add: tr_inv_def new_TransportManager_def usb_ok_def rtc_ok_def usb_onDisconnect_def rtc_onDisconnect_def
    new_UsbTransport_def new_WebRtcTransport_def)

lemma tr_inv_frame [simp]:
  "tr_inv (w\<lparr>tw_active := a\<rparr>) = tr_inv w"
  "tr_inv (w\<lparr>tw_usbAvailable := b\<rparr>) = tr_inv w"
  "tr_inv (w\<lparr>tw_delivered := l\<rparr>) = tr_inv w"
  "tr_inv (w\<lparr>tw_messageCallback := m\<rparr>) = tr_inv w"
  "tr_inv (w\<lparr>tw_pollTimer := b, tw_intervals := n\<rparr>) = tr_inv w"
  "tr_inv (w\<lparr>tw_pollTimer := b, tw_intervals := n, tw_connecting := c\<rparr>) = tr_inv w"
  "tr_inv (w\<lparr>tw_connecting := c\<rparr>) = tr_inv w"
  by (simp_all add: tr_inv_def)

lemma tr_inv_emit [simp]: "tr_inv (tm_emit ev w) = tr_inv w" "tr_inv (emitChange p c r w) = tr_inv w" "tr_inv (tm_on e cb w) = tr_inv w"
  by (simp_all add: tr_inv_def tm_emit_def emitChange_def tm_on_def Let_def)

lemma usb_ok_ops [wf_intros]:
  "usb_ok t \<Longrightarrow> usb_ok (ut_cleanup t)"
  "usb_ok t \<Longrightarrow> usb_ok (usb_onMessage cb t)"
  "usb_ok t \<Longrightarrow> usb_ok (t\<lparr>ut_connected := True\<rparr>)"
  "usb_ok t \<Longrightarrow> usb_ok (ut_startReadLoop (t\<lparr>ut_device := Some (d\<lparr>ud_opened := True\<rparr>), ut_connected := True\<rparr>))"
  "usb_ok t \<Longrightarrow> usb_ok (t\<lparr>ut_written := l\<rparr>)"
  "usb_ok t \<Longrightarrow> usb_ok (t\<lparr>ut_readLoopActive := False\<rparr>)"
  by (auto simp: usb_ok_def ut_cleanup_def usb_onMessage_def ut_startReadLoop_def Let_def split: option.splits)

lemma rtc_ok_ops [wf_intros]:
  "rtc_ok t \<Longrightarrow> rtc_ok (rtc_cleanup t)"
  "rtc_ok t \<Longrightarrow> rtc_ok (rtc_onMessage cb t)"
  "rtc_ok t \<Longrightarrow> rtc_ok (snd (rtc_connect a t))"
  "rtc_ok t \<Longrightarrow> rtc_ok (snd (rtc_handleState st l t))"
  by (auto simp: rtc_ok_def rtc_cleanup_def rtc_onMessage_def rtc_connect_def rtc_handleState_def rtc_handleDisconnect_def
    split: sum.splits option.splits)

lemma tr_inv_usb: "tr_inv w \<Longrightarrow> usb_ok t \<Longrightarrow> tr_inv (w\<lparr>tw_usb := t\<rparr>)"
  by (simp add: tr_inv_def)

lemma tr_inv_rtc: "tr_inv w \<Longrightarrow> rtc_ok t \<Longrightarrow> tr_inv (w\<lparr>tw_rtc := t\<rparr>)"
  by (simp add: tr_inv_def)

lemma tr_invD: "tr_inv w \<Longrightarrow> usb_ok (tw_usb w)" "tr_inv w \<Longrightarrow> rtc_ok (tw_rtc w)" "tr_inv w \<Longrightarrow> off_inv (tw_off w)"
  by (simp_all add: tr_inv_def)

lemmas tr_rules = tr_inv_usb tr_inv_rtc tr_invD usb_ok_ops rtc_ok_ops

lemma tr_inv_sendMessage [wf_intros]: "tr_inv w \<Longrightarrow> tr_inv (snd (sendMessage env m w))"
  using off_inv_message by (auto simp: tr_inv_def sendMessage_def case_prod_beta)

lemma tr_inv_usb_connect [wf_intros]: "tr_inv w \<Longrightarrow> tr_inv (snd (usb_connect env w))"
  using tr_inv_sendMessage [of w env ConnectUsbMsg]
  by (auto simp: usb_connect_def usb_relay_connect_def intro!: tr_rules split: option.splits prod.splits sum.splits)

lemma tr_inv_usb_disconnect [wf_intros]:
  assumes "tr_inv w"
  shows "tr_inv (snd (usb_disconnect env w))"
proof -
  let ?w1 = "w\<lparr>tw_usb := (tw_usb w)\<lparr>ut_readLoopActive := False\<rparr>\<rparr>"
  have 1: "tr_inv ?w1" using assms by (intro tr_rules)
  then have "tr_inv (snd (sendMessage env DisconnectMsg ?w1))" by (rule tr_inv_sendMessage)
  with assms show ?thesis by (auto simp: usb_disconnect_def Let_def case_prod_beta intro!: tr_rules)
qed

lemma tr_inv_usb_send [wf_intros]: "tr_inv w \<Longrightarrow> tr_inv (snd (usb_send env payload w))"
  using tr_inv_sendMessage [of w env "SendMsg (RawArray (Array_from payload))"]
  by (auto simp: usb_send_def Let_def intro!: tr_rules split: option.splits prod.splits sum.splits)

lemma tr_inv_rtc_disconnect [wf_intros]: "tr_inv w \<Longrightarrow> tr_inv (snd (rtc_disconnect env w))"
  using tr_inv_sendMessage [of w env DisconnectMsg]
  by (auto simp: rtc_disconnect_def case_prod_beta intro!: tr_rules)

lemma tr_inv_rtc_send [wf_intros]: "tr_inv w \<Longrightarrow> tr_inv (snd (rtc_send env payload w))"
  using tr_inv_sendMessage [of w env "SendMsg (RawText (arrayBufferToBase64 payload))"]
  by (auto simp: rtc_send_def split: prod.splits sum.splits)

lemma tr_inv_attach [wf_intros]: "tr_inv w \<Longrightarrow> tr_inv (attach_callback t w)" "tr_inv w \<Longrightarrow> tr_inv (transport_onMessage cb t w)"
  by (auto simp: attach_callback_def transport_onMessage_def intro!: tr_rules split: option.splits transport_type.splits)

lemma rtc_ok_attempts: "rtc_ok t \<Longrightarrow> rtc_ok (fold (\<lambda>k t. snd (rtc_connect (answer k) t)) ks t)"
  by (induction ks arbitrary: t) (auto intro: rtc_ok_ops)

lemma tr_inv_connectWebRtc [wf_intros]: "tr_inv w \<Longrightarrow> tr_inv (connectWebRtcWithRetry env w)"
  by (auto simp: connectWebRtcWithRetry_def Let_def case_prod_beta simp del: upt_Suc intro!: tr_inv_attach tr_inv_rtc rtc_ok_attempts intro: tr_invD)

lemma tr_inv_discover [wf_intros]: "tr_inv w \<Longrightarrow> tr_inv (snd (discoverTransport env reason w))"
  by (auto simp: discoverTransport_def Let_def case_prod_beta intro!: tr_inv_connectWebRtc tr_inv_usb_connect split: option.split)

lemma tr_inv_switch_usb [wf_intros]: "tr_inv w \<Longrightarrow> tr_inv (snd (switch_to_usb env reason w))"
  using tr_inv_usb_connect [of w env] tr_inv_rtc_disconnect [of "snd (usb_connect env w)" env]
  by (auto simp: switch_to_usb_def intro!: tr_inv_attach split: prod.splits option.splits if_splits)

lemma tr_inv_switch_webrtc [wf_intros]: "tr_inv w \<Longrightarrow> tr_inv (snd (switch_to_webrtc env reason w))"
  using tr_inv_usb_disconnect [of w env]
  by (auto simp: switch_to_webrtc_def Let_def intro!: tr_inv_connectWebRtc split: prod.splits option.splits if_splits)

lemma tr_inv_switch [wf_intros]: "tr_inv w \<Longrightarrow> tr_inv (snd (switchTransport env target reason w))"
  using tr_inv_switch_usb [of w env reason] tr_inv_switch_webrtc [of w env reason]
  by (auto simp: switchTransport_def case_prod_beta split: transport_type.splits)

lemma tr_inv_callbacks [wf_intros]:
  "tr_inv w \<Longrightarrow> tr_inv (on_usb_disconnect env w)" "tr_inv w \<Longrightarrow> tr_inv (on_webrtc_disconnect env w)"
  using tr_inv_switch [of w env Usb_t "''WebRTC disconnected''"]
  by (auto simp: on_usb_disconnect_def on_webrtc_disconnect_def intro: tr_inv_switch split: prod.splits sum.splits bool.splits)

lemma tr_inv_fold: "(\<And>x w. tr_inv w \<Longrightarrow> tr_inv (f x w)) \<Longrightarrow> tr_inv w \<Longrightarrow> tr_inv (fold f xs w)"
  by (induction xs arbitrary: w) auto

lemma tr_inv_handleData: "tr_inv w \<Longrightarrow> tr_inv (nullish (rtc_handleData raw w) w)"
  by (auto simp: rtc_handleData_def nullish_def split: option.splits)

lemma tr_inv_deliver [wf_intros]: "tr_inv w \<Longrightarrow> tr_inv (deliver env n w)"
  by (cases n) (auto simp: Let_def case_prod_beta intro!: tr_inv_handleData tr_inv_fold tr_inv_callbacks(2) tr_inv_rtc rtc_ok_ops
    intro: tr_invD)

lemma tr_inv_offscreen:
  assumes "tr_inv w" "env_ok (te_off env)"
  shows "tr_inv (offscreen_event env e w)"
proof -
  have "off_inv (off_exec (te_off env) e (tw_off w))"
    using off_events.inv_exec [of "tw_off w" "(te_off env, e)"] assms by (simp add: tr_inv_def off_admissible_def off_step_def)
  then have "tr_inv (w\<lparr>tw_off := off_exec (te_off env) e (tw_off w)\<rparr>)" using assms(1) by (simp add: tr_inv_def)
  then show ?thesis unfolding offscreen_event_def Let_def by (intro tr_inv_fold tr_inv_deliver)
qed

lemma tr_inv_read:
  assumes "tr_inv w"
  shows "tr_inv (usb_read env r w)"
proof -
  have "tr_inv (snd (usb_readTurn r w))"
    using assms by (auto simp: usb_readTurn_def Let_def intro!: tr_rules split: option.splits)
  then show ?thesis unfolding usb_read_def case_prod_beta by (intro tr_inv_fold tr_inv_callbacks)
qed

definition tm_admissible :: "tenv \<times> tm_op \<Rightarrow> bool" where
  "tm_admissible x \<longleftrightarrow> env_ok (te_off (fst x))"

interpretation tm_events: event_system tm_exec tm_admissible tr_inv
proof
  fix w and x :: "tenv \<times> tm_op"
  assume inv: "tr_inv w" and ok: "tm_admissible x"
  obtain env p where x: "x = (env, p)" by force
  show "tr_inv (tm_exec x w)"
  proof (cases p)
    case OpPoll
    then show ?thesis using inv by (auto simp: x tm_poll_def Let_def intro!: tr_inv_switch)
  next
    case (OpSend payload)
    then show ?thesis using inv by (auto simp: x tm_send_def intro: wf_intros split: option.splits transport_type.splits)
  next
    case OpDestroy
    then show ?thesis using inv
      by (auto simp: x tm_destroy_def transport_disconnect_def Let_def intro!: tr_inv_usb_disconnect tr_inv_rtc_disconnect
        split: option.splits transport_type.splits)
  next
    case (OpOnMessage cb)
    then show ?thesis using inv by (auto simp: x tm_onMessage_def Let_def intro: tr_inv_attach split: option.splits)
  next
    case OpSelect
    then show ?thesis using inv tr_inv_discover [OF inv, of env "''Transport selected''"]
      by (auto simp: x selectTransport_def split: option.splits prod.splits)
  next
    case OpInitialize
    then show ?thesis using inv by (simp add: x tm_initialize_def tr_inv_discover case_prod_beta)
  qed (use inv ok in \<open>simp_all add: x tm_admissible_def tr_inv_switch tr_inv_offscreen tr_inv_read\<close>)
qed

section \<open>What the transports do\<close>


definition sample_tenv :: tenv where
  "sample_tenv = \<lparr>te_offscreen = True, te_off = sample_env, te_devices = Some [sample_phone], te_openOk = True, te_transferOk = True,
     te_mockManifest = False, te_answer = (\<lambda>_. Inr (Some ''connected'')), te_random = (\<lambda>_. 0), te_pingMs = 5\<rparr>"


subsection \<open>Payloads over WebRTC\<close>

lemma arrayBuffer_roundtrip: "base64ToArrayBuffer (arrayBufferToBase64 bs) = Some bs" "base64ToUint8Array (arrayBufferToBase64 bs) = Some bs"
  by (simp_all add: base64ToArrayBuffer_def arrayBufferToBase64_def base64ToUint8Array_def)

lemma raw_text_payload: "bs \<noteq> [] \<Longrightarrow> arrayBufferToBase64 bs \<noteq> []"
  by (simp add: arrayBufferToBase64_def btoa_nonempty)

lemma handleSend_text:
  "bs \<noteq> [] \<Longrightarrow> od_usbDevice d = None \<Longrightarrow>
     handleSend env (RawText (arrayBufferToBase64 bs)) d
       = d\<lparr>od_channel := map_option (bq_exec (oe_dcTry env) default_config (EvSend bs)) (od_channel d)\<rparr>"
  by (simp add: handleSend_def raw_bytes_def arrayBuffer_roundtrip raw_text_payload)

lemma rtc_send_outcome:
  assumes "wr_connected (tw_rtc w)" "te_offscreen env" "payload \<noteq> []" "od_usbDevice (tw_off w) = None"
  shows "rtc_send env payload w = (Some (js_error ''WebRTC send failed''),
    w\<lparr>tw_off := (tw_off w)\<lparr>od_channel :=
      map_option (bq_exec (oe_dcTry (te_off env)) default_config (EvSend payload)) (od_channel (tw_off w))\<rparr>\<rparr>)"
  using assms
  by (simp add: rtc_send_def sendMessage_def answer_success_def answer_error_def handleSend_text)

text \<open>a send over WebRTC reports failure also when it works. The offscreen document hands the payload, decoded
  exactly, to the backpressure queue of its data channel, but its \<open>webrtc-send\<close> case never answers, so the
  transport throws \<open>WebRTC send failed\<close>, and a caller that retries sends the payload again.\<close>

theorem webrtc_send_reports_failure:
  assumes "wr_connected (tw_rtc w)" "te_offscreen env" "payload \<noteq> []" "od_usbDevice (tw_off w) = None"
  shows "rtc_send env payload w = (Some (js_error ''WebRTC send failed''),
    w\<lparr>tw_off := (tw_off w)\<lparr>od_channel :=
      map_option (bq_exec (oe_dcTry (te_off env)) default_config (EvSend payload)) (od_channel (tw_off w))\<rparr>\<rparr>)"
  by (rule rtc_send_outcome [OF assms])

definition rtc_world :: tworld where
  "rtc_world = (new_TransportManager connected_doc)\<lparr>tw_active := Some Webrtc_t, tw_messageCallback := Some 7,
     tw_rtc := \<lparr>wr_connected = True, wr_listenerAttached = True, wr_messageCallbacks = [7], wr_disconnectCallbacks = [0], wr_latencyMs = 0\<rparr>\<rparr>"

lemma connected_doc_facts:
  "od_usbDevice connected_doc = None" "od_channel connected_doc = Some (fresh_channel\<lparr>w_dc := \<lparr>dc_open = True, dc_bufferedAmount = 0, dc_sent = []\<rparr>\<rparr>)" "od_notes connected_doc = [ConnectionStateNote ''connected'' []]"
  by (simp_all add: connected_doc_def sample_simps init_world_def)

theorem webrtc_send_reports_failure_witness:
  "fst (rtc_send sample_tenv [1, 2, 3] rtc_world) = Some (js_error ''WebRTC send failed'')
   \<and> map_option (dc_sent \<circ> w_dc) (od_channel (tw_off (snd (rtc_send sample_tenv [1, 2, 3] rtc_world)))) = Some [(0, [1, 2, 3])]"
proof -
  have "wr_connected (tw_rtc rtc_world)" "te_offscreen sample_tenv" "od_usbDevice (tw_off rtc_world) = None"
    by (simp_all add: rtc_world_def sample_tenv_def new_TransportManager_def connected_doc_facts)
  then show ?thesis
    using webrtc_send_reports_failure [of rtc_world sample_tenv "[1, 2, 3]"]
    by (simp add: rtc_world_def new_TransportManager_def connected_doc_facts bq_send_def dc_send_def fresh_channel_def init_world_def
      new_BackpressureQueue_def default_config_def sample_tenv_def sample_env_def)
qed

lemma strip_padding_keeps: "c \<in> set s \<Longrightarrow> c \<noteq> CHR ''='' \<Longrightarrow> c \<in> set (strip_padding s)"
proof -
  assume c: "c \<in> set s" "c \<noteq> CHR ''=''"
  have "c \<in> set (take n s)" if "drop n s = ''=='' \<or> drop n s = ''=''" for n
    using c that by (metis Un_iff append_take_drop_id empty_iff list.set(1) set_ConsD set_append)
  with c show ?thesis by (auto simp: strip_padding_def)
qed

lemma atob_comma:
  assumes "CHR '','' \<in> set s"
  shows "atob s = None"
proof -
  have "CHR '','' \<in> set (strip_padding (filter (\<lambda>c. \<not> is_b64_space c) s))"
    using assms by (intro strip_padding_keeps) (auto simp: is_b64_space_def)
  moreover have "b64_val (CHR '','') = None" by (simp add: b64_val_def)
  ultimately have "\<not> list_all (\<lambda>c. b64_val c \<noteq> None) (strip_padding (filter (\<lambda>c. \<not> is_b64_space c) s))"
    by (auto simp: list_all_iff)
  then show ?thesis unfolding atob_def Let_def by simp
qed

lemma joined_comma: "2 \<le> length xs \<Longrightarrow> CHR '','' \<in> set (join_with '','' xs)"
  by (cases "('','', xs)" rule: join_with.cases) auto

lemma handleData_array: "2 \<le> length ns \<Longrightarrow> rtc_handleData (RawArray ns) w = None"
  by (simp add: rtc_handleData_def js_text_def base64ToArrayBuffer_def atob_comma joined_comma)

text \<open>what the phone sends over WebRTC never arrives. The document forwards the bytes of a message as an array of
  numbers; the transport's handler decodes it with \<open>atob\<close>, which is handed the numbers joined by commas and
  throws for every message of two bytes or more: no callback of the WebRTC transport is called.\<close>

theorem webrtc_data_lost:
  assumes "2 \<le> length data" "\<not> ut_connected (tw_usb w)"
  shows "tw_delivered (offscreen_event env (ChannelMessage data) w) = tw_delivered w
    \<and> od_notes (tw_off (offscreen_event env (ChannelMessage data) w)) = od_notes (tw_off w) @ [DataReceivedNote (Array_from data)]"
proof -
  have "2 \<le> length (Array_from data)" using assms(1) by (simp add: Array_from_def)
  with assms(2) show ?thesis
    by (simp add: offscreen_event_def onChannelMessage_def notifyBackground_def handleData_array nullish_def Let_def)
qed

theorem webrtc_data_lost_witness:
  "wr_listenerAttached (tw_rtc rtc_world) \<and> wr_messageCallbacks (tw_rtc rtc_world) = [7]
   \<and> tw_delivered (offscreen_event sample_tenv (ChannelMessage [104, 105]) rtc_world) = []"
proof -
  have "\<not> ut_connected (tw_usb rtc_world)" "tw_delivered rtc_world = []"
    by (simp_all add: rtc_world_def new_TransportManager_def new_UsbTransport_def usb_onDisconnect_def)
  with webrtc_data_lost [of "[104, 105]" rtc_world sample_tenv] show ?thesis by (simp add: rtc_world_def)
qed

subsection \<open>Switching\<close>

lemma connectWebRtc_off [simp]: "tw_off (connectWebRtcWithRetry env w) = tw_off w" "tw_usb (connectWebRtcWithRetry env w) = tw_usb w"
  by (auto simp: connectWebRtcWithRetry_def attach_callback_def transport_onMessage_def Let_def case_prod_beta split: option.splits)

lemma emit_off [simp]: "tw_off (tm_emit ev w) = tw_off w" "tw_off (emitChange p c r w) = tw_off w"
  "tw_usb (emitChange p c r w) = tw_usb w" "tw_active (emitChange p c r w) = tw_active w"
  by (simp_all add: tm_emit_def emitChange_def Let_def)

lemma attach_usb [simp]:
  "tw_off (attach_callback t w) = tw_off w" "tw_active (attach_callback t w) = tw_active w"
  "ut_connected (tw_usb (attach_callback t w)) = ut_connected (tw_usb w)"
  "ut_device (tw_usb (attach_callback t w)) = ut_device (tw_usb w)"
  by (auto simp: attach_callback_def transport_onMessage_def usb_onMessage_def Let_def split: option.splits transport_type.splits)

lemma send_into_nothing:
  "od_channel d = None \<Longrightarrow> od_usbDevice d = None \<Longrightarrow> handleSend env raw d = d"
  by (auto simp: handleSend_def split: option.splits)

text \<open>switching from WebRTC to a USB device that only the offscreen document can open loses both. The document
  opens the device, then the manager disconnects the WebRTC transport, whose \<open>webrtc-disconnect\<close> makes the
  document close the device too. The switch succeeds and the manager counts as connected over USB, yet
  neither a device nor a channel is left, and sends succeed without sending anything.\<close>

theorem relayed_usb_switch_loses_device:
  fixes reason :: string
  assumes "tw_active w = Some Webrtc_t" "tw_usbAvailable w" "te_offscreen env" "ut_device (tw_usb w) = None"
    and "ut_requestDevice env = None \<or> \<not> te_openOk env" "oe_usb (te_off env) = Some dev"
  defines "w' \<equiv> snd (switchTransport env Usb_t reason w)"
  shows "fst (switchTransport env Usb_t reason w) = Inr True \<and> tw_active w' = Some Usb_t \<and> usb_isAvailable (tw_usb w')
    \<and> od_usbDevice (tw_off w') = None \<and> od_pc (tw_off w') = None \<and> od_channel (tw_off w') = None
    \<and> tm_send env payload w' = (None, w')"
proof -
  define w1 where "w1 = snd (usb_connect env w)"
  have c: "usb_connect env w = (None, w1)" "tw_usb w1 = (tw_usb w)\<lparr>ut_connected := True\<rparr>"
    "od_usbDevice (tw_off w1) = Some (dev\<lparr>ud_opened := True\<rparr>)"
    using assms(3-6)
    by (auto simp: w1_def usb_connect_def usb_relay_connect_def sendMessage_def connectWebUsb_def answer_success_def
      notifyBackground_def Let_def split: option.splits)
  define w2 where "w2 = snd (rtc_disconnect env w1)"
  have d: "rtc_disconnect env w1 = (None, w2)" "tw_off w2 = off_disconnect (tw_off w1)" "tw_usb w2 = tw_usb w1"
    using assms(3) by (simp_all add: w2_def rtc_disconnect_def sendMessage_def)
  have sw: "switchTransport env Usb_t reason w
      = (Inr True, emitChange (Some Webrtc_t) Usb_t reason (attach_callback Usb_t (w2\<lparr>tw_active := Some Usb_t\<rparr>)))"
    using assms(1,2) by (simp add: switchTransport_def switch_to_usb_def c(1) d(1))
  have w': "tw_active w' = Some Usb_t" "ut_connected (tw_usb w')" "ut_device (tw_usb w') = None"
    "od_usbDevice (tw_off w') = None" "od_pc (tw_off w') = None" "od_channel (tw_off w') = None"
    using assms(4) by (simp_all add: w'_def sw c d off_disconnect_fields)
  then have "tm_send env payload w' = (None, w')"
    using assms(3) by (simp add: tm_send_def usb_send_def sendMessage_def send_into_nothing)
  with w' sw show ?thesis by (simp add: usb_isAvailable_def)
qed

definition relay_tenv :: tenv where
  "relay_tenv = sample_tenv\<lparr>te_devices := Some [], te_mockManifest := True, te_off := sample_env\<lparr>oe_usb := Some sample_phone\<rparr>\<rparr>"

theorem relayed_usb_switch_loses_device_witness:
  "od_channel (tw_off rtc_world) \<noteq> None
   \<and> od_channel (tw_off (snd (switchTransport relay_tenv Usb_t ''USB became available'' (rtc_world\<lparr>tw_usbAvailable := True\<rparr>)))) = None"
proof -
  let ?w = "rtc_world\<lparr>tw_usbAvailable := True\<rparr>"
  have "tw_active ?w = Some Webrtc_t" "tw_usbAvailable ?w" "te_offscreen relay_tenv" "ut_device (tw_usb ?w) = None"
    "ut_requestDevice relay_tenv = None \<or> \<not> te_openOk relay_tenv" "oe_usb (te_off relay_tenv) = Some sample_phone"
    by (simp_all add: rtc_world_def new_TransportManager_def usb_onDisconnect_def new_UsbTransport_def relay_tenv_def sample_tenv_def
      ut_requestDevice_def)
  from relayed_usb_switch_loses_device [OF this, of "''USB became available''" "[]"]
  have "od_channel (tw_off (snd (switchTransport relay_tenv Usb_t ''USB became available'' ?w))) = None" by (elim conjE)
  then show ?thesis by (simp add: rtc_world_def new_TransportManager_def connected_doc_facts)
qed

text \<open>losing the USB device also closes the WebRTC connection that should take over. A failed read clears the
  device of the transport before the manager switches to WebRTC; the switch then disconnects the USB
  transport, which, having no device, sends \<open>webrtc-disconnect\<close>. The document drops its peer connection and
  channel, and if the manager goes on with WebRTC, what it sends goes nowhere.\<close>

theorem usb_loss_closes_webrtc:
  assumes "tw_active w = Some Usb_t" "ut_readLoopActive (tw_usb w)" "ut_device (tw_usb w) \<noteq> None"
    and "ut_disconnectCallbacks (tw_usb w) = [0]" "te_offscreen env" "\<forall>dev. od_usbDevice (tw_off w) = Some dev \<longrightarrow> ud_opened dev"
  shows "od_pc (tw_off (usb_read env None w)) = None \<and> \<not> od_socket (tw_off (usb_read env None w))
    \<and> (tw_active (usb_read env None w) = Some Webrtc_t \<longrightarrow>
        tw_off (snd (tm_send env payload (usb_read env None w))) = tw_off (usb_read env None w))"
proof -
  define w1 where "w1 = w\<lparr>tw_usb := ut_cleanup (tw_usb w)\<rparr>"
  have turn: "usb_readTurn None w = ([0], w1)" using assms(2-4) by (auto simp: usb_readTurn_def w1_def Let_def)
  have w1: "tw_active w1 = Some Usb_t" "ut_device (tw_usb w1) = None" "tw_off w1 = tw_off w"
    using assms(1) by (simp_all add: w1_def ut_cleanup_def)
  have off: "tw_off (usb_read env None w) = off_disconnect (tw_off w)"
    using w1 assms(5)
    by (simp add: usb_read_def turn on_usb_disconnect_def switchTransport_def switch_to_webrtc_def usb_disconnect_def sendMessage_def
      Let_def)
  have "handleSend e raw (off_disconnect (tw_off w)) = off_disconnect (tw_off w)" for e raw
    using assms(6) by (intro send_into_nothing) (auto simp: off_disconnect_fields split: option.split)
  then show ?thesis
    using assms(5) by (auto simp: off off_disconnect_fields tm_send_def rtc_send_def sendMessage_def)
qed

definition usb_world :: tworld where
  "usb_world = fold tm_exec [(sample_tenv, OpInitialize)] (new_TransportManager connected_doc)"

theorem usb_loss_closes_webrtc_witness:
  "od_pc (tw_off usb_world) \<noteq> None \<and> od_pc (tw_off (usb_read sample_tenv None usb_world)) = None
   \<and> \<not> od_socket (tw_off (usb_read sample_tenv None usb_world))"
proof -
  have s: "tw_active usb_world = Some Usb_t" "ut_readLoopActive (tw_usb usb_world)" "ut_device (tw_usb usb_world) \<noteq> None"
    "ut_disconnectCallbacks (tw_usb usb_world) = [0]" "tw_off usb_world = connected_doc"
    by (simp_all add: usb_world_def tm_initialize_def discoverTransport_def new_TransportManager_def sample_tenv_def
      checkUsbAvailability_def usb_checkAvailability_def usb_connect_def ut_requestDevice_def ut_startReadLoop_def findInputEndpoint_def
      device_endpoints_def sample_phone_def ANDROID_VENDOR_IDS_def emitChange_def tm_emit_def new_UsbTransport_def usb_onDisconnect_def
      Let_def case_prod_beta)
  have "\<forall>dev. od_usbDevice (tw_off usb_world) = Some dev \<longrightarrow> ud_opened dev" by (simp add: s connected_doc_facts)
  moreover have "te_offscreen sample_tenv" by (simp add: sample_tenv_def)
  moreover have "od_pc connected_doc \<noteq> None" by (simp add: connected_doc_def sample_simps)
  ultimately show ?thesis using usb_loss_closes_webrtc [OF s(1-4)] s(5) by simp
qed

text \<open>A connection state that is not \<open>connected\<close> is an ordinary error, which \<open>isRetryableError\<close> does not retry.\<close>

lemma webrtc_not_retried:
  assumes "te_answer env 1 = Inr state" "state \<noteq> Some ''connected''"
  shows "tw_active (connectWebRtcWithRetry env w) = None"
    "fst (snd (withRetry (\<lambda>k. fst (rtc_connect (te_answer env k) t)) (te_random env) webrtc_retry_options)) = 1"
  using assms
  by (simp_all add: connectWebRtcWithRetry_def withRetry_def retry_loop.simps rtc_connect_def webrtc_retry_options_def
    isRetryableError_def js_error_def default_options_def)

end
