(* ===== verification/TlsBinding.thy ===== *)
theory TlsBinding
  imports Challenge Domain Json
begin

text \<open>
  The context proof of \<open>lib/tlsBinding.ts\<close>: the fetch metadata of the last main-frame request of each
  tab, and the hash of it, the page content and the control code that goes into the challenge.
  SHA-256 is a parameter.
\<close>

record sec_fetch =
  sf_site :: string
  sf_mode :: string
  sf_dest :: string
  sf_user :: string

type_synonym sec_fetch_cache = "(int, sec_fetch) jsmap"

definition default_sec_fetch :: sec_fetch where
  "default_sec_fetch = \<lparr>sf_site = ''cross-site'', sf_mode = ''navigate'', sf_dest = ''document'', sf_user = ''?1''\<rparr>"

definition computeContentHash :: "(bytes \<Rightarrow> bytes) \<Rightarrow> string \<Rightarrow> string" where
  "computeContentHash sha256 text = to_hex (sha256 (utf8_encode text))"

text \<open>The headers whose lower-case name starts with \<open>sec-fetch-\<close>; a later one overwrites an earlier one.\<close>

definition sec_fetch_headers :: "(string \<times> string option) list \<Rightarrow> (string, string) jsmap" where
  "sec_fetch_headers hs =
     fold (\<lambda>h m. if starts_with (to_lower (fst h)) ''sec-fetch-'' then jsmap_set (to_lower (fst h)) (nullish (snd h) []) m else m) hs []"

definition onBeforeSendHeaders :: "string \<Rightarrow> int \<Rightarrow> (string \<times> string option) list \<Rightarrow> sec_fetch_cache \<Rightarrow> sec_fetch_cache" where
  "onBeforeSendHeaders rtype tabId requestHeaders cache =
     (if rtype \<noteq> ''main_frame'' \<or> tabId = 0 then cache
      else
       (let headers = sec_fetch_headers requestHeaders; h = (\<lambda>k. nullish (jsmap_get headers k) []) in
        if h ''sec-fetch-site'' \<noteq> [] then
          jsmap_set tabId \<lparr>sf_site = h ''sec-fetch-site'', sf_mode = h ''sec-fetch-mode'', sf_dest = h ''sec-fetch-dest'',
            sf_user = h ''sec-fetch-user''\<rparr> cache
        else cache))"

definition tls_onTabRemoved :: "int \<Rightarrow> sec_fetch_cache \<Rightarrow> sec_fetch_cache" where
  "tls_onTabRemoved tabId cache = jsmap_delete tabId cache"

definition proof_payload :: "sec_fetch \<Rightarrow> string \<Rightarrow> string \<Rightarrow> millis \<Rightarrow> json" where
  "proof_payload f contentHash controlCode now =
     JObj [(''version'', JNum 1), (''secFetchSite'', JStr (sf_site f)), (''secFetchMode'', JStr (sf_mode f)),
       (''secFetchDest'', JStr (sf_dest f)), (''secFetchUser'', JStr (sf_user f)), (''contentHash'', JStr contentHash),
       (''controlCode'', JStr controlCode), (''timestamp'', JNum now)]"

definition buildChallengeProof ::
  "(bytes \<Rightarrow> bytes) \<Rightarrow> millis \<Rightarrow> int \<Rightarrow> string \<Rightarrow> string \<Rightarrow> string option \<Rightarrow> sec_fetch_cache \<Rightarrow> bytes" where
  "buildChallengeProof sha256 now tabId controlCode pageContent precomputedHash cache =
     (let secFetch = nullish (jsmap_get cache tabId) default_sec_fetch;
          contentHash = nullish precomputedHash (computeContentHash sha256 pageContent)
      in sha256 (utf8_encode (stringify (proof_payload secFetch contentHash controlCode now))))"

record tls_components =
  tb_secFetchSite :: string
  tb_contentHash :: string
  tb_tlsBindingHash :: bytes

definition getTlsBindingComponents :: "(bytes \<Rightarrow> bytes) \<Rightarrow> millis \<Rightarrow> int \<Rightarrow> string \<Rightarrow> string \<Rightarrow> sec_fetch_cache \<Rightarrow> tls_components" where
  "getTlsBindingComponents sha256 now tabId controlCode pageContent cache =
     (let secFetch = nullish (jsmap_get cache tabId) default_sec_fetch;
          contentHash = computeContentHash sha256 pageContent;
          binding = buildChallengeProof sha256 now tabId controlCode pageContent (Some contentHash) cache
      in \<lparr>tb_secFetchSite = sf_site secFetch, tb_contentHash = contentHash, tb_tlsBindingHash = binding\<rparr>)"

text \<open>the context proof binds what it is computed from. Two proofs are equal only if both requests had the same
  fetch metadata, page content, control code and time, unless SHA-256 has a collision.\<close>

theorem tls_proof_binds:
  assumes "buildChallengeProof sha256 now tab code page None cache = buildChallengeProof sha256 now' tab' code' page' None cache'"
  shows "(\<exists>x y. x \<noteq> y \<and> sha256 x = sha256 y)
    \<or> nullish (jsmap_get cache tab) default_sec_fetch = nullish (jsmap_get cache' tab') default_sec_fetch
      \<and> page = page' \<and> code = code' \<and> now = now'"
proof (cases "\<exists>x y. x \<noteq> y \<and> sha256 x = sha256 y")
  case False
  then have inj: "sha256 x = sha256 y \<Longrightarrow> x = y" for x y by blast
  have jwf: "jwf (proof_payload f h c t)" for f h c t by (simp add: proof_payload_def)
  let ?f = "nullish (jsmap_get cache tab) default_sec_fetch" and ?f' = "nullish (jsmap_get cache' tab') default_sec_fetch"
  have "stringify (proof_payload ?f (computeContentHash sha256 page) code now)
      = stringify (proof_payload ?f' (computeContentHash sha256 page') code' now')"
    using inj [OF assms [unfolded buildChallengeProof_def Let_def]] by simp
  then have eq: "proof_payload ?f (computeContentHash sha256 page) code now = proof_payload ?f' (computeContentHash sha256 page') code' now'"
    by (rule stringify_inject [OF jwf jwf])
  then have "?f = ?f'" "code = code'" "now = now'" "computeContentHash sha256 page = computeContentHash sha256 page'"
    by (auto simp: proof_payload_def sec_fetch.equality)
  moreover from this(4) have "utf8_encode page = utf8_encode page'" 
    using inj [of "utf8_encode page" "utf8_encode page'"] unfolding computeContentHash_def to_hex_inject by blast
  ultimately show ?thesis by simp
qed simp

theorem tls_proof_binds_witness:
  "buildChallengeProof id 5 1 ''1234'' ''page'' None [(1, default_sec_fetch)] = buildChallengeProof id 5 2 ''1234'' ''page'' None []
   \<and> nullish (jsmap_get [(1, default_sec_fetch)] (1::int)) default_sec_fetch = nullish (jsmap_get [] (2::int)) default_sec_fetch"
proof -
  have eq: "buildChallengeProof id 5 1 ''1234'' ''page'' None [(1, default_sec_fetch)] = buildChallengeProof id 5 2 ''1234'' ''page'' None []"
    by (simp add: buildChallengeProof_def)
  from tls_proof_binds [OF eq] eq show ?thesis by simp
qed

end
