(* ===== verification/Handlers.thy ===== *)
theory Handlers
  imports Pairing ContentScripts AttestationManager Transport TlsBinding RateLimit
begin

text \<open>
  The message handlers of the background script, \<open>entrypoints/background/messageHandlers.ts\<close>, and its start,
  \<open>entrypoints/background/index.ts\<close>. The background holds the states of the components; there is one
  extension storage, the one of the device registry, and one offscreen document, which the transport
  manager works on when there is one. A message is a value of \<open>bg_message\<close>, with its payload read as
  the handler reads it; a handler that throws answers with the error's message, as the listener does.
\<close>

section \<open>State and environment\<close>

record ('t, 'ck) background =
  bg_pairing :: "'t pairing"
  bg_attestation :: "'ck attestation_manager"
  bg_scripts :: "content_script list"
  bg_badge :: "string \<times> string"
  bg_tabCache :: "(int, string \<times> millis) jsmap"
  bg_secFetch :: sec_fetch_cache
  bg_mfaGate :: gate_state
  bg_credentialLimiter :: "(string, millis) jsmap"
  bg_authInProgress :: bool
  bg_authTabId :: "int option"
  bg_authTimeout :: bool
  bg_transport :: "tworld option"
  bg_odoc :: odoc
  bg_tabMessages :: "(int \<times> string \<times> json) list"

definition new_background :: "registry \<Rightarrow> ('t, 'ck) background" where
  "new_background r =
     \<lparr>bg_pairing = \<lparr>pw_registry = r, pw_offscreen = new_offscreen, pw_activeSession = None, pw_currentSession = None,
        pw_commandClient = None, pw_pendingRemoteStaticPk = None, pw_negotiatedCaps = None, pw_pendingMessages = [], pw_outbox = [],
        pw_tabs = []\<rparr>,
      bg_attestation = initializeAttestation new_attestation_manager, bg_scripts = [], bg_badge = ([], ''#000000''), bg_tabCache = [],
      bg_secFetch = [], bg_mfaGate = ([], []), bg_credentialLimiter = [], bg_authInProgress = False, bg_authTabId = None,
      bg_authTimeout = False, bg_transport = None, bg_odoc = new_odoc, bg_tabMessages = []\<rparr>"

text \<open>What a handler meets: the time, the random and hashed bytes, what the browser, the content script, the
  phone and the servers answer. The command client is created without a session guard. \<open>he_command\<close> is what awaiting a command of the client gives, a timeout
  included; a left value is the message of the error that the URL parser or
  \<open>tabs.create\<close> throws.\<close>

record ('t, 'ck) henv =
  he_browser :: browser_env
  he_tenv :: tenv
  he_now :: millis
  he_sha256 :: "bytes \<Rightarrow> bytes"
  he_encrypt :: "'t \<Rightarrow> bytes \<Rightarrow> (bytes \<times> 't) option"
  he_keypair :: noise_keypair
  he_random :: "nat \<Rightarrow> bytes"
  he_wc :: "'ck webcrypto"
  he_manifest :: "fetch_result \<times> string option"
  he_parseUrl :: "string \<Rightarrow> (string \<times> string) option"
  he_origin :: "string \<Rightarrow> string + string"
  he_devMode :: bool
  he_regErr :: reg_err
  he_activeTab :: "int option"
  he_sign :: "string \<Rightarrow> string option"
  he_perf :: rat
  he_command :: "string + control_response"
  he_tabAnswer :: "string + message_response"
  he_domCode :: "(bool \<times> string option) option"
  he_fetch :: "nat \<Rightarrow> Retry.fetch_outcome"
  he_backoff :: "nat \<Rightarrow> rat"
  he_prfSupported :: bool
  he_assertPrf :: "bytes \<Rightarrow> bytes option"
  he_broadcast :: "string \<Rightarrow> bool"
  he_rpId :: string
  he_newTab :: "string + int option"

record sender =
  snd_tabId :: "int option"
  snd_tabUrl :: "string option"

section \<open>Access to the components\<close>

definition bg_store :: "('t, 'ck) background \<Rightarrow> storage" where
  "bg_store b = pw_store (bg_pairing b)"

definition bg_store_update :: "(storage \<Rightarrow> storage) \<Rightarrow> ('t, 'ck) background \<Rightarrow> ('t, 'ck) background" where
  "bg_store_update f b = b\<lparr>bg_pairing := pw_store_update f (bg_pairing b)\<rparr>"

definition with_registry :: "(registry \<Rightarrow> 'a \<times> registry) \<Rightarrow> ('t, 'ck) background \<Rightarrow> 'a \<times> ('t, 'ck) background" where
  "with_registry f b =
     (case f (pw_registry (bg_pairing b)) of (x, r) \<Rightarrow> (x, b\<lparr>bg_pairing := (bg_pairing b)\<lparr>pw_registry := r\<rparr>\<rparr>))"

definition bg_csm :: "('t, 'ck) background \<Rightarrow> csm" where
  "bg_csm b = \<lparr>cs_store = bg_store b, cs_scripts = bg_scripts b, cs_badge = bg_badge b\<rparr>"

definition with_csm :: "(csm \<Rightarrow> 'a \<times> csm) \<Rightarrow> ('t, 'ck) background \<Rightarrow> 'a \<times> ('t, 'ck) background" where
  "with_csm f b =
     (case f (bg_csm b) of
        (x, s) \<Rightarrow> (x, (bg_store_update (\<lambda>_. cs_store s) b)\<lparr>bg_scripts := cs_scripts s, bg_badge := cs_badge s\<rparr>))"

definition with_client :: "(command_client \<Rightarrow> command_client) \<Rightarrow> ('t, 'ck) background \<Rightarrow> ('t, 'ck) background" where
  "with_client f b = b\<lparr>bg_pairing := (bg_pairing b)\<lparr>pw_commandClient := map_option f (pw_commandClient (bg_pairing b))\<rparr>\<rparr>"

text \<open>The messages the pairing code has sent reach the offscreen document, if there is one.\<close>

fun off_message_of :: "runtime_message \<Rightarrow> off_message" where
  "off_message_of (WebrtcStartPairing code n k) = StartPairingMsg code (Some n) (Some k)"
| "off_message_of (WebrtcSend data) = SendMsg (RawArray data)"

definition deliver_outbox :: "('t, 'ck) henv \<Rightarrow> ('t, 'ck) background \<Rightarrow> ('t, 'ck) background" where
  "deliver_outbox env b =
     (let d = (if te_offscreen (he_tenv env)
               then fold (\<lambda>m d. snd (off_onMessage (te_off (he_tenv env)) (off_message_of m) d)) (pw_outbox (bg_pairing b)) (bg_odoc b)
               else bg_odoc b)
      in b\<lparr>bg_odoc := d, bg_pairing := (bg_pairing b)\<lparr>pw_outbox := []\<rparr>\<rparr>)"

definition initializeTransportManager ::
  "('t, 'ck) henv \<Rightarrow> ('t, 'ck) background \<Rightarrow> thrown option \<times> ('t, 'ck) background" where
  "initializeTransportManager env b =
     (case bg_transport b of
        Some _ \<Rightarrow> (None, b)
      | None \<Rightarrow>
          (case tm_initialize (he_tenv env) (new_TransportManager (bg_odoc b)) of
             (err, w) \<Rightarrow> (err, b\<lparr>bg_transport := (if err = None then Some w else None), bg_odoc := tw_off w\<rparr>)))"

text \<open>\<open>send\<close> and \<open>destroy\<close> of the manager there is; the manager is dropped after \<open>destroy\<close>, also when it throws.\<close>

definition transport_send :: "('t, 'ck) henv \<Rightarrow> bytes \<Rightarrow> ('t, 'ck) background \<Rightarrow> thrown option \<times> ('t, 'ck) background" where
  "transport_send env message b =
     (case bg_transport b of
        None \<Rightarrow> (None, b)
      | Some w \<Rightarrow>
          (case tm_send (he_tenv env) message (w\<lparr>tw_off := bg_odoc b\<rparr>) of
             (err, w1) \<Rightarrow> (err, b\<lparr>bg_transport := Some w1, bg_odoc := tw_off w1\<rparr>)))"

definition drop_transport :: "('t, 'ck) henv \<Rightarrow> ('t, 'ck) background \<Rightarrow> ('t, 'ck) background" where
  "drop_transport env b =
     (case bg_transport b of
        None \<Rightarrow> b
      | Some w \<Rightarrow>
          (case tm_destroy (he_tenv env) (w\<lparr>tw_off := bg_odoc b\<rparr>) of (_, w1) \<Rightarrow> b\<lparr>bg_transport := None, bg_odoc := tw_off w1\<rparr>))"

definition fail :: "string \<Rightarrow> ('t, 'ck) background \<Rightarrow> message_response \<times> ('t, 'ck) background" where
  "fail e b = (error_response e, b)"

definition ok :: "(string \<times> json) list \<Rightarrow> ('t, 'ck) background \<Rightarrow> message_response \<times> ('t, 'ck) background" where
  "ok props b = (ok_response props, b)"

definition ok_empty :: "('t, 'ck) background \<Rightarrow> message_response \<times> ('t, 'ck) background" where
  "ok_empty b = (\<lparr>mr_success = True, mr_data = None, mr_error = None\<rparr>, b)"

definition json_opt :: "string option \<Rightarrow> json" where
  "json_opt s = (case s of Some x \<Rightarrow> JStr x | None \<Rightarrow> JNull)"

section \<open>Tabs and the API\<close>

definition sender_tab_id :: "sender \<Rightarrow> int option" where
  "sender_tab_id sndr = sender_tab (snd_tabId sndr)"

definition getTabIdFromSender :: "('t, 'ck) henv \<Rightarrow> sender \<Rightarrow> int option" where
  "getTabIdFromSender env sndr = (case sender_tab_id sndr of Some i \<Rightarrow> Some i | None \<Rightarrow> he_activeTab env)"

definition tab_domain_changed ::
  "('t, 'ck) henv \<Rightarrow> string \<Rightarrow> sender \<Rightarrow> ('t, 'ck) background \<Rightarrow> message_response \<times> ('t, 'ck) background" where
  "tab_domain_changed env url sndr b =
     (case sender_tab_id sndr of
        None \<Rightarrow> fail ''Cannot identify sender tab'' b
      | Some tabId \<Rightarrow>
          (case updateTabDomain (he_parseUrl env) (he_devMode env) (he_now env) tabId url
                  \<lparr>ts_cache = bg_tabCache b, ts_store = bg_store b\<rparr> of
             (updated, st) \<Rightarrow>
               ok [(''updated'', JBool updated)] ((bg_store_update (\<lambda>_. ts_store st) b)\<lparr>bg_tabCache := ts_cache st\<rparr>)))"

definition tab_domain_json :: "tab_domain_state \<Rightarrow> (string \<times> json) list" where
  "tab_domain_json t = [(''tabId'', JNum (td_tabId t)), (''domain'', JStr (td_domain t)),
     (''registrableDomain'', JStr (td_registrableDomain t)), (''url'', JStr (td_url t)), (''timestamp'', JNum (td_timestamp t)),
     (''isPublic'', JBool (td_isPublic t))]"

definition get_current_domain :: "('t, 'ck) henv \<Rightarrow> sender \<Rightarrow> ('t, 'ck) background \<Rightarrow> message_response \<times> ('t, 'ck) background" where
  "get_current_domain env sndr b =
     (case sender_tab (getTabIdFromSender env sndr) of
        None \<Rightarrow> fail ''No active tab'' b
      | Some tabId \<Rightarrow>
          (case getTabDomain (he_now env) tabId \<lparr>ts_cache = bg_tabCache b, ts_store = bg_store b\<rparr> of
             None \<Rightarrow> fail ''No domain recorded for this tab'' b
           | Some t \<Rightarrow> ok (tab_domain_json t) b))"

definition api_response :: "api_result \<Rightarrow> message_response" where
  "api_response r = \<lparr>mr_success = ar_success r, mr_data = ar_data r, mr_error = ar_error r\<rparr>"

definition send_to_api :: "('t, 'ck) henv \<Rightarrow> ('t, 'ck) background \<Rightarrow> message_response \<times> ('t, 'ck) background" where
  "send_to_api env b = (api_response (fst (ApiRelay_send (he_fetch env) (he_backoff env))), b)"

definition check_api_health :: "('t, 'ck) henv \<Rightarrow> ('t, 'ck) background \<Rightarrow> message_response \<times> ('t, 'ck) background" where
  "check_api_health env b = (api_response (fst (ApiRelay_healthCheck (he_fetch env) (he_backoff env))), b)"

definition detect_transaction :: "('t, 'ck) henv \<Rightarrow> sender \<Rightarrow> ('t, 'ck) background \<Rightarrow> message_response \<times> ('t, 'ck) background" where
  "detect_transaction env sndr b =
     (case sender_tab_id sndr of
        None \<Rightarrow> fail ''No sender tab'' b
      | Some tabId \<Rightarrow> (case he_tabAnswer env of Inl e \<Rightarrow> fail e b | Inr response \<Rightarrow> (response, b)))"

section \<open>The connection\<close>

definition with_offscreen :: "(offscreen \<Rightarrow> offscreen) \<Rightarrow> ('t, 'ck) background \<Rightarrow> ('t, 'ck) background" where
  "with_offscreen f b = b\<lparr>bg_pairing := (bg_pairing b)\<lparr>pw_offscreen := f (pw_offscreen (bg_pairing b))\<rparr>\<rparr>"

definition webrtc_create_offscreen :: "('t, 'ck) henv \<Rightarrow> ('t, 'ck) background \<Rightarrow> message_response \<times> ('t, 'ck) background" where
  "webrtc_create_offscreen env b =
     (case createOffscreenDocument (env_contexts (he_browser env)) (env_createOk (he_browser env)) (pw_offscreen (bg_pairing b)) of
        (created, os) \<Rightarrow>
          (\<lparr>mr_success = created, mr_data = Some (JObj [(''created'', JBool created)]), mr_error = None\<rparr>, with_offscreen (\<lambda>_. os) b))"

definition webrtc_close_offscreen :: "('t, 'ck) henv \<Rightarrow> ('t, 'ck) background \<Rightarrow> message_response \<times> ('t, 'ck) background" where
  "webrtc_close_offscreen env b =
     ok_empty (with_offscreen
       (closeOffscreenDocument (env_usbActive (he_browser env)) (env_contexts (he_browser env)) (env_closeOk (he_browser env))) b)"

definition webrtc_keepalive_status :: "('t, 'ck) background \<Rightarrow> message_response \<times> ('t, 'ck) background" where
  "webrtc_keepalive_status b = ok [(''active'', JBool (isKeepaliveActive (pw_offscreen (bg_pairing b))))] b"

definition stateMap :: "(string \<times> connection_state) list" where
  "stateMap = [(''new'', Connecting), (''connecting'', Connecting), (''connected'', Connected), (''disconnected'', Reconnecting),
     (''failed'', Reconnecting), (''closed'', Disconnected)]"

definition webrtc_connection_state :: "string \<Rightarrow> ('t, 'ck) background \<Rightarrow> message_response \<times> ('t, 'ck) background" where
  "webrtc_connection_state state b =
     ok_empty (with_offscreen (updateConnectionState (nullish (map_of stateMap state) Disconnected) None) b)"

definition webrtc_connection_timeout :: "('t, 'ck) background \<Rightarrow> message_response \<times> ('t, 'ck) background" where
  "webrtc_connection_timeout b =
     ok_empty (with_offscreen (setConnectionError (Some ''Connection timed out'') \<circ> updateConnectionState Disconnected None) b)"

fun connection_text :: "connection_state \<Rightarrow> string" where
  "connection_text Disconnected = ''disconnected''"
| "connection_text Connecting = ''connecting''"
| "connection_text Connected = ''connected''"
| "connection_text Reconnecting = ''reconnecting''"

definition getConnectionState :: "('t, 'ck) background \<Rightarrow> json" where
  "getConnectionState b = JStr (connection_text (os_connectionState (pw_offscreen (bg_pairing b))))"

definition get_connection_state :: "('t, 'ck) background \<Rightarrow> message_response \<times> ('t, 'ck) background" where
  "get_connection_state b = ok [(''connectionState'', getConnectionState b), (''connectionError'', JNull)] b"

definition transport_text :: "transport_type \<Rightarrow> string" where
  "transport_text t = (case t of Usb_t \<Rightarrow> ''usb'' | Webrtc_t \<Rightarrow> ''webrtc'')"

definition transport_changed :: "('t, 'ck) background \<Rightarrow> message_response \<times> ('t, 'ck) background" where
  "transport_changed b =
     (case bg_transport b of
        None \<Rightarrow> ok [(''activeTransport'', JNull), (''usbAvailable'', JBool False)] b
      | Some w \<Rightarrow> ok [(''activeTransport'', json_opt (map_option transport_text (tw_active w))), (''usbAvailable'', JBool (tw_usbAvailable w))] b)"

section \<open>Pairing and the session\<close>

definition six_digits :: "string \<Rightarrow> bool" where
  "six_digits s \<longleftrightarrow> length s = 6 \<and> list_all (\<lambda>c. 48 \<le> (of_char c :: nat) \<and> (of_char c :: nat) \<le> 57) s"

text \<open>The answer of \<open>startPairing\<close> also carries the public key, which the response record has no field for.\<close>

definition start_pairing ::
  "('t, 'ck) henv \<Rightarrow> string \<Rightarrow> numbers option \<Rightarrow> ('t, 'ck) background \<Rightarrow> message_response \<times> ('t, 'ck) background" where
  "start_pairing env sasCode nonce b =
     (if \<not> six_digits sasCode then fail ''Invalid SAS code'' b
      else
       (case startPairing (he_browser env) (he_keypair env) (he_random env 32) (he_now env) sasCode (map_option new_Uint8Array nonce)
               (bg_pairing b) of
          (r, p) \<Rightarrow> (\<lparr>mr_success = sr_success r, mr_data = None, mr_error = sr_error r\<rparr>, deliver_outbox env (b\<lparr>bg_pairing := p\<rparr>))))"

definition pairing_confirmed :: "('t, 'ck) henv \<Rightarrow> ('t, 'ck) background \<Rightarrow> message_response \<times> ('t, 'ck) background" where
  "pairing_confirmed env b =
     (case confirmSasMatch (he_browser env) (he_sha256 env) (he_encrypt env) (he_now env) (bg_pairing b) of
        (okay, p) \<Rightarrow>
          (\<lparr>mr_success = okay, mr_data = None, mr_error = if okay then None else Some ''Confirmation internal error''\<rparr>,
           deliver_outbox env (b\<lparr>bg_pairing := p\<rparr>)))"

definition pairing_rejected :: "('t, 'ck) henv \<Rightarrow> ('t, 'ck) background \<Rightarrow> message_response \<times> ('t, 'ck) background" where
  "pairing_rejected env b = ok_empty (b\<lparr>bg_pairing := rejectSasMatch (he_browser env) (bg_pairing b)\<rparr>)"

definition check_session :: "('t, 'ck) henv \<Rightarrow> ('t, 'ck) background \<Rightarrow> message_response \<times> ('t, 'ck) background" where
  "check_session env b =
     (case performSilentReauth (he_prfSupported env) (he_assertPrf env) (he_now env) (he_random env 32) (bg_store b) of
        None \<Rightarrow> fail ''The string to be decoded is not correctly encoded.'' b
      | Some (_, s1) \<Rightarrow>
          (case getSession (he_now env) s1 of (session, s2) \<Rightarrow>
             ok [(''paired'', JBool (ss_pairing s1 \<noteq> None)), (''active'', JBool (session \<noteq> None)),
                 (''expiry'', case session of Some x \<Rightarrow> JNum (expiry x) | None \<Rightarrow> JNull),
                 (''deviceName'', json_opt (case session of Some x \<Rightarrow> sess_deviceName x | None \<Rightarrow> None)),
                 (''emojiSas'', case ss_emojiSas s1 of Some es \<Rightarrow> JArr (map (JNum \<circ> int) es) | None \<Rightarrow> JNull),
                 (''connectionState'', getConnectionState b)]
               (bg_store_update (\<lambda>_. s2) b)))"

record mfa_payload =
  mf_credentialId :: string
  mf_authenticatorData :: string
  mf_clientDataJSON :: string
  mf_signature :: string

definition mfa_assertion :: "('t, 'ck) henv \<Rightarrow> mfa_payload \<Rightarrow> ('t, 'ck) background \<Rightarrow> message_response \<times> ('t, 'ck) background" where
  "mfa_assertion env p b =
     (if mf_credentialId p = [] \<or> mf_authenticatorData p = [] \<or> mf_clientDataJSON p = [] \<or> mf_signature p = []
      then fail ''Missing assertion data'' b
      else
       (let assertionTuple = mf_credentialId p @ '':'' @ mf_clientDataJSON p @ '':'' @ mf_authenticatorData p in
        case mfa_gate (he_sha256 env) (he_now env) assertionTuple (bg_mfaGate b) of
          (verdict, g) \<Rightarrow>
            (let b1 = b\<lparr>bg_mfaGate := g\<rparr> in
             case verdict of
               GateRateLimited \<Rightarrow> fail ''Rate limited. Try again later.'' b1
             | GateReplay \<Rightarrow> fail ''Assertion replay detected'' b1
             | GatePass \<Rightarrow>
                 (case activateSession (he_now env) (he_random env 32) None (bg_store b1) of
                    (session, s) \<Rightarrow>
                      ok [(''sessionToken'', JStr (sessionToken session)), (''expiry'', JNum (expiry session))]
                        (bg_store_update (\<lambda>_. s) b1)))))"

section \<open>Commands to the phone\<close>

definition truthy_text :: "string option \<Rightarrow> bool" where
  "truthy_text t \<longleftrightarrow> nullish t [] \<noteq> []"

definition transaction_json :: "string option \<Rightarrow> string option \<Rightarrow> (string \<times> json) list" where
  "transaction_json amount recipient = [(''amount'', json_opt amount), (''recipient'', json_opt recipient)]"

definition verify_transaction ::
  "('t, 'ck) henv \<Rightarrow> string option \<Rightarrow> string option \<Rightarrow> ('t, 'ck) background \<Rightarrow> message_response \<times> ('t, 'ck) background" where
  "verify_transaction env amount recipient b =
     (if \<not> truthy_text amount \<and> \<not> truthy_text recipient then fail ''No transaction data to verify'' b
      else if \<not> ss_cmdClient (bg_store b) then fail ''Command client not initialized. Pair with your phone first.'' b
      else if pw_commandClient (bg_pairing b) = None then fail ''Command client not ready'' b
      else
       (let b1 = with_client (\<lambda>c. snd (sendAuthenticateTransaction True (he_sign env) (he_now env) (he_perf env)
                   (JObj (transaction_json amount recipient @ [(''timestamp'', JNum (he_now env))])) c)) b
        in case he_command env of
             Inl e \<Rightarrow> fail e b1
           | Inr response \<Rightarrow>
               ok [(''verdict'', JStr (if rsp_status response = ''confirmed'' then ''confirmed'' else ''rejected'')),
                   (''transaction'', JObj (transaction_json amount recipient)), (''confirmedAt'', JNum (he_now env))] b1))"

definition CREDENTIAL_RATE_LIMIT_MS :: millis where "CREDENTIAL_RATE_LIMIT_MS = 30000"

definition credential_allow :: "('t, 'ck) henv \<Rightarrow> string \<Rightarrow> ('t, 'ck) background \<Rightarrow> bool \<times> ('t, 'ck) background" where
  "credential_allow env domain b =
     (case dr_allow CREDENTIAL_RATE_LIMIT_MS (he_now env) domain (bg_credentialLimiter b) of
        (allowed, m) \<Rightarrow> (allowed, b\<lparr>bg_credentialLimiter := m\<rparr>))"

definition form_json :: "login_form \<Rightarrow> (string \<times> json) list" where
  "form_json f = [(''domain'', JStr (lf_domain f)), (''url'', JStr (lf_url f)), (''usernameSelector'', JStr (lf_usernameSelector f)),
     (''passwordSelector'', JStr (lf_passwordSelector f))]"

definition request_credential ::
  "('t, 'ck) henv \<Rightarrow> string \<Rightarrow> string \<Rightarrow> string \<Rightarrow> string \<Rightarrow> ('t, 'ck) background \<Rightarrow> ('t, 'ck) background" where
  "request_credential env domain url u p b =
     with_client (\<lambda>c. snd (sendCredentialRequest True (he_sign env) (he_now env) (he_perf env) domain url u p c)) b"

definition response_data :: "control_response \<Rightarrow> string \<Rightarrow> json option" where
  "response_data r k = (case jget (rsp_json r) ''data'' of Some d \<Rightarrow> jget d k | None \<Rightarrow> None)"

definition detect_login_form ::
  "('t, 'ck) henv \<Rightarrow> login_form \<Rightarrow> sender \<Rightarrow> ('t, 'ck) background \<Rightarrow> message_response \<times> ('t, 'ck) background" where
  "detect_login_form env f sndr b =
     (if incomplete_form f then fail ''Incomplete login form detection data'' b
      else
       (case sender_tab_id sndr of
          None \<Rightarrow> fail ''No sender tab'' b
        | Some tabId \<Rightarrow>
            (let b1 = bg_store_update (\<lambda>s. s\<lparr>ss_selectors := jsmap_set tabId (lf_usernameSelector f, lf_passwordSelector f) (ss_selectors s)\<rparr>) b;
                 (allowed, b2) = credential_allow env (lf_domain f) b1
             in if \<not> allowed then ok (form_json f @ [(''rateLimited'', JBool True)]) b2
                else if pw_commandClient (bg_pairing b2) = None then ok (form_json f @ [(''clientReady'', JBool False)]) b2
                else
                 (let b3 = request_credential env (lf_domain f) (lf_url f) (lf_usernameSelector f) (lf_passwordSelector f) b2 in
                  case he_command env of
                    Inl e \<Rightarrow> ok [(''error'', JStr e)] b3
                  | Inr response \<Rightarrow>
                      (let status = (if truthy (response_data response ''status'') then the (response_data response ''status'') else JStr ''error'');
                           reply = ok ((''status'', status) # opt_prop ''approval_mode'' (response_data response ''approval_mode''))
                       in if status = JStr ''found'' \<and> truthy (response_data response ''username'') \<and> truthy (response_data response ''password'') then
                            (let b4 = b3\<lparr>bg_tabMessages := bg_tabMessages b3 @ [(tabId, ''credential-response'',
                                   JObj [(''username'', the (response_data response ''username'')), (''password'', the (response_data response ''password''))])]\<rparr>
                             in case he_tabAnswer env of Inl e \<Rightarrow> ok [(''error'', JStr e)] b4 | Inr _ \<Rightarrow> reply b4)
                          else reply b3)))))"

definition credential_request ::
  "('t, 'ck) henv \<Rightarrow> string \<Rightarrow> string \<Rightarrow> string \<Rightarrow> string \<Rightarrow> ('t, 'ck) background \<Rightarrow> message_response \<times> ('t, 'ck) background" where
  "credential_request env domain url u p b =
     (if domain = [] \<or> url = [] then fail ''Missing domain or URL in credential request'' b
      else
       (case credential_allow env domain b of
          (False, b1) \<Rightarrow> fail ''Rate limited. Try again later.'' b1
        | (True, b1) \<Rightarrow>
            if pw_commandClient (bg_pairing b1) = None then fail ''Command client not connected'' b1
            else
             (let b2 = request_credential env domain url u p b1 in
              case he_command env of
                Inl e \<Rightarrow> fail e b2
              | Inr response \<Rightarrow>
                  ok (opt_prop ''status'' (response_data response ''status'') @ opt_prop ''approval_mode'' (response_data response ''approval_mode'')) b2)))"

section \<open>Credentials of this browser\<close>

definition prf_credential_created ::
  "string \<Rightarrow> bool \<Rightarrow> numbers \<Rightarrow> ('t, 'ck) background \<Rightarrow> message_response \<times> ('t, 'ck) background" where
  "prf_credential_created credentialId prfEnabled prfSalt b =
     (if \<not> prfEnabled then fail ''PRF not enabled on credential'' b
      else ok [(''credentialId'', JStr credentialId)]
        (bg_store_update (\<lambda>s. setPrfAvailable (setPrfSalt (new_Uint8Array prfSalt) (s\<lparr>ss_prfCredentialId := Some credentialId\<rparr>))) b))"

definition bg_transmitCredential ::
  "('t, 'ck) henv \<Rightarrow> string \<Rightarrow> bytes \<Rightarrow> ('t, 'ck) background \<Rightarrow> bool \<times> ('t, 'ck) background" where
  "bg_transmitCredential env credentialId publicKeyBytes b =
     (case initializeTransportManager env b of
        (Some e, b1) \<Rightarrow> (False, b1)
      | (None, b1) \<Rightarrow>
          if bg_transport b1 = None then (False, b1)
          else
           (case transport_send env (credential_message credentialId publicKeyBytes (pw_negotiatedCaps (bg_pairing b1))) b1 of
              (err, b2) \<Rightarrow> (err = None, b2)))"

definition passkey_credential_created ::
  "('t, 'ck) henv \<Rightarrow> string \<Rightarrow> numbers \<Rightarrow> bool \<Rightarrow> numbers option \<Rightarrow> ('t, 'ck) background \<Rightarrow> message_response \<times> ('t, 'ck) background" where
  "passkey_credential_created env credentialId publicKeyBytes prfEnabled prfSalt b =
     (let (transmitted, b1) = bg_transmitCredential env credentialId (new_Uint8Array publicKeyBytes) b;
          b2 = (if prfEnabled then
                  bg_store_update (\<lambda>s. (let s1 = s\<lparr>ss_prfCredentialId := Some credentialId\<rparr> in
                    case prfSalt of Some salt \<Rightarrow> setPrfSalt (new_Uint8Array salt) s1 | None \<Rightarrow> s1)) b1
                else b1);
          b3 = b2\<lparr>bg_pairing := clearPendingRemoteKey (bg_pairing b2)\<rparr>
      in (\<lparr>mr_success = transmitted, mr_data = Some (JObj [(''credentialId'', JStr credentialId), (''transmitted'', JBool transmitted)]),
           mr_error = None\<rparr>, b3))"

definition passkey_credential_error :: "('t, 'ck) henv \<Rightarrow> ('t, 'ck) background \<Rightarrow> message_response \<times> ('t, 'ck) background" where
  "passkey_credential_error env b =
     fail ''Passkey creation failed, PRF-only fallback activated''
       (case pw_pendingRemoteStaticPk (bg_pairing b) of
          None \<Rightarrow> b
        | Some remotePk \<Rightarrow>
            b\<lparr>bg_pairing := clearPendingRemoteKey (fallbackToPrfOnly (he_browser env) (he_sha256 env) remotePk (bg_pairing b))\<rparr>)"

definition get_cached_credential_id :: "('t, 'ck) background \<Rightarrow> message_response \<times> ('t, 'ck) background" where
  "get_cached_credential_id b =
     (case ss_prfCredentialId (bg_store b) of
        None \<Rightarrow> fail ''No cached credential'' b
      | Some credentialId \<Rightarrow>
          if credentialId = [] then fail ''No cached credential'' b
          else
           (case atob credentialId of
              None \<Rightarrow> fail ''The string to be decoded is not correctly encoded.'' b
            | Some rawId \<Rightarrow> ok [(''credentialId'', JStr credentialId), (''rawId'', JArr (map JNum (Array_from rawId)))] b))"

section \<open>Attestation\<close>

definition attested_code_json :: "attested_code \<Rightarrow> json" where
  "attested_code_json ac = JObj ([(''controlCode'', JStr (ac_controlCode ac)), (''rpDomain'', JStr (ac_rpDomain ac)),
     (''keyId'', JStr (ac_keyId ac)), (''signature'', JStr (ac_signature ac))] @ opt_prop ''sessionId'' (ac_sessionId ac)
     @ [(''timestamp'', JNum (ac_timestamp ac))])"

fun attestation_status_json :: "attestation_status \<Rightarrow> json" where
  "attestation_status_json (Verified ac) = JObj [(''type'', JStr ''verified''), (''attestedCode'', attested_code_json ac)]"
| "attestation_status_json DomOnly = JObj [(''type'', JStr ''dom_only'')]"
| "attestation_status_json (RatDetected ac domCode) =
     JObj [(''type'', JStr ''rat_detected''), (''attestedCode'', attested_code_json ac), (''domCode'', JStr domCode)]"
| "attestation_status_json NotApplicable = JObj [(''type'', JStr ''not_applicable'')]"

definition get_attestation_status :: "('t, 'ck) background \<Rightarrow> message_response \<times> ('t, 'ck) background" where
  "get_attestation_status b = ok [(''status'', attestation_status_json (am_status (bg_attestation b)))] b"

fun refresh_text :: "refresh_error \<Rightarrow> string" where
  "refresh_text (HttpStatus status) = ''HTTP '' @ show_nat status"
| "refresh_text InvalidManifestFormat = ''Invalid manifest format''"
| "refresh_text ManifestSignatureMissing = ''Manifest signature missing''"
| "refresh_text SigningKeyUnavailable = ''Manifest signing key unavailable''"
| "refresh_text ManifestSignatureInvalid = ''Manifest signature invalid''"
| "refresh_text VersionRollback = ''Manifest version rollback rejected''"
| "refresh_text (RefreshException message) = message"

definition refresh_rp_keys :: "('t, 'ck) henv \<Rightarrow> ('t, 'ck) background \<Rightarrow> message_response \<times> ('t, 'ck) background" where
  "refresh_rp_keys env b =
     (case refreshRpKeys (he_wc env) (fst (he_manifest env)) (snd (he_manifest env)) (bg_attestation b) of
        (None, m) \<Rightarrow> fail ''Attestation not initialized'' (b\<lparr>bg_attestation := m\<rparr>)
      | (Some (Some e), m) \<Rightarrow> fail (refresh_text e) (b\<lparr>bg_attestation := m\<rparr>)
      | (Some None, m) \<Rightarrow> ok_empty (b\<lparr>bg_attestation := m\<rparr>))"

record attested_payload =
  at_controlCode :: string
  at_keyId :: string
  at_signature :: string
  at_rpDomain :: string
  at_sessionId :: "string option"
  at_timestamp :: "int option"

definition attestation_message :: "millis \<Rightarrow> attested_payload \<Rightarrow> bytes" where
  "attestation_message now p = utf8_encode (sortedJsonStringify (JObj ([(''type'', JStr ''attestation''),
     (''controlCode'', JStr (at_controlCode p)), (''keyId'', JStr (at_keyId p)), (''signature'', JStr (at_signature p)),
     (''rpDomain'', JStr (at_rpDomain p))] @ opt_prop ''sessionId'' (map_option JStr (at_sessionId p))
     @ [(''timestamp'', JNum (nullish (at_timestamp p) (now div 1000)))])))"

definition deliver_attested_code ::
  "('t, 'ck) henv \<Rightarrow> attested_payload \<Rightarrow> ('t, 'ck) background \<Rightarrow> message_response \<times> ('t, 'ck) background" where
  "deliver_attested_code env p b =
     (if at_controlCode p = [] \<or> at_keyId p = [] \<or> at_signature p = [] \<or> at_rpDomain p = []
      then fail ''Missing required attestation fields'' b
      else
       (case initializeTransportManager env b of
          (Some e, b1) \<Rightarrow> fail (error_text e) b1
        | (None, b1) \<Rightarrow>
            if bg_transport b1 = None then fail ''No transport available to deliver attestation'' b1
            else
             (case transport_send env (attestation_message (he_now env) p) b1 of
                (Some e, b2) \<Rightarrow> fail (error_text e) b2
              | (None, b2) \<Rightarrow> ok [(''delivered'', JBool True), (''rpDomain'', JStr (at_rpDomain p))] b2)))"

section \<open>Challenge-bound assertions\<close>

definition clearAuthTimeout :: "('t, 'ck) background \<Rightarrow> ('t, 'ck) background" where
  "clearAuthTimeout b = b\<lparr>bg_authTimeout := False\<rparr>"

definition resetAuthInProgress :: "('t, 'ck) background \<Rightarrow> ('t, 'ck) background" where
  "resetAuthInProgress b = (clearAuthTimeout b)\<lparr>bg_authInProgress := False, bg_authTabId := None\<rparr>"

definition authTimeoutFires :: "('t, 'ck) background \<Rightarrow> ('t, 'ck) background" where
  "authTimeoutFires b = (if bg_authTimeout b \<and> bg_authInProgress b then resetAuthInProgress b else b)"

definition onAuthTabRemoved :: "int \<Rightarrow> ('t, 'ck) background \<Rightarrow> ('t, 'ck) background" where
  "onAuthTabRemoved tabId b = (if bg_authTabId b = Some tabId then resetAuthInProgress b else b)"

text \<open>The page content that goes into the proof: the \<open>text\<close> of a successful answer to \<open>scrape-control-code\<close>,
  the URL of the tab when the request fails, else nothing.\<close>

definition page_content :: "('t, 'ck) henv \<Rightarrow> string \<Rightarrow> string" where
  "page_content env url =
     (case he_tabAnswer env of
        Inl _ \<Rightarrow> url
      | Inr r \<Rightarrow>
          (if mr_success r then
            (case mr_data r of Some d \<Rightarrow> (case jget d ''text'' of Some (JStr t) \<Rightarrow> t | _ \<Rightarrow> []) | None \<Rightarrow> [])
           else []))"

definition challenge_error_text :: "challenge_error \<Rightarrow> string" where
  "challenge_error_text e =
     (case e of
        TlsBindingTooLong \<Rightarrow> ''TLS binding exceeds maximum length of 4096 bytes''
      | ControlCodeNotFour \<Rightarrow> ''Control code must be exactly 4 ASCII digits''
      | NonceNotThirtyTwo \<Rightarrow> ''Session nonce must be exactly 32 bytes''
      | _ \<Rightarrow> ''Assertion initiation failed'')"

definition pending_of :: "('t, 'ck) henv \<Rightarrow> int \<Rightarrow> string \<Rightarrow> string \<Rightarrow> string \<Rightarrow> string option \<Rightarrow> string option \<Rightarrow> sec_fetch_cache
    \<Rightarrow> challenge_error + pending_assertion" where
  "pending_of env tabId url origin code amount recipient cache =
     (let sha = he_sha256 env; page = page_content env url;
          nonce = generateSessionNonce (he_random env);
          input = \<lparr>ci_tlsBinding = buildChallengeProof sha (he_now env) tabId code page None cache, ci_origin = origin,
                   ci_controlCode = code, ci_sessionNonce = nonce\<rparr>;
          tls = getTlsBindingComponents sha (he_now env) tabId code page cache
      in case serializeChallengeComponents input of
           Inl e \<Rightarrow> Inl e
         | Inr tlv \<Rightarrow>
             (case deriveChallenge sha input of
                Inl e \<Rightarrow> Inl e
              | Inr derived \<Rightarrow>
                  Inr \<lparr>pa_derivedChallenge = Array_from derived, pa_tlvComponents = Array_from tlv, pa_sessionNonce = Array_from nonce,
                       pa_origin = origin, pa_controlCode = code, pa_rpId = he_rpId env, pa_secFetchSite = tb_secFetchSite tls,
                       pa_contentHash = tb_contentHash tls, pa_amount = amount, pa_recipient = recipient\<rparr>))"

definition begin_challenge_assertion ::
  "('t, 'ck) henv \<Rightarrow> string option \<Rightarrow> string option \<Rightarrow> sender \<Rightarrow> ('t, 'ck) background \<Rightarrow> message_response \<times> ('t, 'ck) background" where
  "begin_challenge_assertion env amount recipient sndr b =
     (if bg_authInProgress b then fail ''Authentication already in progress'' b
      else
       (case sender_tab_id sndr of
          None \<Rightarrow> fail ''No sender tab'' b
        | Some tabId \<Rightarrow>
            (let b1 = b\<lparr>bg_authInProgress := True\<rparr>; url = nullish (snd_tabUrl sndr) [] in
             if url = [] then fail ''Cannot determine origin from sender tab'' b1
             else
              (case he_origin env url of
                 Inl e \<Rightarrow> fail e (resetAuthInProgress b1)
               | Inr origin \<Rightarrow>
                   if origin = [] \<or> origin = ''null'' then fail ''Cannot determine origin from sender tab'' b1
                   else
                    (let code = nullish (getDomCode (he_domCode env)) ''0000'' in
                     case pending_of env tabId url origin code amount recipient (bg_secFetch b1) of
                       Inl e \<Rightarrow> fail (challenge_error_text e) (resetAuthInProgress b1)
                     | Inr pa \<Rightarrow>
                         (let b2 = bg_store_update (\<lambda>s. s\<lparr>ss_pendingAssertion := Some pa\<rparr>) b1 in
                          case he_newTab env of
                            Inl e \<Rightarrow> fail e (resetAuthInProgress b2)
                          | Inr tab \<Rightarrow>
                              ok [(''status'', JStr ''pending''), (''origin'', JStr origin), (''controlCode'', JStr code)]
                                ((clearAuthTimeout (b2\<lparr>bg_authTabId := tab\<rparr>))\<lparr>bg_authTimeout := True\<rparr>)))))))"

record assertion_payload =
  as_status :: string
  as_error :: "string option"
  as_credentialId :: "string option"
  as_tlvComponents :: "numbers option"
  as_sessionNonce :: "numbers option"
  as_origin :: "string option"
  as_controlCode :: "string option"
  as_authenticatorData :: "numbers option"
  as_signature :: "numbers option"
  as_clientDataJSON :: "numbers option"

definition assertion_incomplete :: "assertion_payload \<Rightarrow> bool" where
  "assertion_incomplete p \<longleftrightarrow> \<not> truthy_text (as_credentialId p) \<or> as_tlvComponents p = None \<or> as_sessionNonce p = None
     \<or> \<not> truthy_text (as_origin p) \<or> \<not> truthy_text (as_controlCode p) \<or> as_authenticatorData p = None \<or> as_signature p = None
     \<or> as_clientDataJSON p = None"

definition assertion_message :: "millis \<Rightarrow> assertion_payload \<Rightarrow> bytes" where
  "assertion_message now p =
     (let nums = (\<lambda>ns. JArr (map JNum (nullish ns []))) in
      utf8_encode (stringify (JObj [(''type'', JStr ''webauthn-assertion''), (''credentialId'', json_opt (as_credentialId p)),
        (''tlvBytes'', nums (as_tlvComponents p)), (''authenticatorData'', nums (as_authenticatorData p)),
        (''signature'', nums (as_signature p)), (''clientDataJSON'', nums (as_clientDataJSON p)), (''sessionNonce'', nums (as_sessionNonce p)),
        (''origin'', json_opt (as_origin p)), (''controlCode'', json_opt (as_controlCode p)), (''timestamp'', JNum (now div 1000))])))"

definition assertion_result :: "string \<Rightarrow> string option \<Rightarrow> ('t, 'ck) background \<Rightarrow> ('t, 'ck) background" where
  "assertion_result status err b = bg_store_update (\<lambda>s. s\<lparr>ss_assertionResult := Some (status, err)\<rparr>) b"

text \<open>Initialize, then send if there is a manager; an error of either is caught in the same place.\<close>

definition transmit :: "('t, 'ck) henv \<Rightarrow> bytes \<Rightarrow> ('t, 'ck) background \<Rightarrow> thrown option \<times> ('t, 'ck) background" where
  "transmit env message b =
     (case initializeTransportManager env b of (Some e, b1) \<Rightarrow> (Some e, b1) | (None, b1) \<Rightarrow> transport_send env message b1)"

definition assertion_complete :: "('t, 'ck) henv \<Rightarrow> assertion_payload \<Rightarrow> ('t, 'ck) background \<Rightarrow> message_response \<times> ('t, 'ck) background" where
  "assertion_complete env p b0 =
     (let b = clearAuthTimeout b0 in
      if as_status p \<noteq> ''verified'' then
        fail (nullish (as_error p) ''Assertion failed'')
          (resetAuthInProgress (assertion_result (as_status p) (Some (nullish (as_error p) ''Assertion failed'')) b))
      else if assertion_incomplete p then
        fail ''Incomplete assertion data'' (resetAuthInProgress (assertion_result ''error'' (Some ''Incomplete assertion data'') b))
      else
       (case transmit env (assertion_message (he_now env) p) b of
          (Some e, b1) \<Rightarrow> fail (error_text e) (resetAuthInProgress (assertion_result ''error'' (Some (error_text e)) b1))
        | (None, b1) \<Rightarrow>
            ok [(''status'', JStr ''verified'')]
              (resetAuthInProgress (bg_store_update (\<lambda>s. s\<lparr>ss_pendingAssertion := None\<rparr>) (assertion_result ''verified'' None b1)))))"

section \<open>Domains and devices\<close>

definition domains_json :: "csm \<Rightarrow> json" where
  "domains_json s = JArr (map (\<lambda>a. JObj [(''domain'', JStr (ad_domain a)), (''registeredAt'', JNum (ad_registeredAt a)),
     (''scriptId'', JStr (ad_scriptId a))]) (getApprovedDomains s))"

definition get_approved_domains :: "('t, 'ck) background \<Rightarrow> message_response \<times> ('t, 'ck) background" where
  "get_approved_domains b = ok [(''domains'', domains_json (bg_csm b))] b"

definition get_pending_domains :: "('t, 'ck) background \<Rightarrow> message_response \<times> ('t, 'ck) background" where
  "get_pending_domains b =
     ok [(''pending'', JArr (map (\<lambda>p. JObj [(''domain'', JStr (pd_domain p)), (''url'', JStr (pd_url p)), (''tabId'', JNum (pd_tabId p)),
         (''usernameSelector'', JStr (pd_usernameSelector p)), (''passwordSelector'', JStr (pd_passwordSelector p)),
         (''timestamp'', JNum (pd_timestamp p))])
       (getPendingDomains (bg_csm b))))] b"

definition device_json_of :: "string option \<Rightarrow> device_record \<Rightarrow> json" where
  "device_json_of activeId d = JObj [(''deviceId'', JStr (deviceId d)), (''name'', JStr (dev_name d)), (''lastSeen'', JNum (lastSeen d)),
     (''pairedAt'', JNum (pairedAt d)), (''isPrimary'', JBool (isPrimary d)), (''isActive'', JBool (Some (deviceId d) = activeId))]"

definition get_devices :: "('t, 'ck) background \<Rightarrow> message_response \<times> ('t, 'ck) background" where
  "get_devices b =
     (let (devices, b1) = with_registry listDevices b; (activeId, b2) = with_registry getActiveDeviceId b1
      in ok [(''devices'', JArr (map (device_json_of activeId) devices))] b2)"

definition get_active_device_id :: "('t, 'ck) background \<Rightarrow> message_response \<times> ('t, 'ck) background" where
  "get_active_device_id b = (let (activeId, b1) = with_registry getActiveDeviceId b in ok [(''activeDeviceId'', json_opt activeId)] b1)"

definition switch_device :: "('t, 'ck) henv \<Rightarrow> string \<Rightarrow> ('t, 'ck) background \<Rightarrow> message_response \<times> ('t, 'ck) background" where
  "switch_device env devId b =
     (case with_registry (getDevice devId) b of
        (None, b1) \<Rightarrow> fail ''Device not found'' b1
      | (Some device, b1) \<Rightarrow>
          (let (previousDeviceId, b2) = with_registry getActiveDeviceId b1; b3 = drop_transport env b2 in
           case with_registry (setActiveDevice (he_now env) devId) b3 of
             (Inl e, b4) \<Rightarrow> fail e b4
           | (Inr _, b4) \<Rightarrow>
               if phoneStaticKey device \<noteq> [] then
                 (case initializeTransportManager env b4 of
                    (None, b5) \<Rightarrow> ok [(''deviceId'', JStr devId)] b5
                  | (Some _, b5) \<Rightarrow>
                      fail ''Device switched but transport reconnection failed''
                        (case previousDeviceId of
                           Some prev \<Rightarrow> if prev \<noteq> [] \<and> prev \<noteq> devId then snd (with_registry (setActiveDevice (he_now env) prev) b5) else b5
                         | None \<Rightarrow> b5))
               else ok [(''deviceId'', JStr devId)] b4))"

definition revoke_device :: "('t, 'ck) henv \<Rightarrow> string \<Rightarrow> ('t, 'ck) background \<Rightarrow> message_response \<times> ('t, 'ck) background" where
  "revoke_device env devId b =
     (let (activeId, b1) = with_registry getActiveDeviceId b in
      case with_registry (revokeDevice (he_keypair env) (he_now env) devId) b1 of
        (Inl e, b2) \<Rightarrow> fail e b2
      | (Inr _, b2) \<Rightarrow>
          (let b3 = bg_store_update (announceRevocation (he_broadcast env) devId) b2 in
           ok [(''deviceId'', JStr devId)] (if Some devId = activeId then drop_transport env b3 else b3)))"

section \<open>The listener\<close>

text \<open>The message types that have an entry in \<open>handlers\<close>, with what their handler reads of the payload; every other
  type is an \<open>UnknownMessage\<close>.\<close>

datatype bg_message =
    TabDomainChanged string | GetCurrentDomain | SendToApi | CheckApiHealth
  | WebrtcCreateOffscreen | WebrtcCloseOffscreen | WebrtcKeepaliveStatus | WebrtcConnectionState string | WebrtcConnectionTimeout
  | GetConnectionState | StartPairing string "numbers option" | DetectTransaction | CheckSession | PairingConfirmed | PairingRejected
  | VerifyTransaction "string option" "string option" | MfaAssertion mfa_payload | PrfCredentialCreated string bool numbers
  | DetectLoginForm login_form | CredentialRequestMsg string string string string | TransportChangedMsg | GetAttestationStatus
  | RefreshRpKeys | PasskeyCredentialCreated string numbers bool "numbers option" | PasskeyCredentialError | GetCachedCredentialId
  | CheckDomainApproved string | BeginChallengeAssertion "string option" "string option" | LoginFormUnapproved login_form
  | DomainApproved string | DomainDenied string | GetApprovedDomains | GetPendingDomains | GetDevices | SwitchDevice string
  | RevokeDevice string | GetActiveDeviceId | AssertionComplete assertion_payload | DeliverAttestedCode attested_payload
  | UnknownMessage string | InvalidMessage

fun handle :: "('t, 'ck) henv \<Rightarrow> sender \<Rightarrow> bg_message \<Rightarrow> ('t, 'ck) background \<Rightarrow> message_response \<times> ('t, 'ck) background" where
  "handle env sndr (TabDomainChanged url) b = tab_domain_changed env url sndr b"
| "handle env sndr GetCurrentDomain b = get_current_domain env sndr b"
| "handle env sndr SendToApi b = send_to_api env b"
| "handle env sndr CheckApiHealth b = check_api_health env b"
| "handle env sndr WebrtcCreateOffscreen b = webrtc_create_offscreen env b"
| "handle env sndr WebrtcCloseOffscreen b = webrtc_close_offscreen env b"
| "handle env sndr WebrtcKeepaliveStatus b = webrtc_keepalive_status b"
| "handle env sndr (WebrtcConnectionState st) b = webrtc_connection_state st b"
| "handle env sndr WebrtcConnectionTimeout b = webrtc_connection_timeout b"
| "handle env sndr GetConnectionState b = get_connection_state b"
| "handle env sndr (StartPairing code nonce) b = start_pairing env code nonce b"
| "handle env sndr DetectTransaction b = detect_transaction env sndr b"
| "handle env sndr CheckSession b = check_session env b"
| "handle env sndr PairingConfirmed b = pairing_confirmed env b"
| "handle env sndr PairingRejected b = pairing_rejected env b"
| "handle env sndr (VerifyTransaction amount recipient) b = verify_transaction env amount recipient b"
| "handle env sndr (MfaAssertion p) b = mfa_assertion env p b"
| "handle env sndr (PrfCredentialCreated i enabled salt) b = prf_credential_created i enabled salt b"
| "handle env sndr (DetectLoginForm f) b = detect_login_form env f sndr b"
| "handle env sndr (CredentialRequestMsg d url u p) b = credential_request env d url u p b"
| "handle env sndr TransportChangedMsg b = transport_changed b"
| "handle env sndr GetAttestationStatus b = get_attestation_status b"
| "handle env sndr RefreshRpKeys b = refresh_rp_keys env b"
| "handle env sndr (PasskeyCredentialCreated i pk enabled salt) b = passkey_credential_created env i pk enabled salt b"
| "handle env sndr PasskeyCredentialError b = passkey_credential_error env b"
| "handle env sndr GetCachedCredentialId b = get_cached_credential_id b"
| "handle env sndr (CheckDomainApproved d) b = (check_domain_approved d (bg_csm b), b)"
| "handle env sndr (BeginChallengeAssertion amount recipient) b = begin_challenge_assertion env amount recipient sndr b"
| "handle env sndr (LoginFormUnapproved f) b = with_csm (login_form_detected_unapproved (he_now env) f (snd_tabId sndr)) b"
| "handle env sndr (DomainApproved d) b = with_csm (domain_approved (he_sha256 env) (he_regErr env) (he_now env) d) b"
| "handle env sndr (DomainDenied d) b = with_csm (domain_denied d) b"
| "handle env sndr GetApprovedDomains b = get_approved_domains b"
| "handle env sndr GetPendingDomains b = get_pending_domains b"
| "handle env sndr GetDevices b = get_devices b"
| "handle env sndr (SwitchDevice i) b = switch_device env i b"
| "handle env sndr (RevokeDevice i) b = revoke_device env i b"
| "handle env sndr GetActiveDeviceId b = get_active_device_id b"
| "handle env sndr (AssertionComplete p) b = assertion_complete env p b"
| "handle env sndr (DeliverAttestedCode p) b = deliver_attested_code env p b"
| "handle env sndr (UnknownMessage t) b = fail (''Unknown message type: '' @ t) b"
| "handle env sndr InvalidMessage b = fail ''Invalid message format'' b"

section \<open>Start and other events\<close>

definition onConnect :: "string \<Rightarrow> ('t, 'ck) background \<Rightarrow> ('t, 'ck) background" where
  "onConnect name b = (if name = ''webrtc-keepalive'' then with_offscreen registerKeepalivePort b else b)"

text \<open>\<open>tryRestoreSession\<close>; a salt that does not decode rejects it after the registry has been reconciled.\<close>

definition tryRestoreSession :: "('t, 'ck) henv \<Rightarrow> bool \<Rightarrow> ('t, 'ck) background \<Rightarrow> ('t, 'ck) background" where
  "tryRestoreSession env listOk b =
     (let b1 = snd (with_registry (\<lambda>r. ((), reconcileDeviceRegistry r)) b) in
      case performSilentReauth (he_prfSupported env) (he_assertPrf env) (he_now env) (he_random env 32) (bg_store b1) of
        None \<Rightarrow> b1
      | Some (reauthOk, s) \<Rightarrow>
          (let b2 = bg_store_update (\<lambda>_. if reauthOk then s else restorePersistedSession (he_now env) s) b1
           in snd (with_csm (\<lambda>c. ((), updateBadgeCount (reRegisterOnStartup (he_regErr env) listOk c))) b2)))"

datatype bg_event =
    Message sender bg_message
  | AuthTimeout
  | TabRemoved int
  | Connect string
  | Startup bool
  | MainFrameRequest int "(string \<times> string option) list"
  | Offscreen off_event

text \<open>An event of the offscreen document: through the transport manager if there is one, and the
  notifications it raises reach the background's own handlers.\<close>

fun bg_note :: "off_note \<Rightarrow> ('t, 'ck) background \<Rightarrow> ('t, 'ck) background" where
  "bg_note (ConnectionStateNote st _) b = snd (webrtc_connection_state st b)"
| "bg_note ConnectionTimeoutNote b = snd (webrtc_connection_timeout b)"
| "bg_note _ b = b"

definition bg_offscreen :: "('t, 'ck) henv \<Rightarrow> off_event \<Rightarrow> ('t, 'ck) background \<Rightarrow> ('t, 'ck) background" where
  "bg_offscreen env e b =
     (let fresh = drop (length (od_notes (bg_odoc b))) (od_notes (off_exec (te_off (he_tenv env)) e (bg_odoc b)));
          b1 = (case bg_transport b of
                  None \<Rightarrow> b\<lparr>bg_odoc := off_exec (te_off (he_tenv env)) e (bg_odoc b)\<rparr>
                | Some w \<Rightarrow> (let w1 = offscreen_event (he_tenv env) e (w\<lparr>tw_off := bg_odoc b\<rparr>) in b\<lparr>bg_transport := Some w1, bg_odoc := tw_off w1\<rparr>))
      in fold bg_note fresh b1)"

fun bg_exec :: "('t, 'ck) henv \<times> bg_event \<Rightarrow> ('t, 'ck) background \<Rightarrow> ('t, 'ck) background" where
  "bg_exec (env, Message sndr m) b = snd (handle env sndr m b)"
| "bg_exec (env, AuthTimeout) b = authTimeoutFires b"
| "bg_exec (env, TabRemoved tabId) b =
     (onAuthTabRemoved tabId b)\<lparr>bg_secFetch := tls_onTabRemoved tabId (bg_secFetch b), bg_tabCache := jsmap_delete tabId (bg_tabCache b)\<rparr>"
| "bg_exec (env, Connect name) b = onConnect name b"
| "bg_exec (env, Startup listOk) b = tryRestoreSession env listOk b"
| "bg_exec (env, MainFrameRequest tabId hs) b = b\<lparr>bg_secFetch := onBeforeSendHeaders ''main_frame'' tabId hs (bg_secFetch b)\<rparr>"
| "bg_exec (env, Offscreen e) b = bg_offscreen env e b"

section \<open>The authentication flags\<close>

definition auth_of :: "('t, 'ck) background \<Rightarrow> bool \<times> int option \<times> bool" where
  "auth_of b = (bg_authInProgress b, bg_authTabId b, bg_authTimeout b)"

lemma auth_of_access [simp]:
  "auth_of (bg_store_update f b) = auth_of b"
  "auth_of (snd (with_registry g b)) = auth_of b"
  "auth_of (snd (with_csm h b)) = auth_of b"
  "auth_of (with_client k b) = auth_of b"
  "auth_of (with_offscreen os b) = auth_of b"
  "auth_of (deliver_outbox env b) = auth_of b"
  "auth_of (snd (initializeTransportManager env b)) = auth_of b"
  "auth_of (snd (transport_send env m b)) = auth_of b"
  "auth_of (drop_transport env b) = auth_of b"
  "auth_of (assertion_result st e b) = auth_of b"
  by (simp_all add: auth_of_def bg_store_update_def with_registry_def with_csm_def with_client_def with_offscreen_def deliver_outbox_def
    initializeTransportManager_def transport_send_def drop_transport_def assertion_result_def Let_def case_prod_beta split: option.split)

lemma auth_of_fields [simp]:
  "auth_of (b\<lparr>bg_pairing := p\<rparr>) = auth_of b" "auth_of (b\<lparr>bg_attestation := a\<rparr>) = auth_of b"
  "auth_of (b\<lparr>bg_tabCache := c\<rparr>) = auth_of b" "auth_of (b\<lparr>bg_mfaGate := g\<rparr>) = auth_of b"
  "auth_of (b\<lparr>bg_credentialLimiter := l\<rparr>) = auth_of b" "auth_of (b\<lparr>bg_tabMessages := t\<rparr>) = auth_of b"
  "auth_of (b\<lparr>bg_secFetch := s\<rparr>) = auth_of b"
  by (simp_all add: auth_of_def)

lemma auth_of_replies [simp]:
  "auth_of (snd (fail e b)) = auth_of b" "auth_of (snd (ok ps b)) = auth_of b" "auth_of (snd (ok_empty b)) = auth_of b"
  by (simp_all add: fail_def ok_def ok_empty_def)

text \<open>The messages that start or end an authentication.\<close>

fun auth_message :: "bg_message \<Rightarrow> bool" where
  "auth_message (BeginChallengeAssertion _ _) = True"
| "auth_message (AssertionComplete _) = True"
| "auth_message _ = False"

lemma auth_of_credential_allow [simp]: "auth_of (snd (credential_allow env d b)) = auth_of b"
  by (simp add: credential_allow_def case_prod_beta)

lemma auth_of_request [simp]: "auth_of (request_credential env d url u p b) = auth_of b"
  by (simp add: request_credential_def)

lemma auth_of_login_form: "auth_of (snd (detect_login_form env f sndr b)) = auth_of b"
  unfolding detect_login_form_def Let_def
  by (auto simp: case_prod_beta split: option.split sum.split)

lemma auth_of_credential_request: "auth_of (snd (credential_request env d url u p b)) = auth_of b"
proof -
  obtain a b1 where 1: "credential_allow env d b = (a, b1)" by force
  then have "auth_of b1 = auth_of b" using auth_of_credential_allow [of env d b] by simp
  then show ?thesis by (simp add: credential_request_def 1 Let_def split: bool.split sum.split)
qed

lemma auth_of_transmit [simp]: "auth_of (snd (bg_transmitCredential env i pk b)) = auth_of b"
proof -
  obtain e b1 where 1: "initializeTransportManager env b = (e, b1)" by (rule prod.exhaust)
  then have "auth_of b1 = auth_of b" using auth_of_access(7) [of env b] by simp
  then show ?thesis by (simp add: bg_transmitCredential_def 1 case_prod_beta split: option.split)
qed

lemma auth_of_passkey: "auth_of (snd (passkey_credential_created env i pk enabled salt b)) = auth_of b"
  by (simp add: passkey_credential_created_def Let_def case_prod_beta)

lemma auth_of_switch: "auth_of (snd (switch_device env i b)) = auth_of b"
proof -
  obtain d b1 where 1: "with_registry (getDevice i) b = (d, b1)" by force
  obtain pr b2 where 2: "with_registry getActiveDeviceId b1 = (pr, b2)" by force
  obtain r b4 where 4: "with_registry (setActiveDevice (he_now env) i) (drop_transport env b2) = (r, b4)" by force
  have "auth_of b1 = auth_of b" "auth_of b2 = auth_of b1" "auth_of b4 = auth_of (drop_transport env b2)"
    using auth_of_access(2) [of "getDevice i" b] auth_of_access(2) [of getActiveDeviceId b1]
      auth_of_access(2) [of "setActiveDevice (he_now env) i" "drop_transport env b2"] by (simp_all add: 1 2 4)
  moreover obtain e b5 where 5: "initializeTransportManager env b4 = (e, b5)" by (rule prod.exhaust)
  moreover from 5 have "auth_of b5 = auth_of b4" using auth_of_access(7) [of env b4] by simp
  ultimately show ?thesis by (simp add: switch_device_def 1 2 4 Let_def split: option.split sum.split)
qed

lemma auth_of_revoke: "auth_of (snd (revoke_device env i b)) = auth_of b"
proof -
  obtain a b1 where 1: "with_registry getActiveDeviceId b = (a, b1)" by force
  obtain r b2 where 2: "with_registry (revokeDevice (he_keypair env) (he_now env) i) b1 = (r, b2)" by force
  have "auth_of b1 = auth_of b" "auth_of b2 = auth_of b1"
    using auth_of_access(2) [of getActiveDeviceId b] auth_of_access(2) [of "revokeDevice (he_keypair env) (he_now env) i" b1]
    by (simp_all add: 1 2)
  then show ?thesis by (simp add: revoke_device_def 1 2 Let_def split: sum.split)
qed

lemma auth_of_mfa: "auth_of (snd (mfa_assertion env p b)) = auth_of b"
  by (simp add: mfa_assertion_def Let_def case_prod_beta split: gate_verdict.split)

lemma auth_of_attestation:
  "auth_of (snd (refresh_rp_keys env b)) = auth_of b" "auth_of (snd (deliver_attested_code env p b)) = auth_of b"
proof -
  show "auth_of (snd (refresh_rp_keys env b)) = auth_of b"
    by (auto simp: refresh_rp_keys_def split: prod.split option.split)
  obtain e b1 where 1: "initializeTransportManager env b = (e, b1)" by (rule prod.exhaust)
  obtain e' b2 where 2: "transport_send env (attestation_message (he_now env) p) b1 = (e', b2)" by (rule prod.exhaust)
  have "auth_of b1 = auth_of b" "auth_of b2 = auth_of b1"
    using auth_of_access(7) [of env b] auth_of_access(8) [of env "attestation_message (he_now env) p" b1] by (simp_all add: 1 2)
  then show "auth_of (snd (deliver_attested_code env p b)) = auth_of b"
    by (simp add: deliver_attested_code_def 1 2 split: option.split)
qed

lemma auth_of_handle: "\<not> auth_message m \<Longrightarrow> auth_of (snd (handle env sndr m b)) = auth_of b"
  by (cases m)
    (simp_all add: auth_of_login_form auth_of_credential_request auth_of_passkey auth_of_switch auth_of_revoke auth_of_mfa
      auth_of_attestation tab_domain_changed_def get_current_domain_def send_to_api_def check_api_health_def webrtc_create_offscreen_def
      webrtc_close_offscreen_def webrtc_keepalive_status_def webrtc_connection_state_def webrtc_connection_timeout_def
      get_connection_state_def start_pairing_def detect_transaction_def check_session_def pairing_confirmed_def pairing_rejected_def
      verify_transaction_def prf_credential_created_def transport_changed_def get_attestation_status_def passkey_credential_error_def
      get_cached_credential_id_def get_approved_domains_def get_pending_domains_def get_devices_def get_active_device_id_def
      Let_def case_prod_beta split: option.split sum.split)

definition auth_inv :: "('t, 'ck) background \<Rightarrow> bool" where
  "auth_inv b \<longleftrightarrow> (bg_authTimeout b \<or> bg_authTabId b \<noteq> None \<longrightarrow> bg_authInProgress b)"

lemma auth_inv_of: "auth_of b = auth_of b' \<Longrightarrow> auth_inv b = auth_inv b'"
  by (simp add: auth_inv_def auth_of_def)

lemma auth_inv_reset: "auth_inv (resetAuthInProgress b)"
  by (simp add: auth_inv_def resetAuthInProgress_def clearAuthTimeout_def)

lemma auth_inv_begin: "auth_inv b \<Longrightarrow> auth_inv (snd (begin_challenge_assertion env amount recipient sndr b))"
  unfolding begin_challenge_assertion_def fail_def ok_def Let_def
  by (auto simp: auth_inv_reset split: option.split sum.split)
    (auto simp: auth_inv_def clearAuthTimeout_def bg_store_update_def)

lemma auth_inv_complete: "auth_inv (snd (assertion_complete env p b))"
  unfolding assertion_complete_def fail_def ok_def Let_def
  by (auto simp: auth_inv_reset split: option.split prod.split)

lemma auth_of_notes: "auth_of (fold bg_note ns b) = auth_of b"
proof (induction ns arbitrary: b)
  case (Cons n ns)
  have "auth_of (bg_note n b) = auth_of b"
    by (cases n) (simp_all add: webrtc_connection_state_def webrtc_connection_timeout_def)
  then show ?case using Cons by simp
qed simp

lemma auth_of_offscreen: "auth_of (bg_offscreen env e b) = auth_of b"
proof -
  have "auth_of (case bg_transport b of
      None \<Rightarrow> b\<lparr>bg_odoc := off_exec (te_off (he_tenv env)) e (bg_odoc b)\<rparr>
    | Some w \<Rightarrow> (let w1 = offscreen_event (he_tenv env) e (w\<lparr>tw_off := bg_odoc b\<rparr>) in b\<lparr>bg_transport := Some w1, bg_odoc := tw_off w1\<rparr>))
    = auth_of b"
    by (simp add: auth_of_def Let_def split: option.split)
  then show ?thesis by (simp add: bg_offscreen_def auth_of_notes Let_def)
qed

lemma auth_of_restore: "auth_of (tryRestoreSession env listOk b) = auth_of b"
  by (simp add: tryRestoreSession_def Let_def split: option.split prod.split)

text \<open>Events that neither start nor end an authentication.\<close>

fun auth_event :: "bg_event \<Rightarrow> bool" where
  "auth_event (Message _ m) = auth_message m"
| "auth_event AuthTimeout = True"
| "auth_event (TabRemoved _) = True"
| "auth_event _ = False"

lemma auth_of_event: "\<not> auth_event (snd x) \<Longrightarrow> auth_of (bg_exec x b) = auth_of b"
  by (cases x; cases "snd x") (auto simp: auth_of_handle onConnect_def auth_of_restore auth_of_offscreen)

lemma auth_inv_event: "auth_inv b \<Longrightarrow> auth_inv (bg_exec x b)"
proof (cases "auth_event (snd x)")
  case False
  then show "auth_inv b \<Longrightarrow> ?thesis" using auth_of_event auth_inv_of by blast
next
  case True
  assume inv: "auth_inv b"
  obtain env e where x: "x = (env, e)" by force
  show ?thesis
  proof (cases e)
    case (Message sndr m)
    with True x show ?thesis using auth_inv_begin [OF inv] auth_inv_complete by (cases m) auto
  next
    case AuthTimeout
    then show ?thesis using inv by (simp add: x authTimeoutFires_def auth_inv_reset)
  next
    case (TabRemoved t)
    have "auth_inv (onAuthTabRemoved t b)" using inv by (simp add: onAuthTabRemoved_def auth_inv_reset)
    then show ?thesis by (simp add: x TabRemoved auth_inv_def)
  qed (use True x in simp_all)
qed

interpretation auth_events: event_system bg_exec "\<lambda>_. True" auth_inv
  by unfold_locales (rule auth_inv_event)

section \<open>What the background does\<close>


definition stuck :: "('t, 'ck) background \<Rightarrow> bool" where
  "stuck b \<longleftrightarrow> auth_of b = (True, None, False)"

fun completes :: "bg_event \<Rightarrow> bool" where
  "completes (Message _ (AssertionComplete _)) = True"
| "completes _ = False"

lemma stuck_event: "stuck b \<Longrightarrow> \<not> completes (snd x) \<Longrightarrow> stuck (bg_exec x b)"
proof (cases "auth_event (snd x)")
  case False
  then show "stuck b \<Longrightarrow> ?thesis" by (simp add: stuck_def auth_of_event)
next
  case True
  assume st: "stuck b" and nc: "\<not> completes (snd x)"
  obtain env e where x: "x = (env, e)" by force
  have fl: "bg_authInProgress b" "bg_authTabId b = None" "\<not> bg_authTimeout b" using st by (simp_all add: stuck_def auth_of_def)
  show ?thesis
  proof (cases e)
    case (Message sndr m)
    with True x nc fl st show ?thesis by (cases m) (simp_all add: begin_challenge_assertion_def fail_def)
  next
    case (TabRemoved t)
    then show ?thesis using fl by (simp add: x onAuthTabRemoved_def stuck_def auth_of_def)
  qed (use True x fl st in \<open>simp_all add: authTimeoutFires_def\<close>)
qed

interpretation stuck_events: event_system bg_exec "\<lambda>x. \<not> completes (snd x)" stuck
  by unfold_locales (rule stuck_event)

text \<open>an authentication that cannot determine the origin of its tab blocks all later ones. The early returns of
  \<open>begin-challenge-assertion\<close> leave \<open>authInProgress\<close> set with no timeout armed and no tab to wait for; from then
  on, whatever happens short of an \<open>assertion-complete\<close> message, every further request is answered with
  \<open>Authentication already in progress\<close>.\<close>

theorem unknown_origin_blocks_authentication:
  fixes b :: "('t, 'ck) background" and amount recipient :: "string option"
  assumes "auth_of b = (False, None, False)" "sender_tab_id sndr = Some tabId"
    and "snd_tabUrl sndr = None \<or> (\<exists>url. snd_tabUrl sndr = Some url \<and> url \<noteq> [] \<and> he_origin env url = Inr ''null'')"
    and "list_all (\<lambda>x. \<not> completes (snd x)) xs"
  defines "b' \<equiv> fold bg_exec xs (snd (handle env sndr (BeginChallengeAssertion amount recipient) b))"
  shows "bg_authInProgress b' \<and> \<not> bg_authTimeout b' \<and> bg_authTabId b' = None
    \<and> handle env' sndr' (BeginChallengeAssertion amount' recipient') b' = (error_response ''Authentication already in progress'', b')"
proof -
  have "stuck (snd (handle env sndr (BeginChallengeAssertion amount recipient) b))"
    using assms(1-3) by (auto simp: begin_challenge_assertion_def stuck_def auth_of_def fail_def Let_def)
  then have "stuck b'" unfolding b'_def using assms(4) by (rule stuck_events.inv_run)
  then show ?thesis by (simp add: stuck_def auth_of_def begin_challenge_assertion_def fail_def)
qed

lemma bg_store_simps [simp]:
  "bg_store (bg_store_update f b) = f (bg_store b)" "bg_store (b\<lparr>bg_mfaGate := g\<rparr>) = bg_store b"
  "bg_store (b\<lparr>bg_credentialLimiter := l\<rparr>) = bg_store b" "bg_store (b\<lparr>bg_tabMessages := t\<rparr>) = bg_store b"
  by (simp_all add: bg_store_def bg_store_update_def pw_store_def pw_store_update_def)

lemma activated_session:
  "fst (getSession now (snd (activateSession now rnd name s))) = Some (fst (activateSession now rnd name s))"
  "expiry (fst (activateSession now rnd name s)) = now + 300000"
  by (simp_all add: activateSession_def getSession_def resetIdleTimeout_def session_consts Let_def)

lemma mfa_assertion_pass:
  assumes "mr_success (fst (mfa_assertion env p b))"
  shows "bg_store (snd (mfa_assertion env p b)) = snd (activateSession (he_now env) (he_random env 32) None (bg_store b))"
proof -
  let ?gate = "mfa_gate (he_sha256 env) (he_now env) (mf_credentialId p @ '':'' @ mf_clientDataJSON p @ '':'' @ mf_authenticatorData p) (bg_mfaGate b)"
  obtain v g where gate: "?gate = (v, g)" by (rule prod.exhaust)
  have full: "\<not> (mf_credentialId p = [] \<or> mf_authenticatorData p = [] \<or> mf_clientDataJSON p = [] \<or> mf_signature p = [])"
  proof
    assume "mf_credentialId p = [] \<or> mf_authenticatorData p = [] \<or> mf_clientDataJSON p = [] \<or> mf_signature p = []"
    then have "mfa_assertion env p b = fail ''Missing assertion data'' b" by (simp only: mfa_assertion_def if_True)
    with assms show False by (simp add: fail_def error_response_def)
  qed
  have "v = GatePass" using assms full gate
    by (cases v) (simp_all add: mfa_assertion_def fail_def error_response_def Let_def)
  with full gate show ?thesis by (simp add: mfa_assertion_def ok_def Let_def case_prod_beta)
qed

text \<open>the signature of an MFA assertion is not verified. Any text that is not empty serves: two assertions that
  differ only in their signatures get the same answer and have the same effect, and one that passes the rate
  limit and the replay cache activates a session for five minutes.\<close>

theorem mfa_signature_unchecked:
  fixes b :: "('t, 'ck) background"
  assumes "mf_signature p \<noteq> []" "sig \<noteq> []"
  shows "mfa_assertion env (p\<lparr>mf_signature := sig\<rparr>) b = mfa_assertion env p b
    \<and> (mr_success (fst (mfa_assertion env p b)) \<longrightarrow>
        (\<exists>s. fst (getSession (he_now env) (bg_store (snd (mfa_assertion env p b)))) = Some s \<and> expiry s = he_now env + 300000))"
proof (intro conjI impI)
  show "mfa_assertion env (p\<lparr>mf_signature := sig\<rparr>) b = mfa_assertion env p b"
    using assms by (simp add: mfa_assertion_def)
qed (simp add: mfa_assertion_pass activated_session)

subsection \<open>Revocation\<close>

lemma revokeDevice_store:
  assumes "revokeDevice k now i r = (Inr x, r')"
  shows "(\<exists>cp. ss_pairing (reg_store r') = Some cp \<and> cp_remoteStaticPublicKey cp = [])
    \<and> ss_mfaSession (reg_store r') = ss_mfaSession (reg_store r) \<and> \<not> ss_cmdClient (reg_store r')"
  using assms
  by (auto simp: revokeDevice_def persist_def persist_session_def persist_local_def Let_def split: option.splits)

lemma drop_transport_store [simp]: "bg_store (drop_transport env b) = bg_store b"
  by (simp add: drop_transport_def bg_store_def case_prod_beta split: option.split)

lemma revoke_device_store:
  assumes "mr_success (fst (revoke_device env i b))"
  defines "s \<equiv> bg_store (snd (revoke_device env i b))"
  shows "(\<exists>cp. ss_pairing s = Some cp \<and> cp_remoteStaticPublicKey cp = []) \<and> ss_mfaSession s = ss_mfaSession (bg_store b)"
proof -
  obtain a b1 where 1: "with_registry getActiveDeviceId b = (a, b1)" by (rule prod.exhaust)
  have store1: "bg_store b1 = bg_store b"
    using 1 by (auto simp: with_registry_def getActiveDeviceId_def bg_store_def pw_store_def Let_def)
  obtain r b2 where 2: "with_registry (revokeDevice (he_keypair env) (he_now env) i) b1 = (r, b2)" by (rule prod.exhaust)
  obtain x where r: "r = Inr x"
    using assms(1) by (cases r) (auto simp: revoke_device_def 1 2 fail_def error_response_def Let_def)
  have "(\<exists>cp. ss_pairing (bg_store b2) = Some cp \<and> cp_remoteStaticPublicKey cp = []) \<and> ss_mfaSession (bg_store b2) = ss_mfaSession (bg_store b1)"
    using 2 revokeDevice_store [of "he_keypair env" "he_now env" i "pw_registry (bg_pairing b1)"]
    by (auto simp: r with_registry_def bg_store_def pw_store_def split: prod.splits)
  then show ?thesis
    unfolding s_def store1
    by (auto simp: revoke_device_def 1 2 r ok_def Let_def announceRevocation_def cacheRevocationForLater_def store1)
qed

text \<open>what a revocation does and leaves. After \<open>revoke-device\<close> no silent re-authentication succeeds, on this or a
  later call, because the stored pairing has no phone key any more; but the session that was active stays
  active until it expires, and \<open>check-session\<close> goes on reporting the extension as paired.\<close>

theorem revocation_leaves_session:
  fixes b :: "('t, 'ck) background"
  assumes "mr_success (fst (handle env sndr (RevokeDevice i) b))"
  defines "b1 \<equiv> snd (handle env sndr (RevokeDevice i) b)"
  shows "(performSilentReauth supported assertPrf now rnd (bg_store b1) = Some (reauth, s) \<longrightarrow> \<not> reauth)
    \<and> ss_mfaSession (bg_store b1) = ss_mfaSession (bg_store b)
    \<and> (mr_success (fst (handle env' sndr' CheckSession b1)) \<longrightarrow>
        jget (the (mr_data (fst (handle env' sndr' CheckSession b1)))) ''paired'' = Some (JBool True)
        \<and> jget (the (mr_data (fst (handle env' sndr' CheckSession b1)))) ''active''
            = Some (JBool (fst (getSession (he_now env') (bg_store b)) \<noteq> None)))"
proof -
  obtain cp where cp: "ss_pairing (bg_store b1) = Some cp" "cp_remoteStaticPublicKey cp = []"
      and sess: "ss_mfaSession (bg_store b1) = ss_mfaSession (bg_store b)"
    using revoke_device_store [of env i b] assms(1) by (auto simp: b1_def)
  have no_reauth: "\<not> okay \<and> s' = bg_store b1"
    if "performSilentReauth sup ap t rn (bg_store b1) = Some (okay, s')" for sup ap t rn okay s'
    using silent_reauth_outcome [OF that] cp by (cases okay) auto
  have same: "fst (getSession t (bg_store b1)) = fst (getSession t (bg_store b))" for t
    using sess by (simp add: getSession_def split: option.split)
  show ?thesis
  proof (intro conjI impI)
    show "\<not> reauth" if "performSilentReauth supported assertPrf now rnd (bg_store b1) = Some (reauth, s)" using no_reauth [OF that] by simp
  next
    assume ok: "mr_success (fst (handle env' sndr' CheckSession b1))"
    then obtain okay s' where re: "performSilentReauth (he_prfSupported env') (he_assertPrf env') (he_now env') (he_random env' 32) (bg_store b1)
        = Some (okay, s')"
      by (auto simp: check_session_def fail_def error_response_def split: option.splits)
    have st: "s' = bg_store b1" using no_reauth [OF re] by simp
    show "jget (the (mr_data (fst (handle env' sndr' CheckSession b1)))) ''paired'' = Some (JBool True)"
      "jget (the (mr_data (fst (handle env' sndr' CheckSession b1)))) ''active''
         = Some (JBool (fst (getSession (he_now env') (bg_store b)) \<noteq> None))"
      using cp by (simp_all add: check_session_def re st ok_def ok_response_def case_prod_beta same)
  qed (rule sess)
qed

subsection \<open>Credentials\<close>

text \<open>a password is released without a session. When a login form is reported for a domain the limiter allows
  and the phone answers with a credential, it is sent to the tab, whether or not an MFA session is active,
  and whether or not the domain has been approved: the handler looks at neither, and the command client is
  created without a session guard.\<close>

theorem credential_needs_no_session:
  fixes b :: "('t, 'ck) background"
  assumes "\<not> incomplete_form f" "sender_tab_id sndr = Some tabId"
    and "fst (dr_allow CREDENTIAL_RATE_LIMIT_MS (he_now env) (lf_domain f) (bg_credentialLimiter b))"
    and "pw_commandClient (bg_pairing b) \<noteq> None" "he_command env = Inr response"
    and "response_data response ''status'' = Some (JStr ''found'')" "response_data response ''username'' = Some (JStr user)"
    and "response_data response ''password'' = Some (JStr pass)" "user \<noteq> []" "pass \<noteq> []"
  shows "bg_tabMessages (snd (handle env sndr (DetectLoginForm f) b))
    = bg_tabMessages b @ [(tabId, ''credential-response'', JObj [(''username'', JStr user), (''password'', JStr pass)])]"
  using assms
  by (simp add: detect_login_form_def credential_allow_def request_credential_def with_client_def bg_store_update_def pw_store_update_def
    ok_def Let_def case_prod_beta split: sum.split)

subsection \<open>Switching devices\<close>

lemma with_registry_pair: "with_registry f b = (fst (f (pw_registry (bg_pairing b))),
    b\<lparr>bg_pairing := (bg_pairing b)\<lparr>pw_registry := snd (f (pw_registry (bg_pairing b)))\<rparr>\<rparr>)"
  by (simp add: with_registry_def case_prod_beta)

lemma drop_transport_pairing [simp]: "bg_pairing (drop_transport env b) = bg_pairing b"
  by (simp add: drop_transport_def case_prod_beta split: option.split)

lemma initialize_never_rejects: "fst (tm_initialize env w) = None"
  by (simp add: tm_initialize_def case_prod_beta)

lemma initialize_bg:
  "\<exists>w d. initializeTransportManager env b = (None, b\<lparr>bg_transport := Some w, bg_odoc := d\<rparr>)"
proof (cases "bg_transport b")
  case None
  then show ?thesis
    using initialize_never_rejects [of "he_tenv env" "new_TransportManager (bg_odoc b)"]
    by (auto simp: initializeTransportManager_def case_prod_beta)
next
  case (Some w)
  then have "b = b\<lparr>bg_transport := Some w, bg_odoc := bg_odoc b\<rparr>" by (cases b) simp
  moreover have "initializeTransportManager env b = (None, b)" using Some by (simp add: initializeTransportManager_def)
  ultimately show ?thesis by metis
qed

text \<open>switching to a registered device always succeeds, whether or not a transport can be established: the
  manager's \<open>initialize\<close> rejects in no case, so the restoration of the previous device and the answer
  \<open>Device switched but transport reconnection failed\<close> are never reached. The device is active afterwards; its
  transport, if any, is a fresh one; a device without a key, as after a browser restart, gets none.\<close>

theorem switch_device_outcome:
  fixes b :: "('t, 'ck) background"
  defines "r \<equiv> ensureLoaded (pw_registry (bg_pairing b))"
  shows "(case find_device i (devs r) of
      None \<Rightarrow> fst (handle env sndr (SwitchDevice i) b) = error_response ''Device not found''
    | Some d \<Rightarrow> fst (handle env sndr (SwitchDevice i) b) = ok_response [(''deviceId'', JStr i)]
        \<and> fst (getActiveDeviceId (pw_registry (bg_pairing (snd (handle env sndr (SwitchDevice i) b))))) = Some i
        \<and> (bg_transport (snd (handle env sndr (SwitchDevice i) b)) = None \<longleftrightarrow> phoneStaticKey d = []))"
proof (cases "find_device i (devs r)")
  case None
  then show ?thesis by (simp add: switch_device_def with_registry_pair getDevice_def fail_def Let_def r_def)
next
  case (Some d)
  have drop: "bg_transport (drop_transport env x) = None" for x :: "('t, 'ck) background"
    by (simp add: drop_transport_def case_prod_beta split: option.split)
  have loaded: "reg_initialized (ensureLoaded q)" for q
    by (simp add: ensureLoaded_def loadFromStorage_def split: option.split list.split)
  define b4 where "b4 = snd (with_registry (setActiveDevice (he_now env) i)
    (drop_transport env (snd (with_registry getActiveDeviceId (snd (with_registry (getDevice i) b))))))"
  obtain w o' where init: "initializeTransportManager env b4 = (None, b4\<lparr>bg_transport := Some w, bg_odoc := o'\<rparr>)"
    using initialize_bg by blast
  have b4: "bg_transport b4 = None" "fst (getActiveDeviceId (pw_registry (bg_pairing b4))) = Some i"
    using Some loaded
    by (simp_all add: b4_def with_registry_pair getDevice_def getActiveDeviceId_def setActiveDevice_def drop r_def persist_def
      persist_session_def persist_local_def Let_def ensureLoaded_def)
  have "handle env sndr (SwitchDevice i) b
      = ok [(''deviceId'', JStr i)] (if phoneStaticKey d \<noteq> [] then b4\<lparr>bg_transport := Some w, bg_odoc := o'\<rparr> else b4)"
    using Some init
    by (simp add: switch_device_def with_registry_pair getDevice_def getActiveDeviceId_def setActiveDevice_def r_def Let_def b4_def)
  then show ?thesis using Some b4 by (simp add: ok_def)
qed

subsection \<open>Assertions\<close>

lemma stringify_object: "stringify (JObj ps) \<noteq> []"
  by simp

lemma assertion_message_nonempty: "assertion_message now p \<noteq> []"
  using utf8_encode_inject [of _ "[]"] by (auto simp: assertion_message_def Let_def utf8_encode_def)

text \<open>a verified assertion that goes out over WebRTC is reported as failed. It is put into the data channel's
  queue, but the transport reports \<open>WebRTC send failed\<close>, so the handler stores an error result, keeps the
  pending assertion and tells the authentication page that it failed.\<close>

theorem webrtc_assertion_reported_failed:
  fixes b :: "('t, 'ck) background" and sndr :: sender
  assumes "as_status p = ''verified''" "\<not> assertion_incomplete p" "bg_transport b = Some w" "tw_active w = Some Webrtc_t"
    and "wr_connected (tw_rtc w)" "te_offscreen (he_tenv env)" "od_usbDevice (bg_odoc b) = None"
  defines "b' \<equiv> snd (handle env sndr (AssertionComplete p) b)"
  shows "fst (handle env sndr (AssertionComplete p) b) = error_response ''WebRTC send failed''
    \<and> ss_assertionResult (bg_store b') = Some (''error'', Some ''WebRTC send failed'')
    \<and> ss_pendingAssertion (bg_store b') = ss_pendingAssertion (bg_store b)
    \<and> od_channel (bg_odoc b') = map_option (bq_exec (oe_dcTry (te_off (he_tenv env))) default_config
        (EvSend (assertion_message (he_now env) p))) (od_channel (bg_odoc b))"
proof -
  let ?m = "assertion_message (he_now env) p"
  let ?w = "w\<lparr>tw_off := bg_odoc b\<rparr>"
  have send: "tm_send (he_tenv env) ?m ?w = (Some (js_error ''WebRTC send failed''),
      ?w\<lparr>tw_off := (bg_odoc b)\<lparr>od_channel :=
        map_option (bq_exec (oe_dcTry (te_off (he_tenv env))) default_config (EvSend ?m)) (od_channel (bg_odoc b))\<rparr>\<rparr>)"
    using assms(4-7) rtc_send_outcome [of ?w "he_tenv env" ?m] by (simp add: tm_send_def assertion_message_nonempty)
  have "transmit env ?m (clearAuthTimeout b) = (Some (js_error ''WebRTC send failed''),
      (clearAuthTimeout b)\<lparr>bg_transport := Some (?w\<lparr>tw_off := (bg_odoc b)\<lparr>od_channel :=
          map_option (bq_exec (oe_dcTry (te_off (he_tenv env))) default_config (EvSend ?m)) (od_channel (bg_odoc b))\<rparr>\<rparr>),
        bg_odoc := (bg_odoc b)\<lparr>od_channel :=
          map_option (bq_exec (oe_dcTry (te_off (he_tenv env))) default_config (EvSend ?m)) (od_channel (bg_odoc b))\<rparr>\<rparr>)"
    using assms(3) send by (simp add: transmit_def initializeTransportManager_def transport_send_def clearAuthTimeout_def)
  then show ?thesis
    unfolding b'_def using assms(1,2)
    by (simp add: assertion_complete_def fail_def Let_def error_text_def js_error_def assertion_result_def resetAuthInProgress_def
      clearAuthTimeout_def bg_store_def bg_store_update_def pw_store_def pw_store_update_def)
qed

lemma pending_of_binds:
  assumes "pending_of env tabId url origin code amount recipient cache = Inr pa"
  shows "pa_origin pa = origin \<and> pa_controlCode pa = code \<and> pa_amount pa = amount \<and> pa_recipient pa = recipient
    \<and> pa_derivedChallenge pa = Array_from (he_sha256 env (new_Uint8Array (pa_tlvComponents pa)))
    \<and> (length (utf8_encode origin) < 65536 \<longrightarrow>
        (\<exists>c. parseChallengeComponents (new_Uint8Array (pa_tlvComponents pa)) = Inr c \<and> Challenge.cc_origin c = origin
          \<and> Challenge.cc_controlCode c = code \<and> Array_from (Challenge.cc_sessionNonce c) = pa_sessionNonce pa))"
proof -
  define input where "input = \<lparr>ci_tlsBinding = buildChallengeProof (he_sha256 env) (he_now env) tabId code (page_content env url) None cache,
    ci_origin = origin, ci_controlCode = code, ci_sessionNonce = generateSessionNonce (he_random env)\<rparr>"
  obtain tlv where tlv: "serializeChallengeComponents input = Inr tlv"
    using assms by (auto simp: pending_of_def input_def Let_def split: sum.splits)
  have pa: "pa_origin pa = origin" "pa_controlCode pa = code" "pa_amount pa = amount" "pa_recipient pa = recipient"
      "pa_tlvComponents pa = Array_from tlv" "pa_sessionNonce pa = Array_from (ci_sessionNonce input)"
      "pa_derivedChallenge pa = Array_from (he_sha256 env tlv)"
    using assms tlv
    by (auto simp: pending_of_def input_def deriveChallenge_def uint8ArrayToArrayBuffer_def slice_def Let_def split: sum.splits)
  have io: "ci_origin input = origin" "ci_controlCode input = code" by (simp_all add: input_def)
  show ?thesis using parse_serialized [OF tlv] by (simp add: pa io)
qed

text \<open>the challenge of an authentication is bound to the tab that asked for it. When \<open>begin-challenge-assertion\<close>
  answers with success, the origin in the stored assertion is the one of the sender tab's URL, the challenge
  is the hash of the stored components, and these parse back to that origin, the reported control code and
  the stored nonce; the authentication is marked in progress and its timeout is armed.\<close>

theorem challenge_bound_to_tab:
  fixes b :: "('t, 'ck) background"
  assumes "mr_success (fst (handle env sndr (BeginChallengeAssertion amount recipient) b))"
  defines "b' \<equiv> snd (handle env sndr (BeginChallengeAssertion amount recipient) b)"
  shows "\<exists>url origin pa. snd_tabUrl sndr = Some url \<and> he_origin env url = Inr origin
    \<and> ss_pendingAssertion (bg_store b') = Some pa \<and> pa_origin pa = origin
    \<and> pa_controlCode pa = nullish (getDomCode (he_domCode env)) ''0000''
    \<and> pa_derivedChallenge pa = Array_from (he_sha256 env (new_Uint8Array (pa_tlvComponents pa)))
    \<and> (length (utf8_encode origin) < 65536 \<longrightarrow>
        (\<exists>c. parseChallengeComponents (new_Uint8Array (pa_tlvComponents pa)) = Inr c \<and> Challenge.cc_origin c = origin
          \<and> Challenge.cc_controlCode c = pa_controlCode pa \<and> Array_from (Challenge.cc_sessionNonce c) = pa_sessionNonce pa))
    \<and> bg_authInProgress b' \<and> bg_authTimeout b' \<and> \<not> bg_authInProgress b"
proof -
  have free: "\<not> bg_authInProgress b"
    using assms(1) by (auto simp: begin_challenge_assertion_def fail_def error_response_def)
  obtain tabId where tab: "sender_tab_id sndr = Some tabId"
    using assms(1) free by (auto simp: begin_challenge_assertion_def fail_def error_response_def split: option.splits)
  let ?code = "nullish (getDomCode (he_domCode env)) ''0000''"
  obtain url where url: "snd_tabUrl sndr = Some url" "url \<noteq> []"
    using assms(1) free tab by (cases "snd_tabUrl sndr") (auto simp: begin_challenge_assertion_def fail_def error_response_def Let_def split: if_splits)
  obtain origin where origin: "he_origin env url = Inr origin"
    using assms(1) free tab url by (cases "he_origin env url") (auto simp: begin_challenge_assertion_def fail_def error_response_def Let_def)
  have named: "origin \<noteq> []" "origin \<noteq> ''null''"
    using assms(1) free tab url origin by (auto simp: begin_challenge_assertion_def fail_def error_response_def Let_def)
  obtain pa where pa: "pending_of env tabId url origin ?code amount recipient (bg_secFetch b) = Inr pa"
    using assms(1) free tab url origin named
    by (cases "pending_of env tabId url origin ?code amount recipient (bg_secFetch b)")
      (auto simp: begin_challenge_assertion_def fail_def error_response_def Let_def)
  obtain t where t: "he_newTab env = Inr t"
    using assms(1) free tab url origin named pa
    by (cases "he_newTab env") (auto simp: begin_challenge_assertion_def fail_def error_response_def Let_def)
  have b': "b' = (clearAuthTimeout ((bg_store_update (\<lambda>s. s\<lparr>ss_pendingAssertion := Some pa\<rparr>) (b\<lparr>bg_authInProgress := True\<rparr>))\<lparr>bg_authTabId := t\<rparr>))
      \<lparr>bg_authTimeout := True\<rparr>"
    unfolding b'_def using free tab url origin named pa t by (simp add: begin_challenge_assertion_def ok_def Let_def)
  have "ss_pendingAssertion (bg_store b') = Some pa" "bg_authInProgress b'" "bg_authTimeout b'"
    by (simp_all add: b' clearAuthTimeout_def bg_store_update_def bg_store_def pw_store_def pw_store_update_def)
  with pending_of_binds [OF pa] url(1) origin free show ?thesis by auto
qed

section \<open>Examples\<close>

definition demo_answer :: control_response where
  "demo_answer = \<lparr>rsp_sequence = 1, rsp_status = ''ok'', rsp_json = JObj [(''data'', JObj [(''status'', JStr ''found''),
     (''username'', JStr ''mari''), (''password'', JStr ''secret'')])]\<rparr>"

definition demo_henv :: "(unit, unit) henv" where
  "demo_henv = \<lparr>he_browser = Pairing.sample_env, he_tenv = sample_tenv, he_now = 5000, he_sha256 = (\<lambda>bs. bs), he_encrypt = (\<lambda>_ _. None),
     he_keypair = sample_key 3, he_random = (\<lambda>n. replicate n 7), he_wc = \<lparr>wc_importKey = \<lambda>_. None, wc_verify = \<lambda>_ _ _. False, wc_sha256 = id\<rparr>,
     he_manifest = (FetchError ''offline'', None), he_parseUrl = (\<lambda>u. Some (''https:'', u)), he_origin = (\<lambda>u. Inr ''null''),
     he_devMode = False, he_regErr = (\<lambda>_ _. None), he_activeTab = Some 1, he_sign = (\<lambda>_. None), he_perf = 0,
     he_command = Inr demo_answer, he_tabAnswer = Inr (ok_response []), he_domCode = None, he_fetch = (\<lambda>_. Retry.FetchThrows NoError),
     he_backoff = (\<lambda>_. 0), he_prfSupported = True, he_assertPrf = (\<lambda>s. Some s), he_broadcast = (\<lambda>_. True), he_rpId = ''ext'',
     he_newTab = Inr (Some 9)\<rparr>"

definition demo_background :: "(unit, unit) background" where
  "demo_background = new_background (new_registry empty_storage)"

definition demo_sender :: sender where
  "demo_sender = \<lparr>snd_tabId = Some 4, snd_tabUrl = Some ''about:blank''\<rparr>"

lemma demo_sender_tab: "sender_tab_id demo_sender = Some 4"
  by (simp add: sender_tab_id_def sender_tab_def demo_sender_def)

theorem unknown_origin_blocks_authentication_witness:
  "fst (handle demo_henv demo_sender (BeginChallengeAssertion None None)
     (fold bg_exec [(demo_henv, AuthTimeout), (demo_henv, TabRemoved 4)]
       (snd (handle demo_henv demo_sender (BeginChallengeAssertion None None) demo_background))))
   = error_response ''Authentication already in progress''"
proof -
  let ?xs = "[(demo_henv, AuthTimeout), (demo_henv, TabRemoved 4)]"
  have "auth_of demo_background = (False, None, False)" by (simp add: demo_background_def new_background_def auth_of_def)
  moreover have "snd_tabUrl demo_sender = None \<or> (\<exists>url. snd_tabUrl demo_sender = Some url \<and> url \<noteq> [] \<and> he_origin demo_henv url = Inr ''null'')"
    by (simp add: demo_sender_def demo_henv_def)
  moreover have "list_all (\<lambda>x. \<not> completes (snd x)) ?xs" by simp
  ultimately show ?thesis
    using unknown_origin_blocks_authentication [OF _ demo_sender_tab, of demo_background demo_henv ?xs None None demo_henv demo_sender None None]
    by simp
qed


definition demo_mfa :: mfa_payload where
  "demo_mfa = \<lparr>mf_credentialId = ''c'', mf_authenticatorData = ''a'', mf_clientDataJSON = ''j'', mf_signature = ''s''\<rparr>"

theorem mfa_signature_unchecked_witness:
  "\<exists>s. fst (getSession 5000 (bg_store (snd (mfa_assertion demo_henv (demo_mfa\<lparr>mf_signature := ''forged''\<rparr>) demo_background)))) = Some s
     \<and> expiry s = 305000"
proof -
  have ok: "mr_success (fst (mfa_assertion demo_henv demo_mfa demo_background))"
    by (simp add: mfa_assertion_def demo_mfa_def mfa_gate_def sw_allow_def sw_prune_def gate_consts checkAndReserveAssertion_def reserveKey_def
      cleanupExpired_def demo_background_def new_background_def ok_def ok_response_def Let_def case_prod_beta)
  have "mf_signature demo_mfa \<noteq> []" "''forged'' \<noteq> []" by (simp_all add: demo_mfa_def)
  from mfa_signature_unchecked [OF this, of demo_henv demo_background] ok show ?thesis by (simp add: demo_henv_def)
qed

definition demo_form :: login_form where
  "demo_form = \<lparr>lf_domain = ''lhv.ee'', lf_url = ''https://lhv.ee'', lf_usernameSelector = ''#u'', lf_passwordSelector = ''#p''\<rparr>"

definition demo_paired :: "(unit, unit) background" where
  "demo_paired = demo_background\<lparr>bg_pairing := (bg_pairing demo_background)\<lparr>pw_commandClient := Some (createCommandClient None None)\<rparr>\<rparr>"

theorem credential_needs_no_session_witness:
  "fst (getSession 5000 (bg_store demo_paired)) = None \<and> \<not> isDomainApproved ''lhv.ee'' (bg_csm demo_paired)
   \<and> bg_tabMessages (snd (handle demo_henv demo_sender (DetectLoginForm demo_form) demo_paired))
     = [(4, ''credential-response'', JObj [(''username'', JStr ''mari''), (''password'', JStr ''secret'')])]"
proof -
  have 1: "\<not> incomplete_form demo_form" "fst (dr_allow CREDENTIAL_RATE_LIMIT_MS (he_now demo_henv) (lf_domain demo_form) (bg_credentialLimiter demo_paired))"
    "pw_commandClient (bg_pairing demo_paired) \<noteq> None" "he_command demo_henv = Inr demo_answer"
    by (simp_all add: incomplete_form_def demo_form_def dr_allow_def demo_paired_def demo_background_def new_background_def demo_henv_def)
  have 2: "response_data demo_answer ''status'' = Some (JStr ''found'')" "response_data demo_answer ''username'' = Some (JStr ''mari'')"
    "response_data demo_answer ''password'' = Some (JStr ''secret'')" "''mari'' \<noteq> []" "''secret'' \<noteq> []"
    by (simp_all add: response_data_def demo_answer_def)
  have "bg_tabMessages demo_paired = []" "ss_mfaSession (bg_store demo_paired) = None" "sy_approvedDomains (bg_store demo_paired) = None"
    by (simp_all add: demo_paired_def demo_background_def new_background_def bg_store_def pw_store_def new_registry_def empty_storage_def)
  then show ?thesis
    using credential_needs_no_session [OF 1(1) demo_sender_tab 1(2-4) 2]
    by (simp add: getSession_def isDomainApproved_def getApprovedDomains_def bg_csm_def)
qed

definition demo_device :: device_record where
  "demo_device = \<lparr>deviceId = ''d1'', dev_name = ''Phone'', phoneStaticKey = [1, 2], lastSeen = 0, pairedAt = 0, isPrimary = True\<rparr>"

definition demo_session_store :: storage where
  "demo_session_store = empty_storage\<lparr>ss_devices := Some [deviceToSerializable demo_device], ss_activeDevice := Some ''d1'',
     ss_mfaSession := Some \<lparr>sessionToken = ''t'', mfaVerifiedAt = 0, expiry = 300000, sess_deviceName = None\<rparr>\<rparr>"

definition demo_registered :: "(unit, unit) background" where
  "demo_registered = new_background (new_registry demo_session_store)"

theorem revocation_leaves_session_witness:
  "let b1 = snd (handle demo_henv demo_sender (RevokeDevice ''d1'') demo_registered);
       answer = the (mr_data (fst (handle (demo_henv\<lparr>he_prfSupported := False\<rparr>) demo_sender CheckSession b1)))
   in jget answer ''paired'' = Some (JBool True) \<and> jget answer ''active'' = Some (JBool True)"
proof -
  let ?env = "demo_henv\<lparr>he_prfSupported := False\<rparr>"
  have "fst (with_registry (revokeDevice k t ''d1'') (snd (with_registry getActiveDeviceId demo_registered))) = Inr ()" for k t
    by (simp add: with_registry_pair revokeDevice_def getActiveDeviceId_def demo_registered_def new_background_def new_registry_def
      ensureLoaded_def loadFromStorage_def demo_session_store_def devs_def find_device_def deviceFromSerializable_def deviceToSerializable_def
      demo_device_def Let_def)
  then have revoked: "mr_success (fst (handle demo_henv demo_sender (RevokeDevice ''d1'') demo_registered))"
    by (auto simp: revoke_device_def ok_def ok_response_def Let_def case_prod_beta split: sum.split)
  have "ss_mfaSession (bg_store demo_registered) = Some \<lparr>sessionToken = ''t'', mfaVerifiedAt = 0, expiry = 300000, sess_deviceName = None\<rparr>"
    by (simp add: demo_registered_def new_background_def bg_store_def pw_store_def new_registry_def demo_session_store_def)
  then have active: "fst (getSession (he_now ?env) (bg_store demo_registered)) \<noteq> None" by (simp add: getSession_def demo_henv_def)
  have "mr_success (fst (handle ?env demo_sender CheckSession (snd (handle demo_henv demo_sender (RevokeDevice ''d1'') demo_registered))))"
    by (simp add: check_session_def performSilentReauth_def ok_def ok_response_def case_prod_beta)
  with revocation_leaves_session [OF revoked, of False "\<lambda>s. None" 0 "[]" False empty_storage ?env demo_sender] active
  show ?thesis unfolding Let_def by simp
qed

definition demo_assertion :: assertion_payload where
  "demo_assertion = \<lparr>as_status = ''verified'', as_error = None, as_credentialId = Some ''c'', as_tlvComponents = Some [1], as_sessionNonce = Some [2],
     as_origin = Some ''https://lhv.ee'', as_controlCode = Some ''4711'', as_authenticatorData = Some [3], as_signature = Some [4],
     as_clientDataJSON = Some [5]\<rparr>"

definition demo_connected :: "(unit, unit) background" where
  "demo_connected = demo_background\<lparr>bg_transport := Some rtc_world, bg_odoc := connected_doc\<rparr>"

theorem webrtc_assertion_reported_failed_witness:
  "fst (handle demo_henv demo_sender (AssertionComplete demo_assertion) demo_connected) = error_response ''WebRTC send failed''
   \<and> od_channel (bg_odoc (snd (handle demo_henv demo_sender (AssertionComplete demo_assertion) demo_connected))) \<noteq> None"
proof -
  have "as_status demo_assertion = ''verified''" "\<not> assertion_incomplete demo_assertion" "bg_transport demo_connected = Some rtc_world"
    "tw_active rtc_world = Some Webrtc_t" "wr_connected (tw_rtc rtc_world)" "te_offscreen (he_tenv demo_henv)"
    "od_usbDevice (bg_odoc demo_connected) = None"
    by (simp_all add: demo_assertion_def assertion_incomplete_def truthy_text_def demo_connected_def rtc_world_def demo_henv_def
      sample_tenv_def connected_doc_facts)
  from webrtc_assertion_reported_failed [OF this, of demo_sender]
  show ?thesis by (simp add: demo_connected_def connected_doc_facts)
qed

theorem challenge_bound_to_tab_witness:
  "\<exists>pa. ss_pendingAssertion (bg_store (snd (handle (demo_henv\<lparr>he_origin := \<lambda>u. Inr ''https://lhv.ee'', he_sha256 := take 32\<rparr>) demo_sender
       (BeginChallengeAssertion (Some ''10'') None) demo_background))) = Some pa
     \<and> pa_origin pa = ''https://lhv.ee'' \<and> pa_controlCode pa = ''0000''"
proof -
  let ?env = "demo_henv\<lparr>he_origin := \<lambda>u. Inr ''https://lhv.ee'', he_sha256 := take 32\<rparr>"
  have serial: "\<exists>tlv. serializeChallengeComponents \<lparr>ci_tlsBinding = take 32 x, ci_origin = ''https://lhv.ee'', ci_controlCode = ''0000'',
      ci_sessionNonce = replicate 32 7\<rparr> = Inr tlv" for x
    by (subst serialize_Inr_iff) (simp add: input_ok_def challenge_consts utf8_encode_def utf8_char_def)
  have "\<exists>pa. pending_of ?env 4 ''about:blank'' ''https://lhv.ee'' ''0000'' (Some ''10'') None [] = Inr pa"
    using serial [of "utf8_encode (stringify (proof_payload default_sec_fetch
        (computeContentHash (take 32) (page_content ?env ''about:blank'')) ''0000'' 5000))"]
    by (auto simp: pending_of_def deriveChallenge_def buildChallengeProof_def generateSessionNonce_def challenge_consts demo_henv_def Let_def)
  then obtain pa where pa: "pending_of ?env 4 ''about:blank'' ''https://lhv.ee'' ''0000'' (Some ''10'') None [] = Inr pa" by blast
  define env where "env = ?env"
  have env: "he_origin env ''about:blank'' = Inr ''https://lhv.ee''" "getDomCode (he_domCode env) = None" "he_newTab env = Inr (Some 9)"
    by (simp_all add: env_def demo_henv_def getDomCode_def)
  have fresh: "\<not> bg_authInProgress demo_background" "bg_secFetch demo_background = []" by (simp_all add: demo_background_def new_background_def)
  have tab: "snd_tabUrl demo_sender = Some ''about:blank''" by (simp add: demo_sender_def)
  have ok: "mr_success (fst (handle env demo_sender (BeginChallengeAssertion (Some ''10'') None) demo_background))"
    using pa [folded env_def]
    by (simp add: begin_challenge_assertion_def demo_sender_tab tab fresh env ok_def ok_response_def Let_def)
  from challenge_bound_to_tab [OF ok] tab env show ?thesis unfolding env_def by auto
qed

end
