(* ===== verification/Signaling.thy ===== *)
theory Signaling
  imports OffscreenDoc PairingCodes
begin

text \<open>
  The signaling server, \<open>signaling-server/server.js\<close>: rooms in which the extension and the phone exchange their
  session descriptions, the commitment that admits a phone, TURN credentials and revoked devices.

  Texts that may hold emoji are lists of code points. Socket.IO is outside the repository: its state is a type variable and
  its operations are the record \<open>socket_io\<close>; what the server relies on is \<open>socket_io_laws\<close>. The hash functions of
  \<open>node:crypto\<close>, the clock and the variables of the process are the record \<open>node_env\<close>.
\<close>

section \<open>Texts\<close>

type_synonym ctext = "nat list"

definition lit :: "string \<Rightarrow> ctext" where
  "lit s = map of_char s"

definition surrogate :: "nat \<Rightarrow> bool" where
  "surrogate n \<longleftrightarrow> 0xD800 \<le> n \<and> n < 0xE000"

text \<open>\<open>Buffer.from(text)\<close>; a lone surrogate is written as U+FFFD.\<close>

definition utf8_point :: "nat \<Rightarrow> bytes" where
  "utf8_point n = map word_of_nat
     (if n < 0x80 then [n]
      else if n < 0x800 then [192 + n div 64, 128 + n mod 64]
      else if surrogate n then [0xEF, 0xBF, 0xBD]
      else if n < 0x10000 then [224 + n div 4096, 128 + n div 64 mod 64, 128 + n mod 64]
      else [240 + n div 262144, 128 + n div 4096 mod 64, 128 + n div 64 mod 64, 128 + n mod 64])"

definition Buffer_from :: "ctext \<Rightarrow> bytes" where
  "Buffer_from t = concat (map utf8_point t)"

text \<open>A room code as a client may send it: a text, or a number, which the tests and templates print.\<close>

datatype sas_value = SasText ctext | SasNumber nat

fun sas_string :: "sas_value \<Rightarrow> ctext" where
  "sas_string (SasText t) = t"
| "sas_string (SasNumber n) = lit (show_nat n)"

fun sas_truthy :: "sas_value option \<Rightarrow> bool" where
  "sas_truthy None = False"
| "sas_truthy (Some (SasText t)) = (t \<noteq> [])"
| "sas_truthy (Some (SasNumber n)) = (n \<noteq> 0)"

definition ROOM_PREFIX :: ctext where "ROOM_PREFIX = lit ''smartid2::''"
definition ROOM_TTL_MS :: millis where "ROOM_TTL_MS = 30000"
definition TURN_CREDENTIAL_TTL :: int where "TURN_CREDENTIAL_TTL = 300"
definition REVOCATION_TTL_MS :: millis where "REVOCATION_TTL_MS = 24 * 60 * 60 * 1000"

definition SAS_NUMERIC_RE :: "ctext \<Rightarrow> bool" where
  "SAS_NUMERIC_RE t \<longleftrightarrow> length t = 6 \<and> list_all (\<lambda>c. 48 \<le> c \<and> c \<le> 57) t"

definition emoji_point :: "nat \<Rightarrow> bool" where
  "emoji_point c \<longleftrightarrow> 0x1F300 \<le> c \<and> c \<le> 0x1F9FF \<or> 0x2600 \<le> c \<and> c \<le> 0x26FF \<or> 0x2700 \<le> c \<and> c \<le> 0x27BF"

definition SAS_EMOJI_RE :: "ctext \<Rightarrow> bool" where
  "SAS_EMOJI_RE t \<longleftrightarrow> length t = 3 \<and> list_all emoji_point t"

definition isValidSasCode :: "sas_value \<Rightarrow> bool" where
  "isValidSasCode v \<longleftrightarrow> SAS_NUMERIC_RE (sas_string v) \<or> SAS_EMOJI_RE (sas_string v)"

section \<open>State\<close>

record room =
  rm_peers :: "nat list"
  rm_timeout :: "millis option"

record room_meta =
  mt_sasCode :: sas_value
  mt_nonce :: numbers
  mt_extensionStaticKey :: numbers
  mt_createdAt :: millis

record turn_credential =
  tc_username :: string
  tc_password :: string
  tc_ttl :: int
  tc_urls :: "string list"
  tc_stunUrls :: "string list"

record handshake =
  hs_deviceId :: "ctext option"
  hs_commitment :: "ctext option"

datatype emission =
    ErrorMessage string
  | ErrorCode string
  | RoomJoined nat "turn_credential option"
  | Relayed string string

record 'io socket_io =
  io_new :: 'io
  io_open :: "nat \<Rightarrow> handshake \<Rightarrow> 'io \<Rightarrow> 'io"
  io_join :: "nat \<Rightarrow> ctext \<Rightarrow> 'io \<Rightarrow> 'io"
  io_disconnect :: "nat \<Rightarrow> 'io \<Rightarrow> 'io"
  io_sockets :: "'io \<Rightarrow> (nat, handshake) jsmap"
  io_members :: "'io \<Rightarrow> ctext \<Rightarrow> nat list"

record 'io server =
  sv_rooms :: "(ctext, room) jsmap"
  sv_pendingCredentials :: "(ctext, turn_credential) jsmap"
  sv_roomMetadata :: "(ctext, room_meta) jsmap"
  sv_revokedDevices :: "(ctext, millis) jsmap"
  sv_io :: 'io
  sv_emitted :: "(nat \<times> emission) list"

record 'io node_env =
  ne_now :: millis
  ne_sha256 :: "bytes \<Rightarrow> bytes"
  ne_hmacSha1 :: "bytes \<Rightarrow> bytes \<Rightarrow> bytes"
  ne_hmacSha256 :: "bytes \<Rightarrow> bytes \<Rightarrow> bytes"
  ne_turnSecret :: "string option"
  ne_turnServers :: "string option"
  ne_revokeSecret :: "string option"
  ne_io :: "'io socket_io"

definition new_server :: "'io socket_io \<Rightarrow> 'io server" where
  "new_server S = \<lparr>sv_rooms = [], sv_pendingCredentials = [], sv_roomMetadata = [], sv_revokedDevices = [], sv_io = io_new S,
     sv_emitted = []\<rparr>"

text \<open>What the server relies on of Socket.IO: a socket is connected from its connection to its disconnection and
  keeps its handshake; joining puts a connected socket into a room and nothing else does, for the rooms of this
  server; a socket that disconnects leaves every room.\<close>

definition socket_io_laws :: "'io socket_io \<Rightarrow> bool" where
  "socket_io_laws S \<longleftrightarrow>
     io_sockets S (io_new S) = [] \<and> (\<forall>r. io_members S (io_new S) (ROOM_PREFIX @ r) = []) \<and>
     (\<forall>i h s. io_sockets S (io_open S i h s) = jsmap_set i h (io_sockets S s)) \<and>
     (\<forall>i h s r. io_members S (io_open S i h s) (ROOM_PREFIX @ r) = io_members S s (ROOM_PREFIX @ r)) \<and>
     (\<forall>i r s. io_sockets S (io_join S i r s) = io_sockets S s) \<and>
     (\<forall>i r r' s. set (io_members S (io_join S i r s) r') = (if r' = r then insert i (set (io_members S s r')) else set (io_members S s r'))) \<and>
     (\<forall>i s. io_sockets S (io_disconnect S i s) = jsmap_delete i (io_sockets S s)) \<and>
     (\<forall>i r s. set (io_members S (io_disconnect S i s) r) = set (io_members S s r) - {i})"

section \<open>Operations\<close>

definition sv_emit :: "nat \<Rightarrow> emission \<Rightarrow> 'io server \<Rightarrow> 'io server" where
  "sv_emit i e s = s\<lparr>sv_emitted := sv_emitted s @ [(i, e)]\<rparr>"

definition purgeRevoked :: "'io node_env \<Rightarrow> 'io server \<Rightarrow> 'io server" where
  "purgeRevoked env s = s\<lparr>sv_revokedDevices := filter (\<lambda>(_, expiry). \<not> ne_now env > expiry) (sv_revokedDevices s)\<rparr>"

definition isDeviceRevoked :: "'io node_env \<Rightarrow> ctext \<Rightarrow> 'io server \<Rightarrow> bool \<times> 'io server" where
  "isDeviceRevoked env deviceId s =
     (case jsmap_get (sv_revokedDevices s) deviceId of
        None \<Rightarrow> (False, s)
      | Some expiry \<Rightarrow>
          if expiry = 0 then (False, s)
          else if ne_now env > expiry then (False, s\<lparr>sv_revokedDevices := jsmap_delete deviceId (sv_revokedDevices s)\<rparr>)
          else (True, s))"

definition getRoom :: "ctext \<Rightarrow> 'io server \<Rightarrow> room \<times> 'io server" where
  "getRoom roomId s =
     (case jsmap_get (sv_rooms s) roomId of
        Some room \<Rightarrow> (room, s)
      | None \<Rightarrow> let room = \<lparr>rm_peers = [], rm_timeout = None\<rparr> in (room, s\<lparr>sv_rooms := jsmap_set roomId room (sv_rooms s)\<rparr>))"

definition set_room :: "ctext \<Rightarrow> room \<Rightarrow> 'io server \<Rightarrow> 'io server" where
  "set_room roomId room s = s\<lparr>sv_rooms := jsmap_set roomId room (sv_rooms s)\<rparr>"

definition scheduleCleanup :: "millis \<Rightarrow> room \<Rightarrow> room" where
  "scheduleCleanup now room = room\<lparr>rm_timeout := Some (now + ROOM_TTL_MS)\<rparr>"

text \<open>The timer of a room; it is armed as long as \<open>rm_timeout\<close> holds the time it is due.\<close>

definition cleanupFires :: "'io node_env \<Rightarrow> ctext \<Rightarrow> 'io server \<Rightarrow> 'io server" where
  "cleanupFires env roomId s =
     (case Option.bind (jsmap_get (sv_rooms s) roomId) rm_timeout of
        None \<Rightarrow> s
      | Some due \<Rightarrow>
          if due \<le> ne_now env then
            s\<lparr>sv_rooms := jsmap_delete roomId (sv_rooms s), sv_pendingCredentials := jsmap_delete roomId (sv_pendingCredentials s),
              sv_roomMetadata := jsmap_delete roomId (sv_roomMetadata s)\<rparr>
          else s)"

definition verifyCommitment :: "'io node_env \<Rightarrow> room_meta \<Rightarrow> ctext \<Rightarrow> bool" where
  "verifyCommitment env metadata commitment =
     (commitment \<noteq> [] \<and> length (mt_nonce metadata) = 32 \<and>
      (case mt_sasCode metadata of
         SasNumber _ \<Rightarrow> False
       | SasText sasCode \<Rightarrow>
           (let expected = base64urlEncode (ne_sha256 env
                  (new_Uint8Array (mt_extensionStaticKey metadata) @ new_Uint8Array (mt_nonce metadata) @ Buffer_from sasCode));
                commitmentBuf = Buffer_from commitment; expectedBuf = utf8_encode expected
            in length commitmentBuf = length expectedBuf \<and> commitmentBuf = expectedBuf)))"

definition TURN_SERVERS :: "'io node_env \<Rightarrow> string list" where
  "TURN_SERVERS env = split_on CHR '','' (nullish (ne_turnServers env) ''turn:localhost:3478'')"

definition generateTurnCredentials :: "'io node_env \<Rightarrow> string \<Rightarrow> turn_credential option" where
  "generateTurnCredentials env roomId =
     (case ne_turnSecret env of
        None \<Rightarrow> None
      | Some secret \<Rightarrow>
          if secret = [] then None
          else
           (let timestamp = ne_now env div 1000 + TURN_CREDENTIAL_TTL;
                username = show_int timestamp @ '':'' @ roomId
            in Some \<lparr>tc_username = username, tc_password = btoa (ne_hmacSha1 env (utf8_encode secret) (utf8_encode username)),
                 tc_ttl = TURN_CREDENTIAL_TTL, tc_urls = map (\<lambda>s. ''turn:'' @ s) (TURN_SERVERS env),
                 tc_stunUrls = map (\<lambda>s. ''stun:'' @ s) (TURN_SERVERS env)\<rparr>))"

section \<open>HTTP\<close>

definition error_body :: "string \<Rightarrow> json" where
  "error_body m = JObj [(''error'', JStr m)]"

definition creds_json :: "turn_credential \<Rightarrow> json" where
  "creds_json c = JObj [(''username'', JStr (tc_username c)), (''password'', JStr (tc_password c)), (''ttl'', JNum (tc_ttl c)),
     (''urls'', JArr (map JStr (tc_urls c))), (''stunUrls'', JArr (map JStr (tc_stunUrls c)))]"

definition getTurnCredentials :: "'io node_env \<Rightarrow> string option \<Rightarrow> 'io server \<Rightarrow> (nat \<times> json) \<times> 'io server" where
  "getTurnCredentials env header s =
     (let roomId = nullish header [] in
      if roomId = [] then ((400, error_body ''Missing x-room-id header''), s)
      else
       (case generateTurnCredentials env roomId of
          None \<Rightarrow> ((503, error_body ''TURN credentials unavailable: TURN_SECRET not configured''), s)
        | Some c \<Rightarrow> ((200, creds_json c), s\<lparr>sv_pendingCredentials := jsmap_set (lit roomId) c (sv_pendingCredentials s)\<rparr>)))"

text \<open>The listener of \<open>disconnect\<close>, after Socket.IO has taken the socket out of its rooms.\<close>

definition leave_room :: "millis \<Rightarrow> nat \<Rightarrow> room \<Rightarrow> room" where
  "leave_room now i room =
     (if i \<in> set (rm_peers room) then
       (let room1 = room\<lparr>rm_peers := removeAll i (rm_peers room)\<rparr>
        in if rm_peers room1 = [] then scheduleCleanup now room1 else room1)
      else room)"

definition onDisconnect :: "'io node_env \<Rightarrow> nat \<Rightarrow> 'io server \<Rightarrow> 'io server" where
  "onDisconnect env i s = s\<lparr>sv_rooms := map (\<lambda>(roomId, room). (roomId, leave_room (ne_now env) i room)) (sv_rooms s)\<rparr>"

definition disconnect :: "'io node_env \<Rightarrow> nat \<Rightarrow> 'io server \<Rightarrow> 'io server" where
  "disconnect env i s = onDisconnect env i (s\<lparr>sv_io := io_disconnect (ne_io env) i (sv_io s)\<rparr>)"

definition sv_sockets :: "'io node_env \<Rightarrow> 'io server \<Rightarrow> (nat, handshake) jsmap" where
  "sv_sockets env s = io_sockets (ne_io env) (sv_io s)"

definition drop_device :: "'io node_env \<Rightarrow> ctext \<Rightarrow> 'io server \<Rightarrow> 'io server" where
  "drop_device env deviceId s =
     fold (\<lambda>(i, h) s. if hs_deviceId h = Some deviceId then disconnect env i (sv_emit i (ErrorMessage ''Device revoked'') s) else s)
       (sv_sockets env s) s"

text \<open>The authorization of a revocation: \<open>Inl\<close> is the exception of \<open>timingSafeEqual\<close>, which compares buffers of
  equal length only.\<close>

definition revoke_authorized :: "'io node_env \<Rightarrow> string \<Rightarrow> string option \<Rightarrow> string \<Rightarrow> unit + bool" where
  "revoke_authorized env secret authHeader deviceId =
     (let expected = ''Bearer '' @ to_hex (ne_hmacSha256 env (utf8_encode secret) (utf8_encode deviceId));
          header = nullish authHeader []
      in if header = [] \<or> length header \<noteq> length expected then Inr False
         else if length (utf8_encode header) \<noteq> length (utf8_encode expected) then Inl ()
         else Inr (utf8_encode header = utf8_encode expected))"

definition revoke_device_id :: "string \<Rightarrow> unit + string option" where
  "revoke_device_id body =
     (case json_parse body of
        None \<Rightarrow> Inl ()
      | Some JNull \<Rightarrow> Inl ()
      | Some v \<Rightarrow> Inr (case jget v ''deviceId'' of Some (JStr d) \<Rightarrow> if d = [] then None else Some d | _ \<Rightarrow> None))"

definition revoke_secret :: "'io node_env \<Rightarrow> string option" where
  "revoke_secret env = (case ne_revokeSecret env of Some s \<Rightarrow> if s = [] then None else Some s | None \<Rightarrow> None)"

definition do_revoke :: "'io node_env \<Rightarrow> string \<Rightarrow> 'io server \<Rightarrow> (nat \<times> json) \<times> 'io server" where
  "do_revoke env deviceId s =
     ((200, JObj [(''success'', JBool True), (''deviceId'', JStr deviceId)]),
      drop_device env (lit deviceId)
        (s\<lparr>sv_revokedDevices := jsmap_set (lit deviceId) (ne_now env + REVOCATION_TTL_MS) (sv_revokedDevices s)\<rparr>))"

definition postRevoke :: "'io node_env \<Rightarrow> string option \<Rightarrow> string \<Rightarrow> 'io server \<Rightarrow> (nat \<times> json) \<times> 'io server" where
  "postRevoke env authHeader body s =
     (if revoke_secret env \<noteq> None \<and> nullish authHeader [] = [] then ((401, error_body ''Missing authorization header''), s)
      else
       (case revoke_device_id body of
          Inl _ \<Rightarrow> ((400, error_body ''Invalid JSON body''), s)
        | Inr None \<Rightarrow> ((400, error_body ''Missing or invalid deviceId''), s)
        | Inr (Some deviceId) \<Rightarrow>
            (case revoke_secret env of
               None \<Rightarrow> do_revoke env deviceId s
             | Some secret \<Rightarrow>
                 (case revoke_authorized env secret authHeader deviceId of
                    Inl _ \<Rightarrow> ((400, error_body ''Invalid JSON body''), s)
                  | Inr False \<Rightarrow> ((401, error_body ''Invalid authorization''), s)
                  | Inr True \<Rightarrow> do_revoke env deviceId s))))"

definition getStatus :: "'io server \<Rightarrow> nat \<times> json" where
  "getStatus s = (200, JObj [(''status'', JStr ''ok''), (''rooms'', JNum (int (length (sv_rooms s))))])"

section \<open>Sockets\<close>

text \<open>A refused socket has no listeners yet.\<close>

definition onConnection :: "'io node_env \<Rightarrow> nat \<Rightarrow> handshake \<Rightarrow> 'io server \<Rightarrow> 'io server" where
  "onConnection env i h s =
     (let s0 = s\<lparr>sv_io := io_open (ne_io env) i h (sv_io s)\<rparr> in
      case hs_deviceId h of
        None \<Rightarrow> s0
      | Some deviceId \<Rightarrow>
          if deviceId = [] then s0
          else
           (case isDeviceRevoked env deviceId s0 of
              (True, s1) \<Rightarrow> (sv_emit i (ErrorMessage ''Device revoked'') s1)\<lparr>sv_io := io_disconnect (ne_io env) i (sv_io s1)\<rparr>
            | (False, s1) \<Rightarrow> s1))"

text \<open>What both ways into a room end with: the timer of the room is cleared, the socket joins it and is told.\<close>

definition enter_room :: "'io node_env \<Rightarrow> nat \<Rightarrow> ctext \<Rightarrow> 'io server \<Rightarrow> 'io server" where
  "enter_room env i roomId s =
     (case getRoom roomId s of
        (room, s1) \<Rightarrow>
          (let room1 = \<lparr>rm_peers = (if i \<in> set (rm_peers room) then rm_peers room else rm_peers room @ [i]), rm_timeout = None\<rparr>;
               s2 = (set_room roomId room1 s1)\<lparr>sv_io := io_join (ne_io env) i roomId (sv_io s1)\<rparr>
           in sv_emit i (RoomJoined (length (rm_peers room1)) (jsmap_get (sv_pendingCredentials s2) roomId)) s2))"

record register_data =
  rd_sasCode :: "sas_value option"
  rd_nonce :: "numbers option"
  rd_extensionStaticKey :: "numbers option"
  rd_roomId :: "ctext option"

definition register_room :: "'io node_env \<Rightarrow> nat \<Rightarrow> register_data \<Rightarrow> 'io server \<Rightarrow> 'io server" where
  "register_room env i data s =
     (if \<not> sas_truthy (rd_sasCode data) \<or> \<not> isValidSasCode (the (rd_sasCode data)) \<or> nullish (rd_roomId data) [] = []
      then sv_emit i (ErrorMessage ''Invalid register-room data'') s
      else if (case rd_nonce data of None \<Rightarrow> True | Some n \<Rightarrow> length n \<noteq> 32)
      then sv_emit i (ErrorMessage ''Invalid nonce: must be 32-byte array'') s
      else if (case rd_extensionStaticKey data of None \<Rightarrow> True | Some k \<Rightarrow> length k < 32)
      then sv_emit i (ErrorMessage ''Invalid extensionStaticKey: must be at least 32-byte array'') s
      else
       (let roomId = the (rd_roomId data);
            s1 = s\<lparr>sv_roomMetadata := jsmap_set roomId
                   \<lparr>mt_sasCode = the (rd_sasCode data), mt_nonce = the (rd_nonce data),
                    mt_extensionStaticKey = the (rd_extensionStaticKey data), mt_createdAt = ne_now env\<rparr> (sv_roomMetadata s)\<rparr>
        in enter_room env i roomId s1))"

definition join_room :: "'io node_env \<Rightarrow> nat \<Rightarrow> handshake \<Rightarrow> sas_value option \<Rightarrow> 'io server \<Rightarrow> 'io server" where
  "join_room env i h sasCode s =
     (if \<not> sas_truthy sasCode \<or> \<not> isValidSasCode (the sasCode) then sv_emit i (ErrorMessage ''Invalid room code'') s
      else
       (let roomId = ROOM_PREFIX @ sas_string (the sasCode) in
        case jsmap_get (sv_roomMetadata s) roomId of
          None \<Rightarrow> disconnect env i (sv_emit i (ErrorCode ''room_not_ready'') s)
        | Some metadata \<Rightarrow>
            if nullish (hs_commitment h) [] = [] \<or> \<not> verifyCommitment env metadata (the (hs_commitment h))
            then disconnect env i (sv_emit i (ErrorCode ''invalid_commitment'') s)
            else enter_room env i roomId s))"

text \<open>\<open>socket.to(room).emit(kind, payload)\<close>, for the kinds \<open>sdp-offer\<close>, \<open>sdp-answer\<close> and \<open>ice-candidate\<close>.\<close>

definition relay :: "'io node_env \<Rightarrow> nat \<Rightarrow> string \<Rightarrow> sas_value option \<Rightarrow> string \<Rightarrow> 'io server \<Rightarrow> 'io server" where
  "relay env i kind sasCode payload s =
     (if \<not> sas_truthy sasCode \<or> \<not> isValidSasCode (the sasCode) then s
      else fold (\<lambda>j. sv_emit j (Relayed kind payload))
             (removeAll i (io_members (ne_io env) (sv_io s) (ROOM_PREFIX @ sas_string (the sasCode)))) s)"

section \<open>Events\<close>

datatype sv_event =
    TurnRequest "string option"
  | RevokeRequest "string option" string
  | SocketConnects nat handshake
  | RegisterRoomMsg nat register_data
  | JoinRoomMsg nat "sas_value option"
  | RelayMsg nat string "sas_value option" string
  | SocketDisconnects nat
  | CleanupTimer ctext
  | PurgeTimer

text \<open>An event of a socket needs the socket; a new socket has a new identifier.\<close>

fun sv_exec :: "'io node_env \<times> sv_event \<Rightarrow> 'io server \<Rightarrow> 'io server" where
  "sv_exec (env, TurnRequest header) s = snd (getTurnCredentials env header s)"
| "sv_exec (env, RevokeRequest auth body) s = snd (postRevoke env auth body s)"
| "sv_exec (env, SocketConnects i h) s = (if jsmap_has (sv_sockets env s) i then s else onConnection env i h s)"
| "sv_exec (env, RegisterRoomMsg i data) s = (if jsmap_has (sv_sockets env s) i then register_room env i data s else s)"
| "sv_exec (env, JoinRoomMsg i code) s =
     (case jsmap_get (sv_sockets env s) i of None \<Rightarrow> s | Some h \<Rightarrow> join_room env i h code s)"
| "sv_exec (env, RelayMsg i kind code payload) s = (if jsmap_has (sv_sockets env s) i then relay env i kind code payload s else s)"
| "sv_exec (env, SocketDisconnects i) s = (if jsmap_has (sv_sockets env s) i then disconnect env i s else s)"
| "sv_exec (env, CleanupTimer roomId) s = cleanupFires env roomId s"
| "sv_exec (env, PurgeTimer) s = purgeRevoked env s"


section \<open>The rooms\<close>

definition peers_of :: "'io server \<Rightarrow> ctext \<Rightarrow> nat list" where
  "peers_of s r = (case jsmap_get (sv_rooms s) r of None \<Rightarrow> [] | Some room \<Rightarrow> rm_peers room)"

definition room_ok :: "(nat, handshake) jsmap \<Rightarrow> room \<Rightarrow> bool" where
  "room_ok socks room \<longleftrightarrow> distinct (rm_peers room) \<and> (rm_timeout room = None \<longleftrightarrow> rm_peers room \<noteq> [])
     \<and> list_all (jsmap_has socks) (rm_peers room)"

definition sv_inv :: "'io socket_io \<Rightarrow> 'io server \<Rightarrow> bool" where
  "sv_inv S s \<longleftrightarrow> socket_io_laws S
     \<and> (\<forall>r. jsmap_has (sv_rooms s) r = jsmap_has (sv_roomMetadata s) r)
     \<and> (\<forall>r room. jsmap_get (sv_rooms s) r = Some room \<longrightarrow> room_ok (io_sockets S (sv_io s)) room)
     \<and> (\<forall>c. set (io_members S (sv_io s) (ROOM_PREFIX @ c)) = set (peers_of s (ROOM_PREFIX @ c)))"

lemma sv_inv_room: "sv_inv S s \<Longrightarrow> jsmap_get (sv_rooms s) r = Some room \<Longrightarrow> room_ok (io_sockets S (sv_io s)) room"
  by (simp add: sv_inv_def)

lemma sv_inv_new: "socket_io_laws S \<Longrightarrow> sv_inv S (new_server S)"
  by (simp add: sv_inv_def new_server_def socket_io_laws_def peers_of_def jsmap_has_def)

lemma sv_inv_emit [simp]: "sv_inv S (sv_emit i e s) = sv_inv S s"
  by (simp add: sv_inv_def sv_emit_def peers_of_def)

lemma sv_inv_other [simp]:
  "sv_inv S (s\<lparr>sv_pendingCredentials := p\<rparr>) = sv_inv S s" "sv_inv S (s\<lparr>sv_revokedDevices := v\<rparr>) = sv_inv S s"
  by (simp_all add: sv_inv_def peers_of_def)

lemma set_leave_room [simp]: "set (rm_peers (leave_room now i room)) = set (rm_peers room) - {i}"
proof (cases "removeAll i (rm_peers room) = []")
  case True
  then have "set (rm_peers room) - {i} = {}" by (metis set_removeAll empty_set)
  then show ?thesis using True by (auto simp: leave_room_def scheduleCleanup_def Let_def)
qed (auto simp: leave_room_def Let_def)

lemma room_ok_leave:
  assumes "room_ok socks room"
  shows "room_ok (jsmap_delete i socks) (leave_room now i room)"
  using assms by (auto simp: room_ok_def leave_room_def scheduleCleanup_def Let_def list_all_iff jsmap_has_def distinct_removeAll)

lemma sv_inv_disconnect:
  assumes "sv_inv S s" and env: "ne_io env = S"
  shows "sv_inv S (disconnect env i s)"
proof -
  have laws: "socket_io_laws S" using assms by (simp add: sv_inv_def)
  have rooms: "jsmap_get (sv_rooms (disconnect env i s)) r = map_option (leave_room (ne_now env) i) (jsmap_get (sv_rooms s) r)" for r
    by (simp add: disconnect_def onDisconnect_def map_of_map)
  have peers: "set (peers_of (disconnect env i s) r) = set (peers_of s r) - {i}" for r
    by (cases "jsmap_get (sv_rooms s) r") (simp_all add: peers_of_def rooms)
  have io: "sv_io (disconnect env i s) = io_disconnect S i (sv_io s)" "sv_roomMetadata (disconnect env i s) = sv_roomMetadata s"
    by (simp_all add: disconnect_def onDisconnect_def env)
  show ?thesis
    using assms laws by (auto simp: sv_inv_def io peers rooms jsmap_has_def socket_io_laws_def intro: room_ok_leave)
qed

lemma sv_inv_enter:
  assumes inv: "sv_inv S s" and env: "ne_io env = S" and sock: "jsmap_has (io_sockets S (sv_io s)) i"
    and ready: "s' = s\<lparr>sv_roomMetadata := m\<rparr>" "\<forall>r'. jsmap_has m r' = (r' = r \<or> jsmap_has (sv_roomMetadata s) r')"
  shows "sv_inv S (enter_room env i r s')"
proof -
  have laws: "socket_io_laws S" using inv by (simp add: sv_inv_def)
  let ?t = "enter_room env i r s'" and ?p = "peers_of s r"
  let ?room = "\<lparr>rm_peers = (if i \<in> set ?p then ?p else ?p @ [i]), rm_timeout = None\<rparr>"
  have rooms: "jsmap_get (sv_rooms ?t) = (jsmap_get (sv_rooms s))(r \<mapsto> ?room)"
    by (simp add: enter_room_def getRoom_def set_room_def sv_emit_def ready peers_of_def Let_def split: option.split)
  have rest: "sv_roomMetadata ?t = m" "sv_io ?t = io_join S i r (sv_io s)"
    by (simp_all add: enter_room_def getRoom_def set_room_def sv_emit_def ready env Let_def split: option.split)
  have peers: "set (peers_of ?t r') = (if r' = r then insert i (set (peers_of s r')) else set (peers_of s r'))" for r'
    by (auto simp: peers_of_def rooms split: option.split)
  have old: "distinct ?p \<and> list_all (jsmap_has (io_sockets S (sv_io s))) ?p"
    using sv_inv_room [OF inv, of r] by (cases "jsmap_get (sv_rooms s) r") (simp_all add: peers_of_def room_ok_def)
  have "room_ok (io_sockets S (sv_io s)) ?room" using old sock by (auto simp: room_ok_def)
  moreover have "io_sockets S (io_join S i r (sv_io s)) = io_sockets S (sv_io s)"
    "set (io_members S (io_join S i r (sv_io s)) r') = (if r' = r then insert i (set (io_members S (sv_io s) r')) else set (io_members S (sv_io s) r'))" for r'
    using laws by (simp_all add: socket_io_laws_def)
  ultimately show ?thesis
    using inv ready(2) by (auto simp: sv_inv_def rooms rest peers jsmap_has_def split: if_splits)
qed


lemma sv_inv_drop:
  assumes "ne_io env = S"
  shows "sv_inv S s \<Longrightarrow> sv_inv S (drop_device env deviceId s)"
proof -
  have "sv_inv S s \<Longrightarrow> sv_inv S (fold (\<lambda>(i, h) s. if hs_deviceId h = Some deviceId
      then disconnect env i (sv_emit i (ErrorMessage ''Device revoked'') s) else s) hs s)" for hs
    using assms by (induction hs arbitrary: s) (auto simp: sv_inv_disconnect)
  then show "sv_inv S s \<Longrightarrow> sv_inv S (drop_device env deviceId s)" by (simp add: drop_device_def)
qed

lemma sv_inv_revoke:
  assumes "sv_inv S s" "ne_io env = S"
  shows "sv_inv S (snd (postRevoke env auth body s))"
proof -
  have "sv_inv S (snd (do_revoke env d s))" for d using assms by (simp add: do_revoke_def sv_inv_drop)
  then show ?thesis using assms by (simp add: postRevoke_def split: sum.split option.split bool.split)
qed

lemma sv_inv_connection:
  assumes inv: "sv_inv S s" and env: "ne_io env = S" and fresh: "\<not> jsmap_has (io_sockets S (sv_io s)) i"
  shows "sv_inv S (onConnection env i h s)"
proof -
  have laws: "socket_io_laws S" using inv by (simp add: sv_inv_def)
  let ?s0 = "s\<lparr>sv_io := io_open S i h (sv_io s)\<rparr>"
  have grow: "room_ok (jsmap_set i h socks) room" if "room_ok socks room" for socks room
    using that by (auto simp: room_ok_def list_all_iff jsmap_has_def)
  have opened: "sv_inv S ?s0"
    using inv laws by (auto simp: sv_inv_def socket_io_laws_def peers_of_def intro: grow)
  have away: "i \<notin> set (peers_of s r)" for r
    using sv_inv_room [OF inv, of r] fresh by (cases "jsmap_get (sv_rooms s) r") (auto simp: peers_of_def room_ok_def list_all_iff)
  have shrink: "room_ok (jsmap_delete i (jsmap_set i h socks)) room"
    if "room_ok socks room" "i \<notin> set (rm_peers room)" for socks room
    using that by (auto simp: room_ok_def list_all_iff jsmap_has_def)
  have closed: "sv_inv S (s\<lparr>sv_io := io_disconnect S i (io_open S i h (sv_io s))\<rparr>)"
  proof -
    have "i \<notin> set (rm_peers room)" if "jsmap_get (sv_rooms s) r = Some room" for r room
      using away [of r] that by (simp add: peers_of_def)
    moreover have "set (io_members S (sv_io s) (ROOM_PREFIX @ c)) - {i} = set (peers_of s (ROOM_PREFIX @ c))" for c
      using inv away [of "ROOM_PREFIX @ c"] by (auto simp: sv_inv_def)
    ultimately show ?thesis
      using inv laws by (auto simp: sv_inv_def socket_io_laws_def peers_of_def intro!: shrink)
  qed
  have flip: "(t\<lparr>sv_emitted := e\<rparr>)\<lparr>sv_io := o1\<rparr> = (t\<lparr>sv_io := o1\<rparr>)\<lparr>sv_emitted := e\<rparr>" for t :: "'a server" and e o1 by simp
  show ?thesis
    using opened closed
    by (auto simp: onConnection_def isDeviceRevoked_def Let_def env sv_emit_def sv_inv_def peers_of_def split: option.split)
qed

lemma jsmap_has_set [simp]: "jsmap_has (jsmap_set k v m) k' = (k' = k \<or> jsmap_has m k')"
  by (simp add: jsmap_has_def)

lemma sv_inv_cleanup:
  assumes inv: "sv_inv S s" and "ne_io env = S"
  shows "sv_inv S (cleanupFires env r s)"
proof (cases "Option.bind (jsmap_get (sv_rooms s) r) rm_timeout")
  case (Some due)
  then obtain room where room: "jsmap_get (sv_rooms s) r = Some room" "rm_timeout room = Some due"
    by (auto simp: bind_eq_Some_conv)
  then have "peers_of s r = []" using sv_inv_room [OF inv room(1)] by (auto simp: room_ok_def peers_of_def)
  then have "sv_inv S (s\<lparr>sv_rooms := jsmap_delete r (sv_rooms s), sv_roomMetadata := jsmap_delete r (sv_roomMetadata s)\<rparr>)"
    using inv by (auto simp: sv_inv_def peers_of_def jsmap_has_def split: option.splits)
  then show ?thesis using inv Some by (auto simp: cleanupFires_def sv_inv_def peers_of_def)
qed (use inv in \<open>simp add: cleanupFires_def\<close>)

lemma sv_inv_register:
  assumes "sv_inv S s" "ne_io env = S" "jsmap_has (io_sockets S (sv_io s)) i"
  shows "sv_inv S (register_room env i data s)"
  using assms by (auto simp: register_room_def Let_def intro!: sv_inv_enter [OF _ _ _ refl])

lemma sv_inv_join:
  assumes "sv_inv S s" "ne_io env = S" "jsmap_has (io_sockets S (sv_io s)) i"
  shows "sv_inv S (join_room env i h code s)"
proof -
  have "sv_inv S (enter_room env i r s)" if "jsmap_get (sv_roomMetadata s) r = Some m" for r m
  proof (rule sv_inv_enter [OF assms])
    show "s = s\<lparr>sv_roomMetadata := sv_roomMetadata s\<rparr>" by simp
    show "\<forall>r'. jsmap_has (sv_roomMetadata s) r' = (r' = r \<or> jsmap_has (sv_roomMetadata s) r')" using that by (auto simp: jsmap_has_def)
  qed
  then show ?thesis using assms by (auto simp: join_room_def Let_def sv_inv_disconnect split: option.split)
qed

lemma sv_inv_relay: "sv_inv S s \<Longrightarrow> sv_inv S (relay env i kind code payload s)"
proof -
  have "sv_inv S s \<Longrightarrow> sv_inv S (fold (\<lambda>j. sv_emit j e) js s)" for js e
    by (induction js arbitrary: s) simp_all
  then show "sv_inv S s \<Longrightarrow> sv_inv S (relay env i kind code payload s)" by (simp add: relay_def)
qed

interpretation sv_events: event_system sv_exec "\<lambda>x. ne_io (fst x) = S" "sv_inv S" for S
proof
  fix s and x :: "'a node_env \<times> sv_event"
  assume inv: "sv_inv S s" and env: "ne_io (fst x) = S"
  show "sv_inv S (sv_exec x s)"
  proof (cases "(x, s)" rule: sv_exec.cases)
    case (1 e header s')
    then show ?thesis using inv by (simp add: getTurnCredentials_def Let_def split: option.split)
  next
    case (5 e i code s')
    then show ?thesis using inv env by (auto simp: sv_sockets_def jsmap_has_def intro: sv_inv_join split: option.split)
  qed (use inv env in \<open>simp_all add: sv_sockets_def sv_inv_revoke sv_inv_connection sv_inv_register sv_inv_relay
      sv_inv_disconnect sv_inv_cleanup purgeRevoked_def\<close>)
qed



section \<open>Admission\<close>

lemma utf8_point_ascii: "n < 128 \<Longrightarrow> utf8_point n = [word_of_nat n]"
  by (simp add: utf8_point_def)

lemma utf8_point_high:
  assumes "128 \<le> n" "n < 0x110000"
  shows "\<exists>b bs. utf8_point n = b # bs \<and> 128 \<le> unat b"
proof -
  have "n div 64 < 0x20" if "n < 0x800" using that by simp
  moreover have "n div 4096 < 16" if "n < 0x10000" using that by simp
  moreover have "n div 262144 < 5" using assms by simp
  ultimately obtain m ms where "utf8_point n = map word_of_nat (m # ms)" and m: "128 \<le> m" "m < 256"
    using assms unfolding utf8_point_def
    by (cases "n < 0x800"; cases "surrogate n"; cases "n < 0x10000") (simp_all del: list.map(2))
  then show ?thesis by (simp add: unat_byte_of_nat m)
qed

lemma Buffer_from_ascii: "is_ascii s \<Longrightarrow> Buffer_from (lit s) = utf8_encode s"
  by (induction s) (auto simp: Buffer_from_def lit_def utf8_encode_def is_ascii_def utf8_char_def utf8_point_ascii)

lemma Buffer_from_eq_ascii:
  assumes "is_ascii s" "list_all (\<lambda>n. n < 0x110000) t"
  shows "Buffer_from t = utf8_encode s \<longleftrightarrow> t = lit s"
proof
  assume "Buffer_from t = utf8_encode s"
  then show "t = lit s" using assms
  proof (induction t arbitrary: s)
    case Nil
    then show ?case by (cases s) (auto simp: Buffer_from_def lit_def utf8_encode_def utf8_char_def Let_def split: if_splits)
  next
    case (Cons n t)
    show ?case
    proof (cases s)
      case Nil
      then show ?thesis using Cons.prems by (simp add: Buffer_from_def utf8_encode_def utf8_point_def split: if_splits)
    next
      case (Cons c s')
      then have c: "utf8_encode s = word_of_nat (of_char c) # utf8_encode s'" "of_char c < (128 :: nat)" "is_ascii s'"
        using Cons.prems by (simp_all add: utf8_encode_def is_ascii_def utf8_char_def)
      have low: "n < 128"
      proof (rule ccontr)
        assume "\<not> n < 128"
        then obtain b bs where "utf8_point n = b # bs" "128 \<le> unat b" using utf8_point_high [of n] Cons.prems by auto
        then show False using Cons.prems(1) c by (auto simp: Buffer_from_def unat_of_nat)
      qed
      then have "word_of_nat n = (word_of_nat (of_char c) :: byte)" "Buffer_from t = utf8_encode s'"
        using Cons.prems(1) c(1) by (simp_all add: Buffer_from_def utf8_point_ascii)
      moreover from this have "unat (word_of_nat n :: byte) = unat (word_of_nat (of_char c) :: byte)" by simp
      then have "n = of_char c" using low c(2) by (simp add: unat_byte_of_nat)
      ultimately show ?thesis using Cons.IH [of s'] Cons.prems c \<open>s = c # s'\<close> by (simp add: lit_def)
    qed
  qed
qed (use assms Buffer_from_ascii in simp)


lemma base64url_ascii: "is_ascii (base64urlEncode bs)"
proof -
  have "of_char (url_char (b64_char n)) < (128 :: nat)" if "n < 64" for n
    using that of_char_b64_char [of n] by (auto simp: url_char_def)
  then show ?thesis by (auto simp: base64urlEncode_eq is_ascii_def list_all_iff dest: to_sextets_less)
qed

lemma toBase64Url_fun: "toBase64Url = base64urlEncode"
  by (simp add: fun_eq_iff toBase64Url_def base64urlEncode_def)

lemma sas_code_ascii: "is_sas_code code \<Longrightarrow> is_ascii code"
  by (auto simp: is_sas_code_def is_ascii_def list_all_iff is_digit_char_iff)

lemma sas_code_valid: "is_sas_code code \<Longrightarrow> sas_truthy (Some (SasText (lit code))) \<and> isValidSasCode (SasText (lit code))"
  by (auto simp: is_sas_code_def isValidSasCode_def SAS_NUMERIC_RE_def lit_def list_all_iff is_digit_char_iff SAS_LENGTH_def)

definition pairing_meta :: "bytes \<Rightarrow> bytes \<Rightarrow> string \<Rightarrow> millis \<Rightarrow> room_meta" where
  "pairing_meta key nonce code now = \<lparr>mt_sasCode = SasText (lit code), mt_nonce = Array_from nonce,
     mt_extensionStaticKey = Array_from key, mt_createdAt = now\<rparr>"

lemma verifyCommitment_iff:
  assumes "is_sas_code code" "length nonce = 32" "list_all (\<lambda>n. n < 0x110000) commitment"
  shows "commitment \<noteq> [] \<and> verifyCommitment env (pairing_meta key nonce code now) commitment
    \<longleftrightarrow> commitment \<noteq> [] \<and> commitment = lit (computeCommitment (ne_sha256 env) key nonce code)"
proof -
  let ?e = "base64urlEncode (ne_sha256 env (key @ nonce @ utf8_encode code))"
  have "Buffer_from commitment = utf8_encode ?e \<longleftrightarrow> commitment = lit ?e"
    using Buffer_from_eq_ascii base64url_ascii assms(3) by blast
  moreover have "Buffer_from (lit code) = utf8_encode code" using Buffer_from_ascii sas_code_ascii assms(1) by blast
  ultimately show ?thesis
    using assms(2) by (auto simp: verifyCommitment_def pairing_meta_def computeCommitment_def toBase64Url_fun Let_def)
qed

lemma enter_room_member: "i \<in> set (peers_of (enter_room env i r s) r)"
  by (simp add: enter_room_def getRoom_def set_room_def sv_emit_def peers_of_def Let_def split: option.split)

lemma enter_room_told:
  "\<exists>c. last (sv_emitted (enter_room env i r s)) = (i, RoomJoined (length (peers_of (enter_room env i r s) r)) c)"
  by (simp add: enter_room_def getRoom_def set_room_def sv_emit_def peers_of_def Let_def split: option.split)

lemma disconnect_gone:
  assumes "sv_inv S s" "ne_io env = S"
  shows "\<not> jsmap_has (sv_sockets env (disconnect env i s)) i \<and> i \<notin> set (peers_of (disconnect env i s) r)"
proof -
  have inv: "sv_inv S (disconnect env i s)" using assms by (rule sv_inv_disconnect)
  have out: "\<not> jsmap_has (sv_sockets env (disconnect env i s)) i"
    using assms by (simp add: sv_sockets_def disconnect_def onDisconnect_def sv_inv_def socket_io_laws_def jsmap_has_def)
  have "list_all (jsmap_has (sv_sockets env (disconnect env i s))) (peers_of (disconnect env i s) r)"
    using sv_inv_room [OF inv, of r] assms(2)
    by (cases "jsmap_get (sv_rooms (disconnect env i s)) r") (simp_all add: peers_of_def room_ok_def sv_sockets_def)
  then show ?thesis using out by (auto simp: list_all_iff)
qed

definition register_of :: "string \<Rightarrow> bytes \<Rightarrow> bytes \<Rightarrow> register_data" where
  "register_of code nonce key = \<lparr>rd_sasCode = Some (SasText (lit code)), rd_nonce = Some (Array_from nonce),
     rd_extensionStaticKey = Some (Array_from key), rd_roomId = Some (ROOM_PREFIX @ lit code)\<rparr>"

lemma register_of_meta:
  assumes "is_sas_code code" "length nonce = 32" "32 \<le> length key"
  shows "jsmap_get (sv_roomMetadata (register_room env i (register_of code nonce key) s)) (ROOM_PREFIX @ lit code)
      = Some (pairing_meta key nonce code (ne_now env))
    \<and> sv_io (register_room env i (register_of code nonce key) s) = io_join (ne_io env) i (ROOM_PREFIX @ lit code) (sv_io s)"
  using assms sas_code_valid [OF assms(1)]
  by (simp add: register_room_def register_of_def enter_room_def getRoom_def set_room_def sv_emit_def pairing_meta_def ROOM_PREFIX_def
      lit_def Array_from_def Let_def split: option.split)


section \<open>The extension's own socket\<close>

text \<open>A message the offscreen document emits, as it arrives at the server; \<open>io(url, options)\<close> passes no query.\<close>

definition sas_of :: "string option \<Rightarrow> sas_value option" where
  "sas_of code = map_option (SasText \<circ> lit) code"

fun signal_event :: "nat \<Rightarrow> signal \<Rightarrow> sv_event" where
  "signal_event i (RegisterRoom code n k) = RegisterRoomMsg i \<lparr>rd_sasCode = sas_of code, rd_nonce = Some n,
     rd_extensionStaticKey = Some k, rd_roomId = Some (ROOM_PREFIX @ lit (nullish code ''null''))\<rparr>"
| "signal_event i (JoinRoom code) = JoinRoomMsg i (sas_of code)"
| "signal_event i (SdpOffer code sdp) = RelayMsg i ''sdp-offer'' (sas_of code) sdp"
| "signal_event i (SdpAnswer code sdp) = RelayMsg i ''sdp-answer'' (sas_of code) sdp"
| "signal_event i (IceCandidate code c) = RelayMsg i ''ice-candidate'' (sas_of code) c"


lemma join_without_commitment:
  assumes "sv_inv S s" "ne_io env = S" "sas_truthy code" "isValidSasCode (the code)" "hs_commitment h = None"
  shows "\<not> jsmap_has (sv_sockets env (join_room env i h code s)) i \<and> i \<notin> set (peers_of (join_room env i h code s) r)"
  using assms disconnect_gone [of S "sv_emit i _ s" env i r] by (simp add: join_room_def Let_def split: option.split)

lemma register_keeps_sockets:
  assumes "sv_inv S s" "ne_io env = S"
  shows "io_sockets S (sv_io (register_room env i data s)) = io_sockets S (sv_io s)"
  using assms
  by (auto simp: register_room_def enter_room_def getRoom_def set_room_def sv_emit_def sv_inv_def socket_io_laws_def Let_def
      split: option.split)

text \<open>the extension locks itself out. Whenever the offscreen document's socket connects and sends what its \<open>connect\<close>
  listener sends, \<open>register-room\<close> and then \<open>join-room\<close> with a six-digit code, the server disconnects it: it holds no commitment,
  and \<open>join-room\<close> requires one of everybody. It ends in no room, so no offer or answer can reach it.\<close>

theorem extension_locks_itself_out:
  assumes laws: "socket_io_laws S" and evs: "list_all (\<lambda>x. ne_io (fst x) = S) events"
    and s: "s = fold sv_exec events (new_server S)" and env: "ne_io env = S"
    and ext: "jsmap_get (io_sockets S (sv_io s)) i = Some \<lparr>hs_deviceId = None, hs_commitment = None\<rparr>"
    and code: "is_sas_code code"
    and sock: "od_socket d"
    and sent: "od_signals (onSocketConnect (Some code) d) = od_signals d @ signals"
    and t: "t = fold (\<lambda>m. sv_exec (env, signal_event i m)) signals s"
  shows "\<not> jsmap_has (io_sockets S (sv_io t)) i \<and> (\<forall>r. i \<notin> set (peers_of t r))"
proof -
  have inv: "sv_inv S s" using sv_events.inv_run [OF sv_inv_new [OF laws] evs] by (simp add: s)
  have valid: "sas_truthy (sas_of (Some code))" "isValidSasCode (the (sas_of (Some code)))"
    using sas_code_valid [OF code] by (simp_all add: sas_of_def)
  have out: "\<not> jsmap_has (io_sockets S (sv_io (sv_exec (env, JoinRoomMsg i (sas_of (Some code))) s1))) i
      \<and> i \<notin> set (peers_of (sv_exec (env, JoinRoomMsg i (sas_of (Some code))) s1) r)"
    if "sv_inv S s1" "io_sockets S (sv_io s1) = io_sockets S (sv_io s)" for s1 r
    using join_without_commitment [OF that(1) env valid] that(2) ext env by (simp add: sv_sockets_def)
  have reg: "sv_inv S (register_room env i data s)" for data
    using sv_inv_register [OF inv env] ext by (simp add: jsmap_has_def)
  consider "signals = [JoinRoom (Some code)]" | n k where "signals = [RegisterRoom (Some code) n k, JoinRoom (Some code)]"
    using sent sock by (auto simp: onSocketConnect_def emit_def Let_def split: option.splits)
  then show ?thesis
  proof cases
    case 1
    then show ?thesis using out [OF inv refl] by (simp add: t)
  next
    case 2
    then show ?thesis
      using out [OF reg register_keeps_sockets [OF inv env]] ext env by (simp add: t sv_sockets_def jsmap_has_def)
  qed
qed

section \<open>Revocation\<close>

definition barred :: "'io socket_io \<Rightarrow> ctext \<Rightarrow> millis \<Rightarrow> 'io server \<Rightarrow> bool" where
  "barred S d expiry s \<longleftrightarrow> sv_inv S s \<and> d \<noteq> [] \<and> 0 < expiry
     \<and> (\<exists>e \<ge> expiry. jsmap_get (sv_revokedDevices s) d = Some e)
     \<and> list_all (\<lambda>(i, h). hs_deviceId h \<noteq> Some d) (io_sockets S (sv_io s))"

definition same_devices :: "'io socket_io \<Rightarrow> 'io server \<Rightarrow> 'io server \<Rightarrow> bool" where
  "same_devices S s t \<longleftrightarrow> sv_revokedDevices t = sv_revokedDevices s
     \<and> set (io_sockets S (sv_io t)) \<subseteq> set (io_sockets S (sv_io s))"

lemma barred_same: "barred S d expiry s \<Longrightarrow> sv_inv S t \<Longrightarrow> same_devices S s t \<Longrightarrow> barred S d expiry t"
  by (auto simp: barred_def same_devices_def list_all_iff)

lemma same_devices_refl [simp]: "same_devices S s s" by (simp add: same_devices_def)

lemma same_devices_trans: "same_devices S s t \<Longrightarrow> same_devices S t u \<Longrightarrow> same_devices S s u"
  by (auto simp: same_devices_def)

lemma same_devices_emit [simp]: "same_devices S s (sv_emit i e t) = same_devices S s t" by (simp add: same_devices_def sv_emit_def)

lemma same_devices_disconnect:
  "socket_io_laws S \<Longrightarrow> ne_io env = S \<Longrightarrow> same_devices S s t \<Longrightarrow> same_devices S s (disconnect env i t)"
  by (auto simp: same_devices_def disconnect_def onDisconnect_def socket_io_laws_def jsmap_delete_def)

lemma same_devices_enter:
  "socket_io_laws S \<Longrightarrow> ne_io env = S \<Longrightarrow> same_devices S s (enter_room env i r (s\<lparr>sv_roomMetadata := m\<rparr>))"
  "socket_io_laws S \<Longrightarrow> ne_io env = S \<Longrightarrow> same_devices S s (enter_room env i r s)"
  by (simp_all add: same_devices_def enter_room_def getRoom_def set_room_def sv_emit_def socket_io_laws_def Let_def split: option.split)

lemma same_devices_join:
  "socket_io_laws S \<Longrightarrow> ne_io env = S \<Longrightarrow> same_devices S s (join_room env i h code s)"
  by (simp add: join_room_def Let_def same_devices_disconnect same_devices_enter split: option.split)

lemma same_devices_relay: "same_devices S s (relay env i kind code payload s)"
proof -
  have "same_devices S s t \<Longrightarrow> same_devices S s (fold (\<lambda>j. sv_emit j e) js t)" for js e t
    by (induction js arbitrary: t) simp_all
  then show ?thesis by (simp add: relay_def)
qed


lemma sockets_after_drop:
  assumes "sv_inv S s" "ne_io env = S"
  shows "list_all (\<lambda>(i, h). hs_deviceId h \<noteq> Some d) (io_sockets S (sv_io (drop_device env d s)))
    \<and> same_devices S s (drop_device env d s)"
proof -
  have laws: "socket_io_laws S" using assms by (simp add: sv_inv_def)
  let ?f = "\<lambda>(i, h) s. if hs_deviceId h = Some d then disconnect env i (sv_emit i (ErrorMessage ''Device revoked'') s) else s"
  have gone: "(i, h) \<notin> set (io_sockets S (sv_io (disconnect env i t)))" for i h t
    using laws assms(2) by (simp add: disconnect_def onDisconnect_def socket_io_laws_def jsmap_delete_def)
  have fewer: "same_devices S t (fold ?f hs t)" for hs t
  proof (induction hs arbitrary: t)
    case (Cons x hs)
    have "same_devices S t (?f x t)" by (simp add: same_devices_disconnect [OF laws assms(2)] split: prod.split)
    moreover have "same_devices S (?f x t) (fold ?f hs (?f x t))" by (rule Cons.IH)
    ultimately show ?case using same_devices_trans by simp
  qed simp
  have cleared: "(i, h) \<notin> set (io_sockets S (sv_io (fold ?f hs t)))" if "(i, h) \<in> set hs" "hs_deviceId h = Some d" for i h hs t
    using that
  proof (induction hs arbitrary: t)
    case (Cons x hs)
    show ?case
    proof (cases "x = (i, h)")
      case True
      have "same_devices S (disconnect env i (sv_emit i (ErrorMessage ''Device revoked'') t)) (fold ?f (x # hs) t)"
        using fewer Cons.prems(2) True by simp
      then show ?thesis using gone by (auto simp: same_devices_def)
    qed (use Cons in auto)
  qed simp
  have *: "drop_device env d s = fold ?f (io_sockets S (sv_io s)) s" by (simp add: drop_device_def sv_sockets_def assms(2))
  have "hs_deviceId h \<noteq> Some d" if "(i, h) \<in> set (io_sockets S (sv_io (drop_device env d s)))" for i h
  proof
    assume "hs_deviceId h = Some d"
    moreover have "(i, h) \<in> set (io_sockets S (sv_io s))" using that fewer [of s "io_sockets S (sv_io s)"] by (auto simp: * same_devices_def)
    ultimately show False using cleared that by (simp add: *)
  qed
  then show ?thesis using fewer by (auto simp: list_all_iff *)
qed

lemma lit_nonempty: "lit s = [] \<longleftrightarrow> s = []" by (simp add: lit_def)

lemma barred_do_revoke:
  assumes "sv_inv S s" "ne_io env = S" "deviceId \<noteq> []" "0 \<le> ne_now env"
  shows "barred S (lit deviceId) (ne_now env + REVOCATION_TTL_MS) (snd (do_revoke env deviceId s))"
proof -
  let ?s1 = "s\<lparr>sv_revokedDevices := jsmap_set (lit deviceId) (ne_now env + REVOCATION_TTL_MS) (sv_revokedDevices s)\<rparr>"
  have inv1: "sv_inv S ?s1" using assms by simp
  show ?thesis
    using sockets_after_drop [OF inv1 assms(2), of "lit deviceId"] sv_inv_drop [OF assms(2) inv1] assms
    by (auto simp: barred_def do_revoke_def lit_nonempty REVOCATION_TTL_MS_def same_devices_def)
qed

lemma barred_other_revoke:
  assumes b: "barred S d expiry s" and env: "ne_io env = S" and later: "expiry \<le> ne_now env + REVOCATION_TTL_MS"
  shows "barred S d expiry (snd (do_revoke env deviceId s))"
proof -
  let ?s1 = "s\<lparr>sv_revokedDevices := jsmap_set (lit deviceId) (ne_now env + REVOCATION_TTL_MS) (sv_revokedDevices s)\<rparr>"
  have inv1: "sv_inv S ?s1" using b by (simp add: barred_def)
  have "barred S d expiry ?s1" using b later by (auto simp: barred_def)
  then show ?thesis
    using barred_same [OF _ sv_inv_drop [OF env inv1]] sockets_after_drop [OF inv1 env] by (simp add: do_revoke_def)
qed

lemma barred_connection:
  assumes b: "barred S d expiry s" and env: "ne_io env = S" and early: "ne_now env \<le> expiry"
    and fresh: "\<not> jsmap_has (io_sockets S (sv_io s)) i"
  shows "barred S d expiry (onConnection env i h s)"
proof -
  have inv: "sv_inv S (onConnection env i h s)" using b fresh env by (simp add: barred_def sv_inv_connection)
  have laws: "socket_io_laws S" using b by (simp add: barred_def sv_inv_def)
  have opened: "io_sockets S (io_open S i h (sv_io s)) = jsmap_set i h (io_sockets S (sv_io s))"
    "io_sockets S (io_disconnect S i io') = jsmap_delete i (io_sockets S io')" for io'
    using laws by (simp_all add: socket_io_laws_def)
  have set_new: "set (jsmap_set i h m) \<subseteq> insert (i, h) (set m)" for m :: "(nat, handshake) jsmap" by (induction m) auto
  have old: "list_all (\<lambda>(i, h). hs_deviceId h \<noteq> Some d) (io_sockets S (sv_io s))" using b by (simp add: barred_def)
  have other: "list_all (\<lambda>(i, h). hs_deviceId h \<noteq> Some d) (jsmap_set i h (io_sockets S (sv_io s)))" if "hs_deviceId h \<noteq> Some d"
    using old set_new that by (fastforce simp: list_all_iff)
  have undone: "list_all (\<lambda>(i, h). hs_deviceId h \<noteq> Some d) (jsmap_delete i (jsmap_set i h (io_sockets S (sv_io s))))"
    using old set_new by (fastforce simp: list_all_iff jsmap_delete_def)
  obtain e where e: "expiry \<le> e" "jsmap_get (sv_revokedDevices s) d = Some e" "d \<noteq> []" "0 < expiry" using b by (auto simp: barred_def)
  have "jsmap_get (sv_revokedDevices (onConnection env i h s)) d = Some e"
    using e early by (auto simp: onConnection_def isDeviceRevoked_def Let_def sv_emit_def split: option.split)
  moreover have "list_all (\<lambda>(i, h). hs_deviceId h \<noteq> Some d) (io_sockets S (sv_io (onConnection env i h s)))"
    using e early other undone env
    by (cases "hs_deviceId h = Some d") (auto simp: onConnection_def isDeviceRevoked_def Let_def sv_emit_def opened split: option.split)
  ultimately show ?thesis using inv e by (auto simp: barred_def)
qed

lemma barred_purge:
  assumes "barred S d expiry s" "ne_now env \<le> expiry"
  shows "barred S d expiry (purgeRevoked env s)"
proof -
  have keep: "map_of m k = Some v \<Longrightarrow> P (k, v) \<Longrightarrow> map_of (filter P m) k = Some v" for m :: "(ctext, millis) jsmap" and k v P
    by (induction m) (auto split: if_splits)
  obtain e where e: "expiry \<le> e" "jsmap_get (sv_revokedDevices s) d = Some e" using assms by (auto simp: barred_def)
  then have "jsmap_get (sv_revokedDevices (purgeRevoked env s)) d = Some e"
    using assms(2) by (auto simp: purgeRevoked_def intro!: keep)
  then show ?thesis using assms(1) e(1) by (auto simp: barred_def purgeRevoked_def)
qed

interpretation barred_events: event_system sv_exec
  "\<lambda>x. ne_io (fst x) = S \<and> expiry - REVOCATION_TTL_MS \<le> ne_now (fst x) \<and> ne_now (fst x) \<le> expiry" "barred S d expiry" for S d expiry
proof
  fix s and x :: "'a node_env \<times> sv_event"
  assume b: "barred S d expiry s"
    and adm: "ne_io (fst x) = S \<and> expiry - REVOCATION_TTL_MS \<le> ne_now (fst x) \<and> ne_now (fst x) \<le> expiry"
  have laws: "socket_io_laws S" and inv: "sv_inv S s" using b by (simp_all add: barred_def sv_inv_def)
  have step: "sv_inv S (sv_exec x s)" using sv_events.inv_exec [OF inv] adm by blast
  have same: "barred S d expiry (sv_exec x s)" if "same_devices S s (sv_exec x s)" using barred_same [OF b step that] .
  show "barred S d expiry (sv_exec x s)"
  proof (cases "(x, s)" rule: sv_exec.cases)
    case (1 e header s')
    then show ?thesis using same by (simp add: getTurnCredentials_def same_devices_def Let_def split: option.split)
  next
    case (2 e auth body s')
    then have "barred S d expiry (snd (do_revoke e i s))" for i using barred_other_revoke [OF b] adm by simp
    then show ?thesis using 2 b by (simp add: postRevoke_def split: sum.split option.split bool.split)
  next
    case (3 e i h s')
    then show ?thesis using b adm by (simp add: sv_sockets_def barred_connection)
  next
    case (4 e i data s')
    then show ?thesis using same adm laws by (simp add: register_room_def same_devices_enter Let_def split: if_splits)
  next
    case (5 e i code s')
    then show ?thesis using same adm laws by (simp add: same_devices_join split: option.splits)
  next
    case (6 e i kind code payload s')
    then show ?thesis using same by (simp add: same_devices_relay split: if_splits)
  next
    case (7 e i s')
    then show ?thesis using same adm laws by (simp add: same_devices_disconnect split: if_splits)
  next
    case (8 e r s')
    then show ?thesis using same by (simp add: cleanupFires_def same_devices_def split: option.splits if_splits)
  next
    case (9 e s')
    then show ?thesis using b adm by (simp add: barred_purge)
  qed
qed

text \<open>a revoked device stays out for a day. When the server has accepted a revocation, no socket of that device is
  connected any more, and none is after any further events within 24 hours, new connections, other revocations and
  purges included.\<close>

theorem revoked_device_stays_out:
  assumes laws: "socket_io_laws S" and evs: "list_all (\<lambda>x. ne_io (fst x) = S) events"
    and s: "s = fold sv_exec events (new_server S)" and env: "ne_io env = S" "0 \<le> ne_now env"
    and revoked: "postRevoke env auth body s = ((200, reply), t)" and device: "revoke_device_id body = Inr (Some deviceId)"
    and later: "list_all (\<lambda>x. ne_io (fst x) = S \<and> ne_now env \<le> ne_now (fst x)
      \<and> ne_now (fst x) \<le> ne_now env + REVOCATION_TTL_MS) events'"
    and sock: "(i, h) \<in> set (io_sockets S (sv_io (fold sv_exec events' t)))"
  shows "hs_deviceId h \<noteq> Some (lit deviceId)"
proof -
  have inv: "sv_inv S s" using sv_events.inv_run [OF sv_inv_new [OF laws] evs] by (simp add: s)
  have "deviceId \<noteq> []" using device by (auto simp: revoke_device_id_def split: option.splits json.splits if_splits)
  moreover have "t = snd (do_revoke env deviceId s)"
    using revoked device by (auto simp: postRevoke_def split: if_splits option.splits sum.splits bool.splits)
  ultimately have "barred S (lit deviceId) (ne_now env + REVOCATION_TTL_MS) t" using barred_do_revoke [OF inv env(1) _ env(2)] by simp
  then have "barred S (lit deviceId) (ne_now env + REVOCATION_TTL_MS) (fold sv_exec events' t)"
    using barred_events.inv_run [of S _ _ t events'] later by simp
  then show ?thesis using sock by (auto simp: barred_def list_all_iff)
qed


section \<open>Relays and credentials\<close>

text \<open>A relayed message reaches every other member of the room once; the sender need not be a member.\<close>

lemma relay_delivers:
  assumes "sas_truthy code" "isValidSasCode (the code)"
  shows "sv_emitted (relay env i kind code payload s) =
    sv_emitted s @ map (\<lambda>j. (j, Relayed kind payload)) (removeAll i (io_members (ne_io env) (sv_io s) (ROOM_PREFIX @ sas_string (the code))))"
proof -
  have "sv_emitted (fold (\<lambda>j. sv_emit j e) js t) = sv_emitted t @ map (\<lambda>j. (j, e)) js" for js e and t :: "'a server"
    by (induction js arbitrary: t) (simp_all add: sv_emit_def)
  then show ?thesis using assms by (simp add: relay_def)
qed

text \<open>The credentials fetched for a room code are stored under the code, and a room looks for them under its
  prefixed name.\<close>

lemma turn_credentials_not_found:
  assumes "is_sas_code code"
  shows "jsmap_get (sv_pendingCredentials (snd (getTurnCredentials env (Some code) s))) (ROOM_PREFIX @ lit code)
    = jsmap_get (sv_pendingCredentials s) (ROOM_PREFIX @ lit code)"
proof -
  have "length (ROOM_PREFIX @ lit code) \<noteq> length (lit code)" by (simp add: ROOM_PREFIX_def lit_def)
  then have "ROOM_PREFIX @ lit code \<noteq> lit code" by auto
  then show ?thesis by (simp add: getTurnCredentials_def Let_def split: option.split)
qed

text \<open>Without \<open>TURN_SERVERS\<close> the default already has the scheme that is put in front of it.\<close>

lemma default_turn_urls:
  "ne_turnServers env = None \<Longrightarrow> ne_turnSecret env = Some (c # cs) \<Longrightarrow>
     map_option tc_urls (generateTurnCredentials env r) = Some [''turn:turn:localhost:3478'']"
  by (simp add: generateTurnCredentials_def TURN_SERVERS_def Let_def)

text \<open>A later registration of the same room replaces the key and nonce that commitments are checked against.\<close>

lemma registration_replaces:
  assumes "is_sas_code code" "length nonce = 32" "32 \<le> length key" "length nonce' = 32" "32 \<le> length key'"
  shows "jsmap_get (sv_roomMetadata (register_room env' j (register_of code nonce' key')
      (register_room env i (register_of code nonce key) s))) (ROOM_PREFIX @ lit code) = Some (pairing_meta key' nonce' code (ne_now env'))"
  using register_of_meta assms by blast

section \<open>Examples\<close>

type_synonym sample_io_state = "(nat, handshake) jsmap \<times> (ctext \<times> nat) list"

definition sample_io :: "sample_io_state socket_io" where
  "sample_io = \<lparr>io_new = ([], []), io_open = (\<lambda>i h (ss, ms). (jsmap_set i h ss, ms)), io_join = (\<lambda>i r (ss, ms). (ss, ms @ [(r, i)])),
     io_disconnect = (\<lambda>i (ss, ms). (jsmap_delete i ss, filter (\<lambda>p. snd p \<noteq> i) ms)), io_sockets = fst,
     io_members = (\<lambda>(ss, ms) r. map snd (filter (\<lambda>p. fst p = r) ms))\<rparr>"

lemma sample_io_laws: "socket_io_laws sample_io"
  by (force simp: socket_io_laws_def sample_io_def split: prod.splits)

definition sample_node :: "millis \<Rightarrow> sample_io_state node_env" where
  "sample_node now = \<lparr>ne_now = now, ne_sha256 = (\<lambda>bs. [1, 2, 3]), ne_hmacSha1 = (\<lambda>_ _. [9]), ne_hmacSha256 = (\<lambda>_ _. [7]),
     ne_turnSecret = None, ne_turnServers = None, ne_revokeSecret = None, ne_io = sample_io\<rparr>"

definition sample_key :: bytes where "sample_key = replicate 32 5"

definition extension_hs :: handshake where "extension_hs = \<lparr>hs_deviceId = None, hs_commitment = None\<rparr>"
definition phone_hs :: handshake where "phone_hs = \<lparr>hs_deviceId = Some (lit ''phone''), hs_commitment = Some (lit ''AQID'')\<rparr>"

definition sample_events :: "(sample_io_state node_env \<times> sv_event) list" where
  "sample_events = [(sample_node 1, SocketConnects 1 extension_hs), (sample_node 2, SocketConnects 2 phone_hs)]"

lemma sample_admissible: "list_all (\<lambda>x. ne_io (fst x) = sample_io) sample_events"
  by (simp add: sample_events_def sample_node_def)

lemma sample_sockets:
  "io_sockets sample_io (sv_io (fold sv_exec sample_events (new_server sample_io))) = [(1, extension_hs), (2, phone_hs)]"
  by (simp add: sample_events_def sample_node_def sample_io_def new_server_def sv_sockets_def onConnection_def jsmap_has_def
      extension_hs_def phone_hs_def isDeviceRevoked_def Let_def lit_nonempty)

lemma sample_code: "is_sas_code ''123456''" "length sample_key = 32"
  by (simp_all add: is_sas_code_def SAS_LENGTH_def is_digit_char_iff sample_key_def)

definition sample_registration :: "sample_io_state node_env \<times> sv_event" where
  "sample_registration = (sample_node 3, RegisterRoomMsg 1 (register_of ''123456'' sample_key sample_key))"


lemma sample_digest: "base64urlEncode [1, 2, 3] = ''AQID''"
  by code_simp


theorem extension_locks_itself_out_witness:
  "\<not> jsmap_has (io_sockets sample_io (sv_io (fold (\<lambda>m. sv_exec (sample_node 3, signal_event 1 m))
      [JoinRoom (Some ''123456'')] (fold sv_exec sample_events (new_server sample_io))))) 1"
proof -
  let ?d = "new_odoc\<lparr>od_socket := True\<rparr>"
  have sent: "od_signals (onSocketConnect (Some ''123456'') ?d) = od_signals ?d @ [JoinRoom (Some ''123456'')]"
    by (simp add: onSocketConnect_def new_odoc_def emit_def)
  have ext: "jsmap_get (io_sockets sample_io (sv_io (fold sv_exec sample_events (new_server sample_io)))) 1
      = Some \<lparr>hs_deviceId = None, hs_commitment = None\<rparr>"
    by (simp add: sample_sockets extension_hs_def)
  have env: "ne_io (sample_node 3) = sample_io" and sock: "od_socket ?d" by (simp_all add: sample_node_def)
  show ?thesis
    using extension_locks_itself_out [OF sample_io_laws sample_admissible refl env ext sample_code(1) sock sent refl] by blast
qed

definition sample_body :: string where
  "sample_body = stringify (JObj [(''deviceId'', JStr ''phone'')])"

lemma sample_body_device: "revoke_device_id sample_body = Inr (Some ''phone'')"
  unfolding revoke_device_id_def sample_body_def by (subst parse_stringify) simp_all

theorem revoked_device_stays_out_witness:
  "(2, phone_hs) \<notin> set (io_sockets sample_io (sv_io (fold sv_exec [(sample_node 20, SocketConnects 2 phone_hs)]
     (snd (postRevoke (sample_node 10) None sample_body (fold sv_exec sample_events (new_server sample_io)))))))"
proof -
  let ?s = "fold sv_exec sample_events (new_server sample_io)"
  have "postRevoke (sample_node 10) None sample_body ?s = ((200, JObj [(''success'', JBool True), (''deviceId'', JStr ''phone'')]),
      snd (postRevoke (sample_node 10) None sample_body ?s))"
    by (simp add: postRevoke_def sample_body_device revoke_secret_def sample_node_def do_revoke_def)
  from revoked_device_stays_out [OF sample_io_laws sample_admissible refl _ _ this sample_body_device,
      of "[(sample_node 20, SocketConnects 2 phone_hs)]" 2 phone_hs]
  show ?thesis by (auto simp: sample_node_def phone_hs_def REVOCATION_TTL_MS_def)
qed

end
