(* ===== verification/WebAuthn.thy ===== *)
theory WebAuthn
  imports Retry Session
begin

text \<open>
  The keys and credentials of this browser: the keypair under a PIN and the PRF credential of \<open>lib/crypto/fallbackAuth.ts\<close>,
  the passkeys of \<open>lib/webauthn/passkeyProvisioning.ts\<close> and the assertions of \<open>lib/webauthn/assertionRequest.ts\<close>.

  WebCrypto and \<open>navigator.credentials\<close> are parameters. A keypair is what its keys export to, PKCS#8 and SPKI. What a
  credential call does is a promise as in \<open>withTimeout\<close>: when it settles and with what, \<open>Inr None\<close> for null.
\<close>

section \<open>The keypair under a PIN\<close>

record 'k pin_crypto =
  pc_deriveKey :: "bytes \<Rightarrow> bytes \<Rightarrow> 'k"
  pc_encrypt :: "'k \<Rightarrow> bytes \<Rightarrow> bytes \<Rightarrow> bytes"
  pc_decrypt :: "'k \<Rightarrow> bytes \<Rightarrow> bytes \<Rightarrow> bytes option"
  pc_importError :: "string \<Rightarrow> bytes \<Rightarrow> string option"

record keypair =
  kp_privateKey :: bytes
  kp_publicKey :: bytes

record fallback_store =
  fb_salt :: "string option"
  fb_iv :: "string option"
  fb_encryptedPk :: "string option"
  fb_publicKey :: "string option"

definition no_keypair :: fallback_store where
  "no_keypair = \<lparr>fb_salt = None, fb_iv = None, fb_encryptedPk = None, fb_publicKey = None\<rparr>"

text \<open>PBKDF2 over the bytes of the PIN.\<close>

definition derivePinKey :: "'k pin_crypto \<Rightarrow> string \<Rightarrow> bytes \<Rightarrow> 'k" where
  "derivePinKey pc pin salt = pc_deriveKey pc (utf8_encode pin) salt"

text \<open>\<open>keypair\<close> is what \<open>generateKey\<close> gives, \<open>salt\<close> and \<open>iv\<close> what \<open>getRandomValues\<close> fills in.\<close>

definition generateAndStoreKeypair ::
  "'k pin_crypto \<Rightarrow> keypair \<Rightarrow> bytes \<Rightarrow> bytes \<Rightarrow> string \<Rightarrow> fallback_store \<Rightarrow> keypair \<times> fallback_store" where
  "generateAndStoreKeypair pc keypair salt iv pin st =
     (let pinKey = derivePinKey pc pin salt;
          encryptedPrivateKey = pc_encrypt pc pinKey iv (kp_privateKey keypair)
      in (keypair, \<lparr>fb_salt = Some (bufferToBase64 salt), fb_iv = Some (bufferToBase64 iv),
            fb_encryptedPk = Some (bufferToBase64 encryptedPrivateKey), fb_publicKey = Some (bufferToBase64 (kp_publicKey keypair))\<rparr>))"

definition absent :: "string option \<Rightarrow> bool" where
  "absent t \<longleftrightarrow> nullish t [] = []"

definition not_base64 :: string where
  "not_base64 = ''The string to be decoded is not correctly encoded.''"

definition decrypted :: "'k pin_crypto \<Rightarrow> 'k \<Rightarrow> string \<Rightarrow> string \<Rightarrow> bytes option" where
  "decrypted pc pinKey iv encryptedPk =
     (case (base64ToBuffer iv, base64ToBuffer encryptedPk) of (Some i, Some e) \<Rightarrow> pc_decrypt pc pinKey i e | _ \<Rightarrow> None)"

definition unlockKeypair :: "'k pin_crypto \<Rightarrow> string \<Rightarrow> fallback_store \<Rightarrow> string + keypair" where
  "unlockKeypair pc pin st =
     (if absent (fb_salt st) \<or> absent (fb_iv st) \<or> absent (fb_encryptedPk st) \<or> absent (fb_publicKey st)
      then Inl ''No stored keypair found''
      else
       (case base64ToBuffer (the (fb_salt st)) of
          None \<Rightarrow> Inl not_base64
        | Some salt \<Rightarrow>
            (case decrypted pc (derivePinKey pc pin salt) (the (fb_iv st)) (the (fb_encryptedPk st)) of
               None \<Rightarrow> Inl ''Invalid PIN''
             | Some pkcs8 \<Rightarrow>
                 (case pc_importError pc ''pkcs8'' pkcs8 of
                    Some e \<Rightarrow> Inl e
                  | None \<Rightarrow>
                      (case base64ToBuffer (the (fb_publicKey st)) of
                         None \<Rightarrow> Inl not_base64
                       | Some spki \<Rightarrow>
                           (case pc_importError pc ''spki'' spki of
                              Some e \<Rightarrow> Inl e
                            | None \<Rightarrow> Inr \<lparr>kp_privateKey = pkcs8, kp_publicKey = spki\<rparr>))))))"

definition hasStoredKeypair :: "fallback_store \<Rightarrow> bool" where
  "hasStoredKeypair st \<longleftrightarrow> \<not> absent (fb_encryptedPk st) \<and> \<not> absent (fb_publicKey st)"

definition clearStoredKeypair :: "fallback_store \<Rightarrow> fallback_store" where
  "clearStoredKeypair st = st\<lparr>fb_salt := None, fb_iv := None, fb_encryptedPk := None, fb_publicKey := None\<rparr>"

section \<open>The PRF credential\<close>

text \<open>\<open>cr_ownPrf\<close> is a property \<open>prf\<close> of the credential object itself, \<open>cr_extPrf\<close> the flag in its client extension
  results; \<open>cr_publicKey\<close> is what \<open>getPublicKey\<close> of the response gives, if it exists.\<close>

record credential =
  cr_id :: string
  cr_rawId :: bytes
  cr_publicKey :: "bytes option"
  cr_ownPrf :: "bool option option"
  cr_extPrf :: "bool option"

record assertion =
  at_id :: string
  at_rawId :: bytes
  at_authenticatorData :: bytes
  at_signature :: bytes
  at_clientDataJSON :: bytes
  at_prfFirst :: "bytes option"

type_synonym 'a cred_call = "string + 'a option"

definition checkPrfSupport :: "bool \<Rightarrow> bool \<Rightarrow> bool" where
  "checkPrfSupport hasPublicKeyCredential hasConditionalMediation \<longleftrightarrow> hasPublicKeyCredential \<and> hasConditionalMediation"

definition createPrfCredential :: "(bytes \<Rightarrow> credential cred_call) \<Rightarrow> bytes \<Rightarrow> string + string \<times> bool" where
  "createPrfCredential create salt =
     (case create salt of
        Inl e \<Rightarrow> Inl e
      | Inr None \<Rightarrow> Inl ''PRF credential creation returned null''
      | Inr (Some c) \<Rightarrow> Inr (bufferToBase64 (cr_rawId c), cr_ownPrf c = Some (Some True)))"

definition assertPrfCredential :: "(bytes \<Rightarrow> assertion cred_call) \<Rightarrow> bytes \<Rightarrow> string + bytes \<times> string" where
  "assertPrfCredential get salt =
     (case get salt of
        Inl e \<Rightarrow> Inl e
      | Inr None \<Rightarrow> Inl ''PRF credential assertion returned null''
      | Inr (Some a) \<Rightarrow>
          (case at_prfFirst a of
             None \<Rightarrow> Inl ''PRF assertion did not return prf results''
           | Some out \<Rightarrow> Inr (out, bufferToBase64 (at_rawId a))))"

definition cachePrfCredentialId :: "string \<Rightarrow> storage \<Rightarrow> storage" where
  "cachePrfCredentialId i s = s\<lparr>ss_prfCredentialId := Some i\<rparr>"

definition getCachedPrfCredentialId :: "storage \<Rightarrow> string option" where
  "getCachedPrfCredentialId s = ss_prfCredentialId s"

definition clearPrfCredentialCache :: "storage \<Rightarrow> storage" where
  "clearPrfCredentialCache s = s\<lparr>ss_prfCredentialId := None\<rparr>"

section \<open>Passkeys\<close>

definition PROVISIONING_TIMEOUT_MS :: millis where "PROVISIONING_TIMEOUT_MS = 60000"
definition PROVISIONING_WRAPPER_SLACK_MS :: millis where "PROVISIONING_WRAPPER_SLACK_MS = 10000"

record passkey_result =
  pk_credentialId :: string
  pk_rawId :: bytes
  pk_publicKeyBytes :: bytes
  pk_prfEnabled :: bool

definition getPublicKeyFromResponse :: "credential \<Rightarrow> bytes option" where
  "getPublicKeyFromResponse c = cr_publicKey c"

definition createPasskeyCredential :: "(millis \<times> credential cred_call) option \<Rightarrow> string + passkey_result" where
  "createPasskeyCredential call =
     (case withTimeout call (PROVISIONING_TIMEOUT_MS + PROVISIONING_WRAPPER_SLACK_MS) (Some ''Passkey creation timed out'') of
        Inl message \<Rightarrow> Inl message
      | Inr None \<Rightarrow> Inl ''Passkey creation cancelled''
      | Inr (Some c) \<Rightarrow>
          (case getPublicKeyFromResponse c of
             None \<Rightarrow> Inl ''Public key not available from attestation response''
           | Some rawKey \<Rightarrow>
               Inr \<lparr>pk_credentialId = bufferToBase64 (cr_rawId c), pk_rawId = cr_rawId c, pk_publicKeyBytes = rawKey,
                    pk_prfEnabled = (cr_extPrf c = Some True)\<rparr>))"

definition extractPublicKeyBytes :: "credential \<Rightarrow> string + bytes" where
  "extractPublicKeyBytes c =
     (case getPublicKeyFromResponse c of None \<Rightarrow> Inl ''Public key not available from attestation response'' | Some k \<Rightarrow> Inr k)"

section \<open>Assertions\<close>

definition ASSERTION_TIMEOUT_MS :: millis where "ASSERTION_TIMEOUT_MS = 60000"
definition ASSERTION_WRAPPER_SLACK_MS :: millis where "ASSERTION_WRAPPER_SLACK_MS = 10000"

record request_options =
  ro_challenge :: bytes
  ro_rpId :: string
  ro_allowCredentialId :: "bytes option"

record assertion_data =
  ard_rawId :: bytes
  ard_credentialId :: string
  ard_authenticatorData :: bytes
  ard_signature :: bytes
  ard_clientDataJSON :: bytes

datatype assertion_outcome = AssertionOk assertion_data | AssertionFailed string bool

definition bufferSource :: "bytes \<Rightarrow> nat \<Rightarrow> nat \<Rightarrow> bytes" where
  "bufferSource buffer byteOffset byteLength = slice buffer byteOffset (byteOffset + byteLength)"

definition assertion_data_of :: "assertion \<Rightarrow> assertion_data" where
  "assertion_data_of a = \<lparr>ard_rawId = at_rawId a, ard_credentialId = bufferToBase64 (at_rawId a), ard_authenticatorData = at_authenticatorData a,
     ard_signature = at_signature a, ard_clientDataJSON = at_clientDataJSON a\<rparr>"

text \<open>The arrays of the options cover their buffers, so \<open>bufferSource\<close> copies them.\<close>

definition createAssertionRequest :: "(request_options \<Rightarrow> (millis \<times> assertion cred_call) option) \<Rightarrow> request_options \<Rightarrow> assertion_outcome" where
  "createAssertionRequest get options =
     (let publicKey = options\<lparr>ro_challenge := bufferSource (ro_challenge options) 0 (length (ro_challenge options)),
            ro_allowCredentialId := map_option (\<lambda>i. bufferSource i 0 (length i)) (ro_allowCredentialId options)\<rparr>
      in case withTimeout (get publicKey) (ASSERTION_TIMEOUT_MS + ASSERTION_WRAPPER_SLACK_MS) (Some ''Biometric verification timed out'') of
           Inr None \<Rightarrow> AssertionFailed ''Biometric verification cancelled'' False
         | Inr (Some a) \<Rightarrow> AssertionOk (assertion_data_of a)
         | Inl message \<Rightarrow>
             (let isTimeout = contains message ''timed out'' \<or> contains message ''Timed out''
              in AssertionFailed (if isTimeout then ''Biometric verification timed out'' else message) isTimeout))"

section \<open>Lemmas\<close>

lemma bufferSource_whole [simp]: "bufferSource bs 0 (length bs) = bs"
  by (simp add: bufferSource_def slice_def)

lemma base64ToBuffer_bufferToBase64 [simp]: "base64ToBuffer (bufferToBase64 bs) = Some bs"
  by (rule b64.dec_enc)

lemma bufferToBase64_present: "bs \<noteq> [] \<Longrightarrow> \<not> absent (Some (bufferToBase64 bs))"
  by (simp add: absent_def bufferToBase64_def btoa_nonempty)

text \<open>What the code relies on of WebCrypto: AES-GCM decrypts what it encrypted under the same key and vector, a
  ciphertext carries its tag, and exported keys import again.\<close>

definition pin_crypto_laws :: "'k pin_crypto \<Rightarrow> keypair \<Rightarrow> bool" where
  "pin_crypto_laws pc kp \<longleftrightarrow>
     (\<forall>k iv m. pc_decrypt pc k iv (pc_encrypt pc k iv m) = Some m) \<and> (\<forall>k iv m. pc_encrypt pc k iv m \<noteq> []) \<and>
     kp_publicKey kp \<noteq> [] \<and> pc_importError pc ''pkcs8'' (kp_privateKey kp) = None \<and> pc_importError pc ''spki'' (kp_publicKey kp) = None"

text \<open>C32: the PIN protects the keypair. What was stored under a PIN is there, the same PIN brings the generated pair
  back, any other PIN gives \<open>Invalid PIN\<close> unless its derived key decrypts the private key, and after clearing there is nothing to
  unlock for any PIN.\<close>

theorem pin_unlocks_keypair:
  assumes laws: "pin_crypto_laws pc kp" and random: "salt \<noteq> []" "iv \<noteq> []"
    and stored: "generateAndStoreKeypair pc kp salt iv pin st = (kp', st')"
  shows "kp' = kp \<and> hasStoredKeypair st' \<and> unlockKeypair pc pin st' = Inr kp
    \<and> (\<forall>pin'. pc_decrypt pc (derivePinKey pc pin' salt) iv (pc_encrypt pc (derivePinKey pc pin salt) iv (kp_privateKey kp)) = None
        \<longrightarrow> unlockKeypair pc pin' st' = Inl ''Invalid PIN'')
    \<and> \<not> hasStoredKeypair (clearStoredKeypair st') \<and> (\<forall>pin'. unlockKeypair pc pin' (clearStoredKeypair st') = Inl ''No stored keypair found'')"
proof -
  let ?e = "pc_encrypt pc (derivePinKey pc pin salt) iv (kp_privateKey kp)"
  have ne: "\<not> absent (Some (bufferToBase64 salt))" "\<not> absent (Some (bufferToBase64 iv))" "\<not> absent (Some (bufferToBase64 ?e))"
    "\<not> absent (Some (bufferToBase64 (kp_publicKey kp)))"
    using laws random by (auto simp: pin_crypto_laws_def intro!: bufferToBase64_present)
  have st': "st' = \<lparr>fb_salt = Some (bufferToBase64 salt), fb_iv = Some (bufferToBase64 iv), fb_encryptedPk = Some (bufferToBase64 ?e),
      fb_publicKey = Some (bufferToBase64 (kp_publicKey kp))\<rparr>" and kp': "kp' = kp"
    using stored by (auto simp: generateAndStoreKeypair_def Let_def)
  have open': "unlockKeypair pc pin' st' = (case pc_decrypt pc (derivePinKey pc pin' salt) iv ?e of None \<Rightarrow> Inl ''Invalid PIN''
      | Some m \<Rightarrow> (case pc_importError pc ''pkcs8'' m of Some e \<Rightarrow> Inl e | None \<Rightarrow> Inr \<lparr>kp_privateKey = m, kp_publicKey = kp_publicKey kp\<rparr>))" for pin'
    using ne laws by (simp add: unlockKeypair_def st' decrypted_def pin_crypto_laws_def split: option.split)
  have none: "absent None" by (simp add: absent_def)
  have same: "unlockKeypair pc pin st' = Inr kp" using laws by (simp add: open' pin_crypto_laws_def)
  have has: "hasStoredKeypair st'" using ne by (simp add: hasStoredKeypair_def st')
  have cleared: "\<not> hasStoredKeypair (clearStoredKeypair st')" "unlockKeypair pc pin' (clearStoredKeypair st') = Inl ''No stored keypair found''" for pin'
    by (simp_all add: hasStoredKeypair_def unlockKeypair_def clearStoredKeypair_def none)
  have wrong: "pc_decrypt pc (derivePinKey pc pin' salt) iv ?e = None \<Longrightarrow> unlockKeypair pc pin' st' = Inl ''Invalid PIN''" for pin'
    by (simp add: open')
  show ?thesis using kp' has same wrong cleared by blast
qed


text \<open>A credential object has no property \<open>prf\<close> of its own, so a created PRF credential counts as not enabled.\<close>

lemma prf_never_enabled:
  "create salt = Inr (Some c) \<Longrightarrow> cr_ownPrf c = None \<Longrightarrow> createPrfCredential create salt = Inr (bufferToBase64 (cr_rawId c), False)"
  by (simp add: createPrfCredential_def)

definition sample_pin_crypto :: "bytes pin_crypto" where
  "sample_pin_crypto = \<lparr>pc_deriveKey = (\<lambda>pin salt. pin @ salt), pc_encrypt = (\<lambda>k iv m. word_of_nat (length k) # m),
     pc_decrypt = (\<lambda>k iv c. case c of [] \<Rightarrow> None | t # m \<Rightarrow> if t = word_of_nat (length k) then Some m else None), pc_importError = (\<lambda>_ _. None)\<rparr>"

definition sample_keypair :: keypair where
  "sample_keypair = \<lparr>kp_privateKey = [1, 2, 3], kp_publicKey = [4]\<rparr>"

theorem pin_unlocks_keypair_witness:
  "unlockKeypair sample_pin_crypto ''1234'' (snd (generateAndStoreKeypair sample_pin_crypto sample_keypair [9] [8] ''1234'' no_keypair)) = Inr sample_keypair
   \<and> unlockKeypair sample_pin_crypto ''123'' (snd (generateAndStoreKeypair sample_pin_crypto sample_keypair [9] [8] ''1234'' no_keypair)) = Inl ''Invalid PIN''"
proof -
  have laws: "pin_crypto_laws sample_pin_crypto sample_keypair"
    by (simp add: pin_crypto_laws_def sample_pin_crypto_def sample_keypair_def)
  have other: "pc_decrypt sample_pin_crypto (derivePinKey sample_pin_crypto ''123'' [9]) [8]
      (pc_encrypt sample_pin_crypto (derivePinKey sample_pin_crypto ''1234'' [9]) [8] (kp_privateKey sample_keypair)) = None"
    by (simp add: sample_pin_crypto_def derivePinKey_def utf8_encode_def utf8_char_def)
  show ?thesis using pin_unlocks_keypair [OF laws _ _ surjective_pairing] other by simp
qed

end
