(* ===== verification/AuthPage.thy ===== *)
theory AuthPage
  imports Handlers WebAuthn
begin

text \<open>
  The authentication page, \<open>entrypoints/auth/main.ts\<close>: registration and use of the MFA credential, the creation of
  the PRF credential and of the passkey, and the challenge-bound assertion.

  The page talks to the background through \<open>sendMessage\<close>, a parameter \<open>send\<close> of its operations on a state \<open>'b\<close>: \<open>Inl\<close> is a
  rejected call, \<open>Inr None\<close> an undefined answer. The theorems take the background's own \<open>handle\<close> for it. The text of the log is
  left out; the calls of \<open>navigator.credentials\<close> are parameters as in \<open>WebAuthn\<close>.
\<close>

section \<open>State\<close>

record auth_page =
  ap_existing :: "(string \<times> string) option"
  ap_attempts :: "millis list"
  ap_status :: string
  ap_enabled :: bool
  ap_showRegister :: bool
  ap_showAuthenticate :: bool
  ap_closed :: bool
  ap_stored :: "(string \<times> string) option"

definition new_auth_page :: "(string \<times> string) option \<Rightarrow> auth_page" where
  "new_auth_page stored = \<lparr>ap_existing = None, ap_attempts = [], ap_status = ''Initializing...'', ap_enabled = True, ap_showRegister = True,
     ap_showAuthenticate = True, ap_closed = False, ap_stored = stored\<rparr>"

type_synonym 'b send = "bg_message \<Rightarrow> 'b \<Rightarrow> (string + message_response option) \<times> 'b"

definition AUTH_ATTEMPT_WINDOW_MS :: millis where "AUTH_ATTEMPT_WINDOW_MS = 60000"
definition AUTH_ATTEMPT_MAX :: nat where "AUTH_ATTEMPT_MAX = 3"

definition isAuthRateLimited :: "millis \<Rightarrow> auth_page \<Rightarrow> bool \<times> auth_page" where
  "isAuthRateLimited now p =
     (let ts = dropWhile (\<lambda>t. now - t > AUTH_ATTEMPT_WINDOW_MS) (ap_attempts p)
      in (length ts \<ge> AUTH_ATTEMPT_MAX, p\<lparr>ap_attempts := ts\<rparr>))"

definition recordAuthAttempt :: "millis \<Rightarrow> auth_page \<Rightarrow> auth_page" where
  "recordAuthAttempt now p = p\<lparr>ap_attempts := ap_attempts p @ [now]\<rparr>"

definition status :: "string \<Rightarrow> auth_page \<Rightarrow> auth_page" where
  "status msg p = p\<lparr>ap_status := msg\<rparr>"

definition setButtonsEnabled :: "bool \<Rightarrow> auth_page \<Rightarrow> auth_page" where
  "setButtonsEnabled enabled p = p\<lparr>ap_enabled := enabled\<rparr>"

definition close_page :: "auth_page \<Rightarrow> auth_page" where
  "close_page p = p\<lparr>ap_closed := True\<rparr>"

definition too_many :: string where
  "too_many = ''Too many attempts. Please wait 60 seconds before trying again.''"

definition loadExistingCredential :: "auth_page \<Rightarrow> bool \<times> auth_page" where
  "loadExistingCredential p =
     (case ap_stored p of
        Some stored \<Rightarrow>
          (True, (status ''Credential found. Ready to authenticate.'' p)\<lparr>ap_existing := Some stored, ap_showRegister := False, ap_showAuthenticate := True\<rparr>)
      | None \<Rightarrow>
          (False, (status ''No credential registered. Register a new credential to continue.'' p)
             \<lparr>ap_existing := None, ap_showRegister := True, ap_showAuthenticate := False\<rparr>))"

section \<open>The MFA credential\<close>

text \<open>\<open>later\<close> is the time at which a failed attempt is recorded.\<close>

definition handleRegister :: "credential cred_call \<Rightarrow> millis \<Rightarrow> millis \<Rightarrow> auth_page \<Rightarrow> auth_page" where
  "handleRegister create now later p0 =
     (case isAuthRateLimited now p0 of
        (True, p) \<Rightarrow> status too_many p
      | (False, p) \<Rightarrow>
          (let p1 = status ''Registering credential...'' (setButtonsEnabled False p) in
           case create of
             Inl message \<Rightarrow> setButtonsEnabled True (recordAuthAttempt later (status (''Registration failed: '' @ message) p1))
           | Inr None \<Rightarrow> setButtonsEnabled True (status ''Registration cancelled or failed.'' p1)
           | Inr (Some c) \<Rightarrow>
               (let stored = (cr_id c, bufferToBase64 (cr_rawId c)) in
                (status ''Credential registered successfully. You can now authenticate.'' p1)
                  \<lparr>ap_stored := Some stored, ap_existing := Some stored, ap_showRegister := False, ap_showAuthenticate := True\<rparr>)))"

definition mfa_of :: "assertion \<Rightarrow> mfa_payload" where
  "mfa_of a = \<lparr>mf_credentialId = at_id a, mf_authenticatorData = bufferToBase64 (at_authenticatorData a),
     mf_clientDataJSON = bufferToBase64 (at_clientDataJSON a), mf_signature = bufferToBase64 (at_signature a)\<rparr>"

definition relay_error :: "string \<Rightarrow> message_response option \<Rightarrow> string" where
  "relay_error fallback r = nullish (Option.bind r mr_error) fallback"

definition relay_ok :: "message_response option \<Rightarrow> bool" where
  "relay_ok r \<longleftrightarrow> (case r of Some m \<Rightarrow> mr_success m | None \<Rightarrow> False)"

text \<open>The first component is the exception of \<open>base64ToBuffer\<close>, which is called before the \<open>try\<close>.\<close>

definition handleAuthenticate ::
  "'b send \<Rightarrow> (bytes option \<Rightarrow> assertion cred_call) \<Rightarrow> millis \<Rightarrow> millis \<Rightarrow> auth_page \<Rightarrow> 'b \<Rightarrow> string option \<times> auth_page \<times> 'b" where
  "handleAuthenticate send get now later p0 b =
     (case isAuthRateLimited now p0 of
        (True, p) \<Rightarrow> (None, status too_many p, b)
      | (False, p) \<Rightarrow>
          (let p1 = status ''Authenticating...'' (setButtonsEnabled False p);
               failed = (\<lambda>message q. setButtonsEnabled True (recordAuthAttempt later (status (''Authentication failed: '' @ message) q)));
               attempt = (\<lambda>allow.
                 case get allow of
                   Inl message \<Rightarrow> (None, failed message p1, b)
                 | Inr None \<Rightarrow> (None, setButtonsEnabled True (status ''Authentication cancelled.'' p1), b)
                 | Inr (Some a) \<Rightarrow>
                     (let p2 = status ''Authentication successful. Activating session...'' p1 in
                      case send (MfaAssertion (mfa_of a)) b of
                        (Inl message, b1) \<Rightarrow> (None, failed message p2, b1)
                      | (Inr r, b1) \<Rightarrow>
                          if relay_ok r then (None, close_page p2, b1)
                          else (None, setButtonsEnabled True (status (''Session activation failed: '' @ relay_error ''Unknown error'' r) p2), b1)))
           in case ap_existing p of
                None \<Rightarrow> attempt None
              | Some (_, rawId) \<Rightarrow>
                  (case base64ToBuffer rawId of None \<Rightarrow> (Some not_base64, p1, b) | Some i \<Rightarrow> attempt (Some i))))"

section \<open>Credentials for the vault\<close>

definition handlePrfCreate :: "'b send \<Rightarrow> (bytes \<Rightarrow> credential cred_call) \<Rightarrow> string \<Rightarrow> auth_page \<Rightarrow> 'b \<Rightarrow> auth_page \<times> 'b" where
  "handlePrfCreate send create saltBase64 p b =
     (let p1 = status ''Setting up fingerprint unlock...'' p; skipped = status ''Fingerprint setup skipped'' p1 in
      case base64ToBuffer saltBase64 of
        None \<Rightarrow> (close_page skipped, b)
      | Some salt \<Rightarrow>
          (case create salt of
             Inl _ \<Rightarrow> (close_page skipped, b)
           | Inr None \<Rightarrow> (close_page skipped, b)
           | Inr (Some c) \<Rightarrow>
               (case send (PrfCredentialCreated (bufferToBase64 (cr_rawId c)) (cr_extPrf c = Some True) (Array_from salt)) b of
                  (Inl _, b1) \<Rightarrow> (close_page skipped, b1)
                | (Inr _, b1) \<Rightarrow> (close_page p1, b1))))"

definition reportPasskeyError :: "'b send \<Rightarrow> 'b \<Rightarrow> 'b" where
  "reportPasskeyError send b = snd (send PasskeyCredentialError b)"

definition handlePasskeyCreate :: "'b send \<Rightarrow> credential cred_call \<Rightarrow> bytes \<Rightarrow> auth_page \<Rightarrow> 'b \<Rightarrow> auth_page \<times> 'b" where
  "handlePasskeyCreate send create prfSalt p b =
     (let p1 = status ''Creating passkey for SmartID Vault...'' p in
      case create of
        Inl _ \<Rightarrow> (close_page (status ''Passkey creation failed'' p1), reportPasskeyError send b)
      | Inr None \<Rightarrow> (close_page (status ''Passkey creation cancelled'' p1), reportPasskeyError send b)
      | Inr (Some c) \<Rightarrow>
          (let publicKeyBytes = (case getPublicKeyFromResponse c of Some rawKey \<Rightarrow> Array_from rawKey | None \<Rightarrow> []) in
           if publicKeyBytes = [] then
             (close_page (status ''Passkey creation failed: missing attestation public key'' p1), reportPasskeyError send b)
           else
            (case send (PasskeyCredentialCreated (bufferToBase64 (cr_rawId c)) publicKeyBytes (cr_extPrf c = Some True) (Some (Array_from prfSalt))) b of
               (Inl _, b1) \<Rightarrow> (close_page (status ''Passkey creation failed'' p1), reportPasskeyError send b1)
             | (Inr r, b1) \<Rightarrow>
                 (close_page (status (if relay_ok r then ''Passkey created and verified. Vault is paired.'' else ''Passkey created but relay failed.'') p1), b1))))"

section \<open>The parameters of the page\<close>

text \<open>\<open>URLSearchParams\<close>: pairs separated by ampersands, a plus sign for a blank, percent escapes of UTF-8 bytes.\<close>

fun percent_bytes :: "string \<Rightarrow> bytes" where
  "percent_bytes [] = []"
| "percent_bytes (c # s) =
     (if c = CHR ''%'' then
       (case s of
          x # y # r \<Rightarrow>
            (case (hex_value x, hex_value y) of
               (Some a, Some b) \<Rightarrow> word_of_nat (16 * a + b) # percent_bytes r
             | _ \<Rightarrow> utf8_char c @ percent_bytes s)
        | _ \<Rightarrow> utf8_char c @ percent_bytes s)
      else utf8_char c @ percent_bytes s)"

definition form_decode :: "string \<Rightarrow> string" where
  "form_decode s = utf8_decode (percent_bytes (map (\<lambda>c. if c = CHR ''+'' then CHR '' '' else c) s))"

definition search_pair :: "string \<Rightarrow> string \<times> string" where
  "search_pair part =
     (case index_of (CHR ''='') part of
        None \<Rightarrow> (form_decode part, [])
      | Some i \<Rightarrow> (form_decode (take i part), form_decode (drop (i + 1) part)))"

definition search_params :: "string \<Rightarrow> (string \<times> string) list" where
  "search_params search =
     map search_pair (filter (\<lambda>part. part \<noteq> []) (split_on (CHR ''&'') (case search of c # r \<Rightarrow> if c = CHR ''?'' then r else search | [] \<Rightarrow> [])))"

text \<open>\<open>window.location.search\<close> of a page of the extension without a fragment.\<close>

definition location_search :: "string \<Rightarrow> string" where
  "location_search url = dropWhile (\<lambda>c. c \<noteq> CHR ''?'') url"

text \<open>The page that \<open>begin-challenge-assertion\<close> opens.\<close>

definition challenge_url :: "pending_assertion \<Rightarrow> string" where
  "challenge_url pa = ''auth.html?mode=challenge-assert&challenge='' @ encodeURIComponent (btoa (new_Uint8Array (pa_derivedChallenge pa)))"

section \<open>The challenge-bound assertion\<close>

definition assertion_error :: "string \<Rightarrow> string \<Rightarrow> assertion_payload" where
  "assertion_error st e = \<lparr>as_status = st, as_error = Some e, as_credentialId = None, as_tlvComponents = None, as_sessionNonce = None,
     as_origin = None, as_controlCode = None, as_authenticatorData = None, as_signature = None, as_clientDataJSON = None\<rparr>"

definition verified_payload :: "pending_assertion \<Rightarrow> assertion_data \<Rightarrow> assertion_payload" where
  "verified_payload pending d = \<lparr>as_status = ''verified'', as_error = None, as_credentialId = Some (ard_credentialId d),
     as_tlvComponents = Some (pa_tlvComponents pending), as_sessionNonce = Some (pa_sessionNonce pending), as_origin = Some (pa_origin pending),
     as_controlCode = Some (pa_controlCode pending), as_authenticatorData = Some (Array_from (ard_authenticatorData d)),
     as_signature = Some (Array_from (ard_signature d)), as_clientDataJSON = Some (Array_from (ard_clientDataJSON d))\<rparr>"

definition cached_rawId :: "message_response option \<Rightarrow> bytes option" where
  "cached_rawId r =
     (case Option.bind (Option.bind r mr_data) (\<lambda>d. jarr (jget d ''rawId'')) of
        None \<Rightarrow> None
      | Some xs \<Rightarrow> if xs = [] then None else Some (new_Uint8Array (map (\<lambda>x. nullish (jnum (Some x)) 0) xs)))"

definition assert_failed :: "'b send \<Rightarrow> string \<Rightarrow> auth_page \<Rightarrow> 'b \<Rightarrow> auth_page \<times> 'b" where
  "assert_failed send message p b =
     (close_page (status (''Assertion failed: '' @ message) p), snd (send (AssertionComplete (assertion_error ''error'' message)) b))"

text \<open>What follows the prompt: the outcome is reported, and a failed relay once more as an error.\<close>

definition report_outcome :: "'b send \<Rightarrow> pending_assertion \<Rightarrow> assertion_outcome \<Rightarrow> auth_page \<Rightarrow> 'b \<Rightarrow> auth_page \<times> 'b" where
  "report_outcome send pending outcome p b =
     (case outcome of
        AssertionFailed e timedOut \<Rightarrow>
          (case send (AssertionComplete (assertion_error (if timedOut then ''timeout'' else ''cancelled'') e)) b of
             (Inl message, b1) \<Rightarrow> assert_failed send message (status e p) b1
           | (Inr _, b1) \<Rightarrow> (close_page (status e p), b1))
      | AssertionOk d \<Rightarrow>
          (let p1 = status ''Assertion captured. Sending to vault...'' p in
           case send (AssertionComplete (verified_payload pending d)) b of
             (Inl message, b1) \<Rightarrow> assert_failed send message p1 b1
           | (Inr r, b1) \<Rightarrow>
               if relay_ok r then (close_page (status ''Transaction verified via Challenge-Bound WebAuthn'' p1), b1)
               else
                (let p2 = status ''Verification relay failed'' p1 in
                 case send (AssertionComplete (assertion_error ''error'' (relay_error ''Transmission failed'' r))) b1 of
                   (Inl message, b2) \<Rightarrow> assert_failed send message p2 b2
                 | (Inr _, b2) \<Rightarrow> (close_page p2, b2))))"

definition handleChallengeAssert ::
  "'b send \<Rightarrow> ('b \<Rightarrow> pending_assertion option) \<Rightarrow> (request_options \<Rightarrow> (millis \<times> assertion cred_call) option) \<Rightarrow> string
     \<Rightarrow> auth_page \<Rightarrow> 'b \<Rightarrow> auth_page \<times> 'b" where
  "handleChallengeAssert send stored get search p b =
     (let p1 = status ''Preparing challenge-bound assertion...'' p; challengeB64 = nullish (map_of (search_params search) ''challenge'') [] in
      if challengeB64 = [] then (close_page (status ''No challenge provided'' p1), b)
      else
       (case base64ToBuffer challengeB64 of
          None \<Rightarrow> assert_failed send not_base64 p1 b
        | Some challengeBytes \<Rightarrow>
            (case stored b of
               None \<Rightarrow> (close_page (status ''No pending assertion found'' p1), b)
             | Some pending \<Rightarrow>
                 (let p2 = status ''Reading cached passkey...'' p1 in
                  case send GetCachedCredentialId b of
                    (Inl message, b1) \<Rightarrow> assert_failed send message p2 b1
                  | (Inr r, b1) \<Rightarrow>
                      report_outcome send pending
                        (createAssertionRequest get \<lparr>ro_challenge = challengeBytes, ro_rpId = pa_rpId pending, ro_allowCredentialId = cached_rawId r\<rparr>)
                        (status ''Waiting for biometric verification...'' p2) b1))))"

section \<open>Start and events\<close>

record 'b page_env =
  pg_send :: "'b send"
  pg_pending :: "'b \<Rightarrow> pending_assertion option"
  pg_create :: "bytes option \<Rightarrow> credential cred_call"
  pg_get :: "bytes option \<Rightarrow> assertion cred_call"
  pg_request :: "request_options \<Rightarrow> (millis \<times> assertion cred_call) option"
  pg_random :: bytes
  pg_now :: millis
  pg_later :: millis

definition page_init :: "'b page_env \<Rightarrow> string \<Rightarrow> auth_page \<Rightarrow> 'b \<Rightarrow> auth_page \<times> 'b" where
  "page_init env search p b =
     (let mode = map_of (search_params search) ''mode'' in
      if mode = Some ''challenge-assert'' then handleChallengeAssert (pg_send env) (pg_pending env) (pg_request env) search p b
      else if mode = Some ''passkey-create'' then handlePasskeyCreate (pg_send env) (pg_create env (Some (pg_random env))) (pg_random env) p b
      else if mode = Some ''prf-create'' then
       (let saltB64 = nullish (map_of (search_params search) ''salt'') [] in
        if saltB64 \<noteq> [] then handlePrfCreate (pg_send env) (\<lambda>salt. pg_create env (Some salt)) saltB64 p b else (close_page p, b))
      else
       (let p1 = snd (loadExistingCredential (status ''Checking credentials...'' p)) in
        if mode = Some ''register'' then (handleRegister (pg_create env None) (pg_now env) (pg_later env) p1, b)
        else if mode = Some ''auth'' then
          (if ap_existing p1 \<noteq> None then snd (handleAuthenticate (pg_send env) (pg_get env) (pg_now env) (pg_later env) p1 b)
           else (status ''No credential found. Please register first.'' p1, b))
        else (p1, b)))"

text \<open>Clicks reach a button that is shown and not disabled.\<close>

datatype click = ClickRegister | ClickAuthenticate

fun page_click :: "'b page_env \<times> click \<Rightarrow> auth_page \<times> 'b \<Rightarrow> auth_page \<times> 'b" where
  "page_click (env, ClickRegister) (p, b) =
     (if ap_enabled p \<and> ap_showRegister p \<and> \<not> ap_closed p
      then (handleRegister (pg_create env None) (pg_now env) (pg_later env) p, b) else (p, b))"
| "page_click (env, ClickAuthenticate) (p, b) =
     (if ap_enabled p \<and> ap_showAuthenticate p \<and> \<not> ap_closed p
      then snd (handleAuthenticate (pg_send env) (pg_get env) (pg_now env) (pg_later env) p b) else (p, b))"


section \<open>The parameters survive the URL\<close>

lemma hex_value_upper [simp]: "d < 16 \<Longrightarrow> hex_value (upper_hex d) = Some d"
  by (auto simp: hex_value_def upper_hex_def Let_def)

lemma percent_bytes_escape: "percent_bytes (CHR ''%'' # upper_hex (unat b div 16) # upper_hex (unat b mod 16) # r) = b # percent_bytes r"
  for b :: byte
proof -
  have "unat b div 16 < 16" using unat_byte_less [of b] by simp
  then show ?thesis by simp
qed

lemma percent_bytes_escapes:
  "percent_bytes (concat (map (\<lambda>b. [CHR ''%'', upper_hex (unat b div 16), upper_hex (unat b mod 16)]) bs) @ r) = bs @ percent_bytes r"
  for bs :: bytes
  by (induction bs) (simp_all add: percent_bytes_escape del: percent_bytes.simps(2))

lemma percent_bytes_encode: "percent_bytes (encodeURIComponent s) = utf8_encode s"
proof (induction s)
  case (Cons c s)
  have "c \<noteq> CHR ''%''" if "uri_unreserved c" using that by (auto simp: uri_unreserved_def)
  then show ?case using Cons by (simp add: encodeURIComponent_def utf8_encode_def percent_bytes_escapes)
qed (simp add: encodeURIComponent_def utf8_encode_def)

lemma encodeURIComponent_chars:
  assumes "c \<in> set (encodeURIComponent s)"
  shows "uri_unreserved c \<or> c = CHR ''%''"
proof -
  have "uri_unreserved (upper_hex d)" if "d < 16" for d using that by (auto simp: uri_unreserved_def upper_hex_def Let_def)
  moreover have "unat b div 16 < 16" for b :: byte using unat_byte_less [of b] by simp
  ultimately show ?thesis using assms by (auto simp: encodeURIComponent_def split: if_splits)
qed

lemma form_decode_encode [simp]: "form_decode (encodeURIComponent s) = s"
proof -
  have "c \<noteq> CHR ''+''" if "c \<in> set (encodeURIComponent s)" for c
    using encodeURIComponent_chars [OF that] by (auto simp: uri_unreserved_def)
  then have "map (\<lambda>c. if c = CHR ''+'' then CHR '' '' else c) (encodeURIComponent s) = encodeURIComponent s" by (auto intro: map_idI)
  then show ?thesis by (simp add: form_decode_def percent_bytes_encode)
qed

lemma challenge_params:
  "map_of (search_params (location_search (challenge_url pa))) ''challenge'' = Some (btoa (new_Uint8Array (pa_derivedChallenge pa)))"
proof -
  define e where "e = encodeURIComponent (btoa (new_Uint8Array (pa_derivedChallenge pa)))"
  have "CHR ''&'' \<notin> set e" using encodeURIComponent_chars [of "CHR ''&''"] by (auto simp: e_def uri_unreserved_def)
  then have parts: "search_params (location_search (challenge_url pa))
      = [search_pair ''mode=challenge-assert'', search_pair (''challenge='' @ e)]"
    by (simp add: search_params_def location_search_def challenge_url_def e_def [symmetric] split_on_not_in)
  have "fst (search_pair ''mode=challenge-assert'') = ''mode''" by code_simp
  moreover have "form_decode ''challenge'' = ''challenge''" by code_simp
  then have "search_pair (''challenge='' @ e) = (''challenge'', btoa (new_Uint8Array (pa_derivedChallenge pa)))"
    by (simp add: search_pair_def e_def)
  ultimately show ?thesis by (cases "search_pair ''mode=challenge-assert''") (simp add: parts)
qed

section \<open>The page and the background\<close>

definition bg_send :: "('t, 'ck) henv \<Rightarrow> sender \<Rightarrow> ('t, 'ck) background send" where
  "bg_send env sndr m b = (case handle env sndr m b of (r, b') \<Rightarrow> (Inr (Some r), b'))"

definition bg_pending :: "('t, 'ck) background \<Rightarrow> pending_assertion option" where
  "bg_pending b = ss_pendingAssertion (bg_store b)"

lemma cached_id_keeps: "snd (get_cached_credential_id b) = b"
  by (simp add: get_cached_credential_id_def fail_def ok_def split: option.split)

lemma assertion_complete_ends: "\<not> bg_authInProgress (snd (assertion_complete env p b)) \<and> bg_authTabId (snd (assertion_complete env p b)) = None"
  by (simp add: assertion_complete_def fail_def ok_def resetAuthInProgress_def Let_def split: prod.split option.split)



section \<open>The end of an authentication\<close>

definition ended :: "int \<Rightarrow> ('t, 'ck) background \<Rightarrow> bool" where
  "ended tab b \<longleftrightarrow> bg_authTabId b = Some tab \<or> \<not> bg_authInProgress b \<and> bg_authTabId b = None"

lemma ended_complete: "ended tab (snd (bg_send env sndr (AssertionComplete q) b))"
  using assertion_complete_ends [of env q b] by (simp add: ended_def bg_send_def case_prod_beta)

lemma ended_failed: "ended tab (snd (assert_failed (bg_send env sndr) message p b)) \<and> ap_closed (fst (assert_failed (bg_send env sndr) message p b))"
  by (simp add: assert_failed_def ended_complete close_page_def)

lemma ended_report:
  "ended tab (snd (report_outcome (bg_send env sndr) pending outcome p b)) \<and> ap_closed (fst (report_outcome (bg_send env sndr) pending outcome p b))"
proof -
  have sent: "bg_send env sndr m b' = (x, b1) \<Longrightarrow> \<exists>r. x = Inr (Some r)" for m b' x b1 by (auto simp: bg_send_def split: prod.splits)
  have over: "bg_send env sndr (AssertionComplete q) b' = (x, b1) \<Longrightarrow> ended tab b1" for q b' x b1
    using ended_complete [of tab env sndr q b'] by simp
  show ?thesis
    by (auto simp: report_outcome_def ended_failed Let_def close_page_def status_def dest: over split: assertion_outcome.split prod.split sum.split)
qed

text \<open>C20: the page never leaves an authentication hanging. However the challenge page is called, whatever the authenticator
  answers and whatever the background says, the page closes; and once its tab is gone, no authentication is in progress any more.\<close>

theorem challenge_page_ends_authentication:
  fixes b :: "('t, 'ck) background"
  assumes own: "bg_authTabId b = Some tab"
    and run: "handleChallengeAssert (bg_send env sndr) bg_pending get search p b = (p', b')"
  shows "ap_closed p' \<and> \<not> bg_authInProgress (bg_exec (env', TabRemoved tab) b')"
proof -
  have cached: "snd (bg_send env sndr GetCachedCredentialId b) = b"
    using cached_id_keeps [of b] by (simp add: bg_send_def case_prod_beta)
  have "ended tab b" using own by (simp add: ended_def)
  then have "ended tab b' \<and> ap_closed p'"
    using run ended_failed [of tab env sndr] ended_report [of tab env sndr] cached
    by (auto simp: handleChallengeAssert_def Let_def close_page_def status_def split: if_splits option.splits prod.splits sum.splits)
      (metis fst_conv snd_conv)+
  then show ?thesis by (auto simp: ended_def onAuthTabRemoved_def resetAuthInProgress_def)
qed

section \<open>Registration\<close>

text \<open>After a successful registration both buttons stay disabled: no click has an effect any more, and the page has to be
  loaded again to authenticate.\<close>

lemma registration_needs_reload:
  assumes "isAuthRateLimited now p = (False, q)"
  shows "fold page_click clicks (handleRegister (Inr (Some c)) now later p, b) = (handleRegister (Inr (Some c)) now later p, b)"
proof -
  have off: "\<not> ap_enabled (handleRegister (Inr (Some c)) now later p)"
    using assms by (simp add: handleRegister_def setButtonsEnabled_def status_def Let_def)
  have "page_click x (r, b) = (r, b)" if "\<not> ap_enabled r" for x r
    using that by (cases x; cases "snd x") auto
  then show ?thesis using off by (induction clicks) simp_all
qed

text \<open>The credential survives: what a registration stores is what the next page loads and offers to the authenticator.\<close>

lemma registered_credential_loaded:
  assumes "isAuthRateLimited now p = (False, q)"
  shows "loadExistingCredential (new_auth_page (ap_stored (handleRegister (Inr (Some c)) now later p)))
      = (True, snd (loadExistingCredential (new_auth_page (Some (cr_id c, bufferToBase64 (cr_rawId c))))))
    \<and> base64ToBuffer (bufferToBase64 (cr_rawId c)) = Some (cr_rawId c)"
  using assms by (simp add: handleRegister_def loadExistingCredential_def setButtonsEnabled_def status_def new_auth_page_def Let_def)


section \<open>Examples\<close>

definition hash32 :: "bytes \<Rightarrow> bytes" where
  "hash32 x = take 32 (x @ replicate 32 0)"

definition page_henv :: "(unit, unit) henv" where
  "page_henv = demo_henv\<lparr>he_origin := \<lambda>u. Inr ''https://lhv.ee'', he_sha256 := hash32\<rparr>"

definition sample_assertion :: assertion where
  "sample_assertion = \<lparr>at_id = ''AQ'', at_rawId = [1], at_authenticatorData = [2], at_signature = [3], at_clientDataJSON = [4], at_prfFirst = None\<rparr>"

definition begun :: "(unit, unit) background" where
  "begun = snd (handle page_henv demo_sender (BeginChallengeAssertion (Some ''10'') None) demo_background)"

lemma begun_facts:
  "mr_success (fst (handle page_henv demo_sender (BeginChallengeAssertion (Some ''10'') None) demo_background))
   \<and> (\<exists>pa. bg_pending begun = Some pa \<and> pa_origin pa = ''https://lhv.ee'') \<and> bg_authTabId begun = Some 9"
proof -
  have serial: "\<exists>tlv. serializeChallengeComponents \<lparr>ci_tlsBinding = hash32 x, ci_origin = ''https://lhv.ee'', ci_controlCode = ''0000'',
      ci_sessionNonce = replicate 32 7\<rparr> = Inr tlv" for x
    by (subst serialize_Inr_iff) (simp add: input_ok_def challenge_consts utf8_encode_def utf8_char_def hash32_def)
  have "\<exists>pa. pending_of page_henv 4 ''about:blank'' ''https://lhv.ee'' ''0000'' (Some ''10'') None [] = Inr pa"
    using serial [of "utf8_encode (stringify (proof_payload default_sec_fetch
        (computeContentHash hash32 (page_content page_henv ''about:blank'')) ''0000'' 5000))"]
    by (auto simp: pending_of_def deriveChallenge_def buildChallengeProof_def generateSessionNonce_def challenge_consts page_henv_def demo_henv_def Let_def)
  then obtain pa where pa: "pending_of page_henv 4 ''about:blank'' ''https://lhv.ee'' ''0000'' (Some ''10'') None [] = Inr pa" by blast
  have env: "he_origin page_henv ''about:blank'' = Inr ''https://lhv.ee''" "getDomCode (he_domCode page_henv) = None" "he_newTab page_henv = Inr (Some 9)"
    by (simp_all add: page_henv_def demo_henv_def getDomCode_def)
  have fresh: "\<not> bg_authInProgress demo_background" "bg_secFetch demo_background = []" by (simp_all add: demo_background_def new_background_def)
  have tab: "snd_tabUrl demo_sender = Some ''about:blank''" by (simp add: demo_sender_def)
  have "pa_origin pa = ''https://lhv.ee''" using pending_of_binds [OF pa] by simp
  then show ?thesis
    using pa by (simp add: begun_def begin_challenge_assertion_def demo_sender_tab tab fresh env ok_def ok_response_def Let_def bg_pending_def
        bg_store_def bg_store_update_def pw_store_def pw_store_update_def clearAuthTimeout_def)
qed


theorem challenge_page_ends_authentication_witness:
  "\<not> bg_authInProgress (bg_exec (page_henv, TabRemoved 9)
     (snd (handleChallengeAssert (bg_send page_henv demo_sender) bg_pending (\<lambda>_. None) ''?mode=challenge-assert'' (new_auth_page None) begun)))"
proof -
  have "bg_authTabId begun = Some 9" using begun_facts by blast
  from challenge_page_ends_authentication [OF this surjective_pairing] show ?thesis by blast
qed

end
