(* ===== verification/Regex.thy ===== *)
theory Regex
  imports Prelude
begin

text \<open>
  The part of JavaScript's regular expressions that the extension's patterns use, with the backtracking semantics of the language: a
  pattern at a position has a list of outcomes in the order in which the matcher tries them, and the first one is the match.
  A state is the text captured by the group, the character before the position, and the rest of the text.
\<close>

section \<open>Patterns and their outcomes\<close>

datatype 'c re =
    Eps
  | Cls "'c \<Rightarrow> bool"
  | Cat "'c re" "'c re"
  | Alt "'c re" "'c re"
  | Rep nat "nat option" "'c re"
  | Grp "'c re"
  | WordB "'c \<Rightarrow> bool"
  | Bos
  | Eos
  | Ahead "'c re"

type_synonym 'c mstate = "'c list option \<times> 'c option \<times> 'c list"

abbreviation rest_of :: "'c mstate \<Rightarrow> 'c list" where
  "rest_of s \<equiv> snd (snd s)"

text \<open>A greedy quantifier: as many turns as possible, a turn beyond the minimum has to consume something. The fuel
  bounds the number of turns.\<close>

fun rep_turns :: "('c mstate \<Rightarrow> 'c mstate list) \<Rightarrow> nat \<Rightarrow> nat \<Rightarrow> nat option \<Rightarrow> 'c mstate \<Rightarrow> 'c mstate list" where
  "rep_turns f 0 m M s = (if m = 0 then [s] else [])"
| "rep_turns f (Suc n) m M s =
     (if M = Some 0 then [s]
      else concat (map (\<lambda>s'. if m = 0 \<and> length (rest_of s') = length (rest_of s) then [] else rep_turns f n (m - 1) (map_option (\<lambda>k. k - 1) M) s') (f s))
           @ (if m = 0 then [s] else []))"

definition word_at :: "('c \<Rightarrow> bool) \<Rightarrow> 'c option \<Rightarrow> bool" where
  "word_at w c \<longleftrightarrow> (case c of None \<Rightarrow> False | Some x \<Rightarrow> w x)"

definition head_of :: "'c list \<Rightarrow> 'c option" where
  "head_of s = (case s of [] \<Rightarrow> None | c # _ \<Rightarrow> Some c)"

primrec mt :: "'c re \<Rightarrow> 'c mstate \<Rightarrow> 'c mstate list" where
  "mt Eps s = [s]"
| "mt (Cls p) s = (case rest_of s of [] \<Rightarrow> [] | c # r \<Rightarrow> if p c then [(fst s, Some c, r)] else [])"
| "mt (Cat a b) s = concat (map (mt b) (mt a s))"
| "mt (Alt a b) s = mt a s @ mt b s"
| "mt (Rep m M a) s = rep_turns (mt a) (m + length (rest_of s)) m M s"
| "mt (Grp a) s = map (\<lambda>s'. (Some (take (length (rest_of s) - length (rest_of s')) (rest_of s)), snd s')) (mt a s)"
| "mt (WordB w) s = (if word_at w (fst (snd s)) \<noteq> word_at w (head_of (rest_of s)) then [s] else [])"
| "mt Bos s = (if fst (snd s) = None then [s] else [])"
| "mt Eos s = (if rest_of s = [] then [s] else [])"
| "mt (Ahead a) s = (if mt a s = [] then [] else [s])"

text \<open>Outcomes only consume: the rest is a proper or improper suffix.\<close>

definition consumes :: "'c mstate \<Rightarrow> 'c mstate \<Rightarrow> bool" where
  "consumes s s' \<longleftrightarrow> (\<exists>m. rest_of s = m @ rest_of s')"

lemma consumes_refl [simp]: "consumes s s"
  by (simp add: consumes_def)

lemma consumes_trans: "consumes s t \<Longrightarrow> consumes t u \<Longrightarrow> consumes s u"
  by (auto simp: consumes_def)

lemma rep_turns_consumes:
  assumes "\<And>s s'. s' \<in> set (f s) \<Longrightarrow> consumes s s'"
  shows "s' \<in> set (rep_turns f n m M s) \<Longrightarrow> consumes s s'"
proof (induction n arbitrary: m M s)
  case (Suc n)
  show ?case
  proof (cases "s' = s")
    case False
    then obtain t k L where "t \<in> set (f s)" "s' \<in> set (rep_turns f n k L t)"
      using Suc.prems by (fastforce split: if_splits)
    then show ?thesis using assms Suc.IH consumes_trans by blast
  qed simp
qed (simp split: if_splits)

lemma mt_consumes: "s' \<in> set (mt r s) \<Longrightarrow> consumes s s'"
proof (induction r arbitrary: s s')
  case (Cls p)
  then show ?case by (cases "rest_of s") (simp_all add: consumes_def split: if_splits)
next
  case (Cat a b)
  then obtain t where "t \<in> set (mt a s)" "s' \<in> set (mt b t)" by auto
  then show ?case using Cat.IH consumes_trans by blast
next
  case (Rep m M a)
  then show ?case using rep_turns_consumes by (metis mt.simps(5))
next
  case (Grp a)
  then obtain t where "t \<in> set (mt a s)" "rest_of s' = rest_of t" by auto
  then show ?case using Grp.IH [of t s] by (simp add: consumes_def)
qed (auto split: if_splits)

section \<open>Searching and replacing\<close>

text \<open>\<open>text.match(re)\<close> without the flag \<open>g\<close>: the leftmost match, as what it consumed and what its group captured.\<close>

fun find_match :: "'c re \<Rightarrow> 'c option \<Rightarrow> 'c list \<Rightarrow> ('c list \<times> 'c list option) option" where
  "find_match r prev s =
     (case mt r (None, prev, s) of
        t # _ \<Rightarrow> Some (take (length s - length (rest_of t)) s, fst t)
      | [] \<Rightarrow> (case s of [] \<Rightarrow> None | c # s' \<Rightarrow> find_match r (Some c) s'))"

declare find_match.simps [simp del]

definition re_test :: "'c re \<Rightarrow> 'c list \<Rightarrow> bool" where
  "re_test r s \<longleftrightarrow> find_match r None s \<noteq> None"

text \<open>The global flag: the text as a sequence of characters and matches with their groups, from left to right; after an empty match the
  search moves on by one character.\<close>

function segments :: "'c re \<Rightarrow> 'c option \<Rightarrow> 'c list \<Rightarrow> ('c + 'c list \<times> 'c list option) list" where
  "segments r prev s =
     (case mt r (None, prev, s) of
        t # _ \<Rightarrow>
          if length (rest_of t) < length s
          then Inr (take (length s - length (rest_of t)) s, fst t) # segments r (fst (snd t)) (rest_of t)
          else Inr ([], fst t) # (case s of [] \<Rightarrow> [] | c # s' \<Rightarrow> Inl c # segments r (Some c) s')
      | [] \<Rightarrow> (case s of [] \<Rightarrow> [] | c # s' \<Rightarrow> Inl c # segments r (Some c) s'))"
  by pat_completeness auto

termination
  by (relation "measure (\<lambda>(_, _, s). length s)") auto

declare segments.simps [simp del]

definition all_matches :: "'c re \<Rightarrow> 'c list \<Rightarrow> 'c list list" where
  "all_matches r s = concat (map (\<lambda>x. case x of Inl _ \<Rightarrow> [] | Inr (m, _) \<Rightarrow> [m]) (segments r None s))"

definition all_groups :: "'c re \<Rightarrow> 'c list \<Rightarrow> 'c list option list" where
  "all_groups r s = concat (map (\<lambda>x. case x of Inl _ \<Rightarrow> [] | Inr (_, g) \<Rightarrow> [g]) (segments r None s))"

definition replace_with :: "'c re \<Rightarrow> ('c list \<Rightarrow> 'c list) \<Rightarrow> 'c list \<Rightarrow> 'c list" where
  "replace_with r f s = concat (map (\<lambda>x. case x of Inl c \<Rightarrow> [c] | Inr (m, _) \<Rightarrow> f m) (segments r None s))"

text \<open>The segments are the text.\<close>

lemma segments_join: "concat (map (\<lambda>x. case x of Inl c \<Rightarrow> [c] | Inr (m, _) \<Rightarrow> m) (segments r prev s)) = s"
proof (induction r prev s rule: segments.induct)
  case (1 r prev s)
  show ?case
  proof (cases "mt r (None, prev, s)")
    case Nil
    then show ?thesis using 1 by (subst segments.simps) (auto split: list.split)
  next
    case (Cons t ts)
    have "consumes (None, prev, s) t" by (rule mt_consumes [of t r]) (simp add: Cons)
    then obtain m where m: "s = m @ rest_of t" by (auto simp: consumes_def)
    have "length s - length (rest_of t) = length m" using arg_cong [OF m, of length] by simp
    then have tk: "take (length s - length (rest_of t)) s @ rest_of t = s" using m by (metis append_eq_conv_conj)
    show ?thesis
    proof (cases "length (rest_of t) < length s")
      case True
      then show ?thesis using 1(2) [OF Cons True] tk by (subst segments.simps) (simp add: Cons)
    next
      case False
      then show ?thesis using 1(3) [OF Cons False] by (subst segments.simps) (simp add: Cons split: list.split)
    qed
  qed
qed

lemma replace_with_id: "(\<And>m. m \<in> set (all_matches r s) \<Longrightarrow> f m = m) \<Longrightarrow> replace_with r f s = s"
proof -
  assume same: "\<And>m. m \<in> set (all_matches r s) \<Longrightarrow> f m = m"
  have "map (\<lambda>x. case x of Inl c \<Rightarrow> [c] | Inr (m, _) \<Rightarrow> f m) (segments r None s)
      = map (\<lambda>x. case x of Inl c \<Rightarrow> [c] | Inr (m, _) \<Rightarrow> m) (segments r None s)"
    using same by (auto simp: all_matches_def split: sum.split prod.split)
  then show "replace_with r f s = s" by (simp only: replace_with_def segments_join)
qed

end
