(* ===== verification/PiiFilter.thy ===== *)
theory PiiFilter
  imports Regex "HOL-Library.Sublist"
begin

text \<open>
  The filter for personal data, \<open>lib/piiFilter.ts\<close>: its patterns as regular expressions, the checksums of cards, IBANs
  and Estonian identity codes, and the passes over the text. Characters are those below U+0100; \<open>toUpperCase\<close> maps the two
  letters whose capitals lie outside to U+001A.
\<close>

section \<open>Character classes\<close>

definition digit_re :: "char re" where "digit_re = Cls is_digit_char"

definition upper_char :: "char \<Rightarrow> bool" where "upper_char c \<longleftrightarrow> CHR ''A'' \<le> c \<and> c \<le> CHR ''Z''"
definition lower_char :: "char \<Rightarrow> bool" where "lower_char c \<longleftrightarrow> CHR ''a'' \<le> c \<and> c \<le> CHR ''z''"
definition alnum_char :: "char \<Rightarrow> bool" where "alnum_char c \<longleftrightarrow> upper_char c \<or> lower_char c \<or> is_digit_char c"
definition word_char :: "char \<Rightarrow> bool" where "word_char c \<longleftrightarrow> alnum_char c \<or> c = CHR ''_''"

definition space_char :: "char \<Rightarrow> bool" where
  "space_char c \<longleftrightarrow> (let n = of_char c :: nat in 9 \<le> n \<and> n \<le> 13 \<or> n = 32 \<or> n = 160)"

definition ascii_lower :: "char \<Rightarrow> char" where
  "ascii_lower c = (if upper_char c then char_of (of_char c + 32 :: nat) else c)"

definition ascii_upper :: "char \<Rightarrow> char" where
  "ascii_upper c = (if lower_char c then char_of (of_char c - 32 :: nat) else c)"

text \<open>The flag \<open>i\<close>.\<close>

definition ci :: "(char \<Rightarrow> bool) \<Rightarrow> char \<Rightarrow> bool" where
  "ci p c \<longleftrightarrow> p c \<or> p (ascii_lower c) \<or> p (ascii_upper c)"

definition among :: "string \<Rightarrow> char \<Rightarrow> bool" where
  "among s c \<longleftrightarrow> List.member s c"

definition cats :: "char re list \<Rightarrow> char re" where
  "cats rs = foldr Cat rs Eps"

fun alts :: "char re list \<Rightarrow> char re" where
  "alts [] = Eps"
| "alts [r] = r"
| "alts (r # rs) = Alt r (alts rs)"

definition exactly :: "string \<Rightarrow> char re" where
  "exactly s = cats (map (\<lambda>x. Cls (\<lambda>c. c = x)) s)"

definition exactly_ci :: "string \<Rightarrow> char re" where
  "exactly_ci s = cats (map (\<lambda>x. Cls (\<lambda>c. ascii_lower c = ascii_lower x)) s)"

abbreviation word_b :: "char re" where "word_b \<equiv> WordB word_char"
abbreviation opt_re :: "char re \<Rightarrow> char re" where "opt_re r \<equiv> Rep 0 (Some 1) r"
abbreviation many :: "char re \<Rightarrow> char re" where "many r \<equiv> Rep 0 None r"
abbreviation some_re :: "char re \<Rightarrow> char re" where "some_re r \<equiv> Rep 1 None r"
abbreviation times :: "nat \<Rightarrow> char re \<Rightarrow> char re" where "times n r \<equiv> Rep n (Some n) r"
abbreviation space_re :: "char re" where "space_re \<equiv> Cls space_char"

section \<open>The patterns\<close>

datatype pii_category = Password | Iban | CreditCard | SSN | Email | Phone | Name | Address | EstonianIdCode | Passport

definition sep_re :: "char re" where "sep_re = opt_re (Cls (\<lambda>c. space_char c \<or> c = CHR ''-''))"
definition phone_sep :: "char re" where "phone_sep = opt_re (Cls (\<lambda>c. space_char c \<or> among ''-.'' c))"

definition street_words :: "string list" where
  "street_words = [''Street'', ''St'', ''Avenue'', ''Ave'', ''Road'', ''Rd'', ''Boulevard'', ''Blvd'', ''Drive'', ''Dr'', ''Lane'', ''Ln'', ''Way'', ''Court'', ''Ct'']"

fun pii_pattern :: "pii_category \<Rightarrow> char re" where
  "pii_pattern Password = cats [word_b, Grp (alts [exactly_ci ''password'', exactly_ci ''passwd'', exactly_ci ''pwd'',
       Cat (exactly_ci ''pin'') (opt_re (Cls (among ''12'')))]), many space_re, Cls (among '':=''), many space_re,
       Rep 1 (Some 64) (Cls (\<lambda>c. \<not> space_char c)), Ahead (Alt space_re Eos)]"
| "pii_pattern Iban = cats [word_b, times 2 (Cls (ci upper_char)), times 2 digit_re, opt_re space_re,
       Rep 2 (Some 7) (Cat (times 4 digit_re) (opt_re space_re)), Rep 1 (Some 4) digit_re, word_b]"
| "pii_pattern CreditCard = cats [word_b, Rep 13 (Some 19) (Cat digit_re sep_re), word_b]"
| "pii_pattern SSN = cats [word_b, times 3 digit_re, sep_re, times 2 digit_re, sep_re, times 4 digit_re, word_b]"
| "pii_pattern Email = cats [word_b, some_re (Cls (\<lambda>c. alnum_char c \<or> among ''._%+-'' c)), exactly ''@'',
       some_re (Cls (\<lambda>c. alnum_char c \<or> among ''.-'' c)), exactly ''.'',
       Rep 2 None (Cls (\<lambda>c. upper_char c \<or> lower_char c \<or> c = CHR ''|'')), word_b]"
| "pii_pattern Phone = cats [word_b, opt_re (cats [opt_re (exactly ''+''), Rep 1 (Some 3) digit_re, phone_sep]), opt_re (exactly ''(''),
       Rep 2 (Some 4) digit_re, opt_re (exactly '')''), phone_sep, Rep 2 (Some 4) digit_re, phone_sep, Rep 2 (Some 4) digit_re, word_b]"
| "pii_pattern Name = cats [word_b, Grp (alts (map exactly [''Mr.'', ''Mrs.'', ''Ms.'', ''Dr.'', ''Prof.''])), some_re space_re,
       Cls upper_char, some_re (Cls lower_char), some_re space_re, Cls upper_char, some_re (Cls lower_char), word_b]"
| "pii_pattern Address = cats [word_b, some_re digit_re, some_re space_re, Cls (ci upper_char), some_re (Cls (ci lower_char)), some_re space_re,
       Grp (alts (map exactly_ci street_words)), word_b]"
| "pii_pattern EstonianIdCode = cats [word_b, times 11 digit_re, word_b, opt_re (Cat (many space_re) (times 2 (Cls upper_char)))]"
| "pii_pattern Passport = cats [word_b, times 2 (Cls (ci upper_char)), Rep 6 (Some 8) digit_re, word_b]"

definition PATTERNS :: "pii_category list" where
  "PATTERNS = [Password, Iban, CreditCard, SSN, Email, Phone, Name, Address, EstonianIdCode, Passport]"

definition REDACTED :: string where "REDACTED = ''[REDACTED]''"

section \<open>Checksums\<close>

text \<open>The loop from the last digit; \<open>parseInt\<close> of another character gives NaN, and then the sum is not a multiple of ten.\<close>

fun luhn_loop :: "nat list \<Rightarrow> nat \<Rightarrow> bool \<Rightarrow> nat" where
  "luhn_loop [] acc alt = acc"
| "luhn_loop (d # ds) acc alt =
     (let n = (if alt then (let n2 = d * 2 in if n2 > 9 then n2 - 9 else n2) else d)
      in luhn_loop ds (acc + n) (\<not> alt))"

definition luhnCheck :: "string \<Rightarrow> bool" where
  "luhnCheck digits \<longleftrightarrow> list_all is_digit_char digits \<and> luhn_loop (rev (map digit_val digits)) 0 False mod 10 = 0"

definition isValidCardNumber :: "string \<Rightarrow> bool" where
  "isValidCardNumber digits =
     (let cleaned = filter (\<lambda>c. \<not> (space_char c \<or> c = CHR ''-'')) digits
      in if length cleaned < 13 \<or> length cleaned > 19 then False else luhnCheck cleaned)"

definition upper_string :: "char \<Rightarrow> string" where
  "upper_string c =
     (let n = of_char c :: nat in
      if lower_char c then [ascii_upper c]
      else if n = 223 then ''SS''
      else if n = 181 \<or> n = 255 then [CHR 0x1A]
      else if 224 \<le> n \<and> n \<noteq> 247 then [char_of (n - 32)]
      else [c])"

definition toUpperCase :: "string \<Rightarrow> string" where
  "toUpperCase s = concat (map upper_string s)"

definition iban_digits :: "char \<Rightarrow> string" where
  "iban_digits ch = (if upper_char ch then show_nat (of_char ch - 55) else [ch])"

fun iban_loop :: "string \<Rightarrow> nat \<Rightarrow> nat" where
  "iban_loop [] remainder = remainder"
| "iban_loop (c # cs) remainder = iban_loop cs ((remainder * 10 + digit_val c) mod 97)"

definition isValidIban :: "string \<Rightarrow> bool" where
  "isValidIban value =
     (let cleaned = toUpperCase (filter (\<lambda>c. \<not> space_char c) value) in
      if length cleaned < 15 \<or> length cleaned > 34 then False
      else
       (let rearranged = drop 4 cleaned @ take 4 cleaned; numeric = concat (map iban_digits rearranged)
        in list_all is_digit_char numeric \<and> iban_loop numeric 0 = 1))"

definition multipliers1 :: "nat list" where "multipliers1 = [1, 2, 3, 4, 5, 6, 7, 8, 9, 1]"
definition multipliers2 :: "nat list" where "multipliers2 = [3, 4, 5, 6, 7, 8, 9, 1, 2, 3]"

definition weighted :: "nat list \<Rightarrow> nat list \<Rightarrow> nat" where
  "weighted ds ms = sum_list (map (\<lambda>(d, m). d * m) (zip ds ms))"

definition isValidEstonianIdCode :: "string \<Rightarrow> bool" where
  "isValidEstonianIdCode digits =
     (let cleaned = filter is_digit_char digits in
      if length cleaned \<noteq> 11 then False
      else
       (let ds = map digit_val cleaned;
            check1 = weighted (take 10 ds) multipliers1 mod 11;
            check = (if check1 = 10
                     then (let check2 = weighted (take 10 ds) multipliers2 mod 11 in if check2 = 10 then 0 else check2)
                     else check1)
        in check = ds ! 10))"

section \<open>The passes\<close>

record filtered =
  ft_text :: string
  ft_categories :: "pii_category list"
  ft_redactionCount :: nat

fun pii_validator :: "pii_category \<Rightarrow> (string \<Rightarrow> bool) option" where
  "pii_validator CreditCard = Some isValidCardNumber"
| "pii_validator Iban = Some isValidIban"
| "pii_validator EstonianIdCode = Some isValidEstonianIdCode"
| "pii_validator _ = None"

definition filter_pass :: "pii_category \<Rightarrow> filtered \<Rightarrow> filtered" where
  "filter_pass category r =
     (let ms = all_matches (pii_pattern category) (ft_text r) in
      if ms = [] then r
      else
       (case pii_validator category of
          Some valid \<Rightarrow>
            (let count = length (filter valid ms);
                 text = replace_with (pii_pattern category) (\<lambda>m. if valid m then REDACTED else m) (ft_text r)
             in if count > 0
                then r\<lparr>ft_text := text, ft_categories := ft_categories r @ [category], ft_redactionCount := ft_redactionCount r + count\<rparr>
                else r\<lparr>ft_text := text\<rparr>)
        | None \<Rightarrow>
            \<lparr>ft_text = replace_with (pii_pattern category) (\<lambda>_. REDACTED) (ft_text r),
             ft_categories = ft_categories r @ [category], ft_redactionCount = ft_redactionCount r + length ms\<rparr>))"

definition filterPii :: "string \<Rightarrow> filtered" where
  "filterPii text = fold filter_pass PATTERNS \<lparr>ft_text = text, ft_categories = [], ft_redactionCount = 0\<rparr>"

definition hasRedactions :: "filtered \<Rightarrow> bool" where
  "hasRedactions r \<longleftrightarrow> ft_redactionCount r > 0"

definition filterDomContent :: "string \<Rightarrow> nat option \<Rightarrow> string \<times> bool" where
  "filterDomContent text maxTextLength =
     (let piiResult = filterPii text; max = nullish maxTextLength 50000; finalText = ft_text piiResult
      in (if length finalText > max then take max finalText @ CHR 0x0A # ''...[truncated]'' else finalText, hasRedactions piiResult))"


section \<open>What the checksums detect\<close>

definition luhn_digit :: "bool \<Rightarrow> nat \<Rightarrow> nat" where
  "luhn_digit alt d = (if alt then (if d * 2 > 9 then d * 2 - 9 else d * 2) else d)"

text \<open>The reference of the loop: the digits weighted alternately, summed up.\<close>

fun luhn_sum :: "bool \<Rightarrow> nat list \<Rightarrow> nat" where
  "luhn_sum alt [] = 0"
| "luhn_sum alt (d # ds) = luhn_digit alt d + luhn_sum (\<not> alt) ds"

lemma luhn_loop_sum: "luhn_loop ds acc alt = acc + luhn_sum alt ds"
  by (induction ds arbitrary: acc alt) (simp_all add: luhn_digit_def Let_def)

lemma luhn_sum_append: "luhn_sum alt (us @ vs) = luhn_sum alt us + luhn_sum (alt = even (length us)) vs"
proof (induction us arbitrary: alt)
  case (Cons u us)
  have "((\<not> alt) = even (length us)) = (alt = even (length (u # us)))" by auto
  then show ?case using Cons by simp
qed simp

lemma luhn_digit_inject: "d < 10 \<Longrightarrow> e < 10 \<Longrightarrow> luhn_digit alt d mod 10 = luhn_digit alt e mod 10 \<Longrightarrow> d = e"
proof -
  assume "d < 10" "e < 10" and eq: "luhn_digit alt d mod 10 = luhn_digit alt e mod 10"
  then have "d \<in> set [0..<10]" "e \<in> set [0..<10]" by simp_all
  then have "d \<in> {0, 1, 2, 3, 4, 5, 6, 7, 8, 9}" "e \<in> {0, 1, 2, 3, 4, 5, 6, 7, 8, 9}" by (auto simp: numeral_eq_Suc less_Suc_eq)
  with eq show "d = e" by (cases alt) (auto simp: luhn_digit_def)
qed

lemma digit_val_less: "is_digit_char c \<Longrightarrow> digit_val c < 10"
  by (auto simp: digit_val_def is_digit_char_iff)

lemma digit_val_inject: "is_digit_char c \<Longrightarrow> is_digit_char d \<Longrightarrow> digit_val c = digit_val d \<Longrightarrow> c = d"
proof -
  assume "is_digit_char c" "is_digit_char d" "digit_val c = digit_val d"
  then have "(of_char c :: nat) = of_char d" unfolding digit_val_def is_digit_char_iff by linarith
  then show "c = d" by simp
qed

lemma luhn_single: "luhnCheck (xs @ a # ys) \<Longrightarrow> luhnCheck (xs @ b # ys) \<Longrightarrow> a = b"
proof -
  assume ok: "luhnCheck (xs @ a # ys)" "luhnCheck (xs @ b # ys)"
  let ?u = "rev (map digit_val ys)" and ?v = "rev (map digit_val xs)" and ?alt = "False = even (length ys)"
  let ?rest = "luhn_sum False ?u + luhn_sum (\<not> ?alt) ?v"
  have sum: "luhnCheck (xs @ c # ys) \<Longrightarrow> (luhn_digit ?alt (digit_val c) + ?rest) mod 10 = 0 \<and> is_digit_char c" for c
    by (simp add: luhnCheck_def luhn_loop_sum luhn_sum_append ac_simps)
  have cancel: "x mod 10 = y mod 10" if xy: "(x + k) mod 10 = 0" "(y + k) mod 10 = 0" for x y k :: nat
  proof -
    obtain p q where "x + k = 10 * p" "y + k = 10 * q" using xy by (auto simp: mod_eq_0_iff_dvd elim!: dvdE)
    then have "x + 10 * q = y + 10 * p" by linarith
    then show ?thesis by (metis mod_mult_self2)
  qed
  have "luhn_digit ?alt (digit_val a) mod 10 = luhn_digit ?alt (digit_val b) mod 10"
    by (rule cancel [of _ ?rest]) (use sum [OF ok(1)] sum [OF ok(2)] in blast)+
  then have "digit_val a = digit_val b"
    using luhn_digit_inject [OF digit_val_less digit_val_less] sum [OF ok(1)] sum [OF ok(2)] by blast
  then show "a = b" using digit_val_inject sum [OF ok(1)] sum [OF ok(2)] by blast
qed

lemma iban_loop_mod: "r < 97 \<Longrightarrow> iban_loop s r = (r * 10 ^ length s + read_nat s) mod 97"
proof (induction s arbitrary: r)
  case (Cons c s)
  have shift: "foldl (\<lambda>n c. 10 * n + digit_val c) k s = k * 10 ^ length s + read_nat s" for k
  proof (induction s arbitrary: k)
    case (Cons x xs)
    show ?case using Cons [of "10 * k + digit_val x"] Cons [of "digit_val x"] by (simp add: read_nat_def algebra_simps)
  qed (simp add: read_nat_def)
  have "read_nat (c # s) = digit_val c * 10 ^ length s + read_nat s" using shift [of "digit_val c"] by (simp add: read_nat_def)
  moreover have "iban_loop (c # s) r = (((r * 10 + digit_val c) mod 97) * 10 ^ length s + read_nat s) mod 97" using Cons.IH by simp
  moreover have "\<dots> = ((r * 10 + digit_val c) * 10 ^ length s + read_nat s) mod 97" by (metis mod_add_left_eq mod_mult_left_eq)
  ultimately show ?case by (simp add: algebra_simps)
qed (simp add: read_nat_def)


lemma read_nat_middle: "read_nat (xs @ c # ys) = read_nat xs * 10 ^ Suc (length ys) + digit_val c * 10 ^ length ys + read_nat ys"
proof (induction ys rule: rev_induct)
  case (snoc y ys)
  have "read_nat (xs @ c # ys @ [y]) = 10 * read_nat (xs @ c # ys) + digit_val y" using read_nat_append [of "xs @ c # ys" y] by simp
  then show ?case using snoc read_nat_append [of ys y] by (simp add: algebra_simps)
qed (simp add: read_nat_append read_nat_def)

lemma iban_single:
  assumes "iban_loop (xs @ a # ys) 0 = iban_loop (xs @ b # ys) 0" and digits: "is_digit_char a" "is_digit_char b"
  shows "a = b"
proof -
  let ?k = "read_nat xs * 10 ^ Suc (length ys) + read_nat ys"
  have "(digit_val a * 10 ^ length ys + ?k) mod 97 = (digit_val b * 10 ^ length ys + ?k) mod 97"
    using assms(1) by (simp add: iban_loop_mod read_nat_middle ac_simps)
  then have "97 dvd (int (digit_val a) * 10 ^ length ys + int ?k) - (int (digit_val b) * 10 ^ length ys + int ?k)"
    by (metis (mono_tags) mod_eq_dvd_iff of_nat_add of_nat_mod of_nat_mult of_nat_numeral of_nat_power)
  then have "97 dvd (int (digit_val a) - int (digit_val b)) * 10 ^ length ys" by (simp add: algebra_simps)
  moreover have "coprime (97 :: int) (10 ^ length ys)"
  proof -
    have "coprime (97 :: int) 10" unfolding coprime_iff_gcd_eq_1 by code_simp
    then show ?thesis by simp
  qed
  ultimately have "97 dvd int (digit_val a) - int (digit_val b)" using coprime_dvd_mult_left_iff by blast
  moreover have "\<bar>int (digit_val a) - int (digit_val b)\<bar> < 97" using digits [THEN digit_val_less] by linarith
  ultimately have "digit_val a = digit_val b" using dvd_imp_le_int [of "int (digit_val a) - int (digit_val b)" 97] by fastforce
  then show ?thesis using digits digit_val_inject by blast
qed

text \<open>the checksums catch every single wrong digit. Of two card numbers that differ in one digit at most one passes the
  Luhn check, and of two account numbers whose digit strings differ in one digit at most one has remainder one modulo 97; the
  remainder the loop computes is that of the whole number, which does not fit a machine word.\<close>

theorem checksums_catch_single_errors:
  assumes "is_digit_char a" "is_digit_char b" "a \<noteq> b"
  shows "\<not> (luhnCheck (xs @ a # ys) \<and> luhnCheck (xs @ b # ys))
    \<and> \<not> (iban_loop (xs @ a # ys) 0 = 1 \<and> iban_loop (xs @ b # ys) 0 = 1)
    \<and> iban_loop (xs @ a # ys) 0 = read_nat (xs @ a # ys) mod 97"
  using luhn_single [of xs a ys b] iban_single [of xs a ys b] assms by (auto simp: iban_loop_mod)

theorem checksums_catch_single_errors_witness:
  "luhnCheck ''79927398713'' \<and> \<not> luhnCheck ''79927398723''"
proof -
  have ok: "luhnCheck ''79927398713''" by code_simp
  have "is_digit_char (CHR ''1'')" "is_digit_char (CHR ''2'')" "CHR ''1'' \<noteq> CHR ''2''" by (simp_all add: is_digit_char_iff)
  from conjunct1 [OF checksums_catch_single_errors [OF this, of "''799273987''" "''3''"]] ok show ?thesis by simp
qed

section \<open>What the filter reports\<close>

definition quiet_category :: "pii_category \<Rightarrow> string \<Rightarrow> bool" where
  "quiet_category c text \<longleftrightarrow> list_all (\<lambda>m. case pii_validator c of None \<Rightarrow> False | Some valid \<Rightarrow> \<not> valid m) (all_matches (pii_pattern c) text)"

lemma pass_quiet: "quiet_category c (ft_text r) \<Longrightarrow> filter_pass c r = r"
proof -
  assume q: "quiet_category c (ft_text r)"
  show "filter_pass c r = r"
  proof (cases "all_matches (pii_pattern c) (ft_text r) = []")
    case False
    then obtain valid where valid: "pii_validator c = Some valid" using q by (cases "pii_validator c") (auto simp: quiet_category_def list_all_iff)
    have none: "m \<in> set (all_matches (pii_pattern c) (ft_text r)) \<Longrightarrow> \<not> valid m" for m
      using q valid by (simp add: quiet_category_def list_all_iff)
    then have "filter valid (all_matches (pii_pattern c) (ft_text r)) = []" by simp
    moreover have "replace_with (pii_pattern c) (\<lambda>m. if valid m then REDACTED else m) (ft_text r) = ft_text r"
      by (rule replace_with_id) (use none in simp)
    ultimately show ?thesis using valid by (simp add: filter_pass_def Let_def)
  qed (simp add: filter_pass_def)
qed

lemma pass_loud:
  assumes "\<not> quiet_category c (ft_text r)"
  shows "ft_categories (filter_pass c r) = ft_categories r @ [c] \<and> ft_redactionCount (filter_pass c r) > ft_redactionCount r"
proof (cases "pii_validator c")
  case None
  then show ?thesis using assms by (auto simp: filter_pass_def quiet_category_def Let_def)
next
  case (Some valid)
  then obtain m where "m \<in> set (all_matches (pii_pattern c) (ft_text r))" "valid m" using assms by (auto simp: quiet_category_def list_all_iff)
  then have "filter valid (all_matches (pii_pattern c) (ft_text r)) \<noteq> []" by (auto simp: filter_empty_conv)
  then show ?thesis using Some by (auto simp: filter_pass_def Let_def)
qed

definition accounted :: "string \<Rightarrow> filtered \<Rightarrow> bool" where
  "accounted text r \<longleftrightarrow> (ft_redactionCount r = 0) = (ft_categories r = []) \<and> (ft_redactionCount r = 0 \<longrightarrow> ft_text r = text)"

lemma passes_accounted:
  "accounted text r \<Longrightarrow> accounted text (fold filter_pass cs r)
     \<and> (ft_redactionCount (fold filter_pass cs r) = 0 \<longrightarrow> list_all (\<lambda>c. quiet_category c text) cs)
     \<and> (\<exists>ds. ft_categories (fold filter_pass cs r) = ft_categories r @ ds \<and> subseq ds cs) \<and> ft_redactionCount r \<le> ft_redactionCount (fold filter_pass cs r)"
proof (induction cs arbitrary: r)
  case (Cons c cs)
  show ?case
  proof (cases "quiet_category c (ft_text r)")
    case True
    then show ?thesis using Cons.IH [OF Cons.prems] Cons.prems by (auto simp: pass_quiet accounted_def)
  next
    case False
    note loud = pass_loud [OF False]
    then have "accounted text (filter_pass c r)" using Cons.prems by (auto simp: accounted_def)
    then show ?thesis using Cons.IH [of "filter_pass c r"] loud by fastforce
  qed
qed simp

text \<open>C33: the filter's report is complete. It reports redactions exactly when it names a category, the categories come in the
  order of the passes, each once; and when it reports none, the text is the original one and holds no match of any pattern, except
  numbers that fail the checksum of their kind.\<close>

theorem pii_report_complete:
  "hasRedactions (filterPii t) = (ft_categories (filterPii t) \<noteq> []) \<and> subseq (ft_categories (filterPii t)) PATTERNS
   \<and> (if hasRedactions (filterPii t) then True
       else ft_text (filterPii t) = t \<and> list_all (\<lambda>c. quiet_category c t) PATTERNS)"
proof -
  have "accounted t \<lparr>ft_text = t, ft_categories = [], ft_redactionCount = 0\<rparr>" by (simp add: accounted_def)
  from passes_accounted [OF this, of PATTERNS] show ?thesis
    by (auto simp: filterPii_def hasRedactions_def accounted_def)
qed

text \<open>A cut text is at most sixteen characters longer than the limit.\<close>

lemma filtered_length: "length (fst (filterDomContent text (Some n))) \<le> n + 16"
  by (simp add: filterDomContent_def Let_def)

text \<open>An identity code is taken for a telephone number, whose pass comes first and tests no checksum.\<close>

lemma id_code_reported_as_phone: "isValidEstonianIdCode ''38705264215'' \<and> ft_categories (filterPii ''38705264215'') = [Phone]"
  by code_simp

text \<open>A password of more than 64 characters is not redacted.\<close>

lemma long_password_kept: "ft_text (filterPii (''pwd='' @ replicate 65 (CHR ''x''))) = ''pwd='' @ replicate 65 (CHR ''x'')"
  by code_simp

end
