(* ===== verification/Transactions.thy ===== *)
theory Transactions
  imports PiiFilter Json
begin

text \<open>
  Detection of transactions on a page: the declarative detectors of \<open>lib/transaction/remoteRegistry.ts\<close>, the detector for one
  bank, \<open>lib/transaction/detectors/lhvDetector.ts\<close>, and the choice among them, \<open>lib/transaction/transactionDetector.ts\<close>.

  The text of a page is a list of UTF-16 code units. The page is a parameter: what \<open>querySelector\<close> finds, and the text
  nodes of the body in document order with their ancestors. Compiling and running a pattern that comes from the registry is
  the parameter \<open>regexp\<close>: \<open>None\<close> is a pattern that does not compile.
\<close>

section \<open>Texts of a page\<close>

type_synonym jtext = "nat list"

definition units :: "string \<Rightarrow> jtext" where "units s = map of_char s"

definition digit_u :: "nat \<Rightarrow> bool" where "digit_u n \<longleftrightarrow> 48 \<le> n \<and> n \<le> 57"
definition letter_u :: "nat \<Rightarrow> bool" where "letter_u n \<longleftrightarrow> 65 \<le> n \<and> n \<le> 90 \<or> 97 \<le> n \<and> n \<le> 122"
definition word_u :: "nat \<Rightarrow> bool" where "word_u n \<longleftrightarrow> digit_u n \<or> letter_u n \<or> n = 95"

definition space_u :: "nat \<Rightarrow> bool" where
  "space_u n \<longleftrightarrow> 9 \<le> n \<and> n \<le> 13 \<or> n = 32 \<or> n = 160 \<or> n = 0x1680 \<or> 0x2000 \<le> n \<and> n \<le> 0x200A
     \<or> n = 0x2028 \<or> n = 0x2029 \<or> n = 0x202F \<or> n = 0x205F \<or> n = 0x3000 \<or> n = 0xFEFF"

definition lower_u :: "nat \<Rightarrow> nat" where "lower_u n = (if 65 \<le> n \<and> n \<le> 90 then n + 32 else n)"

definition catu :: "nat re list \<Rightarrow> nat re" where "catu rs = foldr Cat rs Eps"

fun altu :: "nat re list \<Rightarrow> nat re" where
  "altu [] = Eps"
| "altu [r] = r"
| "altu (r # rs) = Alt r (altu rs)"

definition lit_u :: "string \<Rightarrow> nat re" where "lit_u s = catu (map (\<lambda>x. Cls (\<lambda>c. c = x)) (units s))"
definition lit_ci :: "string \<Rightarrow> nat re" where "lit_ci s = catu (map (\<lambda>x. Cls (\<lambda>c. lower_u c = lower_u x)) (units s))"

definition trim_u :: "jtext \<Rightarrow> jtext" where
  "trim_u t = rev (dropWhile space_u (rev (dropWhile space_u t)))"

text \<open>\<open>replace(/\s+/g, x)\<close>.\<close>

definition squeeze :: "jtext \<Rightarrow> jtext \<Rightarrow> jtext" where
  "squeeze x t = replace_with (Rep 1 None (Cls space_u)) (\<lambda>_. x) t"

record page_element =
  el_text :: jtext
  el_firstText :: "jtext option"

record transaction =
  tx_amount :: jtext
  tx_recipient :: jtext
  tx_iban :: "jtext option"

section \<open>The registry\<close>

record detector =
  dd_domain :: string
  dd_urlPattern :: string
  dd_amount :: "string list"
  dd_recipient :: "string list"
  dd_iban :: "json option"
  dd_expects :: "string list"
  dd_compiled :: "(string \<Rightarrow> bool) option"

definition KNOWN_LABELS :: "nat re" where
  "KNOWN_LABELS = catu [Bos, altu (map lit_ci [''amount'', ''sum'', ''total'', ''recipient'', ''saaja'', ''makse'', ''viitenumber'', ''selgitus'',
     ''payment'', ''transfer'']), Rep 0 None (Cls (\<lambda>c. c = 58 \<or> space_u c))]"

text \<open>\<open>replace\<close> without the flag \<open>g\<close> of a pattern anchored at the start.\<close>

definition drop_label :: "jtext \<Rightarrow> jtext" where
  "drop_label t = (case mt KNOWN_LABELS (None, None, t) of [] \<Rightarrow> t | s # _ \<Rightarrow> rest_of s)"

definition nonempty_text :: "jtext \<Rightarrow> jtext option" where
  "nonempty_text t = (if t = [] then None else Some t)"

definition extractCleanText :: "page_element \<Rightarrow> jtext option" where
  "extractCleanText el =
     (let raw = trim_u (el_text el) in
      if raw = [] then None else nonempty_text (trim_u (squeeze [32] (drop_label raw))))"

definition REGISTRY_TTL_MS :: millis where "REGISTRY_TTL_MS = 24 * 60 * 60 * 1000"
definition MAX_PATTERN_LENGTH :: nat where "MAX_PATTERN_LENGTH = 500"
definition MAX_URL_TEST_LENGTH :: nat where "MAX_URL_TEST_LENGTH = 2048"
definition MAX_ALTERNATIONS :: nat where "MAX_ALTERNATIONS = 5"

definition no_close :: "char re" where "no_close = Cls (\<lambda>c. c \<noteq> CHR '')'')"
definition quantifier :: "char re" where "quantifier = Cls (among ''+*'')"

definition NESTED_QUANTIFIER_RE :: "char re" where
  "NESTED_QUANTIFIER_RE = cats [exactly ''('', many no_close, quantifier, many no_close, exactly '')'', many space_re, quantifier]"

definition GROUP_WITH_QUANTIFIER_RE :: "char re" where
  "GROUP_WITH_QUANTIFIER_RE = cats [exactly ''('', Grp (some_re no_close), exactly '')'', quantifier]"

text \<open>A backslash with the character after it, unless that ends the line.\<close>

definition escape_re :: "char re" where
  "escape_re = cats [Cls (\<lambda>c. c = CHR 0x5C), Grp (Cls (\<lambda>c. c \<noteq> CHR 0x0A \<and> c \<noteq> CHR 0x0D))]"

definition isSafeUrlPattern :: "(string \<Rightarrow> (string \<Rightarrow> bool) option) \<Rightarrow> string \<Rightarrow> bool" where
  "isSafeUrlPattern regexp pattern =
     (if length pattern > MAX_PATTERN_LENGTH then False
      else
       (let stripped = replace_with escape_re (\<lambda>_. '' '') pattern in
        if re_test NESTED_QUANTIFIER_RE stripped then False
        else if list_ex (\<lambda>g. length (split_on (CHR ''|'') (nullish g [])) > MAX_ALTERNATIONS) (all_groups GROUP_WITH_QUANTIFIER_RE stripped)
        then False
        else regexp pattern \<noteq> None))"

definition ALLOWED_EXPECT_VALUES :: "string list" where
  "ALLOWED_EXPECT_VALUES = [''amount'', ''recipient'', ''iban'']"

definition nonempty_array :: "json option \<Rightarrow> bool" where
  "nonempty_array v \<longleftrightarrow> (case v of Some (JArr xs) \<Rightarrow> xs \<noteq> [] | _ \<Rightarrow> False)"

definition nonempty_string :: "json option \<Rightarrow> bool" where
  "nonempty_string v \<longleftrightarrow> (case v of Some (JStr s) \<Rightarrow> s \<noteq> [] | _ \<Rightarrow> False)"

definition allowed_expect :: "json \<Rightarrow> bool" where
  "allowed_expect e \<longleftrightarrow> (case e of JStr s \<Rightarrow> List.member ALLOWED_EXPECT_VALUES s | _ \<Rightarrow> False)"

definition isValidDetector :: "json \<Rightarrow> bool" where
  "isValidDetector d \<longleftrightarrow> nonempty_string (jget d ''domain'') \<and> nonempty_string (jget d ''urlPattern'') \<and> nonempty_array (jget d ''expects'')
     \<and> list_all allowed_expect (nullish (jarr (jget d ''expects'')) [])
     \<and> (case jget d ''selectors'' of
          Some (JObj sels) \<Rightarrow> nonempty_array (jget (JObj sels) ''amount'') \<and> nonempty_array (jget (JObj sels) ''recipient'')
        | _ \<Rightarrow> False)"

text \<open>An element of a list of selectors as \<open>querySelector\<close> reads it.\<close>

fun js_string :: "json \<Rightarrow> string" where
  "js_string (JStr s) = s"
| "js_string (JNum n) = show_int n"
| "js_string (JBool b) = (if b then ''true'' else ''false'')"
| "js_string JNull = ''null''"
| "js_string (JObj _) = ''[object Object]''"
| "js_string (JArr xs) = join_with '','' (map (\<lambda>x. if x = JNull then [] else js_string x) xs)"

definition detector_of :: "json \<Rightarrow> detector" where
  "detector_of d =
     (let sels = nullish (jget d ''selectors'') JNull; strings = (\<lambda>v. map js_string (nullish (jarr v) [])) in
      \<lparr>dd_domain = nullish (jstr (jget d ''domain'')) [], dd_urlPattern = nullish (jstr (jget d ''urlPattern'')) [],
       dd_amount = strings (jget sels ''amount''), dd_recipient = strings (jget sels ''recipient''), dd_iban = jget sels ''iban'',
       dd_expects = strings (jget d ''expects''), dd_compiled = None\<rparr>)"

definition compileDetectors :: "(string \<Rightarrow> (string \<Rightarrow> bool) option) \<Rightarrow> detector list \<Rightarrow> detector list" where
  "compileDetectors regexp detectors =
     map (\<lambda>d. d\<lparr>dd_compiled := (if isSafeUrlPattern regexp (dd_urlPattern d) then regexp (dd_urlPattern d) else None)\<rparr>) detectors"

text \<open>\<open>None\<close> is a failed request or an answer that is not JSON; \<open>null\<close> has no property \<open>detectors\<close> and throws.\<close>

definition fetchRegistry :: "(string \<Rightarrow> (string \<Rightarrow> bool) option) \<Rightarrow> json option \<Rightarrow> detector list" where
  "fetchRegistry regexp response =
     (case response of
        None \<Rightarrow> []
      | Some raw \<Rightarrow>
          (case jarr (jget raw ''detectors'') of
             None \<Rightarrow> []
           | Some ds \<Rightarrow> compileDetectors regexp (map detector_of (filter isValidDetector ds))))"

text \<open>The module's cache and its copy in the local storage, where a compiled pattern does not survive.\<close>

record registry_cache =
  rc_detectors :: "detector list option"
  rc_timestamp :: millis
  rc_stored :: "(detector list \<times> millis) option"

definition new_registry_cache :: "(detector list \<times> millis) option \<Rightarrow> registry_cache" where
  "new_registry_cache stored = \<lparr>rc_detectors = None, rc_timestamp = 0, rc_stored = stored\<rparr>"

definition strip_compiled :: "detector \<Rightarrow> detector" where
  "strip_compiled d = d\<lparr>dd_compiled := None\<rparr>"

definition loadCached :: "(string \<Rightarrow> (string \<Rightarrow> bool) option) \<Rightarrow> registry_cache \<Rightarrow> registry_cache" where
  "loadCached regexp c =
     (case rc_stored c of
        None \<Rightarrow> c
      | Some (detectors, timestamp) \<Rightarrow> c\<lparr>rc_detectors := Some (compileDetectors regexp detectors), rc_timestamp := timestamp\<rparr>)"

text \<open>The storage may be unavailable; then only the module's copy changes.\<close>

definition keep_fresh :: "bool \<Rightarrow> millis \<Rightarrow> detector list \<Rightarrow> registry_cache \<Rightarrow> registry_cache" where
  "keep_fresh storeOk now fresh c =
     (let c1 = c\<lparr>rc_detectors := Some fresh, rc_timestamp := now\<rparr>
      in if storeOk then c1\<lparr>rc_stored := Some (map strip_compiled fresh, now)\<rparr> else c1)"

definition initializeRegistry ::
  "(string \<Rightarrow> (string \<Rightarrow> bool) option) \<Rightarrow> json option \<Rightarrow> bool \<Rightarrow> millis \<Rightarrow> registry_cache \<Rightarrow> registry_cache" where
  "initializeRegistry regexp response storeOk now c =
     (let c1 = loadCached regexp c in
      if now - rc_timestamp c1 > REGISTRY_TTL_MS then
       (let fresh = fetchRegistry regexp response in if fresh \<noteq> [] then keep_fresh storeOk now fresh c1 else c1)
      else c1)"

definition refreshRegistry ::
  "(string \<Rightarrow> (string \<Rightarrow> bool) option) \<Rightarrow> json option \<Rightarrow> bool \<Rightarrow> millis \<Rightarrow> registry_cache \<Rightarrow> bool \<times> registry_cache" where
  "refreshRegistry regexp response storeOk now c =
     (let fresh = fetchRegistry regexp response in if fresh \<noteq> [] then (True, keep_fresh storeOk now fresh c) else (False, c))"

definition findDeclarativeDetector :: "string \<Rightarrow> registry_cache \<Rightarrow> detector option" where
  "findDeclarativeDetector url c =
     (case rc_detectors c of
        None \<Rightarrow> None
      | Some detectors \<Rightarrow>
          (let testUrl = (if length url > MAX_URL_TEST_LENGTH then slice url 0 MAX_URL_TEST_LENGTH else url)
           in find (\<lambda>d. case dd_compiled d of None \<Rightarrow> False | Some p \<Rightarrow> p testUrl) detectors))"

section \<open>Reading the page\<close>

text \<open>\<open>document.querySelector\<close>: \<open>Inl\<close> is a selector that is not valid.\<close>

type_synonym query = "string \<Rightarrow> unit + page_element option"

definition known_label :: "jtext \<Rightarrow> bool" where
  "known_label t \<longleftrightarrow> re_test KNOWN_LABELS t"

definition element_value :: "page_element \<Rightarrow> jtext option" where
  "element_value el =
     (let direct = (case el_firstText el of Some t \<Rightarrow> trim_u t | None \<Rightarrow> []) in
      if direct \<noteq> [] \<and> \<not> known_label direct then Some direct else extractCleanText el)"

fun querySelectors :: "query \<Rightarrow> string list \<Rightarrow> jtext option" where
  "querySelectors q [] = None"
| "querySelectors q (sel # sels) =
     (case q sel of
        Inr (Some el) \<Rightarrow> (case element_value el of Some v \<Rightarrow> Some v | None \<Rightarrow> querySelectors q sels)
      | _ \<Rightarrow> querySelectors q sels)"

text \<open>The optional selectors are not validated: a text is iterated by its characters, another value throws.\<close>

definition iban_selectors :: "json \<Rightarrow> string + string list" where
  "iban_selectors v = (case v of JArr xs \<Rightarrow> Inr (map js_string xs) | JStr s \<Rightarrow> Inr (map (\<lambda>c. [c]) s) | _ \<Rightarrow> Inl ''selectors is not iterable'')"

record found =
  fd_amount :: "jtext option"
  fd_recipient :: "jtext option"
  fd_iban :: "jtext option"

definition or_keep :: "'a option \<Rightarrow> 'a option \<Rightarrow> 'a option" where
  "or_keep v old = (case v of Some x \<Rightarrow> Some x | None \<Rightarrow> old)"

definition detect_field :: "query \<Rightarrow> detector \<Rightarrow> string \<Rightarrow> found \<Rightarrow> string + found" where
  "detect_field q d field r =
     (if field = ''amount'' then Inr (r\<lparr>fd_amount := or_keep (querySelectors q (dd_amount d)) (fd_amount r)\<rparr>)
      else if field = ''recipient'' then Inr (r\<lparr>fd_recipient := or_keep (querySelectors q (dd_recipient d)) (fd_recipient r)\<rparr>)
      else if field = ''iban'' \<and> truthy (dd_iban d) then
        (case iban_selectors (the (dd_iban d)) of
           Inl e \<Rightarrow> Inl e
         | Inr sels \<Rightarrow> Inr (r\<lparr>fd_iban := or_keep (querySelectors q sels) (fd_iban r)\<rparr>))
      else Inr r)"

definition found_transaction :: "found \<Rightarrow> transaction option" where
  "found_transaction r =
     (if fd_amount r = None \<and> fd_recipient r = None then None
      else Some \<lparr>tx_amount = nullish (fd_amount r) [], tx_recipient = nullish (fd_recipient r) [], tx_iban = fd_iban r\<rparr>)"

definition detectWithDeclarativeSelectors :: "query \<Rightarrow> detector \<Rightarrow> string + transaction option" where
  "detectWithDeclarativeSelectors q d =
     (case foldl (\<lambda>acc field. case acc of Inl e \<Rightarrow> Inl e | Inr r \<Rightarrow> detect_field q d field r)
             (Inr \<lparr>fd_amount = None, fd_recipient = None, fd_iban = None\<rparr>) (dd_expects d) of
        Inl e \<Rightarrow> Inl e
      | Inr r \<Rightarrow> Inr (found_transaction r))"

section \<open>The bank's detector\<close>

definition amount_selectors :: "string list" where
  "amount_selectors = [''.amount-value'', ''.transaction-amount'', ''[data-test-id=\"transaction-amount\"]'', ''.payment-amount'', ''.sum'']"
definition recipient_selectors :: "string list" where
  "recipient_selectors = [''.recipient-name'', ''.beneficiary-name'', ''[data-test-id=\"beneficiary\"]'', ''.payment-receiver'', ''.receiver'']"
definition lhv_iban_selectors :: "string list" where
  "lhv_iban_selectors = [''.iban'', ''.account-number'', ''[data-test-id=\"beneficiary-iban\"]'', ''.receiver-account'', ''.account-iban'']"

text \<open>The selectors below are fixed and valid, so \<open>querySelector\<close> does not throw on them.\<close>

fun first_text :: "(jtext \<Rightarrow> jtext) \<Rightarrow> (jtext \<Rightarrow> bool) \<Rightarrow> query \<Rightarrow> string list \<Rightarrow> jtext option" where
  "first_text clean good q [] = None"
| "first_text clean good q (sel # sels) =
     (case q sel of
        Inr (Some el) \<Rightarrow>
          if el_text el \<noteq> [] \<and> good (clean (el_text el)) then Some (clean (el_text el)) else first_text clean good q sels
      | _ \<Rightarrow> first_text clean good q sels)"

definition clean_line :: "jtext \<Rightarrow> jtext" where "clean_line t = trim_u (squeeze [32] t)"

definition extractAmount :: "query \<Rightarrow> jtext option" where
  "extractAmount q = first_text clean_line (re_test (Cls digit_u)) q amount_selectors"

definition extractRecipient :: "query \<Rightarrow> jtext option" where
  "extractRecipient q = first_text clean_line (\<lambda>t. length t \<ge> 2) q recipient_selectors"

definition iban_shape :: "nat re" where
  "iban_shape = catu [Bos, Rep 2 (Some 2) (Cls (\<lambda>c. 65 \<le> c \<and> c \<le> 90)), Rep 2 (Some 2) (Cls digit_u),
     Rep 1 None (Cls (\<lambda>c. 65 \<le> c \<and> c \<le> 90 \<or> digit_u c)), Eos]"

definition extractIban :: "query \<Rightarrow> jtext option" where
  "extractIban q = first_text (\<lambda>t. trim_u (squeeze [] t)) (re_test iban_shape) q lhv_iban_selectors"

definition lhv_detect :: "query \<Rightarrow> transaction option" where
  "lhv_detect q =
     (case (extractAmount q, extractRecipient q) of
        (Some a, Some r) \<Rightarrow> Some \<lparr>tx_amount = a, tx_recipient = r, tx_iban = extractIban q\<rparr>
      | _ \<Rightarrow> None)"


section \<open>Searching the text\<close>

definition euro :: nat where "euro = 0x20AC"

definition AMOUNT_PATTERN :: "nat re" where
  "AMOUNT_PATTERN = catu [Rep 0 None (Cls (\<lambda>c. c = euro \<or> digit_u c \<or> space_u c \<or> c = 44)), Rep 1 None (Cls digit_u), Cls (\<lambda>c. c = 46 \<or> c = 44),
     Rep 2 (Some 2) (Cls digit_u), Rep 0 None (Cls space_u), Rep 0 (Some 1) (Alt (lit_u ''EUR'') (Cls (\<lambda>c. c = euro)))]"

definition ibanPattern :: "nat re" where
  "ibanPattern =
     (let sp = Rep 0 (Some 1) (Cls space_u); four = Rep 4 (Some 4) (Cls digit_u); two = Rep 2 (Some 2) (Cls digit_u)
      in catu [WordB word_u, lit_u ''EE'', two, sp, four, sp, four, sp, four, sp, four, sp, two, WordB word_u])"

definition recipientLabel :: "nat re" where
  "recipientLabel = catu [altu [lit_ci ''saaja'', lit_ci ''recipient'', lit_ci ''beneficiary'', catu [lit_ci ''to'', Rep 0 None (Cls space_u), lit_ci ''account'']],
     Rep 0 None (Cls (\<lambda>c. c = 58 \<or> space_u c)), Grp (Rep 1 (Some 120) (Cls (\<lambda>c. c \<noteq> 10))),
     Ahead (catu [Rep 0 None (Cls space_u), altu [lit_ci ''viitenumber'', lit_ci ''selgitus'', lit_ci ''amount'', lit_ci ''sum'', lit_ci ''iban'', lit_u ''|'', Eos]])]"

text \<open>An element above a text node, and a text node with the elements above it, from its parent to the one below the body.\<close>

record ancestor =
  an_tag :: string
  an_ariaHidden :: bool
  an_displayNone :: bool
  an_innerText :: jtext

record text_node =
  tn_text :: jtext
  tn_ancestors :: "ancestor list"
  tn_bodyHidden :: bool

definition acceptNode :: "text_node \<Rightarrow> bool" where
  "acceptNode n =
     (case tn_ancestors n of
        [] \<Rightarrow> \<not> tn_bodyHidden n
      | el # _ \<Rightarrow>
          if List.member [''SCRIPT'', ''STYLE'', ''NOSCRIPT'', ''TEMPLATE''] (an_tag el) then False
          else if list_ex an_ariaHidden (tn_ancestors n) \<or> tn_bodyHidden n then False
          else \<not> an_displayNone el)"

definition CONTAINER_TAGS :: "string list" where
  "CONTAINER_TAGS = [''TD'', ''DIV'', ''SECTION'', ''ARTICLE'', ''LI'', ''MAIN'', ''TABLE'', ''FORM'']"

definition findTransactionScope :: "text_node list \<Rightarrow> ancestor option" where
  "findTransactionScope nodes =
     (case find (\<lambda>n. acceptNode n \<and> length (tn_text n) \<ge> 5 \<and> re_test AMOUNT_PATTERN (tn_text n)) nodes of
        None \<Rightarrow> None
      | Some n \<Rightarrow> find (\<lambda>el. List.member CONTAINER_TAGS (an_tag el)) (tn_ancestors n))"

definition trySemanticDetection :: "text_node list \<Rightarrow> transaction option" where
  "trySemanticDetection nodes =
     (case findTransactionScope nodes of
        None \<Rightarrow> None
      | Some scope \<Rightarrow>
          (let text = an_innerText scope;
               amountMatch = find_match AMOUNT_PATTERN None text; ibanMatch = find_match ibanPattern None text
           in if amountMatch = None \<and> ibanMatch = None then None
              else
               (let amount = (case amountMatch of Some (m, _) \<Rightarrow> trim_u m | None \<Rightarrow> []);
                    recipient = (case find_match recipientLabel None text of Some (_, Some g) \<Rightarrow> trim_u g | _ \<Rightarrow> [])
                in if amount = [] \<and> recipient = [] then None
                   else Some \<lparr>tx_amount = amount, tx_recipient = recipient, tx_iban = map_option (\<lambda>(m, _). trim_u m) ibanMatch\<rparr>)))"

section \<open>The choice of a detector\<close>

record page =
  pg_href :: string
  pg_query :: query
  pg_nodes :: "text_node list"

record page_detector =
  pd_name :: string
  pd_urlTest :: "string \<Rightarrow> bool"
  pd_detect :: "page \<Rightarrow> string + transaction option"

definition createLhvDetector :: page_detector where
  "createLhvDetector = \<lparr>pd_name = ''lhv.ee'', pd_urlTest = (\<lambda>url. contains url ''lhv.ee''), pd_detect = (\<lambda>p. Inr (lhv_detect (pg_query p)))\<rparr>"

definition getDetectors :: "page_detector list option \<Rightarrow> page_detector list" where
  "getDetectors ds = nullish ds [createLhvDetector]"

definition registerDetector :: "page_detector \<Rightarrow> page_detector list option \<Rightarrow> page_detector list option" where
  "registerDetector d ds = Some (nullish ds [] @ [d])"

record detect_result =
  dr_transaction :: "transaction option"
  dr_detectorName :: "string option"
  dr_error :: "string option"

definition dr_success :: "detect_result \<Rightarrow> bool" where
  "dr_success r \<longleftrightarrow> dr_error r = None"

definition detected :: "string \<Rightarrow> transaction \<Rightarrow> detect_result" where
  "detected name t = \<lparr>dr_transaction = Some t, dr_detectorName = Some name, dr_error = None\<rparr>"

definition undetected :: "string option \<Rightarrow> string \<Rightarrow> detect_result" where
  "undetected name e = \<lparr>dr_transaction = None, dr_detectorName = name, dr_error = Some e\<rparr>"

definition semantic_result :: "page \<Rightarrow> detect_result" where
  "semantic_result p =
     (case trySemanticDetection (pg_nodes p) of
        Some t \<Rightarrow> detected ''semantic'' t
      | None \<Rightarrow> undetected None ''No detector available for this page'')"

definition detectTransaction :: "page_detector list option \<Rightarrow> registry_cache \<Rightarrow> page \<Rightarrow> detect_result" where
  "detectTransaction ds c p =
     (case find (\<lambda>d. pd_urlTest d (pg_href p)) (getDetectors ds) of
        Some d \<Rightarrow>
          (case pd_detect d p of
             Inl e \<Rightarrow> undetected (Some (pd_name d)) e
           | Inr None \<Rightarrow> undetected (Some (pd_name d)) ''No transaction detected on this page''
           | Inr (Some t) \<Rightarrow> detected (pd_name d) t)
      | None \<Rightarrow>
          (case findDeclarativeDetector (pg_href p) c of
             None \<Rightarrow> semantic_result p
           | Some d \<Rightarrow>
               (case detectWithDeclarativeSelectors (pg_query p) d of
                  Inl e \<Rightarrow> undetected (Some (''registry:'' @ dd_domain d)) e
                | Inr (Some t) \<Rightarrow> detected (''registry:'' @ dd_domain d) t
                | Inr None \<Rightarrow> semantic_result p)))"

definition getDetectionStatus :: "page_detector list option \<Rightarrow> registry_cache \<Rightarrow> page \<Rightarrow> bool \<times> string option \<times> string" where
  "getDetectionStatus ds c p =
     (let r = detectTransaction ds c p in
      if dr_success r then (True, dr_detectorName r, ''Transaction detected'')
      else (False, dr_detectorName r, nullish (dr_error r) ''Cannot detect''))"

section \<open>Patterns from the registry\<close>

definition pattern_ok :: "(string \<Rightarrow> (string \<Rightarrow> bool) option) \<Rightarrow> detector \<Rightarrow> bool" where
  "pattern_ok regexp d \<longleftrightarrow> dd_compiled d = (if isSafeUrlPattern regexp (dd_urlPattern d) then regexp (dd_urlPattern d) else None)"

definition cache_inv :: "(string \<Rightarrow> (string \<Rightarrow> bool) option) \<Rightarrow> registry_cache \<Rightarrow> bool" where
  "cache_inv regexp c \<longleftrightarrow>
     (case rc_detectors c of None \<Rightarrow> True | Some ds \<Rightarrow> list_all (pattern_ok regexp) ds)
     \<and> (case rc_stored c of None \<Rightarrow> True | Some (ds, _) \<Rightarrow> list_all (\<lambda>d. strip_compiled d = d) ds)"

text \<open>The stored copy is that of the module.\<close>

definition cache_synced :: "registry_cache \<Rightarrow> bool" where
  "cache_synced c \<longleftrightarrow> (case rc_detectors c of None \<Rightarrow> True | Some ds \<Rightarrow> rc_stored c = Some (map strip_compiled ds, rc_timestamp c))"

lemma strip_compile: "map strip_compiled (compileDetectors regexp ds) = map strip_compiled ds"
  by (simp add: compileDetectors_def strip_compiled_def)

lemma compile_ok: "list_all (pattern_ok regexp) (compileDetectors regexp ds)"
  by (simp add: compileDetectors_def pattern_ok_def list_all_iff)

lemma compile_stripped: "list_all (pattern_ok regexp) ds \<Longrightarrow> compileDetectors regexp (map strip_compiled ds) = ds"
  by (induction ds) (simp_all add: compileDetectors_def strip_compiled_def pattern_ok_def)

lemma fetched_ok: "list_all (pattern_ok regexp) (fetchRegistry regexp response)"
  by (simp add: fetchRegistry_def compile_ok split: option.split)

lemma stored_stripped: "cache_inv regexp c \<Longrightarrow> rc_stored c = Some (ds, t) \<Longrightarrow> map strip_compiled ds = ds"
  by (auto simp: cache_inv_def list_all_iff intro: map_idI)

lemma cache_inv_load:
  assumes "cache_inv regexp c"
  shows "cache_inv regexp (loadCached regexp c) \<and> (cache_synced c \<longrightarrow> cache_synced (loadCached regexp c))"
proof (cases "rc_stored c")
  case (Some st)
  obtain ds t where st: "st = (ds, t)" by (cases st)
  then have "map strip_compiled ds = ds" using stored_stripped [OF assms] Some by simp
  then show ?thesis using assms Some st by (simp add: loadCached_def cache_inv_def cache_synced_def compile_ok strip_compile)
qed (use assms in \<open>simp add: loadCached_def\<close>)

lemma cache_inv_keep:
  "cache_inv regexp c \<Longrightarrow> list_all (pattern_ok regexp) ds \<Longrightarrow> cache_inv regexp (keep_fresh ok now ds c) \<and> (ok \<longrightarrow> cache_synced (keep_fresh ok now ds c))"
  by (auto simp: cache_inv_def cache_synced_def keep_fresh_def strip_compiled_def list_all_iff Let_def)

datatype registry_op = Initialize "json option" bool millis | Refresh "json option" bool millis | LoadCached

fun registry_exec :: "(string \<Rightarrow> (string \<Rightarrow> bool) option) \<Rightarrow> registry_op \<Rightarrow> registry_cache \<Rightarrow> registry_cache" where
  "registry_exec regexp (Initialize r storeOk now) c = initializeRegistry regexp r storeOk now c"
| "registry_exec regexp (Refresh r storeOk now) c = snd (refreshRegistry regexp r storeOk now c)"
| "registry_exec regexp LoadCached c = loadCached regexp c"

fun stores :: "registry_op \<Rightarrow> bool" where
  "stores (Initialize r storeOk now) = storeOk"
| "stores (Refresh r storeOk now) = storeOk"
| "stores LoadCached = True"

lemma registry_exec_inv:
  assumes "cache_inv regexp c"
  shows "cache_inv regexp (registry_exec regexp e c) \<and> (stores e \<longrightarrow> cache_synced c \<longrightarrow> cache_synced (registry_exec regexp e c))"
  using assms cache_inv_load [OF assms] cache_inv_keep [OF _ fetched_ok]
  by (cases e) (auto simp: initializeRegistry_def refreshRegistry_def Let_def)

interpretation registry_events: event_system "registry_exec regexp" "\<lambda>_. True" "cache_inv regexp" for regexp
  by unfold_locales (simp add: registry_exec_inv)

interpretation registry_stores: event_system "registry_exec regexp" stores "\<lambda>c. cache_inv regexp c \<and> cache_synced c" for regexp
  by unfold_locales (simp add: registry_exec_inv)

lemma isSafe_facts:
  "isSafeUrlPattern regexp pat \<Longrightarrow> length pat \<le> 500 \<and> \<not> re_test NESTED_QUANTIFIER_RE (replace_with escape_re (\<lambda>_. '' '') pat) \<and> regexp pat \<noteq> None"
  by (auto simp: isSafeUrlPattern_def MAX_PATTERN_LENGTH_def Let_def split: if_splits)



text \<open>The test for nested quantifiers looks for a quantifier inside the same parentheses only.\<close>

lemma nested_quantifier_passes: "regexp ''((a+))+$'' \<noteq> None \<Longrightarrow> isSafeUrlPattern regexp ''((a+))+$''"
proof -
  assume "regexp ''((a+))+$'' \<noteq> None"
  moreover have "\<not> re_test NESTED_QUANTIFIER_RE (replace_with escape_re (\<lambda>_. '' '') ''((a+))+$'')" by code_simp
  moreover have "\<not> list_ex (\<lambda>g. length (split_on (CHR ''|'') (nullish g [])) > MAX_ALTERNATIONS)
      (all_groups GROUP_WITH_QUANTIFIER_RE (replace_with escape_re (\<lambda>_. '' '') ''((a+))+$''))" by code_simp
  ultimately show ?thesis by (simp add: isSafeUrlPattern_def MAX_PATTERN_LENGTH_def Let_def)
qed

section \<open>What a detection reports\<close>

lemma lhv_found: "lhv_detect q = Some t \<Longrightarrow> re_test (Cls digit_u) (tx_amount t) \<and> length (tx_recipient t) \<ge> 2"
proof -
  have good: "first_text clean good' q sels = Some x \<Longrightarrow> good' x" for clean good' sels x
    by (induction sels) (auto split: sum.splits option.splits if_splits)
  assume "lhv_detect q = Some t"
  then show ?thesis by (auto simp: lhv_detect_def extractAmount_def extractRecipient_def split: option.splits dest: good)
qed

lemma querySelectors_nonempty: "querySelectors q sels = Some v \<Longrightarrow> v \<noteq> []"
  by (induction sels) (auto simp: element_value_def extractCleanText_def nonempty_text_def Let_def split: sum.splits option.splits if_splits)

definition found_ok :: "found \<Rightarrow> bool" where
  "found_ok r \<longleftrightarrow> fd_amount r \<noteq> Some [] \<and> fd_recipient r \<noteq> Some []"

lemma detect_field_ok: "found_ok r \<Longrightarrow> detect_field q d field r = Inr r' \<Longrightarrow> found_ok r'"
  by (auto simp: detect_field_def found_ok_def or_keep_def split: if_splits option.splits sum.splits dest: querySelectors_nonempty)

lemma declarative_found:
  assumes "detectWithDeclarativeSelectors q d = Inr (Some t)"
  shows "tx_amount t \<noteq> [] \<or> tx_recipient t \<noteq> []"
proof -
  let ?f = "\<lambda>acc field. case acc of Inl e \<Rightarrow> Inl e | Inr r \<Rightarrow> detect_field q d field r"
  have keep: "(case acc of Inl _ \<Rightarrow> True | Inr r \<Rightarrow> found_ok r) \<Longrightarrow> (case foldl ?f acc fields of Inl _ \<Rightarrow> True | Inr r \<Rightarrow> found_ok r)" for acc fields
  proof (induction fields arbitrary: acc)
    case (Cons field fields)
    have "case ?f acc field of Inl _ \<Rightarrow> True | Inr r \<Rightarrow> found_ok r"
      using Cons.prems detect_field_ok by (auto split: sum.split sum.split_asm)
    from Cons.IH [OF this] show ?case by (simp only: foldl_Cons)
  qed simp
  obtain r where r: "foldl ?f (Inr \<lparr>fd_amount = None, fd_recipient = None, fd_iban = None\<rparr>) (dd_expects d) = Inr r" "found_transaction r = Some t"
    using assms by (auto simp: detectWithDeclarativeSelectors_def split: sum.splits)
  have "found_ok r" using keep [of "Inr \<lparr>fd_amount = None, fd_recipient = None, fd_iban = None\<rparr>" "dd_expects d"] r(1) by (simp add: found_ok_def)
  then show ?thesis using r(2) by (auto simp: found_transaction_def found_ok_def split: if_splits option.splits)
qed

lemma semantic_found: "trySemanticDetection nodes = Some t \<Longrightarrow> tx_amount t \<noteq> [] \<or> tx_recipient t \<noteq> []"
  by (auto simp: trySemanticDetection_def Let_def split: option.splits if_splits)

text \<open>what a detection may report. With the built-in detectors, it succeeds or gives an error, never both or neither; a
  reported transaction has an amount or a recipient. On an address that contains the name of the bank only the bank's detector is asked, and
  then an amount has a digit and a recipient at least two characters; elsewhere a matching detector of the registry
  comes first, and the search of the text only if there is none or it finds nothing.\<close>

theorem detection_outcome:
  "let r = detectTransaction None c p in
    (dr_transaction r = None) = (dr_error r \<noteq> None)
    \<and> (case dr_transaction r of None \<Rightarrow> True | Some t \<Rightarrow> \<not> (tx_amount t = [] \<and> tx_recipient t = []))
    \<and> (if contains (pg_href p) ''lhv.ee''
        then dr_detectorName r = Some ''lhv.ee'' \<and> dr_transaction r = lhv_detect (pg_query p)
          \<and> (case dr_transaction r of None \<Rightarrow> True | Some t \<Rightarrow> re_test (Cls digit_u) (tx_amount t) \<and> length (tx_recipient t) \<ge> 2)
        else (case findDeclarativeDetector (pg_href p) c of
                None \<Rightarrow> dr_transaction r = trySemanticDetection (pg_nodes p)
              | Some d \<Rightarrow> (case detectWithDeclarativeSelectors (pg_query p) d of
                    Inl e \<Rightarrow> dr_error r = Some e
                  | Inr None \<Rightarrow> dr_transaction r = trySemanticDetection (pg_nodes p)
                  | Inr (Some t) \<Rightarrow> dr_transaction r = Some t)))"
proof -
  have lhv: "lhv_detect (pg_query p) = Some t \<Longrightarrow> tx_recipient t \<noteq> []" for t using lhv_found by fastforce
  show ?thesis
  proof (cases "contains (pg_href p) ''lhv.ee''")
    case True
    then show ?thesis
      using lhv lhv_found [of "pg_query p"]
      by (auto simp: Let_def detectTransaction_def getDetectors_def createLhvDetector_def detected_def undetected_def split: option.split)
  next
    case False
    then show ?thesis
      using declarative_found semantic_found
      by (auto simp: Let_def detectTransaction_def getDetectors_def createLhvDetector_def detected_def undetected_def semantic_result_def
          split: option.split sum.split)
  qed
qed

text \<open>A detector registered before the first detection replaces the built-in ones.\<close>

lemma early_registration_replaces: "getDetectors (registerDetector d None) = [d]"
  by (simp add: getDetectors_def registerDetector_def)

end
