(* ===== verification/PageScraper.thy ===== *)
theory PageScraper
  imports PiiFilter RateLimit ContentScripts Domain
begin

text \<open>
  What the content script reads from its page: \<open>entrypoints/content/domScraper.ts\<close>. The document is a parameter: what the
  selectors of the code find in it. \<open>CSS.escape\<close> of the browser is the parameter \<open>css_escape\<close>.
\<close>

section \<open>Reading the page\<close>

definition trim_text :: "string \<Rightarrow> string" where
  "trim_text t = rev (dropWhile space_char (rev (dropWhile space_char t)))"

text \<open>The document: the texts of the headings, texts and addresses of the links, the numbers of forms and images, and the text
  of the body if there is one.\<close>

record dom_content =
  dc_headings :: "string list"
  dc_links :: "(string \<times> string) list"
  dc_forms :: nat
  dc_images :: nat
  dc_bodyText :: "string option"

record structured_content =
  st_headings :: "string list"
  st_links :: "(string \<times> string) list"
  st_formCount :: nat
  st_imageCount :: nat
  st_textContent :: string

definition extractStructuredContent :: "dom_content \<Rightarrow> structured_content" where
  "extractStructuredContent d =
     \<lparr>st_headings = take 50 (filter (\<lambda>h. h \<noteq> []) (map trim_text (dc_headings d))),
      st_links = take 100 (filter (\<lambda>l. take 4 (snd l) = ''http'') (map (\<lambda>(text, href). (trim_text text, href)) (dc_links d))),
      st_formCount = dc_forms d, st_imageCount = dc_images d, st_textContent = nullish (dc_bodyText d) []\<rparr>"

record scrape_result =
  sr_success :: bool
  sr_text :: "string option"
  sr_headings :: "string list option"
  sr_linkCount :: "nat option"
  sr_imageCount :: "nat option"
  sr_filtered :: "bool option"
  sr_error :: "string option"
  sr_retryAfterMs :: "millis option"

definition scrape_failed :: "string \<Rightarrow> millis option \<Rightarrow> scrape_result" where
  "scrape_failed e retry = \<lparr>sr_success = False, sr_text = None, sr_headings = None, sr_linkCount = None, sr_imageCount = None,
     sr_filtered = None, sr_error = Some e, sr_retryAfterMs = retry\<rparr>"

text \<open>\<open>Inl\<close> is an access to the document that throws.\<close>

definition scrapePage ::
  "nat option \<Rightarrow> millis \<Rightarrow> string \<Rightarrow> string + dom_content \<Rightarrow> rate_entry option \<Rightarrow> scrape_result \<times> rate_entry option" where
  "scrapePage maxLength now currentUrl document entry =
     (if currentUrl = [] then (scrape_failed ''Could not determine document URL'' None, entry)
      else
       (case checkRateLimit now entry of
          (Backoff, e) \<Rightarrow> (scrape_failed ''Rate limited'' (Some 30000), e)
        | (RateLimited, e) \<Rightarrow> (scrape_failed ''Too many requests, please wait'' (Some 60000), e)
        | (Allowed, e) \<Rightarrow>
            (case document of
               Inl err \<Rightarrow> (scrape_failed err None, e)
             | Inr d \<Rightarrow>
                 (let structured = extractStructuredContent d;
                      (filteredText, isFiltered) = filterDomContent (st_textContent structured) (Some (nullish maxLength 50000))
                  in (\<lparr>sr_success = True, sr_text = Some filteredText, sr_headings = Some (st_headings structured),
                       sr_linkCount = Some (length (st_links structured)), sr_imageCount = Some (st_imageCount structured),
                       sr_filtered = Some isFiltered, sr_error = None, sr_retryAfterMs = None\<rparr>, e)))))"

section \<open>The control code\<close>

text \<open>An element: whether it is an \<open>HTMLElement\<close>, whether it has an offset parent, its number of client rectangles, its text.\<close>

record code_element =
  ce_html :: bool
  ce_offsetParent :: bool
  ce_rects :: nat
  ce_text :: string

definition invisible :: "code_element \<Rightarrow> bool" where
  "invisible el \<longleftrightarrow> ce_html el \<and> (\<not> ce_offsetParent el \<or> ce_rects el = 0)"

definition codePattern :: "char re" where
  "codePattern = Cat word_b (Cat (Grp (times 4 digit_re)) word_b)"

definition match_code :: "string \<Rightarrow> string option" where
  "match_code t = (case find_match codePattern None t of Some (_, g) \<Rightarrow> g | None \<Rightarrow> None)"

definition semanticSelectors :: "string list" where
  "semanticSelectors = [''[class*=\"code\"]'', ''[class*=\"Code\"]'', ''[class*=\"pin\"]'', ''[class*=\"Pin\"]'', ''[class*=\"control\"]'',
     ''[class*=\"Control\"]'', ''[class*=\"token\"]'', ''[class*=\"verify\"]'', ''[id*=\"code\"]'', ''[id*=\"Code\"]'', ''[id*=\"pin\"]'']"

definition strong_selector :: string where
  "strong_selector = ''strong, b, [style*=\"font-weight\"], [class*=\"bold\"], [class*=\"highlight\"]''"

fun first_code :: "(string \<Rightarrow> string option) \<Rightarrow> code_element list \<Rightarrow> string option" where
  "first_code look [] = None"
| "first_code look (el # els) =
     (if invisible el then first_code look els
      else case look (trim_text (ce_text el)) of Some c \<Rightarrow> Some c | None \<Rightarrow> first_code look els)"

fun first_selector :: "(string \<Rightarrow> code_element list) \<Rightarrow> string list \<Rightarrow> string option" where
  "first_selector q [] = None"
| "first_selector q (sel # sels) = (case first_code match_code (q sel) of Some c \<Rightarrow> Some c | None \<Rightarrow> first_selector q sels)"

definition strong_code :: "string \<Rightarrow> string option" where
  "strong_code t = (if re_test (Cat Bos (Cat (times 4 digit_re) Eos)) t then Some t else match_code t)"

definition scrapeControlCode :: "(string \<Rightarrow> code_element list) \<Rightarrow> string option" where
  "scrapeControlCode q =
     (case first_selector q semanticSelectors of Some c \<Rightarrow> Some c | None \<Rightarrow> first_code strong_code (q strong_selector))"

section \<open>The login form\<close>

record input_el =
  in_id :: string
  in_name :: string
  in_classes :: "string list"
  in_tag :: string
  in_top :: rat
  in_bottom :: rat
  in_left :: rat

text \<open>The document: its first element for a selector, the form around an element with the form's first element for a selector, and all
  elements for a selector.\<close>

record login_dom =
  ld_query :: "string \<Rightarrow> input_el option"
  ld_form :: "input_el \<Rightarrow> (string \<Rightarrow> input_el option) option"
  ld_all :: "string \<Rightarrow> input_el list"

definition passwordSelectors :: "string list" where
  "passwordSelectors = [''input[type=\"password\"]'', ''input[autocomplete=\"current-password\"]'', ''input[name*=\"password\" i]'']"

definition username_selector :: string where
  "username_selector = ''input[type=\"text\"], input[type=\"email\"], input[autocomplete=\"username\"], input[name*=\"user\" i], input[name*=\"email\" i]''"

definition inputs_selector :: string where
  "inputs_selector = ''input[type=\"text\"], input[type=\"email\"]''"

definition first_some :: "('a \<Rightarrow> 'b option) \<Rightarrow> 'a list \<Rightarrow> 'b option" where
  "first_some f xs = foldr (\<lambda>x r. case f x of Some y \<Rightarrow> Some y | None \<Rightarrow> r) xs None"

definition near_password :: "input_el \<Rightarrow> input_el \<Rightarrow> bool" where
  "near_password pw input \<longleftrightarrow>
     in_top input \<le> in_bottom pw + 100 \<and> in_bottom input \<ge> in_top pw - 100 \<and> \<bar>in_left input - in_left pw\<bar> < 300"

definition username_field :: "login_dom \<Rightarrow> input_el \<Rightarrow> input_el option" where
  "username_field d pw =
     (case (case ld_form d pw of Some form \<Rightarrow> form username_selector | None \<Rightarrow> None) of
        Some u \<Rightarrow> Some u
      | None \<Rightarrow> find (near_password pw) (ld_all d inputs_selector))"

definition buildSelector :: "(string \<Rightarrow> string) \<Rightarrow> input_el \<Rightarrow> string" where
  "buildSelector css_escape el =
     (if in_id el \<noteq> [] then ''#'' @ css_escape (in_id el)
      else if in_name el \<noteq> [] then ''[name=\"'' @ css_escape (in_name el) @ ''\"]''
      else
       (let classes = concat (map (\<lambda>c. ''.'' @ css_escape c) (take 2 (in_classes el)))
        in to_lower (in_tag el) @ classes))"

definition detectLoginForm :: "(string \<Rightarrow> string) \<Rightarrow> string \<Rightarrow> string \<Rightarrow> login_dom \<Rightarrow> login_form option" where
  "detectLoginForm css_escape hostname href d =
     (case first_some (ld_query d) passwordSelectors of
        None \<Rightarrow> None
      | Some pw \<Rightarrow>
          (case username_field d pw of
             None \<Rightarrow> None
           | Some u \<Rightarrow> Some \<lparr>lf_domain = hostname, lf_url = href, lf_usernameSelector = buildSelector css_escape u,
                             lf_passwordSelector = buildSelector css_escape pw\<rparr>))"

section \<open>Requests to read the page\<close>

record scrape_request =
  sq_time :: millis
  sq_maxLength :: "nat option"
  sq_url :: string
  sq_document :: "string + dom_content"

fun scrape_run :: "rate_entry option \<Rightarrow> scrape_request list \<Rightarrow> scrape_result list" where
  "scrape_run e [] = []"
| "scrape_run e (q # qs) =
     (case scrapePage (sq_maxLength q) (sq_time q) (sq_url q) (sq_document q) e of (r, e') \<Rightarrow> r # scrape_run e' qs)"

text \<open>What a page reveals: the filtered text, cut to the length asked for, up to fifty headings, and numbers.\<close>

definition reading_of :: "scrape_request \<Rightarrow> scrape_result \<Rightarrow> bool" where
  "reading_of q r \<longleftrightarrow>
     (case sq_document q of
        Inl e \<Rightarrow> r = scrape_failed e None
      | Inr d \<Rightarrow>
          sr_success r \<and> sr_error r = None
          \<and> sr_text r = Some (fst (filterDomContent (nullish (dc_bodyText d) []) (Some (nullish (sq_maxLength q) 50000))))
          \<and> length (the (sr_text r)) \<le> nullish (sq_maxLength q) 50000 + 16
          \<and> sr_filtered r = Some (hasRedactions (filterPii (nullish (dc_bodyText d) [])))
          \<and> length (the (sr_headings r)) \<le> 50 \<and> set (the (sr_headings r)) \<subseteq> trim_text ` set (dc_headings d)
          \<and> the (sr_linkCount r) \<le> 100 \<and> sr_imageCount r = Some (dc_images d))"

lemma scrape_allowed:
  "sq_url q \<noteq> [] \<Longrightarrow> fst (checkRateLimit (sq_time q) e) = Allowed \<Longrightarrow>
     reading_of q (fst (scrapePage (sq_maxLength q) (sq_time q) (sq_url q) (sq_document q) e))"
  by (cases "checkRateLimit (sq_time q) e"; cases "sq_document q")
    (auto simp: scrapePage_def reading_of_def extractStructuredContent_def filtered_length Let_def filterDomContent_def hasRedactions_def
      split: prod.split dest: in_set_takeD)

lemma scrape_refused:
  "sq_url q \<noteq> [] \<Longrightarrow> fst (checkRateLimit (sq_time q) e) \<noteq> Allowed \<Longrightarrow>
     (let r = fst (scrapePage (sq_maxLength q) (sq_time q) (sq_url q) (sq_document q) e)
      in \<not> sr_success r \<and> sr_retryAfterMs r \<noteq> None \<and> sr_text r = None \<and> sr_headings r = None)"
  by (cases "checkRateLimit (sq_time q) e"; cases "fst (checkRateLimit (sq_time q) e)")
    (simp_all add: scrapePage_def scrape_failed_def Let_def)

lemma scrape_entry: "sq_url q \<noteq> [] \<Longrightarrow>
    snd (scrapePage (sq_maxLength q) (sq_time q) (sq_url q) (sq_document q) e) = snd (checkRateLimit (sq_time q) e)"
  by (auto simp: scrapePage_def Let_def split: prod.split rate_result.split sum.split)

lemma scrape_run_nth:
  "\<forall>q \<in> set qs. sq_url q \<noteq> [] \<Longrightarrow> i < length qs \<Longrightarrow>
     (if rl_run e (map sq_time qs) ! i = Allowed then reading_of (qs ! i) (scrape_run e qs ! i)
      else \<not> sr_success (scrape_run e qs ! i) \<and> sr_retryAfterMs (scrape_run e qs ! i) \<noteq> None
           \<and> sr_text (scrape_run e qs ! i) = None \<and> sr_headings (scrape_run e qs ! i) = None)"
proof (induction qs arbitrary: e i)
  case (Cons q qs)
  have url: "sq_url q \<noteq> []" using Cons.prems by simp
  obtain r e' where step: "scrapePage (sq_maxLength q) (sq_time q) (sq_url q) (sq_document q) e = (r, e')" by fastforce
  have e': "e' = snd (checkRateLimit (sq_time q) e)" using scrape_entry [OF url, of e] step by simp
  show ?case
  proof (cases i)
    case 0
    then show ?thesis using scrape_allowed [OF url, of e] scrape_refused [OF url, of e] by (simp add: step Let_def)
  next
    case (Suc j)
    then show ?thesis using Cons.IH [of j e'] Cons.prems by (auto simp: step e' split: if_splits)
  qed
qed simp

text \<open>what leaves a page when its text is asked for. Of the requests made within a minute of the first, exactly the
  first ten read the page and the others are told to wait; a reading holds the text with personal data replaced, cut to the length
  asked for, a flag that says truly whether anything was replaced, at most fifty headings, and numbers of links and images.\<close>

theorem scraping_limited_and_filtered:
  assumes "0 \<le> sq_time q" "\<forall>x \<in> set (q # qs). sq_url x \<noteq> []"
    "\<forall>x \<in> set qs. 0 \<le> sq_time x \<and> sq_time x - sq_time q \<le> WINDOW_MS" "i \<le> length qs"
  shows "if i < 10 then reading_of ((q # qs) ! i) (scrape_run None (q # qs) ! i)
    else \<not> sr_success (scrape_run None (q # qs) ! i) \<and> sr_retryAfterMs (scrape_run None (q # qs) ! i) \<noteq> None
         \<and> sr_text (scrape_run None (q # qs) ! i) = None \<and> sr_headings (scrape_run None (q # qs) ! i) = None"
proof -
  have "rl_run None (sq_time q # map sq_time qs) ! i = Allowed \<longleftrightarrow> i < 10"
    using rl_run_in_window [of "i - 1" "map sq_time qs" "\<lparr>re_count = 1, re_firstRequest = sq_time q, re_backoffUntil = 0\<rparr>"] assms
    by (cases i) (auto simp: checkRateLimit_def limit_consts)
  then show ?thesis using scrape_run_nth [of "q # qs" i None] assms(2,4) by (simp del: scrape_run.simps rl_run.simps)
qed

definition sample_document :: dom_content where
  "sample_document = \<lparr>dc_headings = ['' a@bc.ee ''], dc_links = [], dc_forms = 0, dc_images = 2,
     dc_bodyText = Some ''a@bc.ee''\<rparr>"

definition sample_request :: "millis \<Rightarrow> scrape_request" where
  "sample_request t = \<lparr>sq_time = t, sq_maxLength = None, sq_url = ''https://a.ee/'', sq_document = Inr sample_document\<rparr>"

theorem scraping_limited_and_filtered_witness:
  "reading_of (sample_request 5) (scrape_run None (sample_request 1 # replicate 11 (sample_request 5)) ! 9)
   \<and> \<not> sr_success (scrape_run None (sample_request 1 # replicate 11 (sample_request 5)) ! 10)"
  using scraping_limited_and_filtered [of "sample_request 1" "replicate 11 (sample_request 5)" 9]
    scraping_limited_and_filtered [of "sample_request 1" "replicate 11 (sample_request 5)" 10]
  by (simp add: sample_request_def limit_consts del: scrape_run.simps replicate_Suc)

text \<open>The headings are not filtered: the address that is replaced in the text leaves the page in its heading.\<close>

lemma headings_not_filtered:
  "(let r = hd (scrape_run None [sample_request 1]) in sr_text r = Some REDACTED \<and> sr_headings r = Some [''a@bc.ee''])"
proof -
  have "ft_text (filterPii ''a@bc.ee'') = REDACTED" by code_simp
  moreover have "trim_text '' a@bc.ee '' = ''a@bc.ee''" by code_simp
  ultimately show ?thesis
    by (simp add: scrapePage_def sample_request_def sample_document_def checkRateLimit_def extractStructuredContent_def
        filterDomContent_def Let_def REDACTED_def)
qed

section \<open>Which code is found\<close>

text \<open>The words of a text, and the first of them that is four digits.\<close>

function word_runs :: "string \<Rightarrow> string list" where
  "word_runs s =
     (case dropWhile (\<lambda>c. \<not> word_char c) s of
        [] \<Rightarrow> []
      | c # r \<Rightarrow> (c # takeWhile word_char r) # word_runs (dropWhile word_char r))"
  by pat_completeness auto

termination
proof (relation "measure length")
  fix s :: string and c r assume "dropWhile (\<lambda>c. \<not> word_char c) s = c # r"
  then have "length (c # r) \<le> length s" by (metis length_dropWhile_le)
  then show "(dropWhile word_char r, s) \<in> measure length" using length_dropWhile_le [of word_char r] by simp
qed simp

declare word_runs.simps [simp del]

definition four_digits :: "string \<Rightarrow> bool" where
  "four_digits w \<longleftrightarrow> length w = 4 \<and> list_all is_digit_char w"

lemma rep_exact:
  "n \<le> fuel \<Longrightarrow> rep_turns (mt (Cls p)) fuel n (Some n) (g, prev, s) =
     (if n \<le> length s \<and> list_all p (take n s) then [(g, if n = 0 then prev else Some (s ! (n - 1)), drop n s)] else [])"
proof (induction n arbitrary: fuel prev s)
  case 0
  then show ?case by (cases fuel) simp_all
next
  case (Suc n)
  then obtain k where k: "fuel = Suc k" "n \<le> k" by (cases fuel) auto
  show ?case
  proof (cases s)
    case (Cons c r)
    then show ?thesis using Suc.IH [OF k(2), of "Some c" r] k(1) by (auto simp: nth_Cons split: nat.split)
  qed (simp add: k(1))
qed

lemma mt_code:
  "mt codePattern (None, prev, s) =
     (if word_at word_char prev \<noteq> word_at word_char (head_of s) \<and> 4 \<le> length s \<and> list_all is_digit_char (take 4 s)
         \<and> \<not> word_at word_char (head_of (drop 4 s))
      then [(Some (take 4 s), Some (s ! 3), drop 4 s)] else [])"
proof -
  have "4 \<le> length s \<Longrightarrow> list_all is_digit_char (take 4 s) \<Longrightarrow> is_digit_char (s ! 3)"
    by (auto simp: list_all_length)
  then show ?thesis
    by (auto simp: codePattern_def digit_re_def rep_exact word_at_def word_char_def alnum_char_def)
qed

lemma code_at_boundary:
  assumes "mt codePattern (None, prev, s) \<noteq> []"
  shows "\<not> word_at word_char prev \<and> (\<exists>c r. s = c # r \<and> word_char c) \<and> takeWhile word_char s = take 4 s \<and> four_digits (take 4 s)"
proof -
  have m: "word_at word_char prev \<noteq> word_at word_char (head_of s)" "4 \<le> length s" "list_all is_digit_char (take 4 s)"
    "\<not> word_at word_char (head_of (drop 4 s))"
    using assms by (auto simp: mt_code split: if_splits)
  have digits: "x \<in> set (take 4 s) \<Longrightarrow> word_char x" for x using m(3) by (auto simp: list_all_iff word_char_def alnum_char_def)
  obtain c r where cr: "s = c # r" using m(2) by (cases s) auto
  have c: "word_char c" using digits [of c] cr by simp
  have "takeWhile word_char (take 4 s @ drop 4 s) = take 4 s @ takeWhile word_char (drop 4 s)"
    using digits by (intro takeWhile_append2)
  moreover have "takeWhile word_char (drop 4 s) = []" using m(4) by (cases "drop 4 s") (auto simp: word_at_def head_of_def)
  ultimately show ?thesis using m c cr by (simp add: four_digits_def word_at_def head_of_def)
qed

lemma code_in_word:
  assumes "word_at word_char prev"
  shows "\<exists>prev'. \<not> word_at word_char prev' \<and> find_match codePattern prev s = find_match codePattern prev' (dropWhile word_char s)"
  using assms
proof (induction s arbitrary: prev)
  case Nil
  then have "mt codePattern (None, prev, []) = []" "mt codePattern (None, None, []) = []" by (simp_all add: mt_code)
  then have "find_match codePattern prev [] = None" "find_match codePattern None [] = None"
    by (simp_all add: find_match.simps [of codePattern _ "[]"])
  then show ?case by (intro exI [of _ None]) (simp add: word_at_def)
next
  case (Cons c s)
  have "mt codePattern (None, prev, c # s) = []" using code_at_boundary [of prev "c # s"] Cons.prems by blast
  then have step: "find_match codePattern prev (c # s) = find_match codePattern (Some c) s"
    by (subst find_match.simps) simp
  show ?case
  proof (cases "word_char c")
    case True
    then show ?thesis using Cons.IH [of "Some c"] step by (simp add: word_at_def)
  next
    case False
    have "mt codePattern (None, None, c # s) = []" using code_at_boundary [of None "c # s"] False by auto
    then have "find_match codePattern None (c # s) = find_match codePattern (Some c) s"
      by (subst find_match.simps) simp
    then show ?thesis using False step by (intro exI [of _ None]) (simp add: word_at_def)
  qed
qed

lemma find_code:
  "\<not> word_at word_char prev \<Longrightarrow>
     find_match codePattern prev s = map_option (\<lambda>w. (w, Some w)) (find four_digits (word_runs s))"
proof (induction s arbitrary: prev rule: measure_induct_rule [where f = length])
  case (less s)
  show ?case
  proof (cases s)
    case Nil
    have "mt codePattern (None, prev, []) = []" by (simp add: mt_code)
    then have "find_match codePattern prev [] = None" by (subst find_match.simps) simp
    then show ?thesis by (simp add: Nil word_runs.simps [of "[]"])
  next
    case (Cons c r)
    show ?thesis
    proof (cases "word_char c")
      case False
      have "mt codePattern (None, prev, s) = []" using code_at_boundary [of prev s] False Cons by auto
      then have "find_match codePattern prev s = find_match codePattern (Some c) r"
        by (subst find_match.simps) (simp add: Cons)
      moreover have "word_runs s = word_runs r" using False by (simp add: Cons word_runs.simps [of "c # r"] word_runs.simps [of r])
      ultimately show ?thesis using less.IH [of r "Some c"] False Cons by (simp add: word_at_def)
    next
      case True
      let ?w = "c # takeWhile word_char r"
      have runs: "word_runs s = ?w # word_runs (dropWhile word_char r)" using True by (simp add: Cons word_runs.simps [of "c # r"])
      show ?thesis
      proof (cases "four_digits ?w")
        case w: True
        have len: "length ?w = 4" using w by (simp add: four_digits_def)
        have split: "s = ?w @ dropWhile word_char r" using Cons by simp
        then have parts: "take 4 s = ?w" "drop 4 s = dropWhile word_char r" using len by (metis append_eq_conv_conj)+
        have "\<not> word_at word_char (head_of (drop 4 s))"
          using hd_dropWhile [of word_char r] by (cases "dropWhile word_char r") (auto simp: parts(2) word_at_def head_of_def simp del: dropWhile_eq_Nil_conv)
        moreover have "4 \<le> length s" using split len by (metis le_add1 length_append)
        ultimately have "mt codePattern (None, prev, s) = [(Some ?w, Some (s ! 3), drop 4 s)]"
          using w less.prems True Cons parts(1) unfolding mt_code by (simp add: four_digits_def word_at_def head_of_def)
        then have "find_match codePattern prev s = Some (take (length s - length (drop 4 s)) s, Some ?w)"
          by (subst find_match.simps) simp
        then show ?thesis using runs w parts(1) \<open>4 \<le> length s\<close> by simp
      next
        case False
        have "takeWhile word_char s = ?w" using True Cons by simp
        then have "mt codePattern (None, prev, s) = []" using code_at_boundary [of prev s] False by metis
        then have "find_match codePattern prev s = find_match codePattern (Some c) r"
          by (subst find_match.simps) (simp add: Cons)
        moreover obtain prev' where "\<not> word_at word_char prev'"
          "find_match codePattern (Some c) r = find_match codePattern prev' (dropWhile word_char r)"
          using code_in_word [of "Some c" r] True by (auto simp: word_at_def)
        moreover have "length (dropWhile word_char r) < length s" using length_dropWhile_le [of word_char r] Cons by simp
        ultimately show ?thesis using less.IH runs False by simp
      qed
    qed
  qed
qed

lemma match_code_words: "match_code t = find four_digits (word_runs t)"
  using find_code [of None t] by (cases "find four_digits (word_runs t)") (simp_all add: match_code_def word_at_def)

lemma anchored_later: "find_match (Cat Bos r) (Some c) s = None"
  by (induction s arbitrary: c) (simp_all add: find_match.simps [of "Cat Bos r"])

lemma strong_code_words: "strong_code t = find four_digits (word_runs t)"
proof (cases "re_test (Cat Bos (Cat (times 4 digit_re) Eos)) t")
  case True
  have "mt (Cat Bos (Cat (times 4 digit_re) Eos)) (None, None, t) \<noteq> []"
  proof
    assume "mt (Cat Bos (Cat (times 4 digit_re) Eos)) (None, None, t) = []"
    then have "find_match (Cat Bos (Cat (times 4 digit_re) Eos)) None t = None"
      by (subst find_match.simps) (simp add: anchored_later split: list.split del: mt.simps)
    then show False using True by (simp add: re_test_def)
  qed
  then have t: "length t = 4" "list_all is_digit_char t" by (auto simp: digit_re_def rep_exact split: if_splits)
  then obtain c r where cr: "t = c # r" by (cases t) auto
  have "word_char x" if "x \<in> set t" for x using t(2) that by (auto simp: list_all_iff word_char_def alnum_char_def)
  then have "word_char c" "takeWhile word_char r = r" using cr by (auto simp: takeWhile_eq_all_conv)
  then have "word_runs t = t # word_runs (dropWhile word_char r)" by (simp add: cr word_runs.simps [of "c # r"])
  then show ?thesis using True t by (simp add: strong_code_def four_digits_def)
qed (simp add: strong_code_def match_code_words)

lemma find_append: "find P (xs @ ys) = (case find P xs of Some x \<Rightarrow> Some x | None \<Rightarrow> find P ys)"
  by (induction xs) auto

abbreviation visible_words :: "code_element list \<Rightarrow> string list" where
  "visible_words els \<equiv> concat (map (\<lambda>el. word_runs (trim_text (ce_text el))) (filter (\<lambda>el. \<not> invisible el) els))"

lemma first_code_words: "(\<And>t. look t = find four_digits (word_runs t)) \<Longrightarrow> first_code look els = find four_digits (visible_words els)"
  by (induction els) (simp_all add: find_append split: option.split)

lemma first_selector_words: "first_selector q sels = find four_digits (visible_words (concat (map q sels)))"
  by (induction sels) (simp_all add: first_code_words match_code_words find_append split: option.split)

text \<open>C34: the control code is the first word of four digits in the visible elements, those whose class or identifier speaks of a code
  before those in bold, each in the order of the document. In particular a longer number never yields a code, and a
  page that shows a word of four digits in such an element always does.\<close>

theorem control_code_is_first_word:
  "scrapeControlCode q = find four_digits
     (concat (map (\<lambda>el. word_runs (trim_text (ce_text el)))
        (filter (\<lambda>el. \<not> invisible el) (concat (map q semanticSelectors) @ q strong_selector))))"
  by (simp add: scrapeControlCode_def first_selector_words first_code_words strong_code_words find_append split: option.split)

section \<open>Which fields are named\<close>

text \<open>The report of a login form is never one that the background rejects as incomplete.\<close>

lemma detected_form_complete:
  assumes "detectLoginForm css hostname href d = Some f" "hostname \<noteq> []"
    and "\<And>sel el. ld_query d sel = Some el \<Longrightarrow> in_tag el \<noteq> []" "\<And>pw form sel el. ld_form d pw = Some form \<Longrightarrow> form sel = Some el \<Longrightarrow> in_tag el \<noteq> []"
    and "\<And>sel el. el \<in> set (ld_all d sel) \<Longrightarrow> in_tag el \<noteq> []"
  shows "\<not> incomplete_form f"
proof -
  have sel: "in_tag el \<noteq> [] \<Longrightarrow> buildSelector css el \<noteq> []" for el :: input_el by (simp add: buildSelector_def to_lower_def Let_def)
  obtain pw u where f: "first_some (ld_query d) passwordSelectors = Some pw" "username_field d pw = Some u"
    "f = \<lparr>lf_domain = hostname, lf_url = href, lf_usernameSelector = buildSelector css u, lf_passwordSelector = buildSelector css pw\<rparr>"
    using assms(1) by (auto simp: detectLoginForm_def split: option.splits)
  have "in_tag pw \<noteq> []" using f(1) assms(3) by (auto simp: first_some_def passwordSelectors_def split: option.splits)
  moreover have "u \<in> set (ld_all d inputs_selector) \<or> (\<exists>form. ld_form d pw = Some form \<and> form username_selector = Some u)"
    using f(2) by (auto simp: username_field_def find_Some_iff split: option.splits)
  then have "in_tag u \<noteq> []" using assms(4,5) by blast
  ultimately show ?thesis using sel assms(2) by (simp add: f(3) incomplete_form_def)
qed

text \<open>Two fields without identifier, name and class get the same selector, which finds only one of them.\<close>

definition bare_input :: "rat \<Rightarrow> input_el" where
  "bare_input y = \<lparr>in_id = [], in_name = [], in_classes = [], in_tag = ''INPUT'', in_top = y, in_bottom = y + 20, in_left = 0\<rparr>"

lemma bare_fields_share_selector:
  assumes "ld_query d ''input[type=\"password\"]'' = Some (bare_input 40)" "ld_form d (bare_input 40) = Some form"
    "form username_selector = Some (bare_input 0)"
  shows "detectLoginForm css hostname href d = Some \<lparr>lf_domain = hostname, lf_url = href, lf_usernameSelector = ''input'', lf_passwordSelector = ''input''\<rparr>"
proof -
  have "to_lower ''INPUT'' = ''input''" by code_simp
  then show ?thesis
    using assms by (simp add: detectLoginForm_def first_some_def passwordSelectors_def username_field_def buildSelector_def bare_input_def)
qed

end
