(* ===== verification/ContentPage.thy ===== *)
theory ContentPage
  imports PageScraper Transactions Handlers
begin

text \<open>
  The content script of a page: its life in \<open>entrypoints/content/index.ts\<close> (the question whether the site is approved, the timers, the
  observer of the document, the navigation within the page) and its answers to messages, \<open>contentMessageBus.ts\<close>. A state
  carries the timers that are set; an event happens at a time, after every timer that is due by then. The document is
  part of the state and an event changes it.
\<close>

section \<open>State\<close>

text \<open>The document as the code asks it: the login form, the elements of a detector, the text nodes, the contents, the elements that may hold a
  control code, and the input field that a selector finds, \<open>Inl\<close> for a selector that is not valid.\<close>

record document_now =
  dn_login :: login_dom
  dn_query :: query
  dn_nodes :: "text_node list"
  dn_content :: "string + dom_content"
  dn_codes :: "string \<Rightarrow> code_element list"
  dn_field :: "string \<Rightarrow> string + nat option"

datatype content_timer = DebounceTimer | ApprovalTimeout | ReportTimer | EmitTimer | FallbackTimer

datatype content_message =
    TabDomainChanged string string
  | AskApproved string
  | ReportLoginForm login_form
  | ReportUnapprovedForm login_form
  | ReportTransaction transaction

text \<open>A timer is its identifier, its time and its callback. \<open>ct_checks\<close> are the questions that are neither answered nor timed out, by
  the identifier of their timeout. \<open>ct_fields\<close> are the values of the input fields and
  \<open>ct_domEvents\<close> the events dispatched on them.\<close>

record content_state =
  ct_loginFormEmitted :: bool
  ct_loginDebounceTimer :: "nat option"
  ct_observer :: bool
  ct_contentInitDone :: bool
  ct_checkedApproval :: bool
  ct_isApprovedDomain :: bool
  ct_lastUrl :: string
  ct_injectedSelectors :: "(string \<times> string) option"
  ct_clock :: millis
  ct_nextTimer :: nat
  ct_timers :: "(nat \<times> millis \<times> content_timer) list"
  ct_checks :: "nat list"
  ct_sent :: "content_message list"
  ct_rate :: "rate_entry option"
  ct_cleanup :: "nat option"
  ct_listeners :: nat
  ct_locationListener :: bool
  ct_cacheLoading :: bool
  ct_cache :: registry_cache
  ct_location :: string
  ct_document :: document_now
  ct_fields :: "nat \<rightharpoonup> string"
  ct_domEvents :: "(nat \<times> string) list"

text \<open>What the script cannot see: the URL parser, \<open>CSS.escape\<close>, the compiler of patterns, whether it is a development build, and why importing a module fails
  if it does.\<close>

record content_env =
  ce_parseUrl :: "string \<Rightarrow> (string \<times> string) option"
  ce_css :: "string \<Rightarrow> string"
  ce_regexp :: "string \<Rightarrow> (string \<Rightarrow> bool) option"
  ce_devMode :: bool
  ce_importError :: "string option"

definition fresh_content :: "millis \<Rightarrow> string \<Rightarrow> document_now \<Rightarrow> (detector list \<times> millis) option \<Rightarrow> content_state" where
  "fresh_content now url doc stored =
     \<lparr>ct_loginFormEmitted = False, ct_loginDebounceTimer = None, ct_observer = False, ct_contentInitDone = False,
      ct_checkedApproval = False, ct_isApprovedDomain = False, ct_lastUrl = [], ct_injectedSelectors = None, ct_clock = now, ct_nextTimer = 0,
      ct_timers = [], ct_checks = [], ct_sent = [], ct_rate = None, ct_cleanup = None, ct_listeners = 0, ct_locationListener = False, ct_cacheLoading = False,
      ct_cache = new_registry_cache stored, ct_location = url, ct_document = doc, ct_fields = Map.empty,
      ct_domEvents = []\<rparr>"

definition hostname_of :: "content_env \<Rightarrow> string \<Rightarrow> string" where
  "hostname_of env url = (case ce_parseUrl env url of Some (_, host) \<Rightarrow> host | None \<Rightarrow> [])"

definition send_message :: "content_message \<Rightarrow> content_state \<Rightarrow> content_state" where
  "send_message m s = s\<lparr>ct_sent := ct_sent s @ [m]\<rparr>"

definition set_timer :: "millis \<Rightarrow> content_timer \<Rightarrow> content_state \<Rightarrow> content_state" where
  "set_timer delay k s = s\<lparr>ct_timers := ct_timers s @ [(ct_nextTimer s, ct_clock s + delay, k)], ct_nextTimer := Suc (ct_nextTimer s)\<rparr>"

definition clear_timer :: "nat option \<Rightarrow> content_state \<Rightarrow> content_state" where
  "clear_timer i s = (case i of None \<Rightarrow> s | Some n \<Rightarrow> s\<lparr>ct_timers := filter (\<lambda>t. fst t \<noteq> n) (ct_timers s)\<rparr>)"

section \<open>Reports\<close>

definition emitLoginForm :: "content_env \<Rightarrow> content_state \<Rightarrow> content_state" where
  "emitLoginForm env s =
     (case detectLoginForm (ce_css env) (hostname_of env (ct_location s)) (ct_location s) (dn_login (ct_document s)) of
        None \<Rightarrow> s
      | Some detection \<Rightarrow>
          (let s1 = s\<lparr>ct_loginFormEmitted := True\<rparr> in
           if ct_isApprovedDomain s1 then send_message (ReportLoginForm detection) s1 else send_message (ReportUnapprovedForm detection) s1))"

definition scheduleLoginDetection :: "content_state \<Rightarrow> content_state" where
  "scheduleLoginDetection s =
     (let s1 = clear_timer (ct_loginDebounceTimer s) s in (set_timer 500 DebounceTimer s1)\<lparr>ct_loginDebounceTimer := Some (ct_nextTimer s1)\<rparr>)"

text \<open>The nodes that a mutation added: whether each is an \<open>HTMLElement\<close>, and whether it is or holds a password field.\<close>

type_synonym mutation = "(bool \<times> bool) list"

definition on_mutations :: "mutation list \<Rightarrow> content_state \<Rightarrow> content_state" where
  "on_mutations ms s =
     (if \<not> ct_observer s \<or> ct_loginFormEmitted s then s
      else if list_ex (list_ex (\<lambda>(html, pw). html \<and> pw)) ms then scheduleLoginDetection s else s)"

definition startMutationObserver :: "content_state \<Rightarrow> content_state" where
  "startMutationObserver s = s\<lparr>ct_observer := True\<rparr>"

definition stopMutationObserver :: "content_state \<Rightarrow> content_state" where
  "stopMutationObserver s = (clear_timer (ct_loginDebounceTimer s) s)\<lparr>ct_observer := False, ct_loginDebounceTimer := None\<rparr>"

definition page_of :: "content_state \<Rightarrow> page" where
  "page_of s = \<lparr>pg_href = ct_location s, pg_query = dn_query (ct_document s), pg_nodes = dn_nodes (ct_document s)\<rparr>"

definition reportDomainTransaction :: "content_state \<Rightarrow> content_state" where
  "reportDomainTransaction s =
     (let result = detectTransaction None (ct_cache s) (page_of s) in
      case dr_transaction result of
        Some t \<Rightarrow> if dr_success result then send_message (ReportTransaction t) s else s
      | None \<Rightarrow> s)"

section \<open>Approval\<close>

text \<open>\<open>!!data?.data?.approved\<close>; a rejected message counts as not approved.\<close>

definition approved_in :: "string + message_response option \<Rightarrow> bool" where
  "approved_in r =
     (case r of
        Inr (Some m) \<Rightarrow> (case mr_data m of Some d \<Rightarrow> truthy (jget d ''approved'') | None \<Rightarrow> False)
      | _ \<Rightarrow> False)"

definition after_approval :: "bool \<Rightarrow> content_state \<Rightarrow> content_state" where
  "after_approval approved s =
     (let s1 = s\<lparr>ct_checkedApproval := True, ct_isApprovedDomain := approved\<rparr>;
          s2 = (if approved then set_timer 1000 ReportTimer s1 else s1)
      in set_timer 1500 EmitTimer s2)"

definition checkDynamicApproval :: "string \<Rightarrow> content_state \<Rightarrow> content_state" where
  "checkDynamicApproval domain s =
     (let s1 = send_message (AskApproved domain) s in
      set_timer 1500 ApprovalTimeout (s1\<lparr>ct_checks := ct_checks s1 @ [ct_nextTimer s1]\<rparr>))"

definition settle_check :: "nat \<Rightarrow> bool \<Rightarrow> content_state \<Rightarrow> content_state" where
  "settle_check i approved s =
     (if i \<in> set (ct_checks s) then after_approval approved (s\<lparr>ct_checks := filter (\<lambda>j. j \<noteq> i) (ct_checks s)\<rparr>) else s)"

section \<open>Timers\<close>

definition fire :: "content_env \<Rightarrow> nat \<times> millis \<times> content_timer \<Rightarrow> content_state \<Rightarrow> content_state" where
  "fire env t s =
     (case t of (i, due, k) \<Rightarrow>
       (case k of
          DebounceTimer \<Rightarrow> if ct_checkedApproval s then emitLoginForm env s else s
        | ApprovalTimeout \<Rightarrow> settle_check i False s
        | ReportTimer \<Rightarrow> reportDomainTransaction s
        | EmitTimer \<Rightarrow> if ct_loginFormEmitted s then s else emitLoginForm env s
        | FallbackTimer \<Rightarrow>
            if ct_checkedApproval s then s
            else
             (let s1 = s\<lparr>ct_isApprovedDomain := False, ct_checkedApproval := True\<rparr>
              in if ct_loginFormEmitted s1 then s1 else emitLoginForm env s1)))"

text \<open>The timer that fires next: the earliest, and of those the one set first.\<close>

fun next_timer :: "(nat \<times> millis \<times> content_timer) list \<Rightarrow> (nat \<times> millis \<times> content_timer) option" where
  "next_timer [] = None"
| "next_timer (t # ts) = (case next_timer ts of None \<Rightarrow> Some t | Some u \<Rightarrow> if fst (snd u) < fst (snd t) then Some u else Some t)"

definition take_timer :: "nat \<times> millis \<times> content_timer \<Rightarrow> content_state \<Rightarrow> content_state" where
  "take_timer t s = s\<lparr>ct_timers := remove1 t (ct_timers s), ct_clock := fst (snd t)\<rparr>"

fun timer_weight :: "nat \<times> millis \<times> content_timer \<Rightarrow> nat" where
  "timer_weight (_, _, k) = (if k = ApprovalTimeout then 3 else 1)"

definition timers_weight :: "content_state \<Rightarrow> nat" where
  "timers_weight s = sum_list (map timer_weight (ct_timers s))"

lemma next_timer_in: "next_timer ts = Some t \<Longrightarrow> t \<in> set ts"
  by (induction ts arbitrary: t) (auto split: option.splits if_splits)

lemma next_timer_None: "next_timer ts = None \<longleftrightarrow> ts = []"
  by (cases ts) (auto split: option.splits)

lemma next_timer_least: "next_timer ts = Some t \<Longrightarrow> u \<in> set ts \<Longrightarrow> fst (snd t) \<le> fst (snd u)"
proof (induction ts arbitrary: t u)
  case (Cons x ts)
  show ?case
  proof (cases "next_timer ts")
    case None
    then show ?thesis using Cons.prems by (simp add: next_timer_None)
  next
    case (Some v)
    have rest: "fst (snd v) \<le> fst (snd w)" if "w \<in> set ts" for w using Cons.IH [OF Some that] .
    show ?thesis using Cons.prems Some rest [of u] by (auto split: if_splits)
  qed
qed simp

lemma timers_simps [simp]:
  "ct_timers (send_message m s) = ct_timers s" "ct_timers (emitLoginForm env s) = ct_timers s" "ct_timers (reportDomainTransaction s) = ct_timers s"
  by (simp_all add: send_message_def emitLoginForm_def reportDomainTransaction_def Let_def split: option.split)

lemma fire_weight: "timers_weight (fire env t s) < timers_weight s + timer_weight t"
proof -
  obtain i due k where t: "t = (i, due, k)" by (cases t)
  show ?thesis
    by (cases k) (simp_all add: t fire_def timers_weight_def settle_check_def after_approval_def set_timer_def Let_def)
qed

lemma take_weight: "t \<in> set (ct_timers s) \<Longrightarrow> timers_weight (take_timer t s) + timer_weight t = timers_weight s"
  by (simp add: timers_weight_def take_timer_def sum_list_map_remove1)

text \<open>Everything that is due by a time.\<close>

function run_until :: "content_env \<Rightarrow> millis \<Rightarrow> content_state \<Rightarrow> content_state" where
  "run_until env now s =
     (case next_timer (ct_timers s) of
        None \<Rightarrow> s\<lparr>ct_clock := now\<rparr>
      | Some t \<Rightarrow> if fst (snd t) \<le> now then run_until env now (fire env t (take_timer t s)) else s\<lparr>ct_clock := now\<rparr>)"
  by pat_completeness auto

termination
proof (relation "measure (\<lambda>(_, _, s). timers_weight s)")
  fix env :: content_env and now and s :: content_state and t assume "next_timer (ct_timers s) = Some t"
  then have "timers_weight (take_timer t s) + timer_weight t = timers_weight s" by (intro take_weight next_timer_in)
  then show "((env, now, fire env t (take_timer t s)), env, now, s) \<in> measure (\<lambda>(_, _, s). timers_weight s)"
    using fire_weight [of env t "take_timer t s"] by simp
qed simp

declare run_until.simps [simp del]

section \<open>Life of the script\<close>

definition registrable_of :: "content_env \<Rightarrow> string \<Rightarrow> string" where
  "registrable_of env url =
     (case parseDomain (ce_parseUrl env) (ce_devMode env) url of Inr p \<Rightarrow> pdm_registrableDomain p | Inl _ \<Rightarrow> hostname_of env url)"

definition cached_hosts :: "string list" where
  "cached_hosts = [''lhv.ee'', ''www.lhv.ee'', ''youtube.tomabel.ee'']"

definition content_main :: "content_env \<Rightarrow> content_state \<Rightarrow> content_state" where
  "content_main env s =
     (if ct_contentInitDone s then s
      else
       (let hostname = hostname_of env (ct_location s);
            s1 = s\<lparr>ct_contentInitDone := True, ct_listeners := Suc (ct_listeners s),
                   ct_cleanup := startCleanupInterval (ct_nextTimer s) (ct_cleanup s), ct_nextTimer := Suc (ct_nextTimer s)\<rparr>;
            s2 = (if List.member cached_hosts hostname then s1\<lparr>ct_cacheLoading := True\<rparr> else s1);
            s3 = send_message (TabDomainChanged hostname (ct_location s)) s2;
            s4 = checkDynamicApproval (registrable_of env (ct_location s)) s3;
            s5 = startMutationObserver (set_timer 2000 FallbackTimer s4)
        in s5\<lparr>ct_lastUrl := ct_location s, ct_locationListener := True\<rparr>))"

definition on_location_change :: "content_env \<Rightarrow> string \<Rightarrow> content_state \<Rightarrow> content_state" where
  "on_location_change env newUrl s =
     (let s0 = s\<lparr>ct_location := newUrl\<rparr> in
      if \<not> ct_locationListener s \<or> newUrl = ct_lastUrl s then s0
      else
       (let s1 = send_message (TabDomainChanged (hostname_of env newUrl) newUrl) (s0\<lparr>ct_lastUrl := newUrl, ct_loginFormEmitted := False\<rparr>)
        in checkDynamicApproval (registrable_of env newUrl) (s1\<lparr>ct_checkedApproval := False\<rparr>)))"

definition on_invalidated :: "content_state \<Rightarrow> content_state" where
  "on_invalidated s =
     (stopMutationObserver (s\<lparr>ct_cleanup := stopCleanupInterval (ct_cleanup s)\<rparr>))\<lparr>ct_contentInitDone := False, ct_locationListener := False\<rparr>"

section \<open>Answers to messages\<close>

definition setLoginSelectors :: "string \<Rightarrow> string \<Rightarrow> content_state \<Rightarrow> content_state" where
  "setLoginSelectors u p s = s\<lparr>ct_injectedSelectors := Some (u, p)\<rparr>"

definition injectCredentials :: "string \<Rightarrow> string \<Rightarrow> string \<Rightarrow> string \<Rightarrow> content_state \<Rightarrow> string + bool \<times> content_state" where
  "injectCredentials username password usernameSelector passwordSelector s =
     (case (dn_field (ct_document s) usernameSelector, dn_field (ct_document s) passwordSelector) of
        (Inl e, _) \<Rightarrow> Inl e
      | (_, Inl e) \<Rightarrow> Inl e
      | (Inr (Some u), Inr (Some p)) \<Rightarrow>
          Inr (True, s\<lparr>ct_fields := (ct_fields s)(u \<mapsto> username, p \<mapsto> password),
                       ct_domEvents := ct_domEvents s @ [(u, ''input''), (u, ''change''), (p, ''input''), (p, ''change'')]\<rparr>)
      | _ \<Rightarrow> Inr (False, s))"

datatype content_request =
    ReadDom "nat option option"
  | DetectTransactionRequest
  | CredentialResponse string string
  | ScrapeControlCode
  | OtherRequest

datatype content_answer =
    ScrapeAnswer scrape_result
  | DetectAnswer bool "string option" detect_result
  | CredentialAnswer "string option"
  | CodeAnswer "string option"

text \<open>A request without payload throws inside the handler's \<open>try\<close>.\<close>

definition handleReadDom :: "nat option option \<Rightarrow> content_state \<Rightarrow> content_answer \<times> content_state" where
  "handleReadDom payload s =
     (case payload of
        None \<Rightarrow> (ScrapeAnswer (scrape_failed ''Cannot read properties of undefined (reading 'maxLength')'' None), s)
      | Some maxLength \<Rightarrow>
          (case scrapePage maxLength (ct_clock s) (ct_location s) (dn_content (ct_document s)) (ct_rate s) of
             (r, e) \<Rightarrow> (ScrapeAnswer r, s\<lparr>ct_rate := e\<rparr>)))"

definition handleDetectTransaction :: "content_state \<Rightarrow> content_answer" where
  "handleDetectTransaction s =
     (let result = detectTransaction None (ct_cache s) (page_of s) in
      if dr_success result then DetectAnswer True None result else DetectAnswer False (dr_error result) result)"

definition handleScrapeControlCode :: "content_state \<Rightarrow> content_answer" where
  "handleScrapeControlCode s = CodeAnswer (scrapeControlCode (dn_codes (ct_document s)))"

definition handleCredentialResponse :: "content_env \<Rightarrow> string \<Rightarrow> string \<Rightarrow> content_state \<Rightarrow> content_answer \<times> content_state" where
  "handleCredentialResponse env username password s =
     (case ce_importError env of
        Some e \<Rightarrow> (CredentialAnswer (Some e), s)
      | None \<Rightarrow>
          (case ct_injectedSelectors s of
             None \<Rightarrow> (CredentialAnswer (Some ''No login field selectors stored''), s)
           | Some (u, p) \<Rightarrow>
               (case injectCredentials username password u p s of
                  Inl e \<Rightarrow> (CredentialAnswer (Some e), s)
                | Inr (False, s1) \<Rightarrow> (CredentialAnswer (Some ''Login form changed. Please reload the page and try again.''), s1)
                | Inr (True, s1) \<Rightarrow> (CredentialAnswer None, s1))))"

definition on_message :: "content_env \<Rightarrow> content_request \<Rightarrow> content_state \<Rightarrow> content_answer option \<times> content_state" where
  "on_message env m s =
     (if ct_listeners s = 0 then (None, s)
      else
       (case m of
          ReadDom p \<Rightarrow> (case handleReadDom p s of (a, s1) \<Rightarrow> (Some a, s1))
        | DetectTransactionRequest \<Rightarrow> (Some (handleDetectTransaction s), s)
        | CredentialResponse u p \<Rightarrow> (case handleCredentialResponse env u p s of (a, s1) \<Rightarrow> (Some a, s1))
        | ScrapeControlCode \<Rightarrow> (Some (handleScrapeControlCode s), s)
        | OtherRequest \<Rightarrow> (None, s)))"

section \<open>Events\<close>

datatype content_event =
    ApprovalAnswer nat "string + message_response option"
  | Mutations "mutation list"
  | LocationChange string
  | Invalidated
  | DocumentChanged document_now
  | Message content_request
  | CacheLoaded
  | CleanupTick
  | RunMain

fun on_event :: "content_env \<Rightarrow> content_event \<Rightarrow> content_state \<Rightarrow> content_state" where
  "on_event env (ApprovalAnswer i r) s = settle_check i (approved_in r) s"
| "on_event env (Mutations ms) s = on_mutations ms s"
| "on_event env (LocationChange url) s = on_location_change env url s"
| "on_event env Invalidated s = on_invalidated s"
| "on_event env (DocumentChanged d) s = s\<lparr>ct_document := d\<rparr>"
| "on_event env (Message m) s = snd (on_message env m s)"
| "on_event env CacheLoaded s =
     (if ct_cacheLoading s then s\<lparr>ct_cacheLoading := False, ct_cache := loadCached (ce_regexp env) (ct_cache s)\<rparr> else s)"
| "on_event env CleanupTick s = (if ct_cleanup s = None then s else s\<lparr>ct_rate := cleanup_tick (ct_clock s) (ct_rate s)\<rparr>)"
| "on_event env RunMain s = content_main env s"

definition content_exec :: "content_env \<Rightarrow> millis \<times> content_event \<Rightarrow> content_state \<Rightarrow> content_state" where
  "content_exec env e s = on_event env (snd e) (run_until env (fst e) s)"

section \<open>Runs\<close>

lemma run_until_inv:
  assumes "P s" "\<And>s t. P s \<Longrightarrow> next_timer (ct_timers s) = Some t \<Longrightarrow> fst (snd t) \<le> now \<Longrightarrow> P (fire env t (take_timer t s))"
    "\<And>s. P s \<Longrightarrow> P (s\<lparr>ct_clock := now\<rparr>)"
  shows "P (run_until env now s)"
  using assms
proof (induction env now s rule: run_until.induct)
  case (1 env now s)
  show ?case
  proof (cases "next_timer (ct_timers s)")
    case None
    then have "run_until env now s = s\<lparr>ct_clock := now\<rparr>" by (simp add: run_until.simps [of env now s])
    then show ?thesis using 1(4) [OF 1(2)] by (simp only:)
  next
    case (Some t)
    then have step: "run_until env now s = (if fst (snd t) \<le> now then run_until env now (fire env t (take_timer t s)) else s\<lparr>ct_clock := now\<rparr>)"
      by (simp add: run_until.simps [of env now s])
    show ?thesis
    proof (cases "fst (snd t) \<le> now")
      case True
      from 1(1) [OF Some True 1(3) [OF 1(2) Some True] 1(3,4)] show ?thesis by (simp only: step True if_True)
    next
      case False
      then show ?thesis using 1(4) [OF 1(2)] by (simp only: step if_False)
    qed
  qed
qed

text \<open>Nothing that is due is left.\<close>

lemma run_until_done: "t \<in> set (ct_timers (run_until env now s)) \<Longrightarrow> fst (snd t) > now"
proof (induction env now s rule: run_until.induct)
  case (1 env now s)
  show ?case
  proof (cases "next_timer (ct_timers s)")
    case None
    then show ?thesis using 1(2) by (simp add: run_until.simps [of env now s] next_timer_None)
  next
    case (Some u)
    show ?thesis
    proof (cases "fst (snd u) \<le> now")
      case True
      then show ?thesis using 1 Some by (simp add: run_until.simps [of env now s])
    next
      case False
      then show ?thesis using 1(2) next_timer_least [OF Some, of t] Some by (simp add: run_until.simps [of env now s])
    qed
  qed
qed

lemmas content_defs = send_message_def set_timer_def clear_timer_def emitLoginForm_def scheduleLoginDetection_def on_mutations_def
  startMutationObserver_def stopMutationObserver_def reportDomainTransaction_def after_approval_def checkDynamicApproval_def settle_check_def
  take_timer_def on_location_change_def on_invalidated_def content_main_def Let_def

section \<open>What no event does\<close>

text \<open>Nothing in the extension stores the selectors of the login form, so that no field is ever written; and the registry's detectors
  are loaded on three hosts only.\<close>

definition never_filled :: "content_state \<Rightarrow> bool" where
  "never_filled s \<longleftrightarrow> ct_injectedSelectors s = None \<and> ct_fields s = Map.empty \<and> ct_domEvents s = []"

lemma never_filled_fire: "never_filled s \<Longrightarrow> never_filled (fire env t (take_timer t s))"
  by (auto simp: never_filled_def fire_def content_defs split: prod.split content_timer.split option.split)

lemma never_filled_message: "never_filled s \<Longrightarrow> never_filled (snd (on_message env m s))"
  by (cases m) (auto simp: never_filled_def on_message_def handleReadDom_def handleCredentialResponse_def split: option.split prod.split)

interpretation filling: event_system "content_exec env" "\<lambda>_. True" never_filled for env
proof
  fix s and e :: "millis \<times> content_event" assume inv: "never_filled s"
  have "never_filled (run_until env (fst e) s)"
    by (rule run_until_inv [OF inv never_filled_fire]) (simp_all add: never_filled_def)
  then show "never_filled (content_exec env e s)"
    by (cases "snd e")
      (auto simp: content_exec_def never_filled_message, auto simp: never_filled_def content_defs split: option.split)
qed

text \<open>credentials never reach the page. Whatever happens to the page, and whatever the phone sends, the script answers a message with
  credentials with an error and writes no field.\<close>

theorem credentials_never_filled:
  assumes "s = fold (content_exec env) es (fresh_content now url doc stored)"
  shows "ct_fields s = Map.empty \<and> ct_domEvents s = [] \<and> fst (on_message env (CredentialResponse u p) s) \<noteq> Some (CredentialAnswer None)"
proof -
  have "never_filled (fresh_content now url doc stored)" by (simp add: never_filled_def fresh_content_def)
  then have "never_filled s"
    using filling.inv_run [of "fresh_content now url doc stored" es env] by (simp add: assms list_all_iff)
  then show ?thesis
    by (simp add: never_filled_def on_message_def handleCredentialResponse_def split: option.split)
qed

definition no_document :: document_now where
  "no_document = \<lparr>dn_login = \<lparr>ld_query = (\<lambda>_. None), ld_form = (\<lambda>_. None), ld_all = (\<lambda>_. [])\<rparr>, dn_query = (\<lambda>_. Inr None), dn_nodes = [],
     dn_content = Inl ''no document'', dn_codes = (\<lambda>_. []), dn_field = (\<lambda>_. Inr (Some 1))\<rparr>"

definition plain_env :: content_env where
  "plain_env = \<lparr>ce_parseUrl = (\<lambda>u. Some (''https:'', ''www.lhv.ee'')), ce_css = id, ce_regexp = (\<lambda>_. None), ce_devMode = False, ce_importError = None\<rparr>"

theorem credentials_never_filled_witness:
  "fst (on_message plain_env (CredentialResponse ''mari'' ''secret'')
     (fold (content_exec plain_env) [(0, RunMain), (5, Message (CredentialResponse ''mari'' ''secret''))]
        (fresh_content 0 ''https://www.lhv.ee/'' no_document None))) \<noteq> Some (CredentialAnswer None)"
  using credentials_never_filled [OF refl, of plain_env] by blast

definition registry_absent :: "content_env \<Rightarrow> content_state \<Rightarrow> bool" where
  "registry_absent env s \<longleftrightarrow> \<not> ct_cacheLoading s \<and> rc_detectors (ct_cache s) = None \<and> \<not> List.member cached_hosts (hostname_of env (ct_location s))"

definition other_host :: "content_env \<Rightarrow> millis \<times> content_event \<Rightarrow> bool" where
  "other_host env e \<longleftrightarrow> (case snd e of LocationChange url \<Rightarrow> \<not> List.member cached_hosts (hostname_of env url) | _ \<Rightarrow> True)"

lemma registry_absent_fire: "registry_absent env s \<Longrightarrow> registry_absent env (fire env t (take_timer t s))"
  by (auto simp: registry_absent_def fire_def content_defs split: prod.split content_timer.split option.split)

lemma registry_absent_message: "registry_absent env s \<Longrightarrow> registry_absent env (snd (on_message env m s))"
  by (cases m) (auto simp: registry_absent_def on_message_def handleReadDom_def handleCredentialResponse_def injectCredentials_def
      split: option.split prod.split sum.split bool.split)

interpretation registry_use: event_system "content_exec env" "other_host env" "registry_absent env" for env
proof
  fix s and e :: "millis \<times> content_event" assume inv: "registry_absent env s" and other: "other_host env e"
  have "registry_absent env (run_until env (fst e) s)"
    by (rule run_until_inv [OF inv registry_absent_fire]) (simp_all add: registry_absent_def)
  then show "registry_absent env (content_exec env e s)"
    using other by (cases "snd e")
      (auto simp: content_exec_def registry_absent_message, auto simp: registry_absent_def other_host_def content_defs split: option.split)
qed

lemma registry_not_consulted:
  assumes "list_all (other_host env) es" "\<not> List.member cached_hosts (hostname_of env url)"
  shows "findDeclarativeDetector href (ct_cache (fold (content_exec env) es (fresh_content now url doc stored))) = None"
proof -
  have "registry_absent env (fresh_content now url doc stored)"
    using assms(2) by (simp add: registry_absent_def fresh_content_def new_registry_cache_def)
  from registry_use.inv_run [OF this assms(1)] show ?thesis by (simp add: registry_absent_def findDeclarativeDetector_def)
qed

section \<open>One page\<close>

definition login_report :: "content_message \<Rightarrow> bool" where
  "login_report m \<longleftrightarrow> (case m of ReportLoginForm _ \<Rightarrow> True | ReportUnapprovedForm _ \<Rightarrow> True | _ \<Rightarrow> False)"

text \<open>A report that fits the answer.\<close>

definition fitting :: "bool \<Rightarrow> content_message \<Rightarrow> bool" where
  "fitting approved m \<longleftrightarrow>
     (case m of ReportLoginForm _ \<Rightarrow> approved | ReportUnapprovedForm _ \<Rightarrow> \<not> approved | ReportTransaction _ \<Rightarrow> approved | _ \<Rightarrow> True)"

definition no_report :: "content_message \<Rightarrow> bool" where
  "no_report m \<longleftrightarrow> fitting True m \<and> fitting False m"

definition timers_ok :: "content_state \<Rightarrow> bool" where
  "timers_ok s \<longleftrightarrow>
     (\<forall>(i, due, k) \<in> set (ct_timers s). i < ct_nextTimer s \<and> (ct_loginDebounceTimer s = Some i \<longrightarrow> k = DebounceTimer))
     \<and> (\<forall>i. ct_loginDebounceTimer s = Some i \<longrightarrow> i < ct_nextTimer s)"

text \<open>Before the answer: the timeout of the question and the fallback are set, nothing is reported.\<close>

definition waiting :: "millis \<Rightarrow> content_state \<Rightarrow> bool" where
  "waiting t0 s \<longleftrightarrow> timers_ok s \<and> ct_checks s = [1] \<and> \<not> ct_checkedApproval s \<and> \<not> ct_isApprovedDomain s \<and> \<not> ct_loginFormEmitted s
     \<and> list_all no_report (ct_sent s) \<and> (1, t0 + 1500, ApprovalTimeout) \<in> set (ct_timers s) \<and> ct_loginDebounceTimer s \<noteq> Some 1
     \<and> (\<forall>t \<in> set (ct_timers s). t = (1, t0 + 1500, ApprovalTimeout) \<or> t = (2, t0 + 2000, FallbackTimer) \<or> snd (snd t) = DebounceTimer)"

definition decided :: "bool \<Rightarrow> content_state \<Rightarrow> bool" where
  "decided v s \<longleftrightarrow> timers_ok s \<and> ct_checks s = [] \<and> ct_checkedApproval s \<and> ct_isApprovedDomain s = v \<and> list_all (fitting v) (ct_sent s)
     \<and> (\<forall>t \<in> set (ct_timers s). snd (snd t) = ReportTimer \<longrightarrow> v)"

lemma timers_ok_take: "timers_ok s \<Longrightarrow> timers_ok (take_timer t s)"
  by (auto simp: timers_ok_def take_timer_def dest: notin_set_remove1)

lemma timers_ok_set: "timers_ok s \<Longrightarrow> timers_ok (set_timer d k s)"
  by (auto simp: timers_ok_def set_timer_def less_Suc_eq)

lemma decided_emit: "decided v s \<Longrightarrow> decided v (emitLoginForm env s)"
  by (auto simp: decided_def timers_ok_def emitLoginForm_def send_message_def fitting_def Let_def split: option.split)

lemma decided_report: "decided True s \<Longrightarrow> decided True (reportDomainTransaction s)"
  by (auto simp: decided_def timers_ok_def reportDomainTransaction_def send_message_def fitting_def Let_def split: option.split)

lemma decided_fire:
  assumes "decided v s" "next_timer (ct_timers s) = Some t"
  shows "decided v (fire env t (take_timer t s))"
proof -
  obtain i due k where t: "t = (i, due, k)" by (cases t)
  have take: "decided v (take_timer t s)"
    using assms(1) timers_ok_take [of s t] set_remove1_subset [of t "ct_timers s"] by (fastforce simp: decided_def take_timer_def)
  have "k = ReportTimer \<Longrightarrow> v" using assms(1) next_timer_in [OF assms(2)] by (force simp: decided_def t)
  then show ?thesis using take decided_emit [OF take] decided_report
    by (cases k) (auto simp: fire_def t decided_def settle_check_def)
qed

lemma decided_after:
  assumes "waiting t0 s"
  shows "decided v (after_approval v (s\<lparr>ct_checks := []\<rparr>))"
proof -
  have "list_all (fitting v) (ct_sent s)" using assms by (cases v) (auto simp: waiting_def list_all_iff no_report_def)
  moreover have "timers_ok (s\<lparr>ct_checks := [], ct_checkedApproval := True, ct_isApprovedDomain := v\<rparr>)" using assms by (simp add: waiting_def timers_ok_def)
  ultimately show ?thesis using assms
    by (auto simp: after_approval_def Let_def decided_def waiting_def timers_ok_def set_timer_def less_Suc_eq)
qed

lemma waiting_fire:
  assumes "waiting t0 s" "next_timer (ct_timers s) = Some t"
  shows "if t = (1, t0 + 1500, ApprovalTimeout) then decided False (fire env t (take_timer t s))
    else fst (snd t) \<le> t0 + 1500 \<and> waiting t0 (fire env t (take_timer t s))"
proof -
  have least: "fst (snd t) \<le> t0 + 1500" using next_timer_least [OF assms(2)] assms(1) by (force simp: waiting_def)
  have sub: "set (remove1 t (ct_timers s)) \<subseteq> set (ct_timers s)" by (rule set_remove1_subset)
  show ?thesis
  proof (cases "t = (1, t0 + 1500, ApprovalTimeout)")
    case True
    have "fire env t (take_timer t s) = after_approval False ((take_timer t s)\<lparr>ct_checks := []\<rparr>)"
      using assms(1) True by (simp add: fire_def settle_check_def waiting_def take_timer_def)
    moreover have "list_all (fitting False) (ct_sent s)" using assms(1) by (auto simp: waiting_def list_all_iff no_report_def)
    ultimately show ?thesis using assms(1) True timers_ok_take [of s t] sub
      by (fastforce simp: after_approval_def Let_def decided_def waiting_def timers_ok_def set_timer_def take_timer_def less_Suc_eq)
  next
    case False
    then have "snd (snd t) = DebounceTimer" using next_timer_in [OF assms(2)] assms(1) least by (auto simp: waiting_def)
    then have "fire env t (take_timer t s) = take_timer t s" using assms(1) by (cases t) (simp add: fire_def waiting_def take_timer_def)
    moreover have "(1, t0 + 1500, ApprovalTimeout) \<in> set (remove1 t (ct_timers s))"
      using assms(1) False by (simp add: waiting_def in_set_remove1)
    ultimately show ?thesis using False least assms(1) timers_ok_take [of s t] sub by (auto simp: waiting_def take_timer_def)
  qed
qed

lemma decided_run: "decided v s \<Longrightarrow> decided v (run_until env now s)"
  by (rule run_until_inv [of "decided v"]) (auto simp: decided_fire, simp add: decided_def timers_ok_def)

lemma waiting_clock: "waiting t0 s \<Longrightarrow> waiting t0 (s\<lparr>ct_clock := now\<rparr>)"
  by (simp add: waiting_def timers_ok_def)

lemma waiting_run:
  assumes "waiting t0 s"
  shows "if now < t0 + 1500 then waiting t0 (run_until env now s) else decided False (run_until env now s)"
proof (cases "now < t0 + 1500")
  case True
  have "waiting t0 (run_until env now s)"
  proof (rule run_until_inv [where P = "waiting t0"])
    fix s t assume "waiting t0 s" "next_timer (ct_timers s) = Some t" "fst (snd t) \<le> now"
    then show "waiting t0 (fire env t (take_timer t s))" using waiting_fire [of t0 s t env] True by (auto split: if_splits)
  qed (simp_all add: assms waiting_clock)
  then show ?thesis using True by simp
next
  case False
  have "waiting t0 (run_until env now s) \<or> decided False (run_until env now s)"
  proof (rule run_until_inv [where P = "\<lambda>s. waiting t0 s \<or> decided False s"])
    fix s t assume "waiting t0 s \<or> decided False s" "next_timer (ct_timers s) = Some t"
    then show "waiting t0 (fire env t (take_timer t s)) \<or> decided False (fire env t (take_timer t s))"
      using waiting_fire [of t0 s t env] decided_fire [of False s t env] by (auto split: if_splits)
  qed (use assms in \<open>auto simp: waiting_def decided_def timers_ok_def\<close>)
  moreover have "\<not> waiting t0 (run_until env now s)"
    using run_until_done [of "(1, t0 + 1500, ApprovalTimeout)" env now s] False by (auto simp: waiting_def)
  ultimately show ?thesis using False by simp
qed

text \<open>Events that keep the script on its page.\<close>

definition stays :: "millis \<times> content_event \<Rightarrow> bool" where
  "stays e \<longleftrightarrow> (case snd e of LocationChange _ \<Rightarrow> False | RunMain \<Rightarrow> False | _ \<Rightarrow> True)"

text \<open>The answer that counts: the first to the question, if it comes within 1500 ms.\<close>

fun verdict :: "millis \<Rightarrow> (millis \<times> content_event) list \<Rightarrow> bool" where
  "verdict t0 [] = False"
| "verdict t0 ((t, ApprovalAnswer i r) # es) = (if t0 + 1500 \<le> t then False else if i = 1 then approved_in r else verdict t0 es)"
| "verdict t0 ((t, ev) # es) = (if t0 + 1500 \<le> t then False else verdict t0 es)"

text \<open>What a state is compared by, the document and the tables that no report depends on apart.\<close>

definition core :: "content_state \<Rightarrow> content_state" where
  "core s = s\<lparr>ct_rate := None, ct_cleanup := None, ct_cacheLoading := False, ct_cache := new_registry_cache None,
     ct_document := undefined, ct_fields := Map.empty, ct_domEvents := [], ct_contentInitDone := False, ct_locationListener := False,
     ct_injectedSelectors := None\<rparr>"

lemma core_decided: "decided v (core s) = decided v s" "waiting t0 (core s) = waiting t0 s"
  by (simp_all add: core_def decided_def waiting_def timers_ok_def)

lemma core_message: "core (snd (on_message env m s)) = core s"
  by (cases m) (auto simp: core_def on_message_def handleReadDom_def handleCredentialResponse_def injectCredentials_def
      split: option.split prod.split sum.split bool.split)

lemma schedule_keeps:
  "decided v s \<Longrightarrow> decided v (scheduleLoginDetection s)" "waiting t0 s \<Longrightarrow> waiting t0 (scheduleLoginDetection s)"
  by (cases "ct_loginDebounceTimer s";
      force simp: decided_def waiting_def timers_ok_def scheduleLoginDetection_def clear_timer_def set_timer_def less_Suc_eq Let_def)+

lemma stop_keeps:
  "decided v s \<Longrightarrow> decided v (on_invalidated s)" "waiting t0 s \<Longrightarrow> waiting t0 (on_invalidated s)"
  by (cases "ct_loginDebounceTimer s"; force simp: decided_def waiting_def timers_ok_def on_invalidated_def stopMutationObserver_def clear_timer_def)+

lemma page_event_kept:
  assumes "stays (t, ev)" "\<forall>i r. ev \<noteq> ApprovalAnswer i r"
  shows "decided v s \<Longrightarrow> decided v (on_event env ev s)" "waiting t0 s \<Longrightarrow> waiting t0 (on_event env ev s)"
proof -
  have msg: "decided v (snd (on_message env m s)) = decided v s" "waiting t0 (snd (on_message env m s)) = waiting t0 s" for m
    by (metis core_decided core_message)+
  show "decided v s \<Longrightarrow> decided v (on_event env ev s)" "waiting t0 s \<Longrightarrow> waiting t0 (on_event env ev s)"
    using assms by (cases ev; simp add: stays_def msg schedule_keeps stop_keeps on_mutations_def; simp add: decided_def waiting_def timers_ok_def)+
qed

lemma decided_event: "stays (t, ev) \<Longrightarrow> decided v s \<Longrightarrow> decided v (on_event env ev s)"
  using page_event_kept(1) [of t ev v s env] by (cases ev) (simp_all add: decided_def settle_check_def)

lemma decided_exec: "stays e \<Longrightarrow> decided v s \<Longrightarrow> decided v (content_exec env e s)"
  by (cases e) (simp add: content_exec_def decided_event decided_run)

lemma decided_fold: "list_all stays es \<Longrightarrow> decided v s \<Longrightarrow> decided v (fold (content_exec env) es s)"
  by (induction es arbitrary: s) (simp_all add: decided_exec)

lemma waiting_exec:
  assumes "waiting t0 s" "stays (t, ev)"
  shows "if t0 + 1500 \<le> t then decided False (content_exec env (t, ev) s)
    else case ev of ApprovalAnswer i r \<Rightarrow> if i = 1 then decided (approved_in r) (content_exec env (t, ev) s) else waiting t0 (content_exec env (t, ev) s)
      | _ \<Rightarrow> waiting t0 (content_exec env (t, ev) s)"
proof (cases "t0 + 1500 \<le> t")
  case True
  then show ?thesis using waiting_run [OF assms(1), of t env] decided_event [OF assms(2)] by (simp add: content_exec_def)
next
  case False
  then have w: "waiting t0 (run_until env t s)" using waiting_run [OF assms(1), of t env] by simp
  have checks: "ct_checks (run_until env t s) = [1]" using w by (simp add: waiting_def)
  show ?thesis
  proof (cases "\<exists>i r. ev = ApprovalAnswer i r")
    case ans: True
    then obtain i r where "ev = ApprovalAnswer i r" by blast
    then show ?thesis using False w checks decided_after [OF w, of "approved_in r"] by (simp add: content_exec_def settle_check_def)
  next
    case quiet: False
    then have "waiting t0 (content_exec env (t, ev) s)" using page_event_kept(2) [OF assms(2) _ w, of env] by (simp add: content_exec_def)
    then show ?thesis using False quiet by (cases ev) auto
  qed
qed

lemma waiting_fold:
  "waiting t0 s \<Longrightarrow> list_all stays es \<Longrightarrow>
     waiting t0 (fold (content_exec env) es s) \<and> \<not> verdict t0 es \<and> (\<forall>e \<in> set es. fst e < t0 + 1500)
     \<or> decided (verdict t0 es) (fold (content_exec env) es s)"
proof (induction es arbitrary: s)
  case (Cons e es)
  obtain t ev where e: "e = (t, ev)" by (cases e)
  note step = waiting_exec [of t0 s t ev env]
  show ?case
  proof (cases "t0 + 1500 \<le> t")
    case True
    then have "decided False (content_exec env e s)" using step Cons.prems by (simp add: e)
    moreover have "\<not> verdict t0 (e # es)" using True by (cases ev) (simp_all add: e)
    ultimately show ?thesis using decided_fold [of es False "content_exec env e s" env] Cons.prems by simp
  next
    case False
    show ?thesis
    proof (cases "\<exists>r. ev = ApprovalAnswer 1 r")
      case True
      then obtain r where "ev = ApprovalAnswer 1 r" by blast
      then show ?thesis using False step Cons.prems decided_fold [of es "approved_in r" "content_exec env e s" env] by (simp add: e)
    next
      case other: False
      then have "waiting t0 (content_exec env e s)" "verdict t0 (e # es) = verdict t0 es"
        using False step Cons.prems by (cases ev; auto simp: e)+
      then show ?thesis using Cons.IH [of "content_exec env e s"] Cons.prems False by (auto simp: e)
    qed
  qed
qed simp

lemma main_waiting: "waiting t0 (content_main env (fresh_content t0 url doc stored))"
  by (simp add: content_main_def fresh_content_def waiting_def timers_ok_def checkDynamicApproval_def set_timer_def send_message_def
      startMutationObserver_def no_report_def fitting_def Let_def)

text \<open>C12: the reports of a page fit the answer about its site. While the script stays on its page, whatever the document does and whenever
  the timers fire, it reports a login form as one of an approved site, or a transaction, only if the first answer to its question came within
  1500 ms and said approved; and it reports a form as one of an unapproved site only otherwise. From 1500 ms on
  the decision stands: the timer of 2000 ms that would decide never does.\<close>

theorem page_reports_fit_answer:
  assumes "s = fold (content_exec env) es (content_main env (fresh_content t0 url doc stored))" "list_all stays es"
  shows "list_all (fitting (verdict t0 es)) (ct_sent s)
    \<and> (if \<exists>e \<in> set es. t0 + 1500 \<le> fst e then ct_checkedApproval s \<and> ct_isApprovedDomain s = verdict t0 es \<and> ct_checks s = [] else True)"
  using waiting_fold [OF main_waiting [of t0 env url doc stored] assms(2), of env] unfolding assms(1)
  by (auto simp: waiting_def decided_def list_all_iff no_report_def)

text \<open>A document with a login form, for the examples.\<close>

definition sample_input :: "string \<Rightarrow> input_el" where
  "sample_input name = \<lparr>in_id = name, in_name = [], in_classes = [], in_tag = ''INPUT'', in_top = 0, in_bottom = 20, in_left = 0\<rparr>"

definition sample_login :: login_dom where
  "sample_login = \<lparr>ld_query = (\<lambda>_. Some (sample_input ''pw'')), ld_form = (\<lambda>_. Some (\<lambda>_. Some (sample_input ''user''))), ld_all = (\<lambda>_. [])\<rparr>"

definition sample_now :: document_now where
  "sample_now = \<lparr>dn_login = sample_login, dn_query = (\<lambda>_. Inr None), dn_nodes = [], dn_content = Inr sample_document, dn_codes = (\<lambda>_. []),
     dn_field = (\<lambda>_. Inr None)\<rparr>"

definition sample_approved :: "string + message_response option" where
  "sample_approved = Inr (Some (ok_response [(''approved'', JBool True)]))"

abbreviation sample_start :: content_state where
  "sample_start \<equiv> content_main plain_env (fresh_content 0 ''https://www.lhv.ee/'' sample_now None)"

theorem page_reports_fit_answer_witness:
  "ct_isApprovedDomain (fold (content_exec plain_env) [(10, ApprovalAnswer 1 sample_approved), (1600, CacheLoaded)] sample_start)"
proof -
  let ?es = "[(10, ApprovalAnswer 1 sample_approved), (1600, CacheLoaded)]"
  have "verdict 0 ?es" by (simp add: sample_approved_def approved_in_def ok_response_def)
  moreover have "list_all stays ?es" by (simp add: stays_def)
  ultimately show ?thesis using page_reports_fit_answer [OF refl, of ?es 0 plain_env] by simp
qed

text \<open>A report is made or due.\<close>

definition has_form :: "content_env \<Rightarrow> string \<Rightarrow> document_now \<Rightarrow> bool" where
  "has_form env url doc \<longleftrightarrow> detectLoginForm (ce_css env) (hostname_of env url) url (dn_login doc) \<noteq> None"

definition report_due :: "content_env \<Rightarrow> string \<Rightarrow> millis \<Rightarrow> content_state \<Rightarrow> bool" where
  "report_due env url limit s \<longleftrightarrow> timers_ok s \<and> ct_location s = url \<and> has_form env url (ct_document s)
     \<and> (ct_loginFormEmitted s \<longrightarrow> list_ex login_report (ct_sent s))
     \<and> (ct_loginFormEmitted s \<or> (\<exists>i due. (i, due, EmitTimer) \<in> set (ct_timers s) \<and> due \<le> limit))"

lemma emit_reports:
  "ct_location s = url \<Longrightarrow> has_form env url (ct_document s) \<Longrightarrow> timers_ok s \<Longrightarrow> report_due env url limit (emitLoginForm env s)"
  by (cases "ct_isApprovedDomain s")
    (auto simp: report_due_def has_form_def emitLoginForm_def send_message_def login_report_def timers_ok_def Let_def list_ex_iff)

lemma report_due_fire:
  assumes "report_due env url limit s" "next_timer (ct_timers s) = Some t"
  shows "report_due env url limit (fire env t (take_timer t s))"
proof -
  obtain i due k where t: "t = (i, due, k)" by (cases t)
  have ok: "timers_ok (take_timer t s)" using assms(1) timers_ok_take by (simp add: report_due_def)
  have emit: "report_due env url limit (emitLoginForm env (take_timer t s))"
    using assms(1) ok by (intro emit_reports) (simp_all add: report_due_def take_timer_def)
  show ?thesis
  proof (cases "k = EmitTimer")
    case True
    then show ?thesis using emit assms(1) ok by (auto simp: fire_def t report_due_def take_timer_def)
  next
    case False
    then have kept: "report_due env url limit (take_timer t s)"
      using assms(1) ok by (auto simp: report_due_def take_timer_def t in_set_remove1)
    have fallback: "report_due env url limit (emitLoginForm env ((take_timer t s)\<lparr>ct_isApprovedDomain := False, ct_checkedApproval := True\<rparr>))"
      using kept by (intro emit_reports) (simp_all add: report_due_def timers_ok_def)
    have transaction: "report_due env url limit (reportDomainTransaction (take_timer t s))"
      using kept by (auto simp: report_due_def reportDomainTransaction_def send_message_def timers_ok_def Let_def split: option.split)
    have settled: "report_due env url limit (settle_check i False (take_timer t s))"
      using kept by (auto simp: report_due_def settle_check_def after_approval_def set_timer_def timers_ok_def less_Suc_eq Let_def)
    show ?thesis using False emit kept fallback transaction settled
      by (cases k) (auto simp: fire_def t report_due_def timers_ok_def Let_def)
  qed
qed

lemma report_due_run: "report_due env url limit s \<Longrightarrow> report_due env url limit (run_until env now s)"
  by (rule run_until_inv [of "report_due env url limit"]) (auto simp: report_due_fire, simp add: report_due_def timers_ok_def)

definition keeps_form :: "content_env \<Rightarrow> string \<Rightarrow> millis \<times> content_event \<Rightarrow> bool" where
  "keeps_form env url e \<longleftrightarrow> stays e \<and> (case snd e of DocumentChanged d \<Rightarrow> has_form env url d | _ \<Rightarrow> True)"

lemma message_keeps [simp]:
  "ct_timers (snd (on_message env m s)) = ct_timers s" "ct_nextTimer (snd (on_message env m s)) = ct_nextTimer s"
  "ct_loginDebounceTimer (snd (on_message env m s)) = ct_loginDebounceTimer s" "ct_location (snd (on_message env m s)) = ct_location s"
  "ct_document (snd (on_message env m s)) = ct_document s" "ct_loginFormEmitted (snd (on_message env m s)) = ct_loginFormEmitted s"
  "ct_sent (snd (on_message env m s)) = ct_sent s"
  by (cases m; auto simp: on_message_def handleReadDom_def handleCredentialResponse_def injectCredentials_def
      split: option.split prod.split sum.split bool.split)+

lemma report_due_event:
  assumes "keeps_form env url (t, ev)" "report_due env url limit s"
  shows "report_due env url limit (on_event env ev s)"
proof -
  have clear: "(i, due, EmitTimer) \<in> set (ct_timers (clear_timer (ct_loginDebounceTimer s) s))"
    if "(i, due, EmitTimer) \<in> set (ct_timers s)" for i due
    using that assms(2) by (force simp: clear_timer_def report_due_def timers_ok_def split: option.split)
  have schedule: "report_due env url limit (scheduleLoginDetection s)"
    using assms(2) clear by (cases "ct_loginDebounceTimer s")
      (fastforce simp: report_due_def timers_ok_def scheduleLoginDetection_def set_timer_def clear_timer_def less_Suc_eq Let_def)+
  have stop: "report_due env url limit (on_invalidated s)"
    using assms(2) clear by (cases "ct_loginDebounceTimer s")
      (fastforce simp: report_due_def timers_ok_def on_invalidated_def stopMutationObserver_def clear_timer_def)+
  have settle: "report_due env url limit (settle_check i v s)" for i v
    using assms(2) by (auto simp: report_due_def settle_check_def after_approval_def set_timer_def timers_ok_def less_Suc_eq Let_def)
  show ?thesis using assms schedule stop settle
    by (cases ev) (simp_all add: keeps_form_def stays_def on_mutations_def, auto simp: report_due_def timers_ok_def)
qed

text \<open>Until the answer the document has a form too.\<close>

definition form_waits :: "content_env \<Rightarrow> string \<Rightarrow> millis \<Rightarrow> content_state \<Rightarrow> bool" where
  "form_waits env url t0 s \<longleftrightarrow> waiting t0 s \<and> ct_location s = url \<and> has_form env url (ct_document s)"

lemma approval_report_due:
  assumes "form_waits env url t0 s" "ct_clock s \<le> t0 + 1500"
  shows "report_due env url (t0 + 3000) (after_approval v (s\<lparr>ct_checks := []\<rparr>))"
proof -
  let ?s = "after_approval v (s\<lparr>ct_checks := []\<rparr>)"
  have "\<exists>i. (i, ct_clock s + 1500, EmitTimer) \<in> set (ct_timers ?s)" by (auto simp: after_approval_def set_timer_def Let_def)
  moreover have "timers_ok ?s" using assms(1) by (auto simp: form_waits_def waiting_def timers_ok_def after_approval_def set_timer_def less_Suc_eq Let_def)
  moreover have "\<not> ct_loginFormEmitted ?s" "ct_location ?s = url" "has_form env url (ct_document ?s)"
    using assms(1) by (simp_all add: form_waits_def waiting_def after_approval_def set_timer_def Let_def)
  ultimately show ?thesis using assms(2) by (force simp: report_due_def)
qed

lemma waits_fire:
  assumes "form_waits env url t0 s" "next_timer (ct_timers s) = Some t"
  shows "form_waits env url t0 (fire env t (take_timer t s)) \<or> report_due env url (t0 + 3000) (fire env t (take_timer t s))"
proof (cases "t = (1, t0 + 1500, ApprovalTimeout)")
  case True
  have s: "ct_checks s = [1]" "timers_ok s" "\<not> ct_loginFormEmitted s" "ct_location s = url" "has_form env url (ct_document s)"
    using assms(1) by (simp_all add: form_waits_def waiting_def)
  let ?s = "fire env t (take_timer t s)"
  have "\<exists>i. (i, t0 + 3000, EmitTimer) \<in> set (ct_timers ?s)" "\<not> ct_loginFormEmitted ?s" "ct_location ?s = url" "has_form env url (ct_document ?s)"
    using s by (auto simp: fire_def True settle_check_def after_approval_def set_timer_def take_timer_def Let_def)
  moreover have "timers_ok ?s"
    using s(1) timers_ok_set [of "(take_timer t s)\<lparr>ct_checks := [], ct_checkedApproval := True, ct_isApprovedDomain := False\<rparr>" 1500 EmitTimer]
      timers_ok_take [OF s(2), of t]
    by (simp add: fire_def True settle_check_def after_approval_def take_timer_def Let_def) (simp add: timers_ok_def)
  ultimately show ?thesis by (force simp: report_due_def)
next
  case False
  then have w: "waiting t0 (fire env t (take_timer t s))" using waiting_fire [of t0 s t env] assms by (simp add: form_waits_def)
  have "snd (snd t) = DebounceTimer \<or> t = (2, t0 + 2000, FallbackTimer)"
    using next_timer_in [OF assms(2)] False assms(1) by (auto simp: form_waits_def waiting_def)
  moreover have "t \<noteq> (2, t0 + 2000, FallbackTimer)" using waiting_fire [of t0 s t env] assms False by (auto simp: form_waits_def)
  ultimately have "fire env t (take_timer t s) = take_timer t s"
    using assms(1) by (cases t) (auto simp: fire_def form_waits_def waiting_def take_timer_def)
  then show ?thesis using w assms(1) by (simp add: form_waits_def take_timer_def)
qed

lemma waits_run:
  assumes "form_waits env url t0 s"
  shows "form_waits env url t0 (run_until env now s) \<or> report_due env url (t0 + 3000) (run_until env now s)"
proof (rule run_until_inv [where P = "\<lambda>s. form_waits env url t0 s \<or> report_due env url (t0 + 3000) s"])
  fix s t assume "form_waits env url t0 s \<or> report_due env url (t0 + 3000) s" "next_timer (ct_timers s) = Some t"
  then show "form_waits env url t0 (fire env t (take_timer t s)) \<or> report_due env url (t0 + 3000) (fire env t (take_timer t s))"
    using waits_fire report_due_fire by blast
next
  fix s :: content_state assume "form_waits env url t0 s \<or> report_due env url (t0 + 3000) s"
  then show "form_waits env url t0 (s\<lparr>ct_clock := now\<rparr>) \<or> report_due env url (t0 + 3000) (s\<lparr>ct_clock := now\<rparr>)"
    by (auto simp: form_waits_def waiting_clock report_due_def timers_ok_def)
qed (simp add: assms)

lemma run_until_clock: "ct_clock (run_until env now s) = now"
proof (induction env now s rule: run_until.induct)
  case (1 env now s)
  then show ?case by (subst run_until.simps) (simp split: option.split)
qed

lemma form_event_waits:
  assumes "form_waits env url t0 s" "keeps_form env url (t, ev)" "ct_clock s < t0 + 1500"
  shows "form_waits env url t0 (on_event env ev s) \<or> report_due env url (t0 + 3000) (on_event env ev s)"
proof (cases "\<exists>i r. ev = ApprovalAnswer i r")
  case True
  then obtain i r where ev: "ev = ApprovalAnswer i r" by blast
  have checks: "ct_checks s = [1]" using assms(1) by (simp add: form_waits_def waiting_def)
  show ?thesis
  proof (cases "i = 1")
    case True
    then show ?thesis using approval_report_due [OF assms(1), of "approved_in r"] assms(3) by (simp add: ev settle_check_def checks)
  next
    case False
    then show ?thesis using assms(1) by (simp add: ev settle_check_def checks)
  qed
next
  case False
  have "waiting t0 (on_event env ev s)" using page_event_kept(2) [of t ev t0 s env] assms(1,2) False by (simp add: keeps_form_def form_waits_def)
  moreover have "ct_location (on_event env ev s) = url \<and> has_form env url (ct_document (on_event env ev s))"
    using assms(1,2) False by (cases ev)
      (auto simp: form_waits_def keeps_form_def stays_def content_defs split: option.split)
  ultimately show ?thesis by (simp add: form_waits_def)
qed

lemma form_exec:
  assumes "form_waits env url t0 s \<or> report_due env url (t0 + 3000) s" "keeps_form env url e"
  shows "form_waits env url t0 (content_exec env e s) \<or> report_due env url (t0 + 3000) (content_exec env e s)"
proof -
  obtain t ev where e: "e = (t, ev)" by (cases e)
  let ?s = "run_until env t s"
  have "form_waits env url t0 ?s \<and> t < t0 + 1500 \<or> report_due env url (t0 + 3000) ?s"
  proof (cases "report_due env url (t0 + 3000) ?s")
    case False
    then have f: "form_waits env url t0 s" "form_waits env url t0 ?s" using assms(1) waits_run report_due_run by blast+
    then have "\<not> decided False ?s" by (simp add: form_waits_def waiting_def decided_def)
    then show ?thesis using waiting_run [of t0 s t env] f by (auto simp: form_waits_def split: if_splits)
  qed simp
  then show ?thesis
    using form_event_waits [of env url t0 ?s t ev] report_due_event [of env url t ev "t0 + 3000" ?s] assms(2)
    by (auto simp: content_exec_def e run_until_clock)
qed

lemma form_fold:
  "form_waits env url t0 s \<or> report_due env url (t0 + 3000) s \<Longrightarrow> list_all (keeps_form env url) es \<Longrightarrow>
     form_waits env url t0 (fold (content_exec env) es s) \<or> report_due env url (t0 + 3000) (fold (content_exec env) es s)"
  by (induction es arbitrary: s) (simp_all add: form_exec)

lemma sent_kept: "list_ex login_report (ct_sent s) \<Longrightarrow> list_ex login_report (ct_sent (on_event env ev s))"
  by (cases ev) (auto simp: content_defs split: option.split)

text \<open>C26: a login form is reported. If the document shows a login form whenever the script looks at it and the script stays on its
  page, then whatever else happens, and whether or not the background answers, three seconds after its start the script has reported a form.\<close>

theorem login_form_reported:
  assumes "s = fold (content_exec env) (es @ [(t, ev)]) (content_main env (fresh_content t0 url doc stored))"
    "list_all (keeps_form env url) (es @ [(t, ev)])" "has_form env url doc" "t0 + 3000 \<le> t"
  shows "list_ex login_report (ct_sent s)"
proof -
  let ?a = "fold (content_exec env) es (content_main env (fresh_content t0 url doc stored))" and ?s0 = "content_main env (fresh_content t0 url doc stored)"
  have "form_waits env url t0 ?s0"
    using main_waiting [of t0 env url doc stored] assms(3)
    by (simp add: form_waits_def content_main_def fresh_content_def checkDynamicApproval_def set_timer_def send_message_def startMutationObserver_def Let_def)
  then have "form_waits env url t0 ?a \<or> report_due env url (t0 + 3000) ?a" using form_fold [of env url t0 ?s0 es] assms(2) by simp
  then have due: "report_due env url (t0 + 3000) (run_until env t ?a)"
  proof
    assume w: "form_waits env url t0 ?a"
    then have "\<not> waiting t0 (run_until env t ?a)"
      using run_until_done [of "(1, t0 + 1500, ApprovalTimeout)" env t ?a] assms(4) by (auto simp: waiting_def)
    then show ?thesis using waits_run [OF w, of t] by (auto simp: form_waits_def)
  qed (rule report_due_run)
  have "ct_loginFormEmitted (run_until env t ?a)"
    using due run_until_done [of _ env t ?a] assms(4) by (force simp: report_due_def)
  then have "list_ex login_report (ct_sent (run_until env t ?a))" using due by (simp add: report_due_def)
  then show ?thesis using sent_kept by (simp add: assms(1) content_exec_def)
qed

theorem login_form_reported_witness:
  "list_ex login_report (ct_sent (fold (content_exec plain_env) ([] @ [(3000, CacheLoaded)]) sample_start))"
proof -
  have "has_form plain_env ''https://www.lhv.ee/'' sample_now"
    by (simp add: has_form_def detectLoginForm_def first_some_def passwordSelectors_def sample_now_def sample_login_def username_field_def)
  then show ?thesis
    by (intro login_form_reported [OF refl, where t = 3000 and url = "''https://www.lhv.ee/''"]) (simp_all add: keeps_form_def stays_def)
qed

text \<open>A form can be reported twice: the timer that a change of the document sets does not ask whether the form has been reported.\<close>

lemma form_reported_twice:
  "length (filter login_report (ct_sent (fold (content_exec plain_env)
     [(10, ApprovalAnswer 1 sample_approved), (1400, Mutations [[(True, True)]]), (1950, CacheLoaded)] sample_start))) = 2"
  by code_simp

section \<open>The site that is asked about and the site that is approved\<close>

lemma approved_check: "approved_in (Inr (Some (check_domain_approved d c))) = isDomainApproved d c"
  by (simp add: approved_in_def check_domain_approved_def ok_response_def)

lemma approving_other:
  assumes "d \<noteq> host"
  shows "isDomainApproved d (snd (domain_approved sha256 regErr now host c)) = isDomainApproved d c"
  using assms
  by (auto simp: domain_approved_def registerForDomain_def register_script_def isDomainApproved_def getApprovedDomains_def setApprovedDomains_def
      removePendingDomain_def updateBadgeCount_def setPendingDomains_def Let_def split: option.split prod.split if_split)

text \<open>the script asks about one site and the user is asked about another. On a host that is not itself the registrable domain,
  the form that the script finds names the host, and it is the host that the user approves; the script asks about the
  registrable domain, so that the approval leaves the answer it gets, and hence every report of the page, as they were.\<close>

theorem approving_host_changes_nothing:
  assumes "detectLoginForm (ce_css env) (hostname_of env url) url (dn_login doc) = Some f" "registrable_of env url \<noteq> hostname_of env url"
  shows "AskApproved (registrable_of env url) \<in> set (ct_sent (content_main env (fresh_content t0 url doc stored)))
    \<and> \<not> (\<exists>d. d \<noteq> registrable_of env url \<and> AskApproved d \<in> set (ct_sent (content_main env (fresh_content t0 url doc stored))))
    \<and> approved_in (Inr (Some (check_domain_approved (registrable_of env url) (snd (domain_approved sha256 regErr now (lf_domain f) c)))))
        = approved_in (Inr (Some (check_domain_approved (registrable_of env url) c)))"
proof -
  have f: "lf_domain f = hostname_of env url" using assms(1) by (auto simp: detectLoginForm_def split: option.splits)
  show ?thesis
    using approving_other [of "registrable_of env url" "hostname_of env url" sha256 regErr now c] assms(2)
    by (auto simp: approved_check f content_main_def fresh_content_def checkDynamicApproval_def set_timer_def send_message_def
        startMutationObserver_def Let_def)
qed

theorem approving_host_changes_nothing_witness:
  "\<not> approved_in (Inr (Some (check_domain_approved ''lhv.ee'' (snd (domain_approved id (\<lambda>_ _. None) 1 ''www.lhv.ee'' new_csm)))))"
proof -
  have r: "registrable_of plain_env ''https://www.lhv.ee/'' = ''lhv.ee''" "hostname_of plain_env ''https://www.lhv.ee/'' = ''www.lhv.ee''" by code_simp+
  obtain f where f: "detectLoginForm (ce_css plain_env) (hostname_of plain_env ''https://www.lhv.ee/'') ''https://www.lhv.ee/'' (dn_login sample_now) = Some f"
    "lf_domain f = ''www.lhv.ee''"
    by (simp add: detectLoginForm_def first_some_def passwordSelectors_def sample_now_def sample_login_def username_field_def r)
  have "\<not> approved_in (Inr (Some (check_domain_approved ''lhv.ee'' new_csm)))" by code_simp
  then show ?thesis
    using approving_host_changes_nothing [OF f(1), of 0 None id "\<lambda>_ _. None" 1 new_csm] by (simp add: r f(2))
qed

end
