(* ===== verification/Popup.thy ===== *)
theory Popup
  imports AuthPage PiiFilter
begin

text \<open>
  The popup, \<open>entrypoints/popup\<close>, with the store its panels share, \<open>lib/store.ts\<close>. A state has the store, the local state of
  the panel that is mounted, the requests that wait for an answer, each with what its continuation remembers, and the messages sent. An
  event is a click on a button that is shown, an answer, or a timer; after each, the effects of the panels whose dependencies
  changed run, as React runs them. Which of the answers that are due comes first is open, and so is when a timer fires.
\<close>

section \<open>The store\<close>

datatype pairing_state = Unpaired | DisplayingQr | WaitingForHandshake | AwaitingSasConfirmation | PairedPhone | PairingFailed
datatype session_state = NoSession | ActiveSession | ExpiringSession | ExpiredSession
datatype transaction_state = TxIdle | TxVerifying | TxConfirmed | TxRejected
datatype credential_state = CredIdle | CredDetecting | CredRequesting | CredWaitingPhone | CredFilling | CredFilled | CredNotFound | CredError
datatype assertion_status = AsIdle | AsPending | AsVerified | AsError | AsTimeout
datatype sas_mode = EmojiMode | NumericMode

record transaction_data =
  td_amount :: "string option"
  td_recipient :: "string option"
  td_origin :: "string option"
  td_controlCode :: "string option"

record store_tab =
  tb_domain :: string
  tb_registrableDomain :: string
  tb_url :: string
  tb_isPublic :: bool

text \<open>A value that the code takes from an answer without looking at it is a JSON value here.\<close>

record app_store =
  po_currentTab :: "store_tab option"
  po_apiHealthy :: "bool option"
  po_apiStatus :: string
  po_apiError :: "string option"
  po_lastSent :: "millis option"
  po_pairingState :: pairing_state
  po_pairingError :: "string option"
  po_sasCode :: "string option"
  po_deviceName :: "string option"
  po_sasMode :: sas_mode
  po_emojiSas :: "json option"
  po_sessionState :: session_state
  po_sessionExpiry :: "millis option"
  po_sessionRemaining :: "int option"
  po_transactionState :: transaction_state
  po_transactionData :: transaction_data
  po_connectionState :: json
  po_credentialState :: credential_state
  po_credentialDomain :: "string option"
  po_credentialStatus :: "string option"
  po_activeTransport :: "json option"
  po_usbAvailable :: json
  po_transportChangeMessage :: "string option"
  po_attestation :: json
  po_assertionStatus :: assertion_status
  po_assertionError :: "string option"
  po_pendingDomains :: "json list"
  po_approvedDomains :: "json list"
  po_showSettings :: bool
  po_showDevices :: bool
  po_phase :: string

definition no_transaction :: transaction_data where
  "no_transaction = \<lparr>td_amount = None, td_recipient = None, td_origin = None, td_controlCode = None\<rparr>"

definition useAppStore :: app_store where
  "useAppStore =
     \<lparr>po_currentTab = None, po_apiHealthy = None, po_apiStatus = ''idle'', po_apiError = None, po_lastSent = None,
      po_pairingState = Unpaired, po_pairingError = None, po_sasCode = None, po_deviceName = None, po_sasMode = EmojiMode, po_emojiSas = None,
      po_sessionState = NoSession, po_sessionExpiry = None, po_sessionRemaining = None,
      po_transactionState = TxIdle, po_transactionData = no_transaction, po_connectionState = JStr ''disconnected'',
      po_credentialState = CredIdle, po_credentialDomain = None, po_credentialStatus = None,
      po_activeTransport = None, po_usbAvailable = JBool False, po_transportChangeMessage = None,
      po_attestation = JObj [(''type'', JStr ''not_applicable'')], po_assertionStatus = AsIdle, po_assertionError = None,
      po_pendingDomains = [], po_approvedDomains = [], po_showSettings = False, po_showDevices = False, po_phase = ''phase1''\<rparr>"

text \<open>\<open>initPhase\<close> and \<open>setPhase\<close>, over the stored phase.\<close>

definition initPhase :: "string option \<Rightarrow> app_store \<Rightarrow> app_store" where
  "initPhase stored st = st\<lparr>po_phase := getMigrationPhase stored\<rparr>"

definition setPhase :: "string \<Rightarrow> string option \<times> app_store \<Rightarrow> string option \<times> app_store" where
  "setPhase p s = (Some p, (snd s)\<lparr>po_phase := p\<rparr>)"

text \<open>The event \<open>wxt:store-update\<close>: each part that is present is set.\<close>

record store_update =
  su_pairingState :: "pairing_state option"
  su_sessionState :: "session_state option"
  su_transactionState :: "transaction_state option"
  su_transactionData :: "transaction_data option"
  su_credentialState :: "credential_state option"
  su_credentialDomain :: "string option"

definition apply_update :: "store_update \<Rightarrow> app_store \<Rightarrow> app_store" where
  "apply_update u st =
     st\<lparr>po_pairingState := nullish (su_pairingState u) (po_pairingState st), po_sessionState := nullish (su_sessionState u) (po_sessionState st),
        po_transactionState := nullish (su_transactionState u) (po_transactionState st),
        po_transactionData := nullish (su_transactionData u) (po_transactionData st),
        po_credentialState := nullish (su_credentialState u) (po_credentialState st),
        po_credentialDomain := (if truthy_text (su_credentialDomain u) then su_credentialDomain u else po_credentialDomain st)\<rparr>"

section \<open>Which panel is shown\<close>

datatype panel = PairingPanel | CredentialPanel | TransactionPanel | AuthPanel | LoadingPanel
datatype popup_view = SettingsView | DevicesView | MainView panel

definition PanelRouter :: "app_store \<Rightarrow> panel" where
  "PanelRouter st =
     (if List.member [Unpaired, DisplayingQr, WaitingForHandshake, PairingFailed] (po_pairingState st) then PairingPanel
      else if po_pairingState st = PairedPhone then
       (if po_credentialState st \<noteq> CredIdle then CredentialPanel
        else if po_sessionState st = ActiveSession \<or> po_sessionState st = ExpiringSession then TransactionPanel
        else AuthPanel)
      else LoadingPanel)"

definition PopupApp :: "app_store \<Rightarrow> popup_view" where
  "PopupApp st = (if po_showSettings st then SettingsView else if po_showDevices st then DevicesView else MainView (PanelRouter st))"

section \<open>State\<close>

text \<open>What a continuation remembers. The first component is the instance or the effect run it belongs to, where it asks for it or
  writes local state.\<close>

datatype popup_request =
    StartPairingAnswer nat string
  | PollAnswer nat
  | ConfirmAnswer
  | RejectAnswer nat
  | CheckSessionAnswer nat
  | ReadResultAnswer nat
  | RemoveResultAnswer "string option" "string option"
  | BeginAnswer
  | OpenTabAnswer nat
  | VerifyAnswer nat
  | PendingDomainsAnswer
  | AllowAnswer nat string "json list"
  | DenyAnswer nat string "json list"
  | ApprovedDomainsAnswer nat
  | RevokeDomainAnswer nat string "json list"
  | DevicesAnswer nat
  | SwitchAnswer nat string
  | RevokeDeviceAnswer nat string
  | AttestationAnswer
  | RefreshKeysAnswer nat
  | RefetchAnswer nat

record popup =
  pu_store :: app_store
  pu_requests :: "(nat \<times> popup_request) list"
  pu_sent :: "bg_message list"
  pu_next :: nat
  pu_drawn :: "string list"
  pu_authTabs :: nat
  pu_closed :: bool
  pu_panel :: "nat option"
  pu_settings :: "nat option"
  pu_devices :: "nat option"
  pu_main :: "nat option"
  pn_generatedAt :: millis
  pn_nonce :: "bytes option"
  pn_url :: "string option"
  pn_run :: "nat option"
  au_checking :: bool
  au_error :: "string option"
  au_poll :: "nat option"
  tp_error :: "string option"
  sn_remaining :: int
  cp_timer :: bool
  dp_error :: "string option"
  se_loading :: bool
  se_error :: "string option"
  dl_devices :: "json list"
  dl_loading :: bool
  dl_error :: "string option"
  dl_switching :: "string option"
  dl_confirmRevoke :: "string option"
  dl_revoking :: "string option"
  ak_refreshing :: bool
  ak_result :: "string option"
  ak_success :: "bool option"

text \<open>What an event meets: the time, the random code and nonce, the preferences of the user, the hash.\<close>

record popup_env =
  pe_now :: millis
  pe_code :: string
  pe_nonce :: bytes
  pe_userAgent :: string
  pe_screenReaderActive :: bool
  pe_reducedMotion :: bool
  pe_toWellFormed :: bool
  pe_sha256 :: "bytes \<Rightarrow> bytes"

definition upd :: "(app_store \<Rightarrow> app_store) \<Rightarrow> popup \<Rightarrow> popup" where
  "upd f s = s\<lparr>pu_store := f (pu_store s)\<rparr>"

definition ask :: "bg_message \<Rightarrow> popup_request \<Rightarrow> popup \<Rightarrow> popup" where
  "ask m k s = s\<lparr>pu_sent := pu_sent s @ [m], pu_requests := pu_requests s @ [(pu_next s, k)], pu_next := Suc (pu_next s)\<rparr>"

text \<open>A call of the browser that is no message.\<close>

definition await :: "popup_request \<Rightarrow> popup \<Rightarrow> popup" where
  "await k s = s\<lparr>pu_requests := pu_requests s @ [(pu_next s, k)], pu_next := Suc (pu_next s)\<rparr>"

text \<open>\<open>sendMessage\<close>: a left value is a rejection with the message of its error, \<open>None\<close> is undefined. \<open>response.success\<close> throws on undefined, \<open>response?.success\<close> does not.\<close>

type_synonym reply = "string + message_response option"

definition strict :: "reply \<Rightarrow> string + message_response" where
  "strict r = (case r of Inl e \<Rightarrow> Inl e | Inr None \<Rightarrow> Inl ''Cannot read properties of undefined (reading 'success')'' | Inr (Some m) \<Rightarrow> Inr m)"

definition data_of :: "message_response \<Rightarrow> string \<Rightarrow> json option" where
  "data_of m k = (case mr_data m of Some d \<Rightarrow> jget d k | None \<Rightarrow> None)"

section \<open>The pairing panel\<close>

definition screen_reader_re :: "char re" where
  "screen_reader_re = alts [cats [exactly_ci ''Screen'', opt_re (exactly '' ''), exactly_ci ''Reader''], exactly_ci ''NVDA'', exactly_ci ''JAWS'',
     cats [exactly_ci ''Voice'', opt_re (exactly '' ''), exactly_ci ''Over'']]"

text \<open>Screen reader, reduced motion, and emoji that cannot be shown; the last is not read anywhere.\<close>

definition detectAccessibilityPrefs :: "popup_env \<Rightarrow> bool \<times> bool \<times> bool" where
  "detectAccessibilityPrefs env =
     (re_test screen_reader_re (pe_userAgent env) \<or> pe_screenReaderActive env, pe_reducedMotion env, \<not> pe_toWellFormed env)"

definition startPairing_click :: "popup_env \<Rightarrow> popup \<Rightarrow> popup" where
  "startPairing_click env s =
     (let (screenReader, reducedMotion, _) = detectAccessibilityPrefs env;
          s1 = upd (\<lambda>st. st\<lparr>po_pairingState := DisplayingQr, po_pairingError := None,
                 po_sasMode := (if screenReader \<or> reducedMotion then NumericMode else EmojiMode), po_sasCode := Some (pe_code env)\<rparr>) s;
          s2 = s1\<lparr>pn_nonce := Some (pe_nonce env), pn_generatedAt := pe_now env\<rparr>
      in ask (StartPairing (pe_code env) (Some (Array_from (pe_nonce env)))) (StartPairingAnswer (the (pu_panel s)) (pe_code env)) s2)"

definition pairing_failed :: "string \<Rightarrow> popup \<Rightarrow> popup" where
  "pairing_failed e = upd (\<lambda>st. st\<lparr>po_pairingState := PairingFailed, po_pairingError := Some e\<rparr>)"

text \<open>The answer comes with the extension's public key. The nonce is the one the panel holds then; the digest is taken at once.\<close>

definition startPairing_answer ::
  "popup_env \<Rightarrow> nat \<Rightarrow> string \<Rightarrow> string + (message_response \<times> numbers option) option \<Rightarrow> popup \<Rightarrow> popup" where
  "startPairing_answer env inst code r s =
     (case r of
        Inl e \<Rightarrow> pairing_failed e s
      | Inr None \<Rightarrow> pairing_failed ''Cannot read properties of undefined (reading 'success')'' s
      | Inr (Some (m, pkBytes)) \<Rightarrow>
          if \<not> mr_success m then pairing_failed (nullish (mr_error m) ''Pairing initiation failed'') s
          else if pu_panel s \<noteq> Some inst then s
          else
           (case (pkBytes, pn_nonce s) of
              (Some pk, Some nonce) \<Rightarrow>
                s\<lparr>pn_url := Some (buildPairingUrl code (Some nonce) (Some (computeCommitment (pe_sha256 env) (new_Uint8Array pk) nonce code)))\<rparr>
            | _ \<Rightarrow> s))"

definition reset_pairing :: "popup \<Rightarrow> popup" where
  "reset_pairing s =
     (upd (\<lambda>st. st\<lparr>po_pairingState := Unpaired, po_pairingError := None, po_sasCode := None, po_deviceName := None, po_emojiSas := None\<rparr>) s)
       \<lparr>pn_url := None, pn_generatedAt := 0\<rparr>"

definition handleReset :: "popup \<Rightarrow> popup" where
  "handleReset s = reset_pairing s"

definition poll_fires :: "popup \<Rightarrow> popup" where
  "poll_fires s = (case pn_run s of None \<Rightarrow> s | Some run \<Rightarrow> ask CheckSession (PollAnswer run) s)"

definition poll_answer :: "nat \<Rightarrow> reply \<Rightarrow> popup \<Rightarrow> popup" where
  "poll_answer run r s =
     (case r of
        Inr (Some m) \<Rightarrow>
          if pn_run s \<noteq> Some run \<or> \<not> mr_success m then s
          else if truthy (data_of m ''paired'') then
            (upd (\<lambda>st. st\<lparr>po_pairingState := PairedPhone, po_deviceName := Some (nullish (jstr (data_of m ''deviceName'')) ''Paired device'')\<rparr>) s)
              \<lparr>pn_run := None\<rparr>
          else if truthy (data_of m ''emojiSas'') then
            (upd (\<lambda>st. st\<lparr>po_emojiSas := data_of m ''emojiSas'', po_pairingState := AwaitingSasConfirmation\<rparr>) s)\<lparr>pn_run := None\<rparr>
          else if truthy (data_of m ''connectionState'') then upd (\<lambda>st. st\<lparr>po_connectionState := the (data_of m ''connectionState'')\<rparr>) s
          else s
      | _ \<Rightarrow> s)"

definition qr_expires :: "popup \<Rightarrow> popup" where
  "qr_expires s = (if pn_run s = None then s else pairing_failed ''QR code expired. Please try again.'' s)"

definition handleConfirmMatch :: "popup \<Rightarrow> popup" where
  "handleConfirmMatch s = ask PairingConfirmed ConfirmAnswer s"

definition confirm_answer :: "reply \<Rightarrow> popup \<Rightarrow> popup" where
  "confirm_answer r s =
     (case strict r of
        Inl e \<Rightarrow> pairing_failed e s
      | Inr m \<Rightarrow>
          if mr_success m then upd (\<lambda>st. st\<lparr>po_pairingState := PairedPhone, po_deviceName := Some ''Paired device''\<rparr>) s
          else pairing_failed (nullish (mr_error m) ''Confirmation failed'') s)"

definition handleRejectMatch :: "popup \<Rightarrow> popup" where
  "handleRejectMatch s = ask PairingRejected (RejectAnswer (the (pu_panel s))) s"

text \<open>The answer is not looked at; a panel that is gone has no local state to reset.\<close>

definition reject_answer :: "nat \<Rightarrow> popup \<Rightarrow> popup" where
  "reject_answer inst s =
     (let s1 = reset_pairing s in if pu_panel s = Some inst then s1 else s\<lparr>pu_store := pu_store s1\<rparr>)"

definition handleToggleSasMode :: "popup \<Rightarrow> popup" where
  "handleToggleSasMode = upd (\<lambda>st. st\<lparr>po_sasMode := (if po_sasMode st = EmojiMode then NumericMode else EmojiMode)\<rparr>)"

definition unable_to_connect :: "millis \<Rightarrow> popup \<Rightarrow> bool" where
  "unable_to_connect now s \<longleftrightarrow>
     po_connectionState (pu_store s) = JStr ''disconnected'' \<and> pn_generatedAt s > 0 \<and> now - pn_generatedAt s > 15000"

text \<open>The panel's effect: the code is drawn if the canvas is shown; the polling and the expiry start anew.\<close>

definition pairing_effect :: "millis \<Rightarrow> popup \<Rightarrow> popup" where
  "pairing_effect now s =
     (if po_pairingState (pu_store s) = DisplayingQr then
       (let url = nullish (pn_url s) (buildPairingUrl (nullish (po_sasCode (pu_store s)) []) None None)
        in s\<lparr>pu_drawn := (if truthy_text (po_sasCode (pu_store s)) \<and> \<not> unable_to_connect now s then pu_drawn s @ [url] else pu_drawn s),
             pn_run := Some (pu_next s), pu_next := Suc (pu_next s)\<rparr>)
      else s\<lparr>pn_run := None\<rparr>)"

section \<open>The authentication panel\<close>

definition checkSession_answer :: "millis \<Rightarrow> nat \<Rightarrow> reply \<Rightarrow> popup \<Rightarrow> popup" where
  "checkSession_answer now inst r s =
     (if pu_panel s \<noteq> Some inst then s
      else
       (case strict r of
          Inl _ \<Rightarrow> (upd (\<lambda>st. st\<lparr>po_sessionState := NoSession\<rparr>) s)\<lparr>au_checking := False\<rparr>
        | Inr m \<Rightarrow>
            (if mr_success m \<and> truthy (data_of m ''active'') then
              (let expiryMs = nullish (jnum (data_of m ''expiry'')) (now + 300000)
               in upd (\<lambda>st. st\<lparr>po_sessionState := ActiveSession, po_sessionExpiry := Some expiryMs,
                    po_sessionRemaining := Some (max 0 ((expiryMs - now) div 1000))\<rparr>) s)
             else s)\<lparr>au_checking := False\<rparr>))"

definition assertion_poll_fires :: "popup \<Rightarrow> popup" where
  "assertion_poll_fires s = (case au_poll s of None \<Rightarrow> s | Some run \<Rightarrow> await (ReadResultAnswer run) s)"

definition readResult_answer :: "nat \<Rightarrow> (string \<times> string option) option \<Rightarrow> popup \<Rightarrow> popup" where
  "readResult_answer run stored s =
     (if au_poll s \<noteq> Some run then s
      else
       (case stored of
          None \<Rightarrow> s
        | Some (word, err) \<Rightarrow>
            if word = ''verified'' then upd (\<lambda>st. st\<lparr>po_assertionStatus := AsVerified\<rparr>) s
            else if word = ''error'' then
              upd (\<lambda>st. st\<lparr>po_assertionStatus := AsError, po_assertionError := Some (nullish err ''Verification failed'')\<rparr>) s
            else if word = ''cancelled'' then upd (\<lambda>st. st\<lparr>po_assertionStatus := AsIdle\<rparr>) s
            else s))"

definition has_context :: "transaction_data \<Rightarrow> bool" where
  "has_context d \<longleftrightarrow> td_amount d \<noteq> None \<or> td_recipient d \<noteq> None"

definition handleAuthenticate_click :: "popup \<Rightarrow> popup" where
  "handleAuthenticate_click s =
     (let d = po_transactionData (pu_store s) in
      if has_context d then
        await (RemoveResultAnswer (td_amount d) (td_recipient d)) (upd (\<lambda>st. st\<lparr>po_assertionStatus := AsPending, po_assertionError := None\<rparr>) s)
      else await (OpenTabAnswer (the (pu_panel s))) s)"

definition assertion_failed :: "string \<Rightarrow> popup \<Rightarrow> popup" where
  "assertion_failed e = upd (\<lambda>st. st\<lparr>po_assertionStatus := AsError, po_assertionError := Some e\<rparr>)"

definition removeResult_answer :: "string option \<Rightarrow> string option \<Rightarrow> string option \<Rightarrow> popup \<Rightarrow> popup" where
  "removeResult_answer amount recipient err s =
     (case err of Some e \<Rightarrow> assertion_failed e s | None \<Rightarrow> ask (BeginChallengeAssertion amount recipient) BeginAnswer s)"

definition begin_answer :: "reply \<Rightarrow> popup \<Rightarrow> popup" where
  "begin_answer r s =
     (case strict r of
        Inl e \<Rightarrow> assertion_failed e s
      | Inr m \<Rightarrow>
          if mr_success m \<and> truthy (mr_data m) then
            (if truthy (data_of m ''origin'') \<or> truthy (data_of m ''controlCode'') then
               upd (\<lambda>st. st\<lparr>po_transactionData := (po_transactionData st)\<lparr>td_origin := jstr (data_of m ''origin''),
                 td_controlCode := jstr (data_of m ''controlCode'')\<rparr>\<rparr>) s
             else s)
          else assertion_failed (nullish (mr_error m) ''Failed to start assertion'') s)"

definition openTab_answer :: "nat \<Rightarrow> string option \<Rightarrow> popup \<Rightarrow> popup" where
  "openTab_answer inst err s =
     (case err of
        None \<Rightarrow> s\<lparr>pu_authTabs := Suc (pu_authTabs s), pu_closed := True\<rparr>
      | Some e \<Rightarrow> if pu_panel s = Some inst then s\<lparr>au_error := Some e\<rparr> else s)"

definition handleReauth :: "popup \<Rightarrow> popup" where
  "handleReauth s =
     (upd (\<lambda>st. st\<lparr>po_sessionState := NoSession, po_sessionExpiry := None, po_sessionRemaining := None, po_assertionStatus := AsIdle,
        po_assertionError := None\<rparr>) s)\<lparr>au_error := None\<rparr>"

section \<open>The countdown of the session\<close>

definition session_tick :: "millis \<Rightarrow> millis \<Rightarrow> popup \<Rightarrow> popup" where
  "session_tick now expiryMs s =
     (let rem = max 0 ((expiryMs - now) div 1000);
          s1 = (upd (\<lambda>st. st\<lparr>po_sessionRemaining := Some rem\<rparr>) s)\<lparr>sn_remaining := rem\<rparr>
      in if rem \<le> 0 then upd (\<lambda>st. st\<lparr>po_sessionState := ExpiredSession\<rparr>) s1
         else if rem \<le> 30 \<and> po_sessionState (pu_store s) = ActiveSession then upd (\<lambda>st. st\<lparr>po_sessionState := ExpiringSession\<rparr>) s1
         else s1)"

definition pad2 :: "string \<Rightarrow> string" where
  "pad2 t = replicate (2 - length t) (CHR ''0'') @ t"

definition timeDisplay :: "nat \<Rightarrow> string" where
  "timeDisplay remaining = show_nat (remaining div 60) @ '':'' @ pad2 (show_nat (remaining mod 60))"

definition session_reauth :: "popup \<Rightarrow> popup" where
  "session_reauth = upd (\<lambda>st. st\<lparr>po_sessionState := NoSession, po_sessionRemaining := None\<rparr>)"

text \<open>Where the countdown is shown. An expiry of 0 is falsy.\<close>

definition countdown :: "popup \<Rightarrow> millis option" where
  "countdown s =
     (let st = pu_store s; expiryMs = (case po_sessionExpiry st of Some e \<Rightarrow> if e = 0 then None else Some e | None \<Rightarrow> None) in
      case PopupApp st of
        MainView AuthPanel \<Rightarrow> if \<not> au_checking s \<and> po_sessionState st = ExpiredSession then expiryMs else None
      | MainView TransactionPanel \<Rightarrow> if po_transactionState st = TxConfirmed \<or> po_transactionState st = TxRejected then None else expiryMs
      | _ \<Rightarrow> None)"

section \<open>The other panels\<close>

definition handleVerify_click :: "popup \<Rightarrow> popup" where
  "handleVerify_click s =
     (let d = po_transactionData (pu_store s)
      in ask (VerifyTransaction (td_amount d) (td_recipient d)) (VerifyAnswer (the (pu_panel s)))
           ((upd (\<lambda>st. st\<lparr>po_transactionState := TxVerifying\<rparr>) s)\<lparr>tp_error := None\<rparr>))"

definition tx_rejected :: "nat \<Rightarrow> string \<Rightarrow> popup \<Rightarrow> popup" where
  "tx_rejected inst e s =
     (let s1 = upd (\<lambda>st. st\<lparr>po_transactionState := TxRejected\<rparr>) s in if pu_panel s = Some inst then s1\<lparr>tp_error := Some e\<rparr> else s1)"

definition verify_answer :: "nat \<Rightarrow> reply \<Rightarrow> popup \<Rightarrow> popup" where
  "verify_answer inst r s =
     (case strict r of
        Inl e \<Rightarrow> tx_rejected inst e s
      | Inr m \<Rightarrow>
          if mr_success m then
            (if data_of m ''verdict'' = Some (JStr ''confirmed'') then upd (\<lambda>st. st\<lparr>po_transactionState := TxConfirmed\<rparr>) s
             else if data_of m ''verdict'' = Some (JStr ''rejected'') then upd (\<lambda>st. st\<lparr>po_transactionState := TxRejected\<rparr>) s
             else s)
          else tx_rejected inst (nullish (mr_error m) ''Verification failed'') s)"

definition handleNewTransaction :: "popup \<Rightarrow> popup" where
  "handleNewTransaction s = (upd (\<lambda>st. st\<lparr>po_transactionState := TxIdle\<rparr>) s)\<lparr>tp_error := None\<rparr>"

definition credential_timer_fires :: "popup \<Rightarrow> popup" where
  "credential_timer_fires s =
     (if cp_timer s
      then (upd (\<lambda>st. st\<lparr>po_credentialState := CredIdle, po_credentialDomain := None, po_credentialStatus := None\<rparr>) s)\<lparr>cp_timer := False\<rparr>
      else s)"

definition other_domain :: "string \<Rightarrow> json \<Rightarrow> bool" where
  "other_domain domain d \<longleftrightarrow> jget d ''domain'' \<noteq> Some (JStr domain)"

definition lost_worker :: string where "lost_worker = ''Failed to connect to background worker''"

definition pendingDomains_answer :: "reply \<Rightarrow> popup \<Rightarrow> popup" where
  "pendingDomains_answer r s =
     (case r of
        Inl _ \<Rightarrow> upd (\<lambda>st. st\<lparr>po_pendingDomains := []\<rparr>) s
      | Inr (Some m) \<Rightarrow>
          if mr_success m \<and> truthy (mr_data m) then upd (\<lambda>st. st\<lparr>po_pendingDomains := nullish (jarr (data_of m ''pending'')) []\<rparr>) s else s
      | Inr None \<Rightarrow> s)"

definition handleAllow :: "string \<Rightarrow> popup \<Rightarrow> popup" where
  "handleAllow domain s = ask (DomainApproved domain) (AllowAnswer (the (pu_main s)) domain (po_pendingDomains (pu_store s))) s"

definition handleDeny :: "string \<Rightarrow> popup \<Rightarrow> popup" where
  "handleDeny domain s = ask (DomainDenied domain) (DenyAnswer (the (pu_main s)) domain (po_pendingDomains (pu_store s))) s"

definition prompt_error :: "nat \<Rightarrow> string option \<Rightarrow> popup \<Rightarrow> popup" where
  "prompt_error inst e s = (if pu_main s = Some inst then s\<lparr>dp_error := e\<rparr> else s)"

definition replied_ok :: "reply \<Rightarrow> bool" where
  "replied_ok r \<longleftrightarrow> (case r of Inr (Some m) \<Rightarrow> mr_success m | _ \<Rightarrow> False)"

definition reply_error :: "reply \<Rightarrow> string \<Rightarrow> string" where
  "reply_error r dflt = (case r of Inl _ \<Rightarrow> lost_worker | Inr (Some m) \<Rightarrow> nullish (mr_error m) dflt | Inr None \<Rightarrow> dflt)"

definition allow_answer :: "nat \<Rightarrow> string \<Rightarrow> json list \<Rightarrow> reply \<Rightarrow> popup \<Rightarrow> popup" where
  "allow_answer inst domain pending r s =
     (if replied_ok r then prompt_error inst None (upd (\<lambda>st. st\<lparr>po_pendingDomains := filter (other_domain domain) pending\<rparr>) s)
      else prompt_error inst (Some (reply_error r ''Failed to approve domain'')) s)"

definition deny_answer :: "nat \<Rightarrow> string \<Rightarrow> json list \<Rightarrow> reply \<Rightarrow> popup \<Rightarrow> popup" where
  "deny_answer inst domain pending r s =
     (if replied_ok r then prompt_error inst None (upd (\<lambda>st. st\<lparr>po_pendingDomains := filter (other_domain domain) pending\<rparr>) s)
      else prompt_error inst (case r of Inl _ \<Rightarrow> Some lost_worker | _ \<Rightarrow> None) s)"

definition approvedDomains_answer :: "nat \<Rightarrow> reply \<Rightarrow> popup \<Rightarrow> popup" where
  "approvedDomains_answer inst r s =
     (if pu_settings s \<noteq> Some inst then s
      else
       (case strict r of
          Inl _ \<Rightarrow> s\<lparr>se_error := Some lost_worker, se_loading := False\<rparr>
        | Inr m \<Rightarrow>
            if mr_success m then
              (case mr_data m of
                 None \<Rightarrow> s\<lparr>se_error := Some lost_worker, se_loading := False\<rparr>
               | Some _ \<Rightarrow> (upd (\<lambda>st. st\<lparr>po_approvedDomains := nullish (jarr (data_of m ''domains'')) []\<rparr>) s)\<lparr>se_loading := False\<rparr>)
            else s\<lparr>se_error := Some (nullish (mr_error m) ''Failed to load domains''), se_loading := False\<rparr>))"

definition settings_revoke :: "string \<Rightarrow> popup \<Rightarrow> popup" where
  "settings_revoke domain s = ask (DomainDenied domain) (RevokeDomainAnswer (the (pu_settings s)) domain (po_approvedDomains (pu_store s))) s"

definition revokeDomain_answer :: "nat \<Rightarrow> string \<Rightarrow> json list \<Rightarrow> reply \<Rightarrow> popup \<Rightarrow> popup" where
  "revokeDomain_answer inst domain approved r s =
     (if replied_ok r then upd (\<lambda>st. st\<lparr>po_approvedDomains := filter (other_domain domain) approved\<rparr>) s
      else if pu_settings s = Some inst then s\<lparr>se_error := Some (reply_error r ''Failed to revoke domain'')\<rparr> else s)"

definition loadDevices_answer :: "nat \<Rightarrow> reply \<Rightarrow> popup \<Rightarrow> popup" where
  "loadDevices_answer inst r s =
     (if pu_devices s \<noteq> Some inst then s
      else
       (let loaded = (case r of Inr (Some m) \<Rightarrow> if mr_success m \<and> truthy (data_of m ''devices'') then Some (nullish (jarr (data_of m ''devices'')) []) else None
                      | _ \<Rightarrow> None)
        in (case loaded of
              Some ds \<Rightarrow> s\<lparr>dl_devices := ds\<rparr>
            | None \<Rightarrow> s\<lparr>dl_error := Some (reply_error r ''Failed to load devices'')\<rparr>)\<lparr>dl_loading := False\<rparr>))"

fun set_prop :: "string \<Rightarrow> json \<Rightarrow> json \<Rightarrow> json" where
  "set_prop k v (JObj ps) = JObj (jsmap_set k v ps)"
| "set_prop k v j = j"

definition mark_active :: "string \<Rightarrow> json \<Rightarrow> json" where
  "mark_active devId d = set_prop ''isActive'' (JBool (jget d ''deviceId'' = Some (JStr devId))) d"

definition handleSwitch :: "string \<Rightarrow> popup \<Rightarrow> popup" where
  "handleSwitch devId s =
     (if dl_switching s \<noteq> None then s
      else ask (SwitchDevice devId) (SwitchAnswer (the (pu_devices s)) devId) (s\<lparr>dl_switching := Some devId, dl_error := None\<rparr>))"

definition switch_answer :: "nat \<Rightarrow> string \<Rightarrow> reply \<Rightarrow> popup \<Rightarrow> popup" where
  "switch_answer inst devId r s =
     (if pu_devices s \<noteq> Some inst then s
      else
       (if replied_ok r then s\<lparr>dl_devices := map (mark_active devId) (dl_devices s)\<rparr>
        else s\<lparr>dl_error := Some (reply_error r ''Failed to switch device'')\<rparr>)\<lparr>dl_switching := None\<rparr>)"

definition handleRevoke :: "string \<Rightarrow> popup \<Rightarrow> popup" where
  "handleRevoke devId s =
     (if dl_revoking s \<noteq> None then s
      else ask (RevokeDevice devId) (RevokeDeviceAnswer (the (pu_devices s)) devId) (s\<lparr>dl_revoking := Some devId, dl_error := None\<rparr>))"

definition revoke_answer :: "nat \<Rightarrow> string \<Rightarrow> reply \<Rightarrow> popup \<Rightarrow> popup" where
  "revoke_answer inst devId r s =
     (if pu_devices s \<noteq> Some inst then s
      else
       (if replied_ok r then
          s\<lparr>dl_devices := filter (\<lambda>d. jget d ''deviceId'' \<noteq> Some (JStr devId)) (dl_devices s), dl_confirmRevoke := None\<rparr>
        else s\<lparr>dl_error := Some (reply_error r ''Failed to revoke device'')\<rparr>)\<lparr>dl_revoking := None\<rparr>)"

definition attestation_answer :: "reply \<Rightarrow> popup \<Rightarrow> popup" where
  "attestation_answer r s =
     (case r of
        Inr (Some m) \<Rightarrow> if mr_success m \<and> truthy (data_of m ''status'') then upd (\<lambda>st. st\<lparr>po_attestation := the (data_of m ''status'')\<rparr>) s else s
      | _ \<Rightarrow> s)"

definition handleRefresh :: "popup \<Rightarrow> popup" where
  "handleRefresh s = ask RefreshRpKeys (RefreshKeysAnswer (the (pu_main s))) (s\<lparr>ak_refreshing := True, ak_result := None, ak_success := None\<rparr>)"

definition refresh_shown :: "nat \<Rightarrow> string \<Rightarrow> bool \<Rightarrow> popup \<Rightarrow> popup" where
  "refresh_shown inst t okay s = (if pu_main s = Some inst then s\<lparr>ak_result := Some t, ak_success := Some okay\<rparr> else s)"

definition refresh_done :: "nat \<Rightarrow> popup \<Rightarrow> popup" where
  "refresh_done inst s = (if pu_main s = Some inst then s\<lparr>ak_refreshing := False\<rparr> else s)"

text \<open>After a success the status is fetched again, and the button stays disabled until that answer.\<close>

definition refreshKeys_answer :: "nat \<Rightarrow> reply \<Rightarrow> popup \<Rightarrow> popup" where
  "refreshKeys_answer inst r s =
     (case strict r of
        Inl e \<Rightarrow> refresh_done inst (refresh_shown inst e False s)
      | Inr m \<Rightarrow>
          if mr_success m then ask GetAttestationStatus (RefetchAnswer inst) (refresh_shown inst ''Keys refreshed successfully'' True s)
          else refresh_done inst (refresh_shown inst (nullish (mr_error m) ''Refresh failed'') False s))"

definition refetch_answer :: "nat \<Rightarrow> reply \<Rightarrow> popup \<Rightarrow> popup" where
  "refetch_answer inst r s = refresh_done inst (attestation_answer r s)"

section \<open>Mounting\<close>

text \<open>The effects of the panels other than the first. A component that is mounted gets a number, its local state starts anew, and its
  first requests are sent; the code of a panel is taken to be loaded. \<open>SessionStatus\<close> has no state that outlives a tick.\<close>

definition auth_effect :: "popup \<Rightarrow> popup" where
  "auth_effect s =
     (if po_assertionStatus (pu_store s) = AsPending then s\<lparr>au_poll := Some (pu_next s), pu_next := Suc (pu_next s)\<rparr> else s\<lparr>au_poll := None\<rparr>)"

definition settled_credential :: "app_store \<Rightarrow> bool" where
  "settled_credential st \<longleftrightarrow> List.member [CredFilled, CredNotFound, CredError] (po_credentialState st)"

definition credential_effect :: "popup \<Rightarrow> popup" where
  "credential_effect s = s\<lparr>cp_timer := settled_credential (pu_store s)\<rparr>"

fun mount_panel :: "millis \<Rightarrow> panel \<Rightarrow> popup \<Rightarrow> popup" where
  "mount_panel now PairingPanel s =
     pairing_effect now (s\<lparr>pu_panel := Some (pu_next s), pu_next := Suc (pu_next s), pn_generatedAt := 0, pn_nonce := None, pn_url := None\<rparr>)"
| "mount_panel now AuthPanel s =
     auth_effect (ask CheckSession (CheckSessionAnswer (pu_next s))
       (s\<lparr>pu_panel := Some (pu_next s), pu_next := Suc (pu_next s), au_checking := True, au_error := None\<rparr>))"
| "mount_panel now TransactionPanel s = s\<lparr>pu_panel := Some (pu_next s), pu_next := Suc (pu_next s), tp_error := None\<rparr>"
| "mount_panel now CredentialPanel s = credential_effect (s\<lparr>pu_panel := Some (pu_next s), pu_next := Suc (pu_next s)\<rparr>)"
| "mount_panel now LoadingPanel s = s"

definition unmount_panel :: "popup \<Rightarrow> popup" where
  "unmount_panel s = s\<lparr>pu_panel := None, pn_run := None, au_poll := None, cp_timer := False\<rparr>"

fun mount_view :: "millis \<Rightarrow> popup_view \<Rightarrow> popup \<Rightarrow> popup" where
  "mount_view now SettingsView s =
     ask GetApprovedDomains (ApprovedDomainsAnswer (pu_next s))
       (s\<lparr>pu_settings := Some (pu_next s), pu_next := Suc (pu_next s), se_loading := True, se_error := None\<rparr>)"
| "mount_view now DevicesView s =
     ask GetDevices (DevicesAnswer (pu_next s))
       (s\<lparr>pu_devices := Some (pu_next s), pu_next := Suc (pu_next s), dl_devices := [], dl_loading := True, dl_error := None,
          dl_switching := None, dl_confirmRevoke := None, dl_revoking := None\<rparr>)"
| "mount_view now (MainView p) s =
     ask GetAttestationStatus AttestationAnswer
       (mount_panel now p (s\<lparr>pu_main := Some (pu_next s), pu_next := Suc (pu_next s), dp_error := None, ak_refreshing := False,
          ak_result := None, ak_success := None\<rparr>))"

definition unmount_view :: "popup \<Rightarrow> popup" where
  "unmount_view s = (unmount_panel s)\<lparr>pu_settings := None, pu_devices := None, pu_main := None\<rparr>"

text \<open>What React does after the state went from \<open>s\<close> to \<open>s'\<close>.\<close>

definition rerun_effects :: "millis \<Rightarrow> panel \<Rightarrow> popup \<Rightarrow> popup \<Rightarrow> popup" where
  "rerun_effects now p s s' =
     (let st = pu_store s; st' = pu_store s' in
      case p of
        PairingPanel \<Rightarrow>
          if (po_pairingState st, po_sasCode st, pn_url s) = (po_pairingState st', po_sasCode st', pn_url s') then s' else pairing_effect now s'
      | AuthPanel \<Rightarrow> if po_assertionStatus st = po_assertionStatus st' then s' else auth_effect s'
      | CredentialPanel \<Rightarrow> if po_credentialState st = po_credentialState st' then s' else credential_effect s'
      | _ \<Rightarrow> s')"

fun switch_view :: "millis \<Rightarrow> popup_view \<Rightarrow> popup_view \<Rightarrow> popup \<Rightarrow> popup \<Rightarrow> popup" where
  "switch_view now (MainView p) (MainView q) s s' = (if p = q then rerun_effects now p s s' else mount_panel now q (unmount_panel s'))"
| "switch_view now v w s s' = (if v = w then s' else mount_view now w (unmount_view s'))"

definition react :: "millis \<Rightarrow> popup \<Rightarrow> popup \<Rightarrow> popup" where
  "react now s s' = switch_view now (PopupApp (pu_store s)) (PopupApp (pu_store s')) s s'"

section \<open>Buttons\<close>

datatype button =
    DevicesButton | SettingsButton | PairPhone | ResetPairing | ToggleSasMode | ConfirmMatch | RejectMatch
  | Authenticate | ReauthAll | ReauthSession | Dismiss | VerifyOnPhone | NewTransaction
  | AllowDomain string | DenyDomain string | RefreshKeys
  | SettingsBack | RevokeDomain string | DevicesBack | SwitchTo string | ForgetDevice string | ConfirmForget string | CancelForget

text \<open>The buttons \<open>Retry\<close>, \<open>Cancel\<close> and \<open>Try Again\<close> of the pairing panel do the same. Whether the screen was drawn before or after the
  15 seconds of \<open>unable_to_connect\<close> is left open: both sets of buttons count as shown.\<close>

fun pairing_buttons :: "pairing_state \<Rightarrow> button list" where
  "pairing_buttons Unpaired = [PairPhone]"
| "pairing_buttons DisplayingQr = [ResetPairing, ToggleSasMode]"
| "pairing_buttons AwaitingSasConfirmation = [ConfirmMatch, RejectMatch, ToggleSasMode]"
| "pairing_buttons WaitingForHandshake = [ResetPairing]"
| "pairing_buttons PairedPhone = []"
| "pairing_buttons PairingFailed = [ResetPairing]"

definition auth_buttons :: "popup \<Rightarrow> button list" where
  "auth_buttons s =
     (let st = pu_store s in
      if au_checking s then []
      else if countdown s \<noteq> None then [ReauthSession, ReauthAll]
      else if po_sessionState st = ActiveSession \<or> po_sessionState st = ExpiringSession then []
      else if po_assertionStatus st = AsVerified then [Dismiss]
      else if po_assertionStatus st = AsPending then [] else [Authenticate])"

definition transaction_buttons :: "app_store \<Rightarrow> button list" where
  "transaction_buttons st =
     (if po_transactionState st = TxConfirmed \<or> po_transactionState st = TxRejected then [NewTransaction]
      else if has_context (po_transactionData st) \<and> po_transactionState st = TxIdle then [VerifyOnPhone] else [])"

fun panel_buttons :: "popup \<Rightarrow> panel \<Rightarrow> button list" where
  "panel_buttons s PairingPanel = pairing_buttons (po_pairingState (pu_store s))"
| "panel_buttons s AuthPanel = auth_buttons s"
| "panel_buttons s TransactionPanel = transaction_buttons (pu_store s)"
| "panel_buttons s CredentialPanel = []"
| "panel_buttons s LoadingPanel = []"

definition names_of :: "string \<Rightarrow> json list \<Rightarrow> string list" where
  "names_of k js = List.map_filter (\<lambda>j. jstr (jget j k)) js"

definition prompt_buttons :: "popup \<Rightarrow> button list" where
  "prompt_buttons s =
     concat (map (\<lambda>d. [AllowDomain d, DenyDomain d]) (names_of ''domain'' (po_pendingDomains (pu_store s)))) @
     (if jget (po_attestation (pu_store s)) ''type'' = Some (JStr ''not_applicable'') \<or> ak_refreshing s then [] else [RefreshKeys])"

text \<open>A radio button that is checked does not change.\<close>

definition device_buttons :: "popup \<Rightarrow> json \<Rightarrow> button list" where
  "device_buttons s d =
     (case jstr (jget d ''deviceId'') of
        None \<Rightarrow> []
      | Some i \<Rightarrow>
          (if dl_switching s = None \<and> \<not> truthy (jget d ''isActive'') then [SwitchTo i] else []) @
          (if dl_confirmRevoke s = Some i then (if dl_revoking s = None then [ConfirmForget i, CancelForget] else []) else [ForgetDevice i]))"

fun view_buttons :: "popup \<Rightarrow> popup_view \<Rightarrow> button list" where
  "view_buttons s SettingsView =
     SettingsBack # (if se_loading s then [] else map RevokeDomain (names_of ''domain'' (po_approvedDomains (pu_store s))))"
| "view_buttons s DevicesView = (if dl_loading s then [] else DevicesBack # concat (map (device_buttons s) (dl_devices s)))"
| "view_buttons s (MainView p) = panel_buttons s p @ prompt_buttons s"

definition shown :: "popup \<Rightarrow> button list" where
  "shown s = [DevicesButton, SettingsButton] @ view_buttons s (PopupApp (pu_store s))"

fun popup_click :: "popup_env \<Rightarrow> button \<Rightarrow> popup \<Rightarrow> popup" where
  "popup_click env DevicesButton s =
     upd (\<lambda>st. st\<lparr>po_showDevices := \<not> po_showDevices st, po_showSettings := (if po_showDevices st then po_showSettings st else False)\<rparr>) s"
| "popup_click env SettingsButton s =
     upd (\<lambda>st. st\<lparr>po_showSettings := \<not> po_showSettings st, po_showDevices := (if po_showSettings st then po_showDevices st else False)\<rparr>) s"
| "popup_click env PairPhone s = startPairing_click env s"
| "popup_click env ResetPairing s = handleReset s"
| "popup_click env ToggleSasMode s = handleToggleSasMode s"
| "popup_click env ConfirmMatch s = handleConfirmMatch s"
| "popup_click env RejectMatch s = handleRejectMatch s"
| "popup_click env Authenticate s = handleAuthenticate_click s"
| "popup_click env ReauthAll s = handleReauth s"
| "popup_click env ReauthSession s = session_reauth s"
| "popup_click env Dismiss s = upd (\<lambda>st. st\<lparr>po_assertionStatus := AsIdle\<rparr>) s"
| "popup_click env VerifyOnPhone s = handleVerify_click s"
| "popup_click env NewTransaction s = handleNewTransaction s"
| "popup_click env (AllowDomain d) s = handleAllow d s"
| "popup_click env (DenyDomain d) s = handleDeny d s"
| "popup_click env RefreshKeys s = handleRefresh s"
| "popup_click env SettingsBack s = upd (\<lambda>st. st\<lparr>po_showSettings := False\<rparr>) s"
| "popup_click env (RevokeDomain d) s = settings_revoke d s"
| "popup_click env DevicesBack s = upd (\<lambda>st. st\<lparr>po_showDevices := False\<rparr>) s"
| "popup_click env (SwitchTo i) s = handleSwitch i s"
| "popup_click env (ForgetDevice i) s = s\<lparr>dl_confirmRevoke := Some i\<rparr>"
| "popup_click env (ConfirmForget i) s = handleRevoke i s"
| "popup_click env CancelForget s = s\<lparr>dl_confirmRevoke := None\<rparr>"

section \<open>Events\<close>

datatype popup_answer =
    Reply reply
  | PairingReply "string + (message_response \<times> numbers option) option"
  | StoredResult "(string \<times> string option) option"
  | Finished "string option"

fun continue_reply :: "popup_env \<Rightarrow> reply \<Rightarrow> popup_request \<Rightarrow> popup \<Rightarrow> popup" where
  "continue_reply env r (PollAnswer run) s = poll_answer run r s"
| "continue_reply env r ConfirmAnswer s = confirm_answer r s"
| "continue_reply env r (RejectAnswer i) s = reject_answer i s"
| "continue_reply env r (CheckSessionAnswer i) s = checkSession_answer (pe_now env) i r s"
| "continue_reply env r BeginAnswer s = begin_answer r s"
| "continue_reply env r (VerifyAnswer i) s = verify_answer i r s"
| "continue_reply env r PendingDomainsAnswer s = pendingDomains_answer r s"
| "continue_reply env r (AllowAnswer i d ps) s = allow_answer i d ps r s"
| "continue_reply env r (DenyAnswer i d ps) s = deny_answer i d ps r s"
| "continue_reply env r (ApprovedDomainsAnswer i) s = approvedDomains_answer i r s"
| "continue_reply env r (RevokeDomainAnswer i d ps) s = revokeDomain_answer i d ps r s"
| "continue_reply env r (DevicesAnswer i) s = loadDevices_answer i r s"
| "continue_reply env r (SwitchAnswer i d) s = switch_answer i d r s"
| "continue_reply env r (RevokeDeviceAnswer i d) s = revoke_answer i d r s"
| "continue_reply env r AttestationAnswer s = attestation_answer r s"
| "continue_reply env r (RefreshKeysAnswer i) s = refreshKeys_answer i r s"
| "continue_reply env r (RefetchAnswer i) s = refetch_answer i r s"
| "continue_reply env r (StartPairingAnswer i code) s = s"
| "continue_reply env r (ReadResultAnswer run) s = s"
| "continue_reply env r (RemoveResultAnswer amount recipient) s = s"
| "continue_reply env r (OpenTabAnswer i) s = s"

text \<open>An answer of the wrong kind for its request does not occur; the state stays.\<close>

fun continue :: "popup_env \<Rightarrow> popup_answer \<Rightarrow> popup_request \<Rightarrow> popup \<Rightarrow> popup" where
  "continue env (Reply r) k s = continue_reply env r k s"
| "continue env (PairingReply r) k s = (case k of StartPairingAnswer i code \<Rightarrow> startPairing_answer env i code r s | _ \<Rightarrow> s)"
| "continue env (StoredResult x) k s = (case k of ReadResultAnswer run \<Rightarrow> readResult_answer run x s | _ \<Rightarrow> s)"
| "continue env (Finished e) k s =
     (case k of
        RemoveResultAnswer amount recipient \<Rightarrow> removeResult_answer amount recipient e s
      | OpenTabAnswer i \<Rightarrow> openTab_answer i e s
      | _ \<Rightarrow> s)"

definition take_answer :: "popup_env \<Rightarrow> nat \<Rightarrow> popup_answer \<Rightarrow> popup \<Rightarrow> popup" where
  "take_answer env i a s =
     (case map_of (pu_requests s) i of
        None \<Rightarrow> s
      | Some k \<Rightarrow> continue env a k (s\<lparr>pu_requests := filter (\<lambda>x. fst x \<noteq> i) (pu_requests s)\<rparr>))"

datatype popup_event =
    Click button
  | Answered nat popup_answer
  | PairingPoll
  | QrTimeout
  | AssertionPoll
  | SessionTick
  | CredentialTimeout
  | PhaseRead "string option"
  | StoreUpdate store_update

fun popup_step :: "popup_env \<Rightarrow> popup_event \<Rightarrow> popup \<Rightarrow> popup" where
  "popup_step env (Click b) s = (if List.member (shown s) b then popup_click env b s else s)"
| "popup_step env (Answered i a) s = take_answer env i a s"
| "popup_step env PairingPoll s = poll_fires s"
| "popup_step env QrTimeout s = qr_expires s"
| "popup_step env AssertionPoll s = assertion_poll_fires s"
| "popup_step env SessionTick s = (case countdown s of None \<Rightarrow> s | Some e \<Rightarrow> session_tick (pe_now env) e s)"
| "popup_step env CredentialTimeout s = credential_timer_fires s"
| "popup_step env (PhaseRead stored) s = upd (initPhase stored) s"
| "popup_step env (StoreUpdate u) s = upd (apply_update u) s"

definition popup_exec :: "popup_env \<times> popup_event \<Rightarrow> popup \<Rightarrow> popup" where
  "popup_exec x s = (if pu_closed s then s else react (pe_now (fst x)) s (popup_step (fst x) (snd x) s))"

text \<open>The popup is opened: the store is a new one.\<close>

definition blank_popup :: popup where
  "blank_popup =
     \<lparr>pu_store = useAppStore, pu_requests = [], pu_sent = [], pu_next = 0, pu_drawn = [], pu_authTabs = 0, pu_closed = False, pu_panel = None,
      pu_settings = None, pu_devices = None, pu_main = None, pn_generatedAt = 0, pn_nonce = None, pn_url = None, pn_run = None, au_checking = True,
      au_error = None, au_poll = None, tp_error = None, sn_remaining = 0, cp_timer = False, dp_error = None, se_loading = True, se_error = None,
      dl_devices = [], dl_loading = True, dl_error = None, dl_switching = None, dl_confirmRevoke = None, dl_revoking = None,
      ak_refreshing = False, ak_result = None, ak_success = None\<rparr>"

definition popup_open :: "millis \<Rightarrow> popup" where
  "popup_open now = ask GetPendingDomains PendingDomainsAnswer (mount_view now (PopupApp useAppStore) blank_popup)"

end
