(* ===== verification/PopupFlow.thy ===== *)
theory PopupFlow
  imports Popup
begin

text \<open>
  How a state of the popup evolves: what a step and the mounting after it leave alone, which components are mounted, and the invariants
  that every sequence of events keeps. \<open>popup_invariant\<close> says what an invariant of the popup has to show; each of the four below is an
  interpretation of it.
\<close>

section \<open>What a step and React leave alone\<close>

lemmas popup_basic = upd_def ask_def await_def Let_def

lemmas pairing_ops = startPairing_click_def pairing_failed_def startPairing_answer_def reset_pairing_def handleReset_def poll_fires_def
  poll_answer_def qr_expires_def handleConfirmMatch_def confirm_answer_def handleRejectMatch_def reject_answer_def handleToggleSasMode_def

lemmas auth_ops = checkSession_answer_def assertion_poll_fires_def readResult_answer_def handleAuthenticate_click_def assertion_failed_def
  removeResult_answer_def begin_answer_def openTab_answer_def handleReauth_def session_tick_def session_reauth_def

lemmas domain_ops = pendingDomains_answer_def handleAllow_def handleDeny_def prompt_error_def allow_answer_def deny_answer_def
  approvedDomains_answer_def settings_revoke_def revokeDomain_answer_def

lemmas device_ops = loadDevices_answer_def handleSwitch_def switch_answer_def handleRevoke_def revoke_answer_def

lemmas other_ops = handleVerify_click_def tx_rejected_def verify_answer_def handleNewTransaction_def credential_timer_fires_def
  attestation_answer_def handleRefresh_def refresh_shown_def refresh_done_def refreshKeys_answer_def refetch_answer_def initPhase_def apply_update_def

lemmas popup_splits = option.splits sum.splits if_splits prod.splits

definition mount_message :: "bg_message \<Rightarrow> bool" where
  "mount_message m \<longleftrightarrow> m = CheckSession \<or> m = GetAttestationStatus \<or> m = GetApprovedDomains \<or> m = GetDevices"

fun mount_request :: "popup_request \<Rightarrow> bool" where
  "mount_request (CheckSessionAnswer i) = True"
| "mount_request (ApprovedDomainsAnswer i) = True"
| "mount_request (DevicesAnswer i) = True"
| "mount_request AttestationAnswer = True"
| "mount_request k = False"

lemma pairing_effect_keeps [simp]:
  "pu_store (pairing_effect now s) = pu_store s" "pu_sent (pairing_effect now s) = pu_sent s" "pu_requests (pairing_effect now s) = pu_requests s"
  "pu_panel (pairing_effect now s) = pu_panel s" "pu_main (pairing_effect now s) = pu_main s" "pu_settings (pairing_effect now s) = pu_settings s"
  "pu_devices (pairing_effect now s) = pu_devices s" "au_poll (pairing_effect now s) = au_poll s" "cp_timer (pairing_effect now s) = cp_timer s"
  "pn_run (pairing_effect now s) = None \<longleftrightarrow> po_pairingState (pu_store s) \<noteq> DisplayingQr"
  by (simp_all add: pairing_effect_def Let_def)

lemma auth_effect_keeps [simp]:
  "pu_store (auth_effect s) = pu_store s" "pu_sent (auth_effect s) = pu_sent s" "pu_requests (auth_effect s) = pu_requests s"
  "pu_panel (auth_effect s) = pu_panel s" "pu_main (auth_effect s) = pu_main s" "pu_settings (auth_effect s) = pu_settings s"
  "pu_devices (auth_effect s) = pu_devices s" "pn_run (auth_effect s) = pn_run s" "cp_timer (auth_effect s) = cp_timer s"
  "au_poll (auth_effect s) = None \<longleftrightarrow> po_assertionStatus (pu_store s) \<noteq> AsPending"
  by (simp_all add: auth_effect_def)

text \<open>The messages and the open requests that no mounting makes are the same after it.\<close>

definition same_work :: "popup \<Rightarrow> popup \<Rightarrow> bool" where
  "same_work s s' \<longleftrightarrow>
     pu_store s' = pu_store s \<and> (\<forall>m. \<not> mount_message m \<longrightarrow> m \<in> set (pu_sent s') \<longleftrightarrow> m \<in> set (pu_sent s))
     \<and> (\<forall>k. \<not> mount_request k \<longrightarrow> k \<in> snd ` set (pu_requests s') \<longleftrightarrow> k \<in> snd ` set (pu_requests s))"

lemma same_work_trans: "same_work s t \<Longrightarrow> same_work t u \<Longrightarrow> same_work s u"
  by (simp add: same_work_def)

lemma same_work_ask: "mount_message m \<Longrightarrow> mount_request k \<Longrightarrow> same_work s (ask m k s)"
  by (auto simp: same_work_def ask_def)

lemma same_work_fields:
  "pu_store s' = pu_store s \<Longrightarrow> pu_sent s' = pu_sent s \<Longrightarrow> pu_requests s' = pu_requests s \<Longrightarrow> same_work s s'"
  by (simp add: same_work_def)

lemma same_work_asked:
  assumes "same_work s t" "mount_message m" "mount_request k"
  shows "same_work s (ask m k t)"
  using same_work_trans [OF assms(1) same_work_ask [OF assms(2,3)]] .

lemma mount_panel_work: "same_work s (mount_panel now p s)"
proof (cases p)
  case AuthPanel
  let ?t = "s\<lparr>pu_panel := Some (pu_next s), pu_next := Suc (pu_next s), au_checking := True, au_error := None\<rparr>"
  have "same_work s (ask CheckSession (CheckSessionAnswer (pu_next s)) ?t)"
    by (rule same_work_asked) (simp_all add: same_work_fields mount_message_def)
  moreover have "same_work t (auth_effect t)" for t by (simp add: same_work_fields)
  ultimately show ?thesis using AuthPanel same_work_trans by simp
qed (simp_all add: same_work_fields credential_effect_def)

lemma mount_view_work: "same_work s (mount_view now v s)"
proof (cases v)
  case (MainView p)
  let ?t = "s\<lparr>pu_main := Some (pu_next s), pu_next := Suc (pu_next s), dp_error := None, ak_refreshing := False, ak_result := None, ak_success := None\<rparr>"
  have "same_work s ?t" by (simp add: same_work_fields)
  from same_work_trans [OF this mount_panel_work] show ?thesis by (simp add: MainView same_work_asked mount_message_def)
qed (simp_all add: same_work_asked same_work_fields mount_message_def)

lemma react_work: "same_work s' (react now s s')"
proof -
  have panel: "same_work s' (mount_panel now p (unmount_panel s'))" for p
    by (rule same_work_trans [OF _ mount_panel_work]) (simp add: same_work_fields unmount_panel_def)
  have view: "same_work s' (mount_view now v (unmount_view s'))" for v
    by (rule same_work_trans [OF _ mount_view_work]) (simp add: same_work_fields unmount_panel_def unmount_view_def)
  have effects: "same_work s' (rerun_effects now p s s')" for p
    by (cases p) (simp_all add: rerun_effects_def same_work_fields credential_effect_def Let_def)
  have "same_work s' (switch_view now v w s s')" for v w
    using panel view effects by (cases v; cases w) (simp_all add: same_work_fields del: mount_view.simps)
  then show ?thesis by (simp add: react_def)
qed

lemma react_keeps:
  shows react_store [simp]: "pu_store (react now s s') = pu_store s'"
    and react_sent: "\<not> mount_message m \<Longrightarrow> m \<in> set (pu_sent (react now s s')) \<longleftrightarrow> m \<in> set (pu_sent s')"
    and react_requests: "\<not> mount_request k \<Longrightarrow> k \<in> snd ` set (pu_requests (react now s s')) \<longleftrightarrow> k \<in> snd ` set (pu_requests s')"
  using react_work [of s' now s] by (simp_all add: same_work_def)

section \<open>What is mounted\<close>

definition main_shown :: "popup_view \<Rightarrow> bool" where
  "main_shown v \<longleftrightarrow> (case v of MainView _ \<Rightarrow> True | _ \<Rightarrow> False)"

definition panel_shown :: "popup_view \<Rightarrow> bool" where
  "panel_shown v \<longleftrightarrow> (case v of MainView p \<Rightarrow> p \<noteq> LoadingPanel | _ \<Rightarrow> False)"

definition mounted_ok :: "popup \<Rightarrow> bool" where
  "mounted_ok s \<longleftrightarrow>
     (let st = pu_store s; v = PopupApp st in
      (pu_panel s = None \<longleftrightarrow> \<not> panel_shown v) \<and> (pu_main s = None \<longleftrightarrow> \<not> main_shown v) \<and> (pu_settings s = None \<longleftrightarrow> v \<noteq> SettingsView)
      \<and> (pu_devices s = None \<longleftrightarrow> v \<noteq> DevicesView)
      \<and> (pn_run s = None \<longleftrightarrow> \<not> (v = MainView PairingPanel \<and> po_pairingState st = DisplayingQr))
      \<and> (au_poll s = None \<longleftrightarrow> \<not> (v = MainView AuthPanel \<and> po_assertionStatus st = AsPending))
      \<and> (cp_timer s \<longleftrightarrow> v = MainView CredentialPanel \<and> settled_credential st))"

definition step_frame :: "popup \<Rightarrow> popup \<Rightarrow> bool" where
  "step_frame s s' \<longleftrightarrow>
     pu_panel s' = pu_panel s \<and> pu_main s' = pu_main s \<and> pu_settings s' = pu_settings s \<and> pu_devices s' = pu_devices s \<and> au_poll s' = au_poll s
     \<and> (pn_run s' = pn_run s \<or> pn_run s' = None \<and> po_pairingState (pu_store s') \<noteq> DisplayingQr)
     \<and> (cp_timer s' = cp_timer s \<or> \<not> cp_timer s' \<and> po_credentialState (pu_store s') = CredIdle)"

lemma step_frame_click: "step_frame s (popup_click env b s)"
  by (cases b) (auto simp: step_frame_def popup_basic pairing_ops auth_ops domain_ops device_ops other_ops split: prod.split)

lemma step_frame_continue: "step_frame s (continue env a k s)"
proof (cases a)
  case (Reply r)
  then show ?thesis
    by (cases k) (auto simp: step_frame_def popup_basic pairing_ops auth_ops domain_ops device_ops other_ops split: popup_splits)
qed (cases k; auto simp: step_frame_def popup_basic pairing_ops auth_ops split: popup_splits)+

lemma step_frame_step: "step_frame s (popup_step env e s)"
proof (cases e)
  case (Answered i a)
  have "step_frame s (continue env a k (s\<lparr>pu_requests := rs\<rparr>))" for k rs
    using step_frame_continue [of "s\<lparr>pu_requests := rs\<rparr>" env a k] by (simp add: step_frame_def)
  moreover have "step_frame s s" by (simp add: step_frame_def)
  ultimately show ?thesis using Answered by (simp add: take_answer_def split: option.split)
next
  case (Click b)
  then show ?thesis using step_frame_click by (simp add: step_frame_def)
qed (auto simp: step_frame_def popup_basic pairing_ops auth_ops other_ops split: option.splits)

lemma mounted_mount_panel:
  assumes "PopupApp (pu_store t) = MainView p" "pu_panel t = None" "pn_run t = None" "au_poll t = None" "\<not> cp_timer t"
    "pu_main t \<noteq> None" "pu_settings t = None" "pu_devices t = None"
  shows "mounted_ok (mount_panel now p t)"
  using assms by (cases p) (simp_all add: mounted_ok_def panel_shown_def main_shown_def credential_effect_def ask_def Let_def)

lemma mounted_ask: "mounted_ok (ask m k t) \<longleftrightarrow> mounted_ok t"
  by (simp add: mounted_ok_def ask_def)

lemma mounted_mount_view:
  assumes "PopupApp (pu_store t) = v"
  shows "mounted_ok (mount_view now v (unmount_view t))"
proof (cases v)
  case (MainView p)
  then show ?thesis using assms by (simp add: mounted_ask mounted_mount_panel unmount_view_def unmount_panel_def)
qed (use assms in \<open>simp_all add: mounted_ok_def panel_shown_def main_shown_def ask_def unmount_view_def unmount_panel_def\<close>)

lemma mounted_rerun:
  assumes ok: "mounted_ok s" and frame: "step_frame s s'" and v: "PopupApp (pu_store s) = MainView p" "PopupApp (pu_store s') = MainView p"
  shows "mounted_ok (rerun_effects now p s s')"
proof -
  let ?st = "pu_store s" and ?st' = "pu_store s'"
  have fixed: "pu_panel s' = None \<longleftrightarrow> p = LoadingPanel" "\<exists>y. pu_main s' = Some y" "pu_settings s' = None" "pu_devices s' = None"
    "au_poll s' = None \<longleftrightarrow> \<not> (p = AuthPanel \<and> po_assertionStatus ?st = AsPending)"
    using ok frame v by (simp_all add: mounted_ok_def step_frame_def panel_shown_def main_shown_def Let_def)
  have old: "pn_run s = None \<longleftrightarrow> \<not> (p = PairingPanel \<and> po_pairingState ?st = DisplayingQr)"
    "cp_timer s \<longleftrightarrow> p = CredentialPanel \<and> settled_credential ?st"
    using ok v by (simp_all add: mounted_ok_def Let_def)
  have new: "pn_run s' = pn_run s \<or> pn_run s' = None \<and> po_pairingState ?st' \<noteq> DisplayingQr"
    "cp_timer s' = cp_timer s \<or> \<not> cp_timer s' \<and> po_credentialState ?st' = CredIdle"
    using frame by (simp_all add: step_frame_def)
  have run: "pn_run s' = None \<longleftrightarrow> \<not> (p = PairingPanel \<and> po_pairingState ?st' = DisplayingQr)"
    if "p = PairingPanel \<longrightarrow> po_pairingState ?st = po_pairingState ?st'"
    using old(1) new(1) that by metis
  have idle: "\<not> settled_credential ?st'" if "po_credentialState ?st' = CredIdle" using that by (simp add: settled_credential_def)
  have "settled_credential ?st = settled_credential ?st'" if "po_credentialState ?st = po_credentialState ?st'"
    using that by (simp add: settled_credential_def)
  then have timer: "cp_timer s' \<longleftrightarrow> p = CredentialPanel \<and> settled_credential ?st'"
    if "p = CredentialPanel \<longrightarrow> po_credentialState ?st = po_credentialState ?st'"
    using old(2) new(2) idle that by metis
  show ?thesis
    using fixed run timer v
    by (cases p) (simp_all add: mounted_ok_def rerun_effects_def credential_effect_def panel_shown_def main_shown_def Let_def)
qed

lemma mounted_react:
  assumes ok: "mounted_ok s" and frame: "step_frame s s'"
  shows "mounted_ok (react now s s')"
proof (cases "PopupApp (pu_store s) = PopupApp (pu_store s')")
  case True
  show ?thesis
  proof (cases "PopupApp (pu_store s')")
    case (MainView p)
    then show ?thesis using True mounted_rerun [OF ok frame] by (simp add: react_def)
  qed (use True ok frame in \<open>auto simp: react_def mounted_ok_def step_frame_def\<close>)
next
  case False
  show ?thesis
  proof (cases "main_shown (PopupApp (pu_store s)) \<and> main_shown (PopupApp (pu_store s'))")
    case True
    then obtain p q where v: "PopupApp (pu_store s) = MainView p" "PopupApp (pu_store s') = MainView q"
      by (auto simp: main_shown_def split: popup_view.splits)
    then have "mounted_ok (mount_panel now q (unmount_panel s'))"
      using ok frame by (intro mounted_mount_panel) (simp_all add: unmount_panel_def mounted_ok_def step_frame_def main_shown_def Let_def)
    then show ?thesis using v False by (simp add: react_def)
  next
    case no: False
    have "react now s s' = mount_view now (PopupApp (pu_store s')) (unmount_view s')"
      using False no by (cases "PopupApp (pu_store s)"; cases "PopupApp (pu_store s')") (simp_all add: react_def main_shown_def del: mount_view.simps)
    then show ?thesis using mounted_mount_view [OF refl] by simp
  qed
qed

lemma mounted_exec: "mounted_ok s \<Longrightarrow> mounted_ok (popup_exec x s)"
  by (simp add: popup_exec_def mounted_react step_frame_step)

lemma mounted_open: "mounted_ok (popup_open now)"
  by (simp add: popup_open_def mounted_ok_def PopupApp_def PanelRouter_def useAppStore_def blank_popup_def ask_def
      panel_shown_def main_shown_def Let_def settled_credential_def)

interpretation mounting: event_system popup_exec "\<lambda>_. True" mounted_ok
  by unfold_locales (rule mounted_exec)

section \<open>Invariants of the popup\<close>

fun own_event :: "popup_event \<Rightarrow> bool" where
  "own_event (StoreUpdate u) = False"
| "own_event e = True"

fun handled :: "popup_event \<Rightarrow> bool" where
  "handled (Click b) = True"
| "handled (Answered i a) = True"
| "handled e = False"

text \<open>What an invariant needs: the clicks on the buttons that are shown, the continuations of the open requests, and the other events
  keep it, and it does not see the messages and requests of the mounting.\<close>

locale popup_invariant =
  fixes inv :: "popup \<Rightarrow> bool" and admissible :: "popup_event \<Rightarrow> bool"
  assumes inv_click: "mounted_ok s \<Longrightarrow> inv s \<Longrightarrow> b \<in> set (shown s) \<Longrightarrow> inv (popup_click env b s)"
    and inv_continue: "mounted_ok s \<Longrightarrow> inv s \<Longrightarrow> k \<in> snd ` set (pu_requests s) \<Longrightarrow> set rs \<subseteq> set (pu_requests s) \<Longrightarrow>
      inv (continue env a k (s\<lparr>pu_requests := rs\<rparr>))"
    and inv_other: "mounted_ok s \<Longrightarrow> inv s \<Longrightarrow> \<not> handled e \<Longrightarrow> admissible e \<Longrightarrow> inv (popup_step env e s)"
    and inv_work: "same_work s s' \<Longrightarrow> inv s \<Longrightarrow> inv s'"
begin

lemma inv_step:
  assumes "mounted_ok s" "inv s" "admissible e"
  shows "inv (popup_step env e s)"
proof (cases "handled e")
  case False
  then show ?thesis using assms inv_other by blast
next
  case True
  have "inv (continue env a k (s\<lparr>pu_requests := filter (\<lambda>x. fst x \<noteq> i) (pu_requests s)\<rparr>))" if "map_of (pu_requests s) i = Some k" for a i k
    using assms map_of_SomeD [OF that] by (intro inv_continue) force+
  then have "inv (take_answer env i a s)" for i a using assms by (simp add: take_answer_def split: option.split)
  moreover have "inv (popup_step env (Click b) s)" for b using assms inv_click by simp
  ultimately show ?thesis using True by (cases e) simp_all
qed

lemma inv_popup_exec: "mounted_ok s \<and> inv s \<Longrightarrow> admissible (snd x) \<Longrightarrow> mounted_ok (popup_exec x s) \<and> inv (popup_exec x s)"
  using inv_work [OF react_work] inv_step by (simp add: mounted_exec) (simp add: popup_exec_def)

end

sublocale popup_invariant \<subseteq> event_system popup_exec "\<lambda>x. admissible (snd x)" "\<lambda>s. mounted_ok s \<and> inv s"
  by unfold_locales (rule inv_popup_exec)

lemma same_workD:
  assumes "same_work s s'"
  shows "pu_store s' = pu_store s" "\<not> mount_message m \<Longrightarrow> m \<in> set (pu_sent s') \<longleftrightarrow> m \<in> set (pu_sent s)"
    "\<not> mount_request k \<Longrightarrow> k \<in> snd ` set (pu_requests s') \<longleftrightarrow> k \<in> snd ` set (pu_requests s)"
  using assms by (simp_all add: same_work_def)

subsection \<open>No confirmation\<close>

definition unconfirmed :: "popup \<Rightarrow> bool" where
  "unconfirmed s \<longleftrightarrow> PairingConfirmed \<notin> set (pu_sent s) \<and> PairingRejected \<notin> set (pu_sent s) \<and> ConfirmAnswer \<notin> snd ` set (pu_requests s)
     \<and> (\<forall>i. RejectAnswer i \<notin> snd ` set (pu_requests s))"

lemma confirmation_not_shown: "ConfirmMatch \<notin> set (shown s)" "RejectMatch \<notin> set (shown s)"
proof -
  have "ConfirmMatch \<notin> set (panel_buttons s (PanelRouter (pu_store s))) \<and> RejectMatch \<notin> set (panel_buttons s (PanelRouter (pu_store s)))"
    by (cases "po_pairingState (pu_store s)") (simp_all add: PanelRouter_def auth_buttons_def transaction_buttons_def Let_def)
  moreover have "ConfirmMatch \<notin> set (device_buttons s d) \<and> RejectMatch \<notin> set (device_buttons s d)" for d
    by (simp add: device_buttons_def split: option.split)
  ultimately show "ConfirmMatch \<notin> set (shown s)" "RejectMatch \<notin> set (shown s)"
    by (auto simp: shown_def PopupApp_def prompt_buttons_def)
qed

lemma unconfirmed_work: "same_work s s' \<Longrightarrow> unconfirmed s \<Longrightarrow> unconfirmed s'"
  by (simp add: unconfirmed_def same_workD mount_message_def)

lemma unconfirmed_click:
  assumes "unconfirmed s" "b \<in> set (shown s)"
  shows "unconfirmed (popup_click env b s)"
  using assms confirmation_not_shown [of s]
  by (cases b) (auto simp: unconfirmed_def popup_basic pairing_ops auth_ops domain_ops device_ops other_ops split: prod.split)

lemma unconfirmed_fewer: "unconfirmed s \<Longrightarrow> set rs \<subseteq> set (pu_requests s) \<Longrightarrow> unconfirmed (s\<lparr>pu_requests := rs\<rparr>)"
  by (auto simp: unconfirmed_def)

lemma unconfirmed_reply: "unconfirmed s \<Longrightarrow> unconfirmed (continue_reply env r k s)"
  by (cases k) (auto simp: unconfirmed_def popup_basic pairing_ops auth_ops domain_ops device_ops other_ops split: popup_splits)

lemma unconfirmed_continue: "unconfirmed s \<Longrightarrow> unconfirmed (continue env a k s)"
proof (cases a)
  case (Reply r)
  then show "unconfirmed s \<Longrightarrow> ?thesis" by (simp add: unconfirmed_reply)
qed (cases k; auto simp: unconfirmed_def popup_basic pairing_ops auth_ops split: popup_splits)+

lemma unconfirmed_other: "unconfirmed s \<Longrightarrow> \<not> handled e \<Longrightarrow> unconfirmed (popup_step env e s)"
  by (cases e) (auto simp: unconfirmed_def popup_basic pairing_ops auth_ops other_ops split: option.splits)

interpretation confirming: popup_invariant unconfirmed "\<lambda>_. True"
  by unfold_locales (auto simp: unconfirmed_work unconfirmed_click unconfirmed_fewer unconfirmed_continue unconfirmed_other)

subsection \<open>No transaction\<close>

definition no_transaction_seen :: "popup \<Rightarrow> bool" where
  "no_transaction_seen s \<longleftrightarrow> \<not> has_context (po_transactionData (pu_store s))
     \<and> (\<forall>a r. BeginChallengeAssertion a r \<notin> set (pu_sent s) \<and> VerifyTransaction a r \<notin> set (pu_sent s)
          \<and> RemoveResultAnswer a r \<notin> snd ` set (pu_requests s))"

lemma verify_not_shown:
  assumes "\<not> has_context (po_transactionData (pu_store s))"
  shows "VerifyOnPhone \<notin> set (shown s)"
proof -
  have "VerifyOnPhone \<notin> set (panel_buttons s p)" for p
    using assms by (cases p; cases "po_pairingState (pu_store s)") (simp_all add: auth_buttons_def transaction_buttons_def Let_def)
  moreover have "VerifyOnPhone \<notin> set (device_buttons s d)" for d
    by (simp add: device_buttons_def split: option.split)
  ultimately show ?thesis by (auto simp: shown_def PopupApp_def prompt_buttons_def)
qed

lemma no_transaction_work: "same_work s s' \<Longrightarrow> no_transaction_seen s \<Longrightarrow> no_transaction_seen s'"
  by (simp add: no_transaction_seen_def same_workD mount_message_def)

lemma no_transaction_click:
  assumes "no_transaction_seen s" "b \<in> set (shown s)"
  shows "no_transaction_seen (popup_click env b s)"
  using assms verify_not_shown [of s]
  by (cases b) (auto simp: no_transaction_seen_def popup_basic pairing_ops auth_ops domain_ops device_ops other_ops split: prod.split)

lemma no_transaction_fewer: "no_transaction_seen s \<Longrightarrow> set rs \<subseteq> set (pu_requests s) \<Longrightarrow> no_transaction_seen (s\<lparr>pu_requests := rs\<rparr>)"
  by (auto simp: no_transaction_seen_def)

lemma no_transaction_reply: "no_transaction_seen s \<Longrightarrow> no_transaction_seen (continue_reply env r k s)"
  by (cases k) (auto simp: no_transaction_seen_def has_context_def popup_basic pairing_ops auth_ops domain_ops device_ops other_ops split: popup_splits)

lemma no_transaction_continue:
  "no_transaction_seen s \<Longrightarrow> (\<And>x y. k \<noteq> RemoveResultAnswer x y) \<Longrightarrow> no_transaction_seen (continue env a k s)"
proof (cases a)
  case (Reply r)
  then show "no_transaction_seen s \<Longrightarrow> ?thesis" by (simp add: no_transaction_reply)
qed (cases k; auto simp: no_transaction_seen_def popup_basic pairing_ops auth_ops split: popup_splits)+

lemma no_transaction_other: "no_transaction_seen s \<Longrightarrow> \<not> handled e \<Longrightarrow> own_event e \<Longrightarrow> no_transaction_seen (popup_step env e s)"
  by (cases e) (auto simp: no_transaction_seen_def popup_basic pairing_ops auth_ops other_ops split: option.splits)

interpretation transacting: popup_invariant no_transaction_seen own_event
proof unfold_locales
  fix s k rs env a
  assume *: "no_transaction_seen s" "k \<in> snd ` set (pu_requests s)" "set rs \<subseteq> set (pu_requests s)"
  then have "k \<noteq> RemoveResultAnswer x y" for x y unfolding no_transaction_seen_def by blast
  then show "no_transaction_seen (continue env a k (s\<lparr>pu_requests := rs\<rparr>))"
    using * by (intro no_transaction_continue no_transaction_fewer) simp_all
qed (auto simp: no_transaction_work no_transaction_click no_transaction_other)

subsection \<open>A failure has a message\<close>

definition failures_explained :: "popup \<Rightarrow> bool" where
  "failures_explained s \<longleftrightarrow>
     (let st = pu_store s in
      (po_pairingState st = PairingFailed \<longrightarrow> po_pairingError st \<noteq> None) \<and> (po_assertionStatus st = AsError \<longrightarrow> po_assertionError st \<noteq> None))"

lemma failures_work: "same_work s s' \<Longrightarrow> failures_explained s \<Longrightarrow> failures_explained s'"
  by (simp add: failures_explained_def same_workD)

lemma failures_click: "failures_explained s \<Longrightarrow> failures_explained (popup_click env b s)"
  by (cases b) (auto simp: failures_explained_def popup_basic pairing_ops auth_ops domain_ops device_ops other_ops split: prod.split)

lemma failures_reply: "failures_explained s \<Longrightarrow> failures_explained (continue_reply env r k s)"
  by (cases k) (auto simp: failures_explained_def popup_basic pairing_ops auth_ops domain_ops device_ops other_ops split: popup_splits)

lemma failures_continue: "failures_explained s \<Longrightarrow> failures_explained (continue env a k s)"
proof (cases a)
  case (Reply r)
  then show "failures_explained s \<Longrightarrow> ?thesis" by (simp add: failures_reply)
qed (cases k; auto simp: failures_explained_def popup_basic pairing_ops auth_ops split: popup_splits)+

lemma failures_other: "failures_explained s \<Longrightarrow> \<not> handled e \<Longrightarrow> own_event e \<Longrightarrow> failures_explained (popup_step env e s)"
  by (cases e) (auto simp: failures_explained_def popup_basic pairing_ops auth_ops other_ops split: option.splits)

interpretation failing: popup_invariant failures_explained own_event
proof unfold_locales
  fix s k rs env a
  assume "failures_explained s"
  then show "failures_explained (continue env a k (s\<lparr>pu_requests := rs\<rparr>))"
    by (intro failures_continue) (simp add: failures_explained_def)
qed (auto simp: failures_work failures_click failures_other)

subsection \<open>A paired popup has started a pairing\<close>

definition pairing_started :: "popup \<Rightarrow> bool" where
  "pairing_started s \<longleftrightarrow> list_ex (\<lambda>m. case m of StartPairing c n \<Rightarrow> True | _ \<Rightarrow> False) (pu_sent s)"

lemma pairing_started_iff: "pairing_started s \<longleftrightarrow> (\<exists>c n. StartPairing c n \<in> set (pu_sent s))"
proof -
  have "(case m of StartPairing c n \<Rightarrow> True | _ \<Rightarrow> False) \<longleftrightarrow> (\<exists>c n. m = StartPairing c n)" for m by (cases m) simp_all
  then show ?thesis by (auto simp: pairing_started_def list_ex_iff)
qed

definition begins_unpaired :: "popup \<Rightarrow> bool" where
  "begins_unpaired s \<longleftrightarrow> unconfirmed s \<and>
     (pairing_started s \<or> po_pairingState (pu_store s) = Unpaired \<and> (\<forall>i c. StartPairingAnswer i c \<notin> snd ` set (pu_requests s)))"

lemma begins_work: "same_work s s' \<Longrightarrow> begins_unpaired s \<Longrightarrow> begins_unpaired s'"
  by (simp add: begins_unpaired_def unconfirmed_work pairing_started_iff same_workD mount_message_def)

lemma begins_click:
  assumes "begins_unpaired s" "b \<in> set (shown s)"
  shows "begins_unpaired (popup_click env b s)"
proof -
  have "unconfirmed (popup_click env b s)" using assms unconfirmed_click by (simp add: begins_unpaired_def)
  then show ?thesis using assms confirmation_not_shown [of s]
    by (cases b) (auto simp: begins_unpaired_def pairing_started_def popup_basic pairing_ops auth_ops domain_ops device_ops other_ops split: prod.split)
qed

definition unpaired_request :: "popup_request \<Rightarrow> bool" where
  "unpaired_request k \<longleftrightarrow> k \<noteq> ConfirmAnswer \<and> (\<forall>i. k \<noteq> RejectAnswer i) \<and> (\<forall>i c. k \<noteq> StartPairingAnswer i c)"

text \<open>Every continuation but those of the pairing panel leaves the pairing state and adds no message of the pairing.\<close>

lemma continue_pairing:
  assumes "unpaired_request k" "pn_run s = None"
  shows "po_pairingState (pu_store (continue env a k s)) = po_pairingState (pu_store s)"
    and "StartPairingAnswer i c \<in> snd ` set (pu_requests (continue env a k s)) \<longleftrightarrow> StartPairingAnswer i c \<in> snd ` set (pu_requests s)"
    and "pn_run (continue env a k s) = None"
proof -
  have "po_pairingState (pu_store (continue_reply env r k s)) = po_pairingState (pu_store s)
      \<and> (StartPairingAnswer i c \<in> snd ` set (pu_requests (continue_reply env r k s)) \<longleftrightarrow> StartPairingAnswer i c \<in> snd ` set (pu_requests s))
      \<and> pn_run (continue_reply env r k s) = None" for r
    using assms
    by (cases k) (auto simp: unpaired_request_def popup_basic pairing_ops auth_ops domain_ops device_ops other_ops split: popup_splits)
  then have "po_pairingState (pu_store (continue env a k s)) = po_pairingState (pu_store s)
      \<and> (StartPairingAnswer i c \<in> snd ` set (pu_requests (continue env a k s)) \<longleftrightarrow> StartPairingAnswer i c \<in> snd ` set (pu_requests s))
      \<and> pn_run (continue env a k s) = None"
    using assms by (cases a) (auto simp: unpaired_request_def popup_basic auth_ops split: popup_request.split popup_splits)
  then show "po_pairingState (pu_store (continue env a k s)) = po_pairingState (pu_store s)"
    "StartPairingAnswer i c \<in> snd ` set (pu_requests (continue env a k s)) \<longleftrightarrow> StartPairingAnswer i c \<in> snd ` set (pu_requests s)"
    "pn_run (continue env a k s) = None" by simp_all
qed

lemma continue_sends: "m \<in> set (pu_sent s) \<Longrightarrow> m \<in> set (pu_sent (continue env a k s))"
proof -
  assume m: "m \<in> set (pu_sent s)"
  have "m \<in> set (pu_sent (continue_reply env r k s))" for r
    using m by (cases k) (auto simp: popup_basic pairing_ops auth_ops domain_ops device_ops other_ops split: popup_splits)
  then show ?thesis
    using m by (cases a) (auto simp: popup_basic pairing_ops auth_ops split: popup_request.split popup_splits)
qed

lemma begins_other:
  assumes "mounted_ok s" "begins_unpaired s" "\<not> handled e" "own_event e"
  shows "begins_unpaired (popup_step env e s)"
proof -
  have "pn_run s = None" if "po_pairingState (pu_store s) = Unpaired" using assms(1) that by (simp add: mounted_ok_def Let_def)
  moreover have "unconfirmed (popup_step env e s)" using assms unconfirmed_other by (simp add: begins_unpaired_def)
  ultimately show ?thesis using assms(2-4)
    by (cases e) (auto simp: begins_unpaired_def pairing_started_def popup_basic pairing_ops auth_ops other_ops split: option.splits)
qed

lemma begins_continue:
  assumes "mounted_ok s" "begins_unpaired s" "k \<in> snd ` set (pu_requests s)" "set rs \<subseteq> set (pu_requests s)"
  shows "begins_unpaired (continue env a k (s\<lparr>pu_requests := rs\<rparr>))"
proof -
  let ?s = "s\<lparr>pu_requests := rs\<rparr>"
  have un: "unconfirmed (continue env a k ?s)"
    using assms by (simp add: begins_unpaired_def unconfirmed_continue unconfirmed_fewer)
  show ?thesis
  proof (cases "pairing_started s")
    case True
    then have "pairing_started (continue env a k ?s)" using continue_sends [of _ ?s] by (fastforce simp: pairing_started_iff)
    then show ?thesis using un by (simp add: begins_unpaired_def)
  next
    case False
    then have open_s: "po_pairingState (pu_store s) = Unpaired" "\<And>i c. StartPairingAnswer i c \<notin> snd ` set (pu_requests s)"
      using assms(2) by (simp_all add: begins_unpaired_def)
    moreover have "unpaired_request k"
      using assms(2,3) open_s(2) unfolding begins_unpaired_def unconfirmed_def unpaired_request_def by blast
    moreover have "pn_run ?s = None" using assms(1) open_s(1) by (simp add: mounted_ok_def Let_def)
    moreover have "StartPairingAnswer i c \<notin> snd ` set rs" for i c using open_s(2) assms(4) by blast
    ultimately show ?thesis using un continue_pairing [of k ?s] by (simp add: begins_unpaired_def)
  qed
qed

interpretation beginning: popup_invariant begins_unpaired own_event
  by unfold_locales (auto simp: begins_work begins_click begins_continue begins_other)

end
