(* ===== verification/PopupView.thy ===== *)
theory PopupView
  imports Popup
begin

text \<open>
  What the panels of the popup show: the texts and the labelled buttons of each branch of their render functions, in order, without
  the layout, the icons and the attributes for assistive technology. The texts of dates are those the locale gives.
\<close>

section \<open>Items\<close>

datatype item = Say string | SayValue json | Push string button | Reload

definition pushes :: "item list \<Rightarrow> button list" where
  "pushes is = List.map_filter (\<lambda>i. case i of Push _ b \<Rightarrow> Some b | _ \<Rightarrow> None) is"

definition opt_say :: "string option \<Rightarrow> item list" where
  "opt_say t = (if truthy_text t then [Say (the t)] else [])"

definition opt_row :: "string \<Rightarrow> string option \<Rightarrow> item list" where
  "opt_row label t = (case t of Some x \<Rightarrow> [Say label, Say x] | None \<Rightarrow> [])"

lemma pushes_append [simp]: "pushes (is @ js) = pushes is @ pushes js"
  by (induction "is") (simp_all add: pushes_def split: option.split)

lemma pushes_simps [simp]:
  "pushes [] = []" "pushes (Say t # is) = pushes is" "pushes (SayValue j # is) = pushes is" "pushes (Push l b # is) = b # pushes is"
  "pushes (Reload # is) = pushes is" "pushes (opt_say o1) = []" "pushes (opt_row t o1) = []"
  by (simp_all add: pushes_def opt_say_def opt_row_def split: option.split)

lemma pushes_concat: "pushes (concat (map f xs)) = concat (map (\<lambda>x. pushes (f x)) xs)"
  by (induction xs) simp_all

section \<open>The pairing panel\<close>

definition remainingSeconds :: "millis \<Rightarrow> popup \<Rightarrow> int" where
  "remainingSeconds now s = max 0 (- ((- (SAS_TTL_MS - (now - pn_generatedAt s))) div 1000))"

definition symbols :: "json option \<Rightarrow> item list" where
  "symbols e = map SayValue (take 3 (nullish (jarr e) []))"

definition qr_render :: "millis \<Rightarrow> popup \<Rightarrow> item list" where
  "qr_render now s =
     (let st = pu_store s in
      if unable_to_connect now s then
        [Say ''Pairing'', Say ''Unable to Connect'', Say ''Check your network and try again.'', Push ''Retry'' ResetPairing]
      else
        [Say ''Pairing'', Say ''Scan with SmartID2 App'', Say ''Open the SmartID2 app on your phone and scan the QR code below.''] @
        (if truthy_text (po_sasCode st) \<and> po_sasMode st = NumericMode then
           [Say ''Verification code'', Say (the (po_sasCode st)), Say (''Expires in '' @ show_int (remainingSeconds now s) @ ''s'')] else []) @
        (if po_sasMode st = EmojiMode then [Say ''Devices will display matching symbols after scanning''] else []) @
        (if po_connectionState st = JStr ''reconnecting'' then [Say ''Reconnecting...''] else []) @
        (if po_connectionState st = JStr ''connected'' then [Say ''Connected''] else []) @
        [Push ''Cancel'' ResetPairing, Push (if po_sasMode st = EmojiMode then ''Use digits instead'' else ''Use emoji instead'') ToggleSasMode])"

definition comparison_render :: "app_store \<Rightarrow> item list" where
  "comparison_render st =
     (if po_sasMode st = NumericMode then
        [Say ''Pairing'', Say ''Verify Connection'', Say ''Confirm the code on your phone matches the code below.''] @ opt_say (po_sasCode st) @
        [Push ''Confirm'' ConfirmMatch, Push ''Cancel'' RejectMatch, Push ''Use emoji instead'' ToggleSasMode]
      else
        [Say ''Pairing'', Say ''Verify Symbols'', Say ''Do these symbols match your phone screen?''] @
        (if truthy (po_emojiSas st) then symbols (po_emojiSas st) else [Say ''Waiting for symbols...'']) @
        [Push ''Match'' ConfirmMatch, Push ''No Match'' RejectMatch, Push ''Use digits instead'' ToggleSasMode])"

definition pairing_render :: "millis \<Rightarrow> popup \<Rightarrow> item list" where
  "pairing_render now s =
     (let st = pu_store s in
      case po_pairingState st of
        Unpaired \<Rightarrow>
          [Say ''Pairing'', Say ''Pair with Phone'',
           Say ''Connect your Android phone to enable transaction verification via the SmartID2 companion app.'', Push ''Pair Phone'' PairPhone]
      | DisplayingQr \<Rightarrow> qr_render now s
      | AwaitingSasConfirmation \<Rightarrow> comparison_render st
      | WaitingForHandshake \<Rightarrow>
          [Say ''Pairing'', Say ''Connecting...'', Say ''Waiting for your phone to connect''] @
          (if truthy_text (po_sasCode st) then [Say ''Verification code: '', Say (the (po_sasCode st))] else []) @ [Push ''Cancel'' ResetPairing]
      | PairedPhone \<Rightarrow>
          [Say ''Pairing'', Say ''Paired!'', Say ''Successfully connected to your phone''] @ opt_say (po_deviceName st) @
          (if truthy (po_emojiSas st) then symbols (po_emojiSas st) else [])
      | PairingFailed \<Rightarrow>
          [Say ''Pairing'', Say ''Pairing Failed'', Say (nullish (po_pairingError st) ''An unknown error occurred''), Push ''Try Again'' ResetPairing])"

section \<open>Session, authentication and transaction\<close>

definition session_render :: "popup \<Rightarrow> item list" where
  "session_render s =
     (case po_sessionState (pu_store s) of
        ExpiredSession \<Rightarrow>
          [Say ''Session expired'', Say ''Your session has timed out. Please re-authenticate.'', Push ''Re-authenticate'' ReauthSession]
      | ExpiringSession \<Rightarrow> [Say ''Session expiring in '', Say (timeDisplay (nat (sn_remaining s)))]
      | _ \<Rightarrow> [Say ''Session: '', Say (timeDisplay (nat (sn_remaining s)))])"

fun renderAssertionStatus :: "assertion_status \<Rightarrow> string option \<Rightarrow> item list" where
  "renderAssertionStatus AsPending e = [Say ''Waiting for biometric verification...'', Say ''Touch your fingerprint sensor or use Face ID'']"
| "renderAssertionStatus AsVerified e = [Say ''Transaction verified via Challenge-Bound WebAuthn'']"
| "renderAssertionStatus AsTimeout e = [Say ''Biometric verification timed out'', Say ''Please try again'']"
| "renderAssertionStatus AsError e = Say ''Verification failed'' # opt_say e"
| "renderAssertionStatus AsIdle e = []"

definition truthy_time :: "millis option \<Rightarrow> bool" where
  "truthy_time t \<longleftrightarrow> (case t of Some e \<Rightarrow> e \<noteq> 0 | None \<Rightarrow> False)"

definition context_render :: "transaction_data \<Rightarrow> item list" where
  "context_render d =
     (if has_context d then
        [Say ''Transaction Context''] @ opt_row ''Recipient'' (td_recipient d) @ opt_row ''Amount'' (td_amount d) @
        opt_row ''Origin'' (td_origin d) @ opt_row ''Control Code'' (td_controlCode d) @
        [Say ''This transaction will be cryptographically bound to your biometric verification'']
      else [Say ''Verify your identity to enable transaction signing on this device.''])"

definition auth_render :: "popup \<Rightarrow> item list" where
  "auth_render s =
     (let st = pu_store s; status_items = renderAssertionStatus (po_assertionStatus st) (po_assertionError st);
          hasContext = has_context (po_transactionData st) in
      Say ''Authentication'' #
      (if au_checking s then []
       else if po_sessionState st = ExpiredSession \<and> truthy_time (po_sessionExpiry st) then
         [Say ''Authentication''] @ session_render s @ [Push ''Re-authenticate'' ReauthAll]
       else if po_sessionState st = ActiveSession \<or> po_sessionState st = ExpiringSession then
         [Say ''Authentication''] @ (if truthy_time (po_sessionExpiry st) then session_render s else []) @ [Say ''Session active'']
       else if po_assertionStatus st = AsVerified then [Say ''Transaction Verified''] @ status_items @ [Push ''Dismiss'' Dismiss]
       else
         [Say (if hasContext then ''Verify Transaction'' else ''Authenticate'')] @ context_render (po_transactionData st) @ status_items @
         (if List.member [AsIdle, AsTimeout, AsError] (po_assertionStatus st) then
           [Push (if po_assertionStatus st = AsTimeout then ''Try Again'' else if hasContext then ''Verify with Biometrics'' else ''Authenticate'')
              Authenticate]
          else []) @
         opt_say (au_error s)))"

definition transaction_render :: "popup \<Rightarrow> item list" where
  "transaction_render s =
     (let st = pu_store s; d = po_transactionData st in
      Say ''Transaction Verification'' #
      (case po_transactionState st of
         TxConfirmed \<Rightarrow> [Say ''Confirmed'', Say ''Transaction verified on your phone'', Push ''Done'' NewTransaction]
       | TxRejected \<Rightarrow> [Say ''Rejected'', Say (nullish (tp_error s) ''Transaction was rejected on your phone''), Push ''OK'' NewTransaction]
       | _ \<Rightarrow>
           [Say ''Transaction''] @ (if truthy_time (po_sessionExpiry st) then session_render s else []) @
           (if has_context d then
             (if truthy_text (td_recipient d) then [Say ''Recipient'', Say (the (td_recipient d))] else []) @
             (if truthy_text (td_amount d) then [Say ''Amount'', Say (the (td_amount d))] else [])
            else [Say ''No transaction detected'']) @
           (if has_context d \<and> po_transactionState st = TxIdle then [Push ''Verify on Phone'' VerifyOnPhone] else []) @
           (if po_transactionState st = TxVerifying then
             [Say ''Waiting for phone verification...'', Say ''Challenge-Bound WebAuthn assertion in progress''] else [])))"

section \<open>Credentials\<close>

definition on_domain :: "string \<Rightarrow> app_store \<Rightarrow> item list" where
  "on_domain t st = (if truthy_text (po_credentialDomain st) then [Say (t @ the (po_credentialDomain st))] else [])"

definition status_or :: "string \<Rightarrow> app_store \<Rightarrow> string" where
  "status_or t st = (if truthy_text (po_credentialStatus st) then the (po_credentialStatus st) else t)"

text \<open>There is no branch for a credential that is being filled.\<close>

definition credential_render :: "app_store \<Rightarrow> item list" where
  "credential_render st =
     (let titled = (\<lambda>h rest. [Say ''Credential Auto-Fill'', Say h] @ rest) in
      case po_credentialState st of
        CredFilled \<Rightarrow> titled ''Credentials filled'' (on_domain ''Automatically filled on '' st)
      | CredNotFound \<Rightarrow> titled ''No credentials found'' (on_domain ''No saved credentials for '' st)
      | CredRequesting \<Rightarrow> titled ''Requesting credentials'' (on_domain ''Contacting phone for '' st)
      | CredWaitingPhone \<Rightarrow> titled ''Waiting for phone authentication...'' (on_domain ''Approve on your phone to fill '' st)
      | CredDetecting \<Rightarrow> titled (status_or ''Login detected'' st) (on_domain ''on '' st)
      | CredError \<Rightarrow> titled ''Credential error'' [Say (status_or ''An error occurred'' st)]
      | _ \<Rightarrow> [])"

section \<open>Domains and devices\<close>

definition prompt_render :: "popup \<Rightarrow> item list" where
  "prompt_render s =
     (let ds = po_pendingDomains (pu_store s) in
      if ds = [] then []
      else [Say ''New Domain''] @ opt_say (dp_error s) @
        concat (map (\<lambda>d. [Say d, Say ''Allow credential auto-fill for this domain?'', Push ''Allow'' (AllowDomain d), Push ''Deny'' (DenyDomain d)])
          (names_of ''domain'' ds)))"

definition settings_render :: "(json option \<Rightarrow> string) \<Rightarrow> popup \<Rightarrow> item list" where
  "settings_render dateText s =
     (let ds = po_approvedDomains (pu_store s) in
      [Say ''Approved Domains'', Push ''Back'' SettingsBack] @ opt_say (se_error s) @
      (if se_loading s then [Say ''Loading...'']
       else if ds = [] then [Say ''No approved domains'']
       else concat (map (\<lambda>j. case jstr (jget j ''domain'') of
          Some d \<Rightarrow> [Say d, Say (dateText (jget j ''registeredAt'')), Push ''Revoke'' (RevokeDomain d)] | None \<Rightarrow> []) ds)))"

definition connection_title :: "app_store \<Rightarrow> string" where
  "connection_title st =
     (if po_connectionState st = JStr ''connected'' then ''Connected''
      else if po_connectionState st = JStr ''connecting'' \<or> po_connectionState st = JStr ''reconnecting'' then ''Connecting...'' else ''Disconnected'')"

text \<open>The radio button of a device is the button labelled with the switch to it; while another switch is under way, and where it is
  checked, it cannot be pressed. A button that is disabled is a text.\<close>

definition device_render :: "(json option \<Rightarrow> string) \<Rightarrow> popup \<Rightarrow> json \<Rightarrow> item list" where
  "device_render dateText s d =
     (case jstr (jget d ''deviceId'') of
        None \<Rightarrow> []
      | Some i \<Rightarrow>
          (let active = truthy (jget d ''isActive''); deviceName = nullish (jstr (jget d ''name'')) [] in
           (if dl_switching s = None \<and> \<not> active then [Push (''Switch to '' @ deviceName) (SwitchTo i)] else [Say (''Switch to '' @ deviceName)]) @
           [Say deviceName] @ (if active then [Say (connection_title (pu_store s))] else []) @ [Say (''Last seen: '' @ dateText (jget d ''lastSeen''))] @
           (if dl_switching s = Some i then [Say ''Switching...''] else []) @
           (if dl_confirmRevoke s = Some i then
             (if dl_revoking s = None then [Push ''Confirm'' (ConfirmForget i), Push ''Cancel'' CancelForget]
              else [Say (if dl_revoking s = Some i then ''Revoking...'' else ''Confirm''), Say ''Cancel''])
            else [Push ''Forget'' (ForgetDevice i)])))"

definition devices_render :: "(json option \<Rightarrow> string) \<Rightarrow> popup \<Rightarrow> item list" where
  "devices_render dateText s =
     (if dl_loading s then [Say ''Loading devices...'']
      else [Say ''Paired Devices'', Push ''Back'' DevicesBack] @ opt_say (dl_error s) @
        (if dl_devices s = [] then [Say ''No paired devices''] else concat (map (device_render dateText s) (dl_devices s))))"

section \<open>Attestation, and errors while rendering\<close>

definition statusLabels :: "string \<Rightarrow> string option" where
  "statusLabels = map_of [(''verified'', ''Attestation Verified''), (''dom_only'', ''DOM-only (no attestation)''), (''rat_detected'', ''RAT Attack Detected!'')]"

definition say_value :: "json option \<Rightarrow> item list" where
  "say_value j = (case j of Some v \<Rightarrow> [SayValue v] | None \<Rightarrow> [])"

text \<open>A left value is the message of the error that reading a property of undefined throws.\<close>

definition attestation_render :: "popup \<Rightarrow> string + item list" where
  "attestation_render s =
     (let a = po_attestation (pu_store s); kind = nullish (jstr (jget a ''type'')) [];
          attested = kind = ''verified'' \<or> kind = ''rat_detected'' in
      if kind = ''not_applicable'' then Inr []
      else if attested \<and> jget a ''attestedCode'' = None then Inl ''Cannot read properties of undefined (reading 'rpDomain')''
      else Inr ([Say (nullish (statusLabels kind) kind)] @ (if ak_refreshing s then [Say ''...''] else [Push ''Refresh Keys'' RefreshKeys]) @
        (if attested then
          (let c = the (jget a ''attestedCode'') in [Say ''Domain: ''] @ say_value (jget c ''rpDomain'') @ [Say ''Code: ''] @ say_value (jget c ''controlCode''))
         else []) @
        (if kind = ''rat_detected'' then
          [Say ''Control code mismatch! Using attested (server-signed) code.'', Say ''DOM code: ''] @ say_value (jget a ''domCode'') else []) @
        (if kind = ''dom_only'' then [Say ''No server attestation header received.''] else []) @
        opt_say (ak_result s)))"

definition getDerivedStateFromError :: "string \<Rightarrow> bool \<times> string option" where
  "getDerivedStateFromError e = (True, Some e)"

definition boundary_render :: "bool \<times> string option \<Rightarrow> item list \<Rightarrow> item list" where
  "boundary_render state children =
     (if fst state then
        [Say ''SmartID2'', Say ''Something went wrong'', Say ''An unexpected error occurred.'', Say (nullish (snd state) ''Unknown error''), Reload]
      else children)"

definition bounded :: "string + item list \<Rightarrow> item list" where
  "bounded r = (case r of Inl e \<Rightarrow> boundary_render (getDerivedStateFromError e) [] | Inr is \<Rightarrow> boundary_render (False, None) is)"

section \<open>The whole popup\<close>

fun panel_render :: "millis \<Rightarrow> popup \<Rightarrow> panel \<Rightarrow> item list" where
  "panel_render now s PairingPanel = pairing_render now s"
| "panel_render now s AuthPanel = auth_render s"
| "panel_render now s TransactionPanel = transaction_render s"
| "panel_render now s CredentialPanel = credential_render (pu_store s)"
| "panel_render now s LoadingPanel = [Say ''Loading...'']"

fun view_render :: "(json option \<Rightarrow> string) \<Rightarrow> millis \<Rightarrow> popup \<Rightarrow> popup_view \<Rightarrow> item list" where
  "view_render dateText now s SettingsView = settings_render dateText s"
| "view_render dateText now s DevicesView = devices_render dateText s"
| "view_render dateText now s (MainView p) = prompt_render s @ panel_render now s p @ bounded (attestation_render s)"

definition popup_render :: "(json option \<Rightarrow> string) \<Rightarrow> millis \<Rightarrow> popup \<Rightarrow> item list" where
  "popup_render dateText now s =
     [Say ''SmartID2'', Say ''Secure Transaction Verification'', Push ''Devices'' DevicesButton, Push ''Settings'' SettingsButton] @
     view_render dateText now s (PopupApp (pu_store s)) @ [Say ''SmartID2 Extension v1'']"

section \<open>The indicator of the transport\<close>

text \<open>\<open>TransportIndicator\<close>, which no panel mounts: the store, whether it is mounted, whether the note is shown, the timers that hide it.\<close>

record indicator =
  ti_store :: app_store
  ti_mounted :: bool
  ti_showToast :: bool
  ti_timers :: nat

definition indicator_answer :: "reply \<Rightarrow> indicator \<Rightarrow> indicator" where
  "indicator_answer r x =
     (case r of
        Inr (Some m) \<Rightarrow>
          if \<not> ti_mounted x \<or> \<not> mr_success m then x
          else x\<lparr>ti_store := (ti_store x)\<lparr>
            po_activeTransport := (if truthy (data_of m ''activeTransport'') then data_of m ''activeTransport'' else po_activeTransport (ti_store x)),
            po_usbAvailable := nullish (data_of m ''usbAvailable'') (po_usbAvailable (ti_store x))\<rparr>\<rparr>
      | _ \<Rightarrow> x)"

definition indicator_message :: "string \<Rightarrow> json option \<Rightarrow> indicator \<Rightarrow> indicator" where
  "indicator_message type payload x =
     (if type = ''transport-changed'' \<and> truthy payload then
        x\<lparr>ti_store := (ti_store x)\<lparr>po_activeTransport := jget (the payload) ''current'', po_transportChangeMessage := jstr (jget (the payload) ''reason'')\<rparr>,
          ti_showToast := True, ti_timers := Suc (ti_timers x)\<rparr>
      else x)"

definition toast_timer :: "indicator \<Rightarrow> indicator" where
  "toast_timer x =
     (if ti_timers x = 0 then x
      else if ti_mounted x then x\<lparr>ti_store := (ti_store x)\<lparr>po_transportChangeMessage := None\<rparr>, ti_showToast := False, ti_timers := ti_timers x - 1\<rparr>
      else x\<lparr>ti_timers := ti_timers x - 1\<rparr>)"

definition indicator_render :: "indicator \<Rightarrow> item list" where
  "indicator_render x =
     (let st = ti_store x; usb = po_activeTransport st = Some (JStr ''usb''); label = (if usb then ''USB'' else ''WebRTC'') in
      if \<not> truthy (po_activeTransport st) then [Say ''No transport'']
      else [Say label] @ (if truthy (Some (po_usbAvailable st)) \<and> \<not> usb then [Say ''(USB available)''] else []) @
        (if ti_showToast x \<and> truthy_text (po_transportChangeMessage st)
         then [Say (''Switched to '' @ label @ '': '' @ the (po_transportChangeMessage st))] else []))"

section \<open>Buttons shown and buttons that work\<close>

lemma pushes_symbols [simp]: "pushes (symbols e) = []"
proof -
  have "pushes (map SayValue js) = []" for js by (induction js) simp_all
  then show ?thesis by (simp add: symbols_def)
qed

lemma pushes_assertion [simp]: "pushes (renderAssertionStatus a e) = []" by (cases a) simp_all

lemma pushes_context [simp]: "pushes (context_render d) = []" by (simp add: context_render_def)

lemma pushes_pairing:
  "pushes (pairing_render now s) = (if po_pairingState (pu_store s) = DisplayingQr \<and> unable_to_connect now s then [ResetPairing]
     else pairing_buttons (po_pairingState (pu_store s)))"
  by (cases "po_pairingState (pu_store s)") (simp_all add: pairing_render_def qr_render_def comparison_render_def Let_def)

lemma pushes_session [simp]:
  "pushes (session_render s) = (if po_sessionState (pu_store s) = ExpiredSession then [ReauthSession] else [])"
  by (cases "po_sessionState (pu_store s)") (simp_all add: session_render_def)

lemma pushes_auth:
  assumes "PopupApp (pu_store s) = MainView AuthPanel"
  shows "pushes (auth_render s) = auth_buttons s"
proof -
  have count: "countdown s = None \<longleftrightarrow>
      \<not> (\<not> au_checking s \<and> po_sessionState (pu_store s) = ExpiredSession \<and> truthy_time (po_sessionExpiry (pu_store s)))"
    using assms by (auto simp: countdown_def truthy_time_def Let_def split: option.splits if_splits)
  show ?thesis
    by (cases "po_assertionStatus (pu_store s)"; simp add: auth_render_def auth_buttons_def count Let_def del: not_None_eq)
qed

lemma pushes_transaction:
  assumes "PopupApp (pu_store s) = MainView TransactionPanel"
  shows "pushes (transaction_render s) = transaction_buttons (pu_store s)"
proof -
  have "po_sessionState (pu_store s) \<noteq> ExpiredSession"
    using assms by (auto simp: PopupApp_def PanelRouter_def split: if_splits)
  then show ?thesis
    by (cases "po_transactionState (pu_store s)") (simp_all add: transaction_render_def transaction_buttons_def Let_def)
qed

lemma pushes_credential [simp]: "pushes (credential_render st) = []"
  by (cases "po_credentialState st") (simp_all add: credential_render_def on_domain_def)

lemma pushes_prompt:
  "pushes (prompt_render s) = concat (map (\<lambda>d. [AllowDomain d, DenyDomain d]) (names_of ''domain'' (po_pendingDomains (pu_store s))))"
  by (simp add: prompt_render_def pushes_concat names_of_def Let_def)

lemma pushes_attestation:
  "pushes (bounded (attestation_render s)) =
     (if jget (po_attestation (pu_store s)) ''type'' = Some (JStr ''not_applicable'') \<or> ak_refreshing s \<or> attestation_render s \<notin> range Inr then []
      else [RefreshKeys])"
proof -
  have say: "pushes (say_value j) = []" for j by (simp add: say_value_def split: option.split)
  have named: "nullish (jstr x) [] = ''not_applicable'' \<longleftrightarrow> x = Some (JStr ''not_applicable'')" for x
    by (cases x rule: jstr.cases) auto
  show ?thesis
    by (auto simp: attestation_render_def bounded_def boundary_render_def getDerivedStateFromError_def say named Let_def)
qed

lemma pushes_settings: "pushes (settings_render dateText s) = view_buttons s SettingsView"
proof -
  have "pushes (concat (map (\<lambda>j. case jstr (jget j ''domain'') of
      Some d \<Rightarrow> [Say d, Say (dateText (jget j ''registeredAt'')), Push ''Revoke'' (RevokeDomain d)] | None \<Rightarrow> []) js))
    = map RevokeDomain (names_of ''domain'' js)" for js
    by (induction js) (simp_all add: names_of_def split: option.split)
  then show ?thesis by (simp add: settings_render_def names_of_def Let_def)
qed

lemma pushes_devices: "pushes (devices_render dateText s) = view_buttons s DevicesView"
proof -
  have "pushes (device_render dateText s d) = device_buttons s d" for d
    by (simp add: device_render_def device_buttons_def Let_def split: option.split)
  then show ?thesis by (simp add: devices_render_def pushes_concat)
qed


text \<open>with symbols chosen, the screen with the code does not say the digits: its texts and buttons are the same whatever they are.\<close>

theorem digits_hidden_in_emoji_mode:
  assumes "po_pairingState (pu_store s) = DisplayingQr" "po_sasMode (pu_store s) = EmojiMode"
  shows "pairing_render now (upd (\<lambda>st. st\<lparr>po_sasCode := c\<rparr>) s) = pairing_render now s"
  using assms by (simp add: pairing_render_def qr_render_def upd_def unable_to_connect_def Let_def)

text \<open>The timer of a note hides the next note too, if that came within its three seconds.\<close>

lemma note_cut_short:
  assumes "ti_mounted x" "ti_timers x = 0" "truthy p" "truthy q"
  shows "\<not> ti_showToast (toast_timer (indicator_message ''transport-changed'' q (indicator_message ''transport-changed'' p x)))"
  using assms by (simp add: toast_timer_def indicator_message_def)

text \<open>The credential that is being filled has an empty panel.\<close>

lemma filling_shows_nothing: "po_credentialState st = CredFilling \<Longrightarrow> credential_render st = []"
  by (simp add: credential_render_def)

text \<open>the countdown can be read back. Minutes and seconds of the text, which always has two digits of seconds, give the number of
  seconds that remain.\<close>

theorem countdown_text_exact:
  defines "mins n \<equiv> takeWhile (\<lambda>c. c \<noteq> CHR '':'') (timeDisplay n)" and "secs n \<equiv> tl (dropWhile (\<lambda>c. c \<noteq> CHR '':'') (timeDisplay n))"
  shows "60 * read_nat (mins n) + read_nat (secs n) = n \<and> length (secs n) = 2 \<and> read_nat (secs n) < 60"
proof -
  have "\<not> is_digit_char (CHR '':'')" by code_simp
  then have colon: "c \<noteq> CHR '':''" if "c \<in> set (show_nat m)" for c m using show_nat_digits [of m] that by (auto simp: list_all_iff)
  have parts: "mins n = show_nat (n div 60)" "secs n = pad2 (show_nat (n mod 60))"
    using colon by (auto simp: mins_def secs_def timeDisplay_def takeWhile_append2 dropWhile_append2)
  have "read_nat (CHR ''0'' # xs) = read_nat xs" for xs by (simp add: read_nat_def digit_val_def)
  moreover have "show_nat k = (if k < 10 then [digit_char k] else [digit_char (k div 10), digit_char (k mod 10)])" if "k < 60" for k
    using that by (subst show_nat.simps, subst show_nat.simps) auto
  ultimately have two: "length (pad2 (show_nat k)) = 2 \<and> read_nat (pad2 (show_nat k)) = k" if "k < 60" for k
    using that by (simp add: pad2_def) (simp add: read_nat_def digit_val_def)
  show ?thesis using two [of "n mod 60"] by (simp add: parts read_show_nat)
qed

end
