(* ===== verification/PopupBackground.thy ===== *)
theory PopupBackground
  imports PopupFlow
begin

text \<open>
  What the popup does over every sequence of events, and what it does together with the handlers of the background.
\<close>

section \<open>Opening\<close>

definition popup_after :: "millis \<Rightarrow> (popup_env \<times> popup_event) list \<Rightarrow> popup" where
  "popup_after now es = fold popup_exec es (popup_open now)"

lemma opened:
  "unconfirmed (popup_open now)" "no_transaction_seen (popup_open now)" "failures_explained (popup_open now)" "begins_unpaired (popup_open now)"
proof -
  have panel: "PopupApp useAppStore = MainView PairingPanel" by (simp add: PopupApp_def PanelRouter_def useAppStore_def)
  have fields: "pu_sent (popup_open now) = [GetAttestationStatus, GetPendingDomains]" "pu_store (popup_open now) = useAppStore"
    "snd ` set (pu_requests (popup_open now)) = {AttestationAnswer, PendingDomainsAnswer}"
    by (simp_all add: popup_open_def panel ask_def blank_popup_def)
  show un: "unconfirmed (popup_open now)" by (simp add: unconfirmed_def fields)
  show "no_transaction_seen (popup_open now)"
    by (simp add: no_transaction_seen_def fields useAppStore_def no_transaction_def has_context_def)
  show "failures_explained (popup_open now)" by (simp add: failures_explained_def fields useAppStore_def)
  show "begins_unpaired (popup_open now)" using un by (simp add: begins_unpaired_def fields useAppStore_def)
qed

section \<open>Pairing\<close>

text \<open>C9: the popup never confirms and never rejects a pairing. Whatever the user, the background and the clock do, also if another
  script updates the store, neither of the two messages is sent and neither button is shown: \<open>PanelRouter\<close> has no case for the state
  in which \<open>PairingPanel\<close> would show them.\<close>

theorem pairing_never_confirmed:
  "let s = popup_after now es
   in PairingConfirmed \<notin> set (pu_sent s) \<and> PairingRejected \<notin> set (pu_sent s) \<and> ConfirmMatch \<notin> set (shown s) \<and> RejectMatch \<notin> set (shown s)"
proof -
  have "mounted_ok (popup_open now) \<and> unconfirmed (popup_open now)" by (simp add: mounted_open opened)
  from confirming.inv_run [OF this] have "unconfirmed (fold popup_exec es (popup_open now))" by (simp add: list_all_iff)
  then show ?thesis by (simp add: popup_after_def Let_def unconfirmed_def confirmation_not_shown)
qed

definition awaits_confirmation :: "popup \<Rightarrow> bool" where
  "awaits_confirmation s \<longleftrightarrow> unconfirmed s \<and> po_pairingState (pu_store s) = AwaitingSasConfirmation
     \<and> (\<forall>i c. StartPairingAnswer i c \<notin> snd ` set (pu_requests s))"

lemma pairing_not_shown:
  assumes "po_pairingState (pu_store s) = AwaitingSasConfirmation"
  shows "PairPhone \<notin> set (shown s)" "ResetPairing \<notin> set (shown s)"
proof -
  have "PairPhone \<notin> set (device_buttons s d) \<and> ResetPairing \<notin> set (device_buttons s d)" for d
    by (simp add: device_buttons_def split: option.split)
  then show "PairPhone \<notin> set (shown s)" "ResetPairing \<notin> set (shown s)"
    using assms by (auto simp: shown_def PopupApp_def PanelRouter_def prompt_buttons_def)
qed

lemma awaits_work: "same_work s s' \<Longrightarrow> awaits_confirmation s \<Longrightarrow> awaits_confirmation s'"
  by (simp add: awaits_confirmation_def unconfirmed_work same_workD)

lemma awaits_click:
  assumes "awaits_confirmation s" "b \<in> set (shown s)"
  shows "awaits_confirmation (popup_click env b s)"
proof -
  have "unconfirmed (popup_click env b s)" using assms unconfirmed_click by (simp add: awaits_confirmation_def)
  then show ?thesis using assms confirmation_not_shown [of s] pairing_not_shown [of s]
    by (cases b) (auto simp: awaits_confirmation_def popup_basic pairing_ops auth_ops domain_ops device_ops other_ops)
qed

lemma awaits_idle:
  assumes "mounted_ok s" "awaits_confirmation s"
  shows "pn_run s = None"
  using assms by (simp add: mounted_ok_def awaits_confirmation_def Let_def)

lemma awaits_continue:
  assumes "mounted_ok s" "awaits_confirmation s" "k \<in> snd ` set (pu_requests s)" "set rs \<subseteq> set (pu_requests s)"
  shows "awaits_confirmation (continue env a k (s\<lparr>pu_requests := rs\<rparr>))"
proof -
  let ?s = "s\<lparr>pu_requests := rs\<rparr>"
  have "unpaired_request k"
    using assms(2,3) unfolding awaits_confirmation_def unconfirmed_def unpaired_request_def by blast
  moreover have "StartPairingAnswer i c \<notin> snd ` set rs" for i c using assms(2,4) unfolding awaits_confirmation_def by blast
  ultimately show ?thesis
    using assms continue_pairing [of k ?s] awaits_idle [OF assms(1,2)] unconfirmed_continue [OF unconfirmed_fewer [of s rs]]
    by (simp add: awaits_confirmation_def)
qed

lemma awaits_other:
  assumes "mounted_ok s" "awaits_confirmation s" "\<not> handled e" "own_event e"
  shows "awaits_confirmation (popup_step env e s)"
  using assms unconfirmed_other [of s e env] awaits_idle [OF assms(1,2)]
  by (cases e) (auto simp: awaits_confirmation_def popup_basic pairing_ops auth_ops other_ops split: option.splits)

interpretation awaiting: popup_invariant awaits_confirmation own_event
  by unfold_locales (auto simp: awaits_work awaits_click awaits_continue awaits_other)


text \<open>the popup opens unpaired. It shows a paired phone only after it has asked for a new pairing itself in this opening,
  also when the phone has long been paired: nothing but the polling of the pairing panel reads the stored pairing.\<close>

theorem popup_opens_unpaired:
  fixes now :: millis
  assumes "list_all (\<lambda>x. own_event (snd x)) es"
  defines "s \<equiv> popup_after now es"
  shows "po_pairingState (pu_store s) = Unpaired \<or> pairing_started s"
proof -
  have "mounted_ok (popup_open now) \<and> begins_unpaired (popup_open now)" by (simp add: mounted_open opened)
  from beginning.inv_run [OF this assms(1)] show ?thesis by (auto simp: s_def popup_after_def begins_unpaired_def)
qed

section \<open>Well-formed states\<close>


section \<open>Transactions\<close>

text \<open>C17: no transaction reaches the popup. Its store never gets an amount or a recipient from the events of the extension, so the
  popup never starts a challenge assertion and never asks for the verification of a transaction.\<close>

theorem popup_sees_no_transaction:
  fixes now :: millis
  assumes "list_all (\<lambda>x. own_event (snd x)) es"
  defines "s \<equiv> popup_after now es"
  shows "td_amount (po_transactionData (pu_store s)) = None \<and> td_recipient (po_transactionData (pu_store s)) = None
    \<and> BeginChallengeAssertion a r \<notin> set (pu_sent s) \<and> VerifyTransaction a r \<notin> set (pu_sent s)"
proof -
  have "mounted_ok (popup_open now) \<and> no_transaction_seen (popup_open now)" by (simp add: mounted_open opened)
  from transacting.inv_run [OF this assms(1)] show ?thesis by (auto simp: s_def popup_after_def no_transaction_seen_def has_context_def)
qed

section \<open>With the background\<close>

text \<open>C29: the verdict shown is the phone's. When the handler has answered, the transaction is shown as confirmed exactly if there was
  something to verify, a command client was ready and the phone confirmed; in every other case it is shown as rejected.\<close>

theorem verdict_shown:
  fixes env :: "('t, 'ck) henv" and amount recipient :: "string option" and sndr b
  defines "m \<equiv> fst (handle env sndr (VerifyTransaction amount recipient) b)"
  shows "po_transactionState (pu_store (verify_answer inst (Inr (Some m)) s)) =
    (if (truthy_text amount \<or> truthy_text recipient) \<and> ss_cmdClient (bg_store b) \<and> pw_commandClient (bg_pairing b) \<noteq> None
        \<and> (case he_command env of Inr response \<Rightarrow> rsp_status response = ''confirmed'' | Inl _ \<Rightarrow> False)
     then TxConfirmed else TxRejected)"
  by (auto simp: m_def verify_transaction_def verify_answer_def strict_def data_of_def tx_rejected_def upd_def fail_def error_response_def ok_def
      ok_response_def Let_def split: sum.split option.splits)

text \<open>C21: revoking a domain in the settings does not revoke it. The handler answers with a success and the panel drops the domain
  from its list, but every domain is as approved as before, and its content script stays registered; the list that the background
  gives the next time has it again.\<close>

theorem settings_revoke_keeps_approval:
  fixes env :: "('t, 'ck) henv" and d :: string and s :: popup and sndr b inst
  assumes "jarr (data_of (fst (handle env sndr GetApprovedDomains b)) ''domains'') = Some (po_approvedDomains (pu_store s))"
  defines "m \<equiv> fst (handle env sndr (DomainDenied d) b)" and "b' \<equiv> snd (handle env sndr (DomainDenied d) b)"
  defines "s' \<equiv> revokeDomain_answer inst d (po_approvedDomains (pu_store s)) (Inr (Some m)) s"
  shows "mr_success m \<and> d \<notin> set (names_of ''domain'' (po_approvedDomains (pu_store s')))
    \<and> isDomainApproved e (bg_csm b') = isDomainApproved e (bg_csm b) \<and> bg_scripts b' = bg_scripts b
    \<and> jarr (data_of (fst (handle env sndr GetApprovedDomains b')) ''domains'') = Some (po_approvedDomains (pu_store s))"
proof -
  have same: "getApprovedDomains (bg_csm b') = getApprovedDomains (bg_csm b)" "bg_scripts b' = bg_scripts b"
    by (simp_all add: b'_def with_csm_def domain_denied_def bg_csm_def bg_store_update_def bg_store_def pw_store_def getApprovedDomains_def
      addDeniedDomain_def removePendingDomain_def updateBadgeCount_def setPendingDomains_def Let_def)
  have named: "jstr x = Some d \<longleftrightarrow> x = Some (JStr d)" for x by (cases x rule: jstr.cases) auto
  have "d \<notin> set (names_of ''domain'' (filter (other_domain d) js))" for js
    by (induction js) (auto simp: names_of_def map_filter_simps other_domain_def named split: option.splits)
  then show ?thesis
    using same assms(1)
    by (simp add: m_def s'_def with_csm_def domain_denied_def ok_response_def ok_def revokeDomain_answer_def replied_ok_def upd_def
      isDomainApproved_def get_approved_domains_def data_of_def domains_json_def)
qed

definition listed_devices :: "('t, 'ck) background \<Rightarrow> json list option" where
  "listed_devices b = jarr (data_of (fst (get_devices b)) ''devices'')"

definition shown_active :: "json list \<Rightarrow> json list" where
  "shown_active js = filter (\<lambda>d. truthy (jget d ''isActive'')) js"

lemma get_devices_list:
  "listed_devices b = (let r = ensureLoaded (pw_registry (bg_pairing b)) in Some (map (device_json_of (cachedActiveId r)) (devs r)))"
  by (simp add: listed_devices_def get_devices_def with_registry_pair listDevices_def getActiveDeviceId_def ok_def ok_response_def data_of_def
      Let_def)

text \<open>C23: revoking the active device in the device list. If other devices remain, the background makes one of them active, while the
  panel, which showed the devices as the background lists them, shows none as active.\<close>

theorem revoked_active_device_view:
  fixes env :: "('t, 'ck) henv" and i :: string and s :: popup and sndr b inst
  defines "r \<equiv> ensureLoaded (pw_registry (bg_pairing b))"
  assumes "listed_devices b = Some (dl_devices s)" "pu_devices s = Some inst"
    and "cachedActiveId r = Some i" "\<exists>d \<in> set (devs r). deviceId d = i" "\<exists>d \<in> set (devs r). deviceId d \<noteq> i"
  defines "m \<equiv> fst (handle env sndr (RevokeDevice i) b)" and "b' \<equiv> snd (handle env sndr (RevokeDevice i) b)"
  shows "mr_success m \<and> shown_active (dl_devices (revoke_answer inst i (Inr (Some m)) s)) = []
    \<and> (\<exists>js. listed_devices b' = Some js \<and> shown_active js \<noteq> [])"
proof -
  have "find_device i (devs r) \<noteq> None" using assms(5) by (auto simp: find_device_def find_None_iff)
  then obtain d where d: "find_device i (devs r) = Some d" by blast
  have loaded: "ensureLoaded r = r" by (simp add: r_def)
  obtain e es where rest: "filter (\<lambda>x. deviceId x \<noteq> i) (devs r) = e # es"
    using assms(6) by (cases "filter (\<lambda>x. deviceId x \<noteq> i) (devs r)") (auto simp: filter_empty_conv)
  have init: "reg_initialized r" by (simp add: r_def)
  obtain r' where revoked: "revokeDevice (he_keypair env) (he_now env) i r = (Inr (), r')" and
      r': "reg_initialized r'" "cachedActiveId r' = Some (deviceId e)" "cachedDevices r' = Some (e # es)"
    using init assms(4) by (simp add: revokeDevice_def loaded d rest next_active_def persist_def persist_session_def persist_local_def Let_def)
  have m: "m = ok_response [(''deviceId'', JStr i)]"
    and same: "\<exists>r2. pw_registry (bg_pairing b') = r2 \<and> reg_initialized r2 \<and> cachedActiveId r2 = cachedActiveId r' \<and> cachedDevices r2 = cachedDevices r'"
    using revoked r'(1)
    by (simp_all add: m_def b'_def revoke_device_def with_registry_pair getActiveDeviceId_def loaded r_def [symmetric] ok_def bg_store_update_def Let_def)
  then have "listed_devices b' = Some (map (device_json_of (Some (deviceId e))) (e # es))"
    using r' by (auto simp: get_devices_list ensureLoaded_def devs_def Let_def)
  then have "\<exists>js. listed_devices b' = Some js \<and> shown_active js \<noteq> []" by (auto simp: shown_active_def device_json_of_def)
  moreover have "dl_devices s = map (device_json_of (Some i)) (devs r)" using assms by (simp add: get_devices_list Let_def)
  then have "shown_active (dl_devices (revoke_answer inst i (Inr (Some m)) s)) = []"
    using assms(3) by (auto simp: m revoke_answer_def replied_ok_def ok_response_def shown_active_def filter_empty_conv device_json_of_def)
  ultimately show ?thesis using m by (simp add: ok_response_def)
qed

text \<open>a code that is drawn again has lost its commitment. When the settings are opened and closed while the code is displayed,
  the panel is a new one without the address it had built, and it draws the address of the bare code, without nonce and commitment.\<close>

theorem redrawn_code_lacks_commitment:
  assumes "\<not> pu_closed s" "PopupApp (pu_store s) = MainView PairingPanel" "po_pairingState (pu_store s) = DisplayingQr"
    and "po_sasCode (pu_store s) = Some code" "code \<noteq> []"
  shows "pu_drawn (fold popup_exec [(env, Click SettingsButton), (env', Click SettingsBack)] s) = pu_drawn s @ [buildPairingUrl code None None]"
proof -
  let ?st = "pu_store s"
  have hidden: "\<not> po_showSettings ?st" "\<not> po_showDevices ?st" "PanelRouter ?st = PairingPanel"
    using assms(2) by (auto simp: PopupApp_def split: if_splits)
  define t where "t = popup_exec (env, Click SettingsButton) s"
  have view: "PopupApp (?st\<lparr>po_showSettings := True, po_showDevices := False\<rparr>) = SettingsView" by (simp add: PopupApp_def)
  have t: "pu_store t = ?st\<lparr>po_showSettings := True, po_showDevices := False\<rparr>" "pu_drawn t = pu_drawn s" "\<not> pu_closed t"
    using assms hidden by (simp_all add: t_def popup_exec_def react_def shown_def upd_def view ask_def unmount_view_def unmount_panel_def)
  have closed: "PopupApp (?st\<lparr>po_showDevices := False, po_showSettings := False\<rparr>) = MainView PairingPanel"
    using assms(3) by (simp add: PopupApp_def PanelRouter_def)
  have "pu_drawn (popup_exec (env', Click SettingsBack) t) = pu_drawn s @ [buildPairingUrl code None None]"
    using t assms view closed
    by (simp add: popup_exec_def react_def shown_def upd_def ask_def unmount_view_def unmount_panel_def pairing_effect_def unable_to_connect_def
        truthy_text_def Let_def)
  then show ?thesis by (simp add: t_def)
qed

section \<open>Samples\<close>

definition sample_popup_env :: popup_env where
  "sample_popup_env = \<lparr>pe_now = 1000, pe_code = ''123456'', pe_nonce = [1, 2], pe_userAgent = ''Mozilla'', pe_screenReaderActive = False,
     pe_reducedMotion = False, pe_toWellFormed = True, pe_sha256 = (\<lambda>bs. bs)\<rparr>"

definition sample_pairing :: "(popup_env \<times> popup_event) list" where
  "sample_pairing = map (Pair sample_popup_env)
     [Click PairPhone, Answered 4 (PairingReply (Inr (Some (ok_response [], None)))), PairingPoll,
      Answered 6 (Reply (Inr (Some (ok_response [(''paired'', JBool False), (''emojiSas'', JArr [JStr ''a'', JStr ''b'', JStr ''c''])]))))]"

lemma sample_awaits: "po_pairingState (pu_store (popup_after 1000 sample_pairing)) = AwaitingSasConfirmation
   \<and> map snd (pu_requests (popup_after 1000 sample_pairing)) = [AttestationAnswer, PendingDomainsAnswer]"
  by code_simp


theorem popup_opens_unpaired_witness:
  "po_pairingState (pu_store (popup_after 1000 sample_pairing)) = Unpaired \<or> pairing_started (popup_after 1000 sample_pairing)"
  using popup_opens_unpaired [of sample_pairing 1000] by (simp add: sample_pairing_def)


theorem popup_sees_no_transaction_witness:
  "BeginChallengeAssertion (Some ''5 EUR'') None \<notin> set (pu_sent (popup_after 1000 sample_pairing))"
  using popup_sees_no_transaction [of sample_pairing 1000 "Some ''5 EUR''" None] by (simp add: sample_pairing_def)

text \<open>The code of the sample is drawn, and after the settings were open it is drawn again.\<close>

theorem redrawn_code_lacks_commitment_witness:
  "pu_drawn (popup_after 1000 [(sample_popup_env, Click PairPhone), (sample_popup_env, Click SettingsButton), (sample_popup_env, Click SettingsBack)])
     = [buildPairingUrl ''123456'' None None, buildPairingUrl ''123456'' None None]"
proof -
  let ?s = "popup_after 1000 [(sample_popup_env, Click PairPhone)]"
  have s: "\<not> pu_closed ?s \<and> PopupApp (pu_store ?s) = MainView PairingPanel \<and> po_pairingState (pu_store ?s) = DisplayingQr
      \<and> po_sasCode (pu_store ?s) = Some ''123456'' \<and> pu_drawn ?s = [buildPairingUrl ''123456'' None None]"
    by code_simp
  then show ?thesis
    using redrawn_code_lacks_commitment [of ?s "''123456''" sample_popup_env sample_popup_env] by (simp add: popup_after_def)
qed

definition sample_approved :: approved_domain where
  "sample_approved = \<lparr>ad_domain = ''lhv.ee'', ad_registeredAt = 7, ad_scriptId = ''s''\<rparr>"

definition sample_approving :: "(unit, unit) background" where
  "sample_approving = new_background (new_registry (empty_storage\<lparr>sy_approvedDomains := Some [sample_approved]\<rparr>))"

theorem settings_revoke_keeps_approval_witness:
  "isDomainApproved ''lhv.ee'' (bg_csm (snd (handle demo_henv demo_sender (DomainDenied ''lhv.ee'') sample_approving)))"
proof -
  let ?js = "[JObj [(''domain'', JStr ''lhv.ee''), (''registeredAt'', JNum 7), (''scriptId'', JStr ''s'')]]"
  let ?s = "blank_popup\<lparr>pu_store := useAppStore\<lparr>po_approvedDomains := ?js\<rparr>\<rparr>"
  have stored: "getApprovedDomains (bg_csm sample_approving) = [sample_approved]"
    by (simp add: sample_approving_def new_background_def new_registry_def bg_csm_def bg_store_def pw_store_def getApprovedDomains_def)
  then have "jarr (data_of (fst (handle demo_henv demo_sender GetApprovedDomains sample_approving)) ''domains'') = Some (po_approvedDomains (pu_store ?s))"
    by (simp add: get_approved_domains_def ok_def ok_response_def data_of_def domains_json_def sample_approved_def)
  from settings_revoke_keeps_approval [OF this, of "''lhv.ee''" _ "''lhv.ee''"] stored show ?thesis
    by (simp add: isDomainApproved_def sample_approved_def)
qed

definition sample_device :: "string \<Rightarrow> device_record" where
  "sample_device i = \<lparr>deviceId = i, dev_name = ''phone'', phoneStaticKey = [], lastSeen = 1, pairedAt = 1, isPrimary = False\<rparr>"

definition sample_two_devices :: "(unit, unit) background" where
  "sample_two_devices = new_background \<lparr>cachedDevices = Some [sample_device ''d1'', sample_device ''d2''], cachedActiveId = Some ''d1'',
     reg_initialized = True, reg_store = empty_storage\<rparr>"

theorem revoked_active_device_view_witness:
  "\<exists>js. listed_devices (snd (handle demo_henv demo_sender (RevokeDevice ''d1'') sample_two_devices)) = Some js \<and> shown_active js \<noteq> []"
proof -
  let ?s = "blank_popup\<lparr>pu_devices := Some 1, dl_devices := map (device_json_of (Some ''d1'')) [sample_device ''d1'', sample_device ''d2'']\<rparr>"
  have reg: "ensureLoaded (pw_registry (bg_pairing sample_two_devices)) = \<lparr>cachedDevices = Some [sample_device ''d1'', sample_device ''d2''],
      cachedActiveId = Some ''d1'', reg_initialized = True, reg_store = empty_storage\<rparr>"
    by (simp add: sample_two_devices_def new_background_def ensureLoaded_def)
  have "listed_devices sample_two_devices = Some (dl_devices ?s)" by (simp add: get_devices_list reg devs_def)
  then show ?thesis
    using revoked_active_device_view [of sample_two_devices ?s 1 "''d1''" demo_henv demo_sender] reg by (simp add: devs_def sample_device_def)
qed

end
