(* ===== verification/Spec2Isabelle.thy ===== *)
theory Spec2Isabelle
  imports Challenge Attestation RateLimit Rtt Backpressure Noise NoiseSessions Locks DeviceRegistry Session CommandClient Domain
    PairingCodes Retry Pairing ContentScripts AttestationManager Usb OffscreenDoc Transport TlsBinding Handlers Signaling WebAuthn AuthPage
    Regex PiiFilter Transactions PageScraper ContentPage Popup PopupFlow PopupView PopupBackground
begin

text \<open>
  \<^bold>\<open>The program.\<close> A browser extension that lets a phone confirm what a user does in the browser: the phone is paired over a
  WebRTC or USB channel, the extension detects logins and transactions on pages, asks the phone for credentials or for a
  confirmation, and binds a WebAuthn assertion to the page and to the attested control code. Its parts are the background
  worker (\<open>src/entrypoints/background\<close>), the offscreen document that owns the WebRTC connection
  (\<open>src/entrypoints/offscreen-webrtc\<close>), the content script (\<open>src/entrypoints/content\<close>), the authentication page
  (\<open>src/entrypoints/auth\<close>), the popup (\<open>src/entrypoints/popup\<close>), the libraries they share (\<open>src/lib\<close>) and the signaling
  server (\<open>src/signaling-server\<close>). They interact by messages; the background holds the state.

  \<^bold>\<open>Conventions.\<close> A component's state is a record and an operation a function that returns the new state; a call of
  \<open>Date.now()\<close>, of the random generator, of the network, of the browser or of WebCrypto is an argument. An error is a value: an
  error datatype, a \<open>string\<close> with the message, or a left injection. \<open>undefined\<close> and \<open>null\<close> are \<open>None\<close>, a \<open>Map\<close> is an
  association list in insertion order (\<open>jsmap\<close>), times are integers in milliseconds, bytes are 8-bit words. What a
  callback does later (a timer, an alarm, an answer) is an event of its own, so that a run is a list of events in any
  order the code allows. Interfaces are locales: \<open>event_system\<close> and \<open>observed_events\<close> (Prelude: an invariant, or an
  observation, kept by every event is kept by every run), \<open>keyed_limiter\<close> (RateLimit), those of the lock and queue theories and of
  the transports; each is interpreted on the definitions of the component that provides it.

  \<^bold>\<open>Foundations.\<close>
  \<^item> Prelude: JavaScript's maps, slices and numbers, the collections of simplification rules, the locales of event systems.
  \<^item> Codec (\<open>lib/asyncUtils.ts\<close>, \<open>lib/attestation/base64url.ts\<close>): UTF-8, base64, hexadecimal text, with round trips.
  \<^item> Json: JSON values, printing and parsing, sorted keys. The parser has fuel \<open>2 * length + 2\<close>, which is proved to be enough
    for every text the printer writes.
  \<^item> Locks: promise chains and the attestation lock as interleavings of segments; Storage: the extension's stores.
  \<^item> Regex: JavaScript's backtracking matcher for the constructs the patterns use. A quantifier's fuel is its minimum plus the
    length of the rest; each turn beyond the minimum consumes a character, so it is never exhausted.

  \<^bold>\<open>Cryptographic and protocol components.\<close>
  \<^item> Challenge (\<open>lib/webauthn/challengeDerivation.ts\<close>): serialization, its inverse, the binding of the components up to collisions.
  \<^item> Attestation (\<open>lib/attestation\<close>): header parser, key store with rotation, signed manifest, verifier: soundness of an accepted
    header, monotone manifest versions. AttestationManager: the background's attestation state per tab.
  \<^item> TlsBinding (\<open>lib/tlsBinding.ts\<close>): the context proof. Noise (\<open>lib/channel/noise*.ts\<close>): capabilities and key bookkeeping; NoiseSessions: handshakes
    and messages of a session over the package, a parameter with the laws \<open>transport_laws\<close>. PairingCodes (\<open>qrCode.ts\<close>, \<open>emojiSas.ts\<close>): payload and codes.
  \<^item> WebAuthn (\<open>lib/crypto/fallbackAuth.ts\<close>, \<open>lib/webauthn\<close>): the key pair under a PIN, provisioning and assertion requests.
    \<open>pin_crypto_laws\<close> states what WebCrypto promises (decryption inverts encryption under the same key).
  \<^item> RateLimit (\<open>lib/rateLimit\<close>, \<open>lib/replayProtection.ts\<close>, \<open>content/rateLimiter.ts\<close>): the limiters and the replay cache, alone and as
    the gate that an MFA assertion passes.

  \<^bold>\<open>Channels.\<close>
  \<^item> Rtt, Backpressure (\<open>lib/channel\<close>): the round-trip estimator and the send queue (order, one settlement per promise, no stranded
    payload). CommandClient: sequence numbers, retries, heartbeats; every command is settled once and an unanswered one fails.
  \<^item> Usb (\<open>lib/usb\<close>), OffscreenDoc (\<open>offscreen-webrtc/main.ts\<close>), Transport (\<open>lib/transport\<close>): the USB transport and its shim, the WebRTC document
    with reconnection, the transports and their manager as one system of events with invariants.
  \<^item> Signaling (\<open>signaling-server/server.js\<close>): rooms, commitments, relaying, revocation, TURN credentials. Socket.IO is a
    parameter with the laws \<open>socket_io_laws\<close>: connecting, joining, leaving and emitting as documented.

  \<^bold>\<open>The background.\<close>
  \<^item> DeviceRegistry: the registry with its lock refines an abstract set of at most five devices. Session: the MFA session, its alarms and
    silent re-authentication. Domain: domains and the state of tabs. Retry: errors, retries and the API relay.
  \<^item> Pairing (\<open>pairingService.ts\<close>, \<open>pairingCoordinator.ts\<close>, \<open>offscreenWebrtc.ts\<close>): the steps of a pairing over registry, session and client.
  \<^item> ContentScripts (\<open>contentScriptManager.ts\<close>): approved, pending and denied domains. Handlers (\<open>messageHandlers.ts\<close>, \<open>index.ts\<close>): every
    message handler on the composed state, one authentication at a time, switching and revoking devices.

  \<^bold>\<open>Pages.\<close>
  \<^item> AuthPage (\<open>auth/main.ts\<close>): the page composed with the handlers: what the phone receives is bound to the page, and no
    authentication is left hanging.
  \<^item> PiiFilter (\<open>lib/piiFilter.ts\<close>): patterns, checksums, report. Transactions (\<open>lib/transaction\<close>): the registry of declarative detectors, the
    bank's detector, the search of the text.
  \<^item> PageScraper (\<open>content/domScraper.ts\<close>): reading a page under the limiter and the filter, the control code, the login form.
  \<^item> ContentPage (\<open>content/index.ts\<close>, \<open>contentMessageBus.ts\<close>): the script with its timers. A run executes every timer that is due before an
    event; that loop ends because a timer sets at most two others, of kinds that set none (\<open>timers_weight\<close>).

  \<^bold>\<open>The popup.\<close>
  \<^item> Popup (\<open>popup\<close>, \<open>lib/store.ts\<close>): the store, the handlers, polls and timers of every panel, and what React mounts after each event. A
    click counts only on a button that is shown; an answer may come late, and then meets the panel that is mounted now.
  \<^item> PopupFlow: \<open>popup_invariant\<close>, the contract of an invariant of the popup, and its interpretations. PopupView: the texts and
    buttons that are rendered. PopupBackground: the properties over all runs, and the popup with the answers of the handlers.

  \<^bold>\<open>Loops.\<close> Loops whose recursion is not structural are functions with a measure: the drain of the queue, retries, the polling of
  the shim, the search for a free device name, the matches of a pattern, the due timers. There is no partial function.

  \<^bold>\<open>What the modelling showed.\<close> Where the code does not do what it means to, a lemma next to the component says what it does
  instead, on a concrete input or in general: among others \<open>long_origin_not_parsed\<close>, \<open>imported_key_outlives_expiry\<close>,
  \<open>overlapping_sequence_loses_command\<close>, \<open>extension_locks_itself_out\<close>, \<open>approving_host_changes_nothing\<close>, \<open>credentials_never_filled\<close>,
  \<open>headings_not_filtered\<close>, \<open>form_reported_twice\<close>, \<open>pairing_never_confirmed\<close>, \<open>settings_revoke_keeps_approval\<close>.

  \<^bold>\<open>Not modelled.\<close> Layout, icons and focus of the popup, the loading of its panels and the drawing of QR codes; the Noise package,
  WebCrypto, WebAuthn, WebRTC, WebUSB and Socket.IO themselves, which are parameters; logging; the phone's application; build files
  and tests. Texts of pages are lists of code units in Transactions and characters below U+0100 in PiiFilter and PageScraper.

  \<^bold>\<open>Next.\<close> The composition of the signaling server with the offscreen document over one pairing, and of the popup with
  the background as one system of events.
\<close>

end
